(* ===== verification/A2Z_Prelude.thy ===== *)
theory A2Z_Prelude
  imports Main "HOL-Library.Char_ord" "HOL-Library.List_Lexorder" "HOL-Library.Sublist"
begin

text \<open>
  Prelude of the A2Z development: the state-and-exception actions in which every
  coroutine of the program is written, the collection of frame rules (which part of the
  state an action leaves alone), JSON-like values, the few string operations of the
  Python standard library that the code uses, and tables of rows with a key.
\<close>

section \<open>Actions: state passing with exceptions\<close>

text \<open>
  An action takes the state and returns a result or an exception together with the new
  state.  As in Python, what was written before an exception is raised stays written.
\<close>

type_synonym ('w, 'e, 'a) act = "'w \<Rightarrow> ('e + 'a) \<times> 'w"

definition ret :: "'a \<Rightarrow> ('w, 'e, 'a) act" where
  "ret x = (\<lambda>w. (Inr x, w))"

definition raise :: "'e \<Rightarrow> ('w, 'e, 'a) act" where
  "raise e = (\<lambda>w. (Inl e, w))"

definition bindE :: "('w, 'e, 'a) act \<Rightarrow> ('a \<Rightarrow> ('w, 'e, 'b) act) \<Rightarrow> ('w, 'e, 'b) act" where
  "bindE m k = (\<lambda>w. case m w of (Inl e, w') \<Rightarrow> (Inl e, w') | (Inr x, w') \<Rightarrow> k x w')"

definition thenE :: "('w, 'e, 'a) act \<Rightarrow> ('w, 'e, 'b) act \<Rightarrow> ('w, 'e, 'b) act" where
  "thenE m k = bindE m (\<lambda>_. k)"

text \<open>\<open>catchE m h\<close> is \<open>try: m except: h\<close>; a handler re-raises what it does not catch.\<close>

definition catchE :: "('w, 'e, 'a) act \<Rightarrow> ('e \<Rightarrow> ('w, 'e, 'a) act) \<Rightarrow> ('w, 'e, 'a) act" where
  "catchE m h = (\<lambda>w. case m w of (Inl e, w') \<Rightarrow> h e w' | (Inr x, w') \<Rightarrow> (Inr x, w'))"

definition getsE :: "('w \<Rightarrow> 'a) \<Rightarrow> ('w, 'e, 'a) act" where
  "getsE f = (\<lambda>w. (Inr (f w), w))"

definition modifyE :: "('w \<Rightarrow> 'w) \<Rightarrow> ('w, 'e, unit) act" where
  "modifyE f = (\<lambda>w. (Inr (), f w))"

definition whenE :: "bool \<Rightarrow> ('w, 'e, unit) act \<Rightarrow> ('w, 'e, unit) act" where
  "whenE b m = (if b then m else ret ())"

fun mapE :: "('a \<Rightarrow> ('w, 'e, 'b) act) \<Rightarrow> 'a list \<Rightarrow> ('w, 'e, 'b list) act" where
  "mapE f [] = ret []"
| "mapE f (x # xs) = bindE (f x) (\<lambda>y. bindE (mapE f xs) (\<lambda>ys. ret (y # ys)))"

fun forE :: "('a \<Rightarrow> ('w, 'e, unit) act) \<Rightarrow> 'a list \<Rightarrow> ('w, 'e, unit) act" where
  "forE f [] = ret ()"
| "forE f (x # xs) = thenE (f x) (forE f xs)"

lemma ret_app [simp]: "ret x w = (Inr x, w)"
  by (simp add: ret_def)

lemma raise_app [simp]: "raise e w = (Inl e, w)"
  by (simp add: raise_def)

lemma getsE_app [simp]: "getsE f w = (Inr (f w), w)"
  by (simp add: getsE_def)

lemma modifyE_app [simp]: "modifyE f w = (Inr (), f w)"
  by (simp add: modifyE_def)

lemma bindE_app: "bindE m k w = (case m w of (Inl e, w') \<Rightarrow> (Inl e, w') | (Inr x, w') \<Rightarrow> k x w')"
  by (simp add: bindE_def)

lemma thenE_app: "thenE m k w = (case m w of (Inl e, w') \<Rightarrow> (Inl e, w') | (Inr x, w') \<Rightarrow> k w')"
  by (simp add: thenE_def bindE_def)

lemma catchE_app: "catchE m h w = (case m w of (Inl e, w') \<Rightarrow> h e w' | (Inr x, w') \<Rightarrow> (Inr x, w'))"
  by (simp add: catchE_def)

lemmas act_apps = bindE_app thenE_app catchE_app

text \<open>Evaluation of a step whose outcome is known.\<close>

lemma bindE_run: "m w = (Inr x, w') \<Longrightarrow> bindE m k w = k x w'"
  by (simp add: bindE_app)

lemma bindE_fail: "m w = (Inl e, w') \<Longrightarrow> bindE m k w = (Inl e, w')"
  by (simp add: bindE_app)

lemma thenE_run: "m w = (Inr x, w') \<Longrightarrow> thenE m k w = k w'"
  by (simp add: thenE_app)

lemma thenE_fail: "m w = (Inl e, w') \<Longrightarrow> thenE m k w = (Inl e, w')"
  by (simp add: thenE_app)

text \<open>Inversion: what a successful, and what a failing, sequence did.\<close>

lemma bindE_Inr_iff:
  "bindE m k w = (Inr y, w2) \<longleftrightarrow> (\<exists>x w1. m w = (Inr x, w1) \<and> k x w1 = (Inr y, w2))"
  by (auto simp: bindE_app split: prod.splits sum.splits)

lemma bindE_Inl_iff:
  "bindE m k w = (Inl e, w2) \<longleftrightarrow>
     m w = (Inl e, w2) \<or> (\<exists>x w1. m w = (Inr x, w1) \<and> k x w1 = (Inl e, w2))"
  by (auto simp: bindE_app split: prod.splits sum.splits)

lemma thenE_Inr_iff:
  "thenE m k w = (Inr y, w2) \<longleftrightarrow> (\<exists>x w1. m w = (Inr x, w1) \<and> k w1 = (Inr y, w2))"
  by (simp add: thenE_def bindE_Inr_iff)

lemma thenE_Inl_iff:
  "thenE m k w = (Inl e, w2) \<longleftrightarrow>
     m w = (Inl e, w2) \<or> (\<exists>x w1. m w = (Inr x, w1) \<and> k w1 = (Inl e, w2))"
  by (simp add: thenE_def bindE_Inl_iff)

lemma catchE_Inr_iff:
  "catchE m h w = (Inr y, w2) \<longleftrightarrow>
     m w = (Inr y, w2) \<or> (\<exists>e w1. m w = (Inl e, w1) \<and> h e w1 = (Inr y, w2))"
  by (auto simp: catchE_app split: prod.splits sum.splits)

lemma catchE_Inl_iff:
  "catchE m h w = (Inl e, w2) \<longleftrightarrow> (\<exists>e1 w1. m w = (Inl e1, w1) \<and> h e1 w1 = (Inl e, w2))"
  by (auto simp: catchE_app split: prod.splits sum.splits)

lemmas act_Inr = bindE_Inr_iff thenE_Inr_iff catchE_Inr_iff
lemmas act_Inl = bindE_Inl_iff thenE_Inl_iff catchE_Inl_iff

lemma bindE_cases:
  assumes "bindE m k w = (r, w')"
  obtains (stop) e where "m w = (Inl e, w')" "r = Inl e"
  | (go) x w1 where "m w = (Inr x, w1)" "k x w1 = (r, w')"
  using assms by (auto simp: bindE_app split: prod.splits sum.splits)

lemma thenE_cases:
  assumes "thenE m k w = (r, w')"
  obtains (stop) e where "m w = (Inl e, w')" "r = Inl e"
  | (go) x w1 where "m w = (Inr x, w1)" "k w1 = (r, w')"
  using assms by (auto simp: thenE_app split: prod.splits sum.splits)

lemma whenE_True [simp]: "whenE True m = m" and whenE_False [simp]: "whenE False m = ret ()"
  by (simp_all add: whenE_def)

text \<open>A run that did not raise has a result.\<close>

lemma returned: "\<not> isl (fst (m w)) \<Longrightarrow> (\<And>x w'. m w = (Inr x, w') \<Longrightarrow> thesis) \<Longrightarrow> thesis"
  by (cases "m w"; cases "fst (m w)") auto

section \<open>Frame rules\<close>

text \<open>
  \<open>leaves f m\<close>: the action \<open>m\<close> does not change the part \<open>f\<close> of the state, whether it
  returns or raises.  \<open>keeps P m\<close>: it preserves the invariant \<open>P\<close>, on every path.
\<close>

definition leaves :: "('w \<Rightarrow> 'b) \<Rightarrow> ('w, 'e, 'a) act \<Rightarrow> bool" where
  "leaves f m \<longleftrightarrow> (\<forall>w. f (snd (m w)) = f w)"

definition keeps :: "('w \<Rightarrow> bool) \<Rightarrow> ('w, 'e, 'a) act \<Rightarrow> bool" where
  "keeps P m \<longleftrightarrow> (\<forall>w. P w \<longrightarrow> P (snd (m w)))"

named_theorems frames \<open>which part of the state an action leaves alone\<close>
named_theorems keepers \<open>which invariant an action preserves\<close>

lemma leavesI: "(\<And>w. f (snd (m w)) = f w) \<Longrightarrow> leaves f m"
  by (simp add: leaves_def)

lemma leavesD: "leaves f m \<Longrightarrow> m w = (r, w') \<Longrightarrow> f w' = f w"
  by (metis leaves_def snd_conv)

lemma leaves_snd: "leaves f m \<Longrightarrow> f (snd (m w)) = f w"
  by (simp add: leaves_def)

lemma keepsI: "(\<And>w. P w \<Longrightarrow> P (snd (m w))) \<Longrightarrow> keeps P m"
  by (simp add: keeps_def)

lemma keepsD: "keeps P m \<Longrightarrow> m w = (r, w') \<Longrightarrow> P w \<Longrightarrow> P w'"
  by (metis keeps_def snd_conv)

lemma leaves_keeps: "leaves f m \<Longrightarrow> keeps (\<lambda>w. P (f w)) m"
  by (simp add: leaves_def keeps_def)

lemma leaves_ret [frames]: "leaves f (ret x)"
  by (simp add: leaves_def)

lemma leaves_raise [frames]: "leaves f (raise e)"
  by (simp add: leaves_def)

lemma leaves_getsE [frames]: "leaves f (getsE g)"
  by (simp add: leaves_def)

lemma leaves_modifyE [frames]: "(\<And>w. f (g w) = f w) \<Longrightarrow> leaves f (modifyE g)"
  by (simp add: leaves_def)

lemma leaves_bindE [frames]:
  "leaves f m \<Longrightarrow> (\<And>x. leaves f (k x)) \<Longrightarrow> leaves f (bindE m k)"
  unfolding leaves_def
  by (auto simp: bindE_app split: prod.splits sum.splits) (metis snd_conv)+

lemma leaves_thenE [frames]: "leaves f m \<Longrightarrow> leaves f k \<Longrightarrow> leaves f (thenE m k)"
  by (simp add: thenE_def leaves_bindE)

lemma bindE_assoc: "bindE (bindE m k) h = bindE m (\<lambda>x. bindE (k x) h)"
  by (rule ext) (auto simp: bindE_app split: prod.split sum.split)

lemma bindE_thenE: "bindE (thenE m k) h = thenE m (bindE k h)"
  by (simp add: thenE_def bindE_assoc)

lemma bindE_ret: "bindE (ret x) k = k x"
  by (rule ext) (simp add: bindE_app)

text \<open>What the first step of a sequence did, when the rest leaves \<open>f\<close> alone.\<close>

lemma bindE_frame:
  assumes "bindE m k w = (r, w')" and "\<And>x. leaves f (k x)"
  shows "\<exists>r1 w1. m w = (r1, w1) \<and> f w' = f w1 \<and> (\<forall>e. r1 = Inl e \<longrightarrow> r = Inl e)"
proof -
  obtain r1 w1 where m: "m w = (r1, w1)" by (rule prod.exhaust)
  with assms(1) leavesD [where f = f, OF assms(2)] show ?thesis
    by (auto simp: bindE_app split: sum.splits)
qed

lemma thenE_frame:
  assumes "thenE m k w = (r, w')" and "leaves f k"
  shows "\<exists>r1 w1. m w = (r1, w1) \<and> f w' = f w1 \<and> (\<forall>e. r1 = Inl e \<longrightarrow> r = Inl e)"
  using assms unfolding thenE_def by (intro bindE_frame) auto

text \<open>A first step that only reads.\<close>

lemma bindE_reads:
  assumes "bindE m k w = (r, w')" and "leaves f m"
  obtains (stop) e where "r = Inl e" "f w' = f w" "m w = (Inl e, w')"
  | (go) x w1 where "m w = (Inr x, w1)" "f w1 = f w" "k x w1 = (r, w')"
  using assms(1)
proof (cases rule: bindE_cases)
  case (stop e)
  with leavesD [OF assms(2) stop(1)] that(1) show ?thesis by simp
next
  case (go x w1)
  with leavesD [OF assms(2) go(1)] that(2) show ?thesis by simp
qed

lemma thenE_reads:
  assumes "thenE m k w = (r, w')" and "leaves f m"
  obtains (stop) e where "r = Inl e" "f w' = f w" "m w = (Inl e, w')"
  | (go) x w1 where "m w = (Inr x, w1)" "f w1 = f w" "k w1 = (r, w')"
  using assms unfolding thenE_def by (rule bindE_reads)

lemma leaves_catchE [frames]:
  "leaves f m \<Longrightarrow> (\<And>e. leaves f (h e)) \<Longrightarrow> leaves f (catchE m h)"
  unfolding leaves_def
  by (auto simp: catchE_app split: prod.splits sum.splits) (metis snd_conv)+

lemma leaves_if [frames]: "leaves f m \<Longrightarrow> leaves f n \<Longrightarrow> leaves f (if b then m else n)"
  by simp

lemma leaves_whenE [frames]: "leaves f m \<Longrightarrow> leaves f (whenE b m)"
  by (simp add: whenE_def leaves_ret)

lemma leaves_case_option [frames]:
  "leaves f m \<Longrightarrow> (\<And>x. leaves f (n x)) \<Longrightarrow> leaves f (case z of None \<Rightarrow> m | Some x \<Rightarrow> n x)"
  by (cases z) auto

lemma leaves_case_sum [frames]:
  "(\<And>x. leaves f (m x)) \<Longrightarrow> (\<And>x. leaves f (n x)) \<Longrightarrow>
     leaves f (case z of Inl x \<Rightarrow> m x | Inr x \<Rightarrow> n x)"
  by (cases z) auto

lemma leaves_case_prod [frames]:
  "(\<And>x y. leaves f (m x y)) \<Longrightarrow> leaves f (case z of (x, y) \<Rightarrow> m x y)"
  by (cases z) auto

lemma leaves_Let [frames]: "(\<And>x. leaves f (m x)) \<Longrightarrow> leaves f (Let z m)"
  by simp

lemma leaves_mapE [frames]: "(\<And>x. leaves f (g x)) \<Longrightarrow> leaves f (mapE g xs)"
  by (induction xs) (auto intro!: frames)

lemma leaves_forE [frames]: "(\<And>x. leaves f (g x)) \<Longrightarrow> leaves f (forE g xs)"
  by (induction xs) (auto intro!: frames)

lemma keeps_ret [keepers]: "keeps P (ret x)"
  by (simp add: keeps_def)

lemma keeps_raise [keepers]: "keeps P (raise e)"
  by (simp add: keeps_def)

lemma keeps_getsE [keepers]: "keeps P (getsE g)"
  by (simp add: keeps_def)

lemma keeps_modifyE [keepers]: "(\<And>w. P w \<Longrightarrow> P (g w)) \<Longrightarrow> keeps P (modifyE g)"
  by (simp add: keeps_def)

lemma keeps_bindE [keepers]:
  "keeps P m \<Longrightarrow> (\<And>x. keeps P (k x)) \<Longrightarrow> keeps P (bindE m k)"
  unfolding keeps_def
  by (fastforce simp: bindE_app split: prod.splits sum.splits)

lemma keeps_thenE [keepers]: "keeps P m \<Longrightarrow> keeps P k \<Longrightarrow> keeps P (thenE m k)"
  by (simp add: thenE_def keeps_bindE)

lemma keeps_catchE [keepers]:
  "keeps P m \<Longrightarrow> (\<And>e. keeps P (h e)) \<Longrightarrow> keeps P (catchE m h)"
  unfolding keeps_def
  by (fastforce simp: catchE_app split: prod.splits sum.splits)

lemma keeps_if [keepers]:
  "(b \<Longrightarrow> keeps P m) \<Longrightarrow> (\<not> b \<Longrightarrow> keeps P n) \<Longrightarrow> keeps P (if b then m else n)"
  by simp

lemma keeps_whenE [keepers]: "keeps P m \<Longrightarrow> keeps P (whenE b m)"
  by (simp add: whenE_def keeps_ret)

lemma keeps_case_option [keepers]:
  "keeps P m \<Longrightarrow> (\<And>x. keeps P (n x)) \<Longrightarrow> keeps P (case z of None \<Rightarrow> m | Some x \<Rightarrow> n x)"
  by (cases z) auto

lemma keeps_case_prod [keepers]:
  "(\<And>x y. keeps P (m x y)) \<Longrightarrow> keeps P (case z of (x, y) \<Rightarrow> m x y)"
  by (cases z) auto

lemma keeps_forE [keepers]: "(\<And>x. keeps P (g x)) \<Longrightarrow> keeps P (forE g xs)"
  by (induction xs) (auto intro!: keepers)

section \<open>JSON-like values\<close>

datatype json =
    JNull
  | JBool bool
  | JNum int
  | JStr string
  | JArr "json list"
  | JObj "(string \<times> json) list"

text \<open>Python truthiness of a decoded value.\<close>

fun truthy :: "json \<Rightarrow> bool" where
  "truthy JNull = False"
| "truthy (JBool b) = b"
| "truthy (JNum n) = (n \<noteq> 0)"
| "truthy (JStr s) = (s \<noteq> [])"
| "truthy (JArr xs) = (xs \<noteq> [])"
| "truthy (JObj kvs) = (kvs \<noteq> [])"

text \<open>
  Python dictionaries with string keys, in insertion order: \<open>d[k] = v\<close> replaces in place
  or appends, \<open>d.get(k)\<close> looks up, \<open>{**a, **b}\<close> lets \<open>b\<close> win.
\<close>

fun dict_set :: "string \<Rightarrow> 'v \<Rightarrow> (string \<times> 'v) list \<Rightarrow> (string \<times> 'v) list" where
  "dict_set k v [] = [(k, v)]"
| "dict_set k v ((k', v') # d) = (if k' = k then (k, v) # d else (k', v') # dict_set k v d)"

definition dict_merge :: "(string \<times> 'v) list \<Rightarrow> (string \<times> 'v) list \<Rightarrow> (string \<times> 'v) list" where
  "dict_merge a b = fold (\<lambda>(k, v). dict_set k v) b a"

lemma map_of_dict_set [simp]: "map_of (dict_set k v d) = (map_of d)(k \<mapsto> v)"
  by (induction d) auto

lemma keys_dict_set: "fst ` set (dict_set k v d) = insert k (fst ` set d)"
  by (simp flip: dom_map_of_conv_image_fst)

lemma map_of_dict_merge_keep:
  "map_of b k = None \<Longrightarrow> map_of (dict_merge a b) k = map_of a k"
  by (induction b arbitrary: a) (auto simp: dict_merge_def split: if_splits)

lemma map_of_dict_merge:
  "distinct (map fst b) \<Longrightarrow> map_of (dict_merge a b) = map_of a ++ map_of b"
proof (induction b arbitrary: a)
  case (Cons kv b)
  obtain k v where kv: "kv = (k, v)" by (cases kv)
  from Cons.prems kv have "map_of b k = None" by (auto simp: map_of_eq_None_iff)
  with Cons.IH [of "dict_set k v a"] Cons.prems kv show ?case
    by (auto simp: dict_merge_def map_add_def fun_eq_iff split: option.splits)
qed (simp add: dict_merge_def)

lemma map_of_dict_merge_rev: "map_of (dict_merge a b) = map_of a ++ map_of (rev b)"
proof (induction b rule: rev_induct)
  case (snoc kv b)
  then show ?case by (cases kv) (simp add: dict_merge_def fun_eq_iff map_add_def)
qed (simp add: dict_merge_def)

lemma distinct_dict_set: "distinct (map fst d) \<Longrightarrow> distinct (map fst (dict_set k v d))"
proof (induction d)
  case (Cons kv d)
  then show ?case
    using keys_dict_set [of k v d] by (cases kv) auto
qed simp

lemma distinct_dict_merge: "distinct (map fst a) \<Longrightarrow> distinct (map fst (dict_merge a b))"
  by (induction b arbitrary: a) (auto simp: dict_merge_def distinct_dict_set)

lemma map_of_rev_distinct: "distinct (map fst d) \<Longrightarrow> map_of (rev d) = map_of d"
  using map_of_inject_set [of "rev d" d] by (simp add: rev_map [symmetric])

section \<open>Strings of the Python standard library\<close>

definition startswith :: "string \<Rightarrow> string \<Rightarrow> bool" where
  "startswith s p \<longleftrightarrow> take (length p) s = p"

lemma startswith_append [simp]: "startswith (p @ s) p"
  by (simp add: startswith_def)

lemma startswith_iff: "startswith s p \<longleftrightarrow> (\<exists>t. s = p @ t)"
  by (metis append_eq_conv_conj append_take_drop_id startswith_def)

text \<open>\<open>str.partition(sep)\<close> for a one-character separator, and \<open>rsplit(sep, 1)[-1]\<close>.\<close>

fun partition_at :: "char \<Rightarrow> string \<Rightarrow> (string \<times> string) option" where
  "partition_at c [] = None"
| "partition_at c (x # xs) =
     (if x = c then Some ([], xs)
      else (case partition_at c xs of None \<Rightarrow> None | Some (a, b) \<Rightarrow> Some (x # a, b)))"

fun after_last :: "char \<Rightarrow> string \<Rightarrow> string" where
  "after_last c s = rev (takeWhile (\<lambda>x. x \<noteq> c) (rev s))"

lemma partition_at_append:
  "c \<notin> set a \<Longrightarrow> partition_at c (a @ c # b) = Some (a, b)"
  by (induction a) auto

lemma partition_at_None: "partition_at c s = None \<longleftrightarrow> c \<notin> set s"
  by (induction s) (auto split: option.splits)

lemma partition_at_Some:
  "partition_at c s = Some (a, b) \<Longrightarrow> s = a @ c # b \<and> c \<notin> set a"
  by (induction s arbitrary: a b) (auto split: option.splits if_splits)

lemma after_last_append: "c \<notin> set b \<Longrightarrow> after_last c (a @ c # b) = b"
  by (simp add: takeWhile_append)

lemma after_last_notin: "c \<notin> set s \<Longrightarrow> after_last c s = s"
proof -
  assume "c \<notin> set s"
  then have "takeWhile (\<lambda>x. x \<noteq> c) (rev s) = rev s"
    by (intro takeWhile_eq_all_conv [THEN iffD2]) auto
  then show ?thesis by (metis after_last.simps rev_rev_ident)
qed

text \<open>\<open>str.split(c)\<close> for one character, and the white space of \<open>str.strip\<close>.\<close>

fun split_on :: "char \<Rightarrow> string \<Rightarrow> string list" where
  "split_on c [] = [[]]"
| "split_on c (x # xs) =
     (if x = c then [] # split_on c xs
      else (case split_on c xs of [] \<Rightarrow> [[x]] | w # ws \<Rightarrow> (x # w) # ws))"

definition py_space :: "char \<Rightarrow> bool" where
  "py_space c \<longleftrightarrow> (let n = of_char c :: nat in
     (9 \<le> n \<and> n \<le> 13) \<or> (28 \<le> n \<and> n \<le> 32) \<or> n = 133 \<or> n = 160)"

definition strip :: "string \<Rightarrow> string" where
  "strip s = rev (dropWhile py_space (rev (dropWhile py_space s)))"

text \<open>Decimal rendering of a natural number (\<open>str(n)\<close>) and zero padding (\<open>{n:06d}\<close>).\<close>

definition digit :: "nat \<Rightarrow> char" where
  "digit d = ''0123456789'' ! d"

fun show_nat :: "nat \<Rightarrow> string" where
  "show_nat n = (if n < 10 then [digit n] else show_nat (n div 10) @ [digit (n mod 10)])"

declare show_nat.simps [simp del]

definition show_int :: "int \<Rightarrow> string" where
  "show_int i = (if i < 0 then CHR ''-'' # show_nat (nat (- i)) else show_nat (nat i))"

definition zfill :: "nat \<Rightarrow> string \<Rightarrow> string" where
  "zfill k s = replicate (k - length s) (CHR ''0'') @ s"

definition undigit :: "char \<Rightarrow> nat" where
  "undigit c = length (takeWhile (\<lambda>x. x \<noteq> c) ''0123456789'')"

definition read_nat :: "string \<Rightarrow> nat" where
  "read_nat s = foldl (\<lambda>n c. 10 * n + undigit c) 0 s"

lemma undigit_digit: "d < 10 \<Longrightarrow> undigit (digit d) = d"
proof -
  assume "d < 10"
  then have "d \<in> {0, 1, 2, 3, 4, 5, 6, 7, 8, 9}" by auto
  then show ?thesis by (auto simp: digit_def undigit_def)
qed

lemma digit_in: "d < 10 \<Longrightarrow> digit d \<in> set ''0123456789''"
  unfolding digit_def by (rule nth_mem) simp

lemma show_nat_digits: "c \<in> set (show_nat n) \<Longrightarrow> c \<in> set ''0123456789''"
proof (induction n rule: show_nat.induct)
  case (1 n)
  show ?case
  proof (cases "n < 10")
    case True
    with "1.prems" have "c = digit n" by (subst (asm) show_nat.simps) simp
    with True show ?thesis using digit_in by blast
  next
    case False
    with "1.prems" have "c \<in> set (show_nat (n div 10)) \<or> c = digit (n mod 10)"
      by (subst (asm) show_nat.simps) auto
    with "1.IH" False show ?thesis using digit_in [of "n mod 10"] by auto
  qed
qed

lemma read_nat_snoc: "read_nat (s @ [c]) = 10 * read_nat s + undigit c"
  by (simp add: read_nat_def)

lemma read_show_nat: "read_nat (show_nat n) = n"
proof (induction n rule: show_nat.induct)
  case (1 n)
  show ?case
  proof (cases "n < 10")
    case True
    then show ?thesis
      by (subst show_nat.simps) (simp add: read_nat_def undigit_digit)
  next
    case False
    with 1 show ?thesis
      by (subst show_nat.simps) (simp add: read_nat_snoc undigit_digit)
  qed
qed

lemma read_zfill: "read_nat (zfill k s) = read_nat s"
proof -
  have "undigit (CHR ''0'') = 0" by (simp add: undigit_def)
  then have "foldl (\<lambda>n c. 10 * n + undigit c) 0 (replicate m (CHR ''0'')) = 0" for m
    by (induction m) auto
  then show ?thesis by (simp add: zfill_def read_nat_def)
qed

lemma show_nat_inject: "show_nat m = show_nat n \<longleftrightarrow> m = n"
  by (metis read_show_nat)

lemma zfill_show_inject: "zfill k (show_nat m) = zfill k (show_nat n) \<longleftrightarrow> m = n"
  by (metis read_show_nat read_zfill)

lemma show_nat_minus: "show_nat m \<noteq> CHR ''-'' # s"
  using show_nat_digits [of "CHR ''-''" m] by auto

lemma show_int_inject: "show_int i = show_int j \<longleftrightarrow> i = j"
  using show_nat_minus by (auto simp: show_int_def show_nat_inject dest: sym)

end
