(* ===== verification/A2Z_Errors.thy ===== *)
theory A2Z_Errors
  imports A2Z_Prelude
begin

text \<open>
  The exception hierarchies: \<open>app/core/exceptions.py\<close>,
  \<open>app/services/omnichannel/exceptions.py\<close>, \<open>app/services/invoicing/exceptions.py\<close> and
  the router's \<open>_Forbidden\<close> of \<open>app/dependencies.py\<close>, with the class attribute
  \<open>status_code\<close> resolved along the base classes, and the handler of \<open>app/main.py\<close> that
  turns a \<open>CoreError\<close> into an HTTP response.  Messages of exceptions are not modelled.
\<close>

section \<open>Exception classes\<close>

datatype core_cls =
    CoreError | AuthError | InvalidTokenError | MissingTokenError
  | MembershipError | NotFoundError | AlreadyExistsError
  | EmailError | SuppressionListError | InvalidAddressError
  | RateLimitError
  | StorageError | FileTooLargeError | StorageNotFoundError
  | SettingsError | AuditError | EventError
  | SecretsError | SecretNotFoundError | RealtimeError

datatype omni_cls =
    OmniChannelError | ChannelAdapterError | WebhookSignatureError | ConnectionNotFoundError
  | RoutingError | CommissionError | ConversationNotFoundError | ForbiddenError
  | ConversationAlreadyAssignedError | InvalidQueryError | ConnectionValidationError

datatype inv_cls =
    InvoicingError | InvoiceNotFoundError | InvoiceForbiddenError
  | InvalidStateTransitionError | InvoiceValidationError

text \<open>
  Exceptions that are not \<open>CoreError\<close>s: Python's own, SQLAlchemy's \<open>IntegrityError\<close>,
  botocore's \<open>ClientError\<close> and connection failures, pydantic's \<open>ValidationError\<close>.
\<close>

datatype py_cls =
    KeyErrorPy | IndexErrorPy | TypeErrorPy | ValueErrorPy | AttributeErrorPy
  | IntegrityError | ClientErrorPy | BotoCoreError | ValidationErrorPy | HttpErrorPy
  | SnsVerificationError | DataError | DBAPIError | MultipleResultsFound | SqlArgumentError
  | AssertionErrorPy

datatype exc_cls = Core core_cls | Dep_Forbidden | Omni omni_cls | Inv inv_cls | Py py_cls

text \<open>An exception object: its class, with the payload the code reads back.\<close>

datatype exn =
    Exn exc_cls
  | RateLimited int             \<comment> \<open>\<open>RateLimitError(..., retry_after=n)\<close>\<close>
  | AwsError string             \<comment> \<open>\<open>ClientError\<close> with \<open>response["Error"]["Code"]\<close>\<close>

fun class_of :: "exn \<Rightarrow> exc_cls" where
  "class_of (Exn c) = c"
| "class_of (RateLimited _) = Core RateLimitError"
| "class_of (AwsError _) = Py ClientErrorPy"

section \<open>Base classes and status codes\<close>

fun core_base :: "core_cls \<Rightarrow> core_cls option" where
  "core_base CoreError = None"
| "core_base AuthError = Some CoreError"
| "core_base InvalidTokenError = Some AuthError"
| "core_base MissingTokenError = Some AuthError"
| "core_base MembershipError = Some CoreError"
| "core_base NotFoundError = Some MembershipError"
| "core_base AlreadyExistsError = Some MembershipError"
| "core_base EmailError = Some CoreError"
| "core_base SuppressionListError = Some EmailError"
| "core_base InvalidAddressError = Some EmailError"
| "core_base RateLimitError = Some CoreError"
| "core_base StorageError = Some CoreError"
| "core_base FileTooLargeError = Some StorageError"
| "core_base StorageNotFoundError = Some StorageError"
| "core_base SettingsError = Some CoreError"
| "core_base AuditError = Some CoreError"
| "core_base EventError = Some CoreError"
| "core_base SecretsError = Some CoreError"
| "core_base SecretNotFoundError = Some SecretsError"
| "core_base RealtimeError = Some CoreError"

fun omni_base :: "omni_cls \<Rightarrow> exc_cls" where
  "omni_base OmniChannelError = Core CoreError"
| "omni_base _ = Omni OmniChannelError"

fun inv_base :: "inv_cls \<Rightarrow> exc_cls" where
  "inv_base InvoicingError = Core CoreError"
| "inv_base _ = Inv InvoicingError"

fun base :: "exc_cls \<Rightarrow> exc_cls option" where
  "base (Core c) = map_option Core (core_base c)"
| "base Dep_Forbidden = Some (Core CoreError)"
| "base (Omni c) = Some (omni_base c)"
| "base (Inv c) = Some (inv_base c)"
| "base (Py c) = None"

text \<open>The \<open>status_code\<close> a class defines in its own body, if it does.\<close>

fun core_status :: "core_cls \<Rightarrow> int option" where
  "core_status CoreError = Some 500"
| "core_status AuthError = Some 401"
| "core_status MembershipError = Some 400"
| "core_status NotFoundError = Some 404"
| "core_status AlreadyExistsError = Some 409"
| "core_status EmailError = Some 400"
| "core_status RateLimitError = Some 429"
| "core_status StorageError = Some 400"
| "core_status StorageNotFoundError = Some 404"
| "core_status SettingsError = Some 400"
| "core_status AuditError = Some 500"
| "core_status EventError = Some 500"
| "core_status SecretsError = Some 400"
| "core_status SecretNotFoundError = Some 404"
| "core_status RealtimeError = Some 502"
| "core_status _ = None"

fun omni_status :: "omni_cls \<Rightarrow> int option" where
  "omni_status OmniChannelError = Some 500"
| "omni_status ChannelAdapterError = Some 502"
| "omni_status WebhookSignatureError = Some 401"
| "omni_status ConnectionNotFoundError = Some 404"
| "omni_status RoutingError = Some 400"
| "omni_status CommissionError = Some 409"
| "omni_status ConversationNotFoundError = Some 404"
| "omni_status ForbiddenError = Some 403"
| "omni_status ConversationAlreadyAssignedError = Some 409"
| "omni_status InvalidQueryError = Some 400"
| "omni_status ConnectionValidationError = Some 400"

fun inv_status :: "inv_cls \<Rightarrow> int option" where
  "inv_status InvoicingError = Some 500"
| "inv_status InvoiceNotFoundError = Some 404"
| "inv_status InvoiceForbiddenError = Some 403"
| "inv_status InvalidStateTransitionError = Some 409"
| "inv_status InvoiceValidationError = Some 400"

fun own_status :: "exc_cls \<Rightarrow> int option" where
  "own_status (Core c) = core_status c"
| "own_status Dep_Forbidden = Some 403"
| "own_status (Omni c) = omni_status c"
| "own_status (Inv c) = inv_status c"
| "own_status (Py c) = None"

text \<open>Distance from the root of the hierarchy: the measure of the walk along the bases.\<close>

definition core_height :: "core_cls \<Rightarrow> nat" where
  "core_height c = (if c = CoreError then 0 else if core_base c = Some CoreError then 1 else 2)"

fun height :: "exc_cls \<Rightarrow> nat" where
  "height (Core c) = core_height c"
| "height Dep_Forbidden = 1"
| "height (Omni c) = (if c = OmniChannelError then 1 else 2)"
| "height (Inv c) = (if c = InvoicingError then 1 else 2)"
| "height (Py c) = 0"

lemma core_base_height: "core_base c = Some d \<Longrightarrow> core_height d < core_height c"
  by (cases c) (auto simp: core_height_def)

lemma base_height: "base c = Some d \<Longrightarrow> height d < height c"
proof (cases c)
  case (Core k)
  then show "base c = Some d \<Longrightarrow> height d < height c"
    by (auto dest: core_base_height)
next
  case (Omni k)
  then show "base c = Some d \<Longrightarrow> height d < height c"
    by (cases k) (auto simp: core_height_def)
next
  case (Inv k)
  then show "base c = Some d \<Longrightarrow> height d < height c"
    by (cases k) (auto simp: core_height_def)
qed (auto simp: core_height_def)

text \<open>Attribute lookup \<open>cls.status_code\<close>: the first class on the way up that defines it.\<close>

function status_of :: "exc_cls \<Rightarrow> int option" where
  "status_of c =
     (case own_status c of
        Some n \<Rightarrow> Some n
      | None \<Rightarrow> (case base c of None \<Rightarrow> None | Some d \<Rightarrow> status_of d))"
  by pat_completeness auto
termination
  by (relation "measure height") (auto dest: base_height)

function issubclass :: "exc_cls \<Rightarrow> exc_cls \<Rightarrow> bool" where
  "issubclass c d =
     (c = d \<or> (case base c of None \<Rightarrow> False | Some b \<Rightarrow> issubclass b d))"
  by pat_completeness auto
termination
  by (relation "measure (\<lambda>(c, d). height c)") (auto dest: base_height)

declare status_of.simps [simp del] issubclass.simps [simp del]

definition isinstance :: "exn \<Rightarrow> exc_cls \<Rightarrow> bool" where
  "isinstance e c = issubclass (class_of e) c"

abbreviation is_core_error :: "exn \<Rightarrow> bool" where
  "is_core_error e \<equiv> isinstance e (Core CoreError)"

section \<open>The HTTP mapping\<close>

record response =
  status_code :: int
  retry_after_header :: "int option"

text \<open>
  \<open>core_error_handler\<close> of \<open>app/main.py\<close>; an exception it is not registered for is
  answered by the framework with a plain 500.
\<close>

definition core_error_handler :: "exn \<Rightarrow> response option" where
  "core_error_handler e =
     (if is_core_error e
      then (case status_of (class_of e) of
              None \<Rightarrow> None
            | Some n \<Rightarrow>
                Some \<lparr>status_code = n,
                      retry_after_header = (case e of RateLimited s \<Rightarrow> Some s | _ \<Rightarrow> None)\<rparr>)
      else None)"

lemma core_sub: "issubclass (Core c) (Core CoreError)"
  by (cases c; simp add: issubclass.simps)

lemma omni_sub: "issubclass (Omni c) (Core CoreError)"
  by (cases c; simp add: issubclass.simps)

lemma inv_sub: "issubclass (Inv c) (Core CoreError)"
  by (cases c; simp add: issubclass.simps)

lemma py_not_sub: "\<not> issubclass (Py c) (Core CoreError)"
  by (simp add: issubclass.simps)

lemma is_core_error_iff: "is_core_error e \<longleftrightarrow> (\<forall>p. class_of e \<noteq> Py p)"
proof (cases "class_of e")
  case Dep_Forbidden
  then show ?thesis by (simp add: isinstance_def issubclass.simps)
qed (simp_all add: isinstance_def core_sub omni_sub inv_sub py_not_sub)

lemma is_core_error_simps [simp]:
  "is_core_error (Exn (Core c))" "is_core_error (Exn (Omni d))" "is_core_error (Exn (Inv i))"
  "is_core_error (Exn Dep_Forbidden)" "is_core_error (RateLimited n)"
  "\<not> is_core_error (Exn (Py p))" "\<not> is_core_error (AwsError s)"
  by (simp_all add: is_core_error_iff)

lemma status_of_core: "status_of (Core c) \<noteq> None"
  by (cases c; simp add: status_of.simps)

lemma status_of_omni: "status_of (Omni d) \<noteq> None"
  by (cases d; simp add: status_of.simps)

lemma status_of_inv: "status_of (Inv i) \<noteq> None"
  by (cases i; simp add: status_of.simps)

lemma status_of_dep: "status_of Dep_Forbidden \<noteq> None"
  by (simp add: status_of.simps)

lemmas status_of_defined = status_of_core status_of_omni status_of_inv status_of_dep

lemma status_of_range: "status_of c = Some n \<Longrightarrow> n \<in> {400, 401, 403, 404, 409, 429, 500, 502}"
proof (cases c)
  case (Core k)
  then show "status_of c = Some n \<Longrightarrow> n \<in> {400, 401, 403, 404, 409, 429, 500, 502}"
    by (cases k; simp add: status_of.simps)
next
  case (Omni k)
  then show "status_of c = Some n \<Longrightarrow> n \<in> {400, 401, 403, 404, 409, 429, 500, 502}"
    by (cases k; simp add: status_of.simps)
next
  case (Inv k)
  then show "status_of c = Some n \<Longrightarrow> n \<in> {400, 401, 403, 404, 409, 429, 500, 502}"
    by (cases k; simp add: status_of.simps)
qed (simp_all add: status_of.simps)

text \<open>
  Every exception that Core and the two services define is answered by the handler of
  \<open>app/main.py\<close>, and nothing else is; the answer is a client or server error status, and
  it carries \<open>Retry-After\<close> exactly when the exception is a rate-limit error, with that
  error's \<open>retry_after\<close>.
\<close>

theorem core_error_handler_total:
  "(core_error_handler e \<noteq> None) = (\<forall>p. class_of e \<noteq> Py p) \<and>
   pred_option (\<lambda>r. 400 \<le> status_code r \<and> status_code r < 600 \<and>
      retry_after_header r = (case e of RateLimited s \<Rightarrow> Some s | _ \<Rightarrow> None))
     (core_error_handler e)"
proof (cases "class_of e")
  case (Py p)
  then show ?thesis by (simp add: core_error_handler_def is_core_error_iff)
next
  case (Core c)
  with status_of_core [of c] status_of_range [of "Core c"] show ?thesis
    by (auto simp: core_error_handler_def is_core_error_iff)
next
  case (Omni c)
  with status_of_omni [of c] status_of_range [of "Omni c"] show ?thesis
    by (auto simp: core_error_handler_def is_core_error_iff)
next
  case (Inv c)
  with status_of_inv [of c] status_of_range [of "Inv c"] show ?thesis
    by (auto simp: core_error_handler_def is_core_error_iff)
next
  case Dep_Forbidden
  with status_of_dep status_of_range [of Dep_Forbidden] show ?thesis
    by (auto simp: core_error_handler_def is_core_error_iff)
qed

end
