(* ===== verification/A2Z_Tables.thy ===== *)
theory A2Z_Tables
  imports A2Z_Prelude
begin

text \<open>
  Tables of rows with a primary key.  DynamoDB and Postgres are services outside the
  repository; what the code relies on is that a row written under its key is the one read
  back, that other keys are unaffected, and that a conditional write is refused exactly
  when its condition fails.  The locale \<open>keyed_store\<close> states that interface, its client
  lemmas are proved once from the laws, and every table of the program interprets it on
  its row type and key function.
\<close>

section \<open>Rows in insertion order\<close>

definition row_get :: "('r \<Rightarrow> 'k) \<Rightarrow> 'k \<Rightarrow> 'r list \<Rightarrow> 'r option" where
  "row_get key k rows = find (\<lambda>r. key r = k) rows"

definition row_put :: "('r \<Rightarrow> 'k) \<Rightarrow> 'r \<Rightarrow> 'r list \<Rightarrow> 'r list" where
  "row_put key r rows =
     (if \<exists>x \<in> set rows. key x = key r then map (\<lambda>x. if key x = key r then r else x) rows
      else rows @ [r])"

definition row_del :: "('r \<Rightarrow> 'k) \<Rightarrow> 'k \<Rightarrow> 'r list \<Rightarrow> 'r list" where
  "row_del key k rows = filter (\<lambda>r. key r \<noteq> k) rows"

definition row_upd :: "('r \<Rightarrow> 'k) \<Rightarrow> 'k \<Rightarrow> ('r \<Rightarrow> 'r) \<Rightarrow> 'r list \<Rightarrow> 'r list" where
  "row_upd key k f rows = map (\<lambda>r. if key r = k then f r else r) rows"

definition keyed :: "('r \<Rightarrow> 'k) \<Rightarrow> 'r list \<Rightarrow> bool" where
  "keyed key rows \<longleftrightarrow> distinct (map key rows)"

lemma row_get_Nil [simp]: "row_get key k [] = None"
  by (simp add: row_get_def)

lemma row_get_Cons [simp]:
  "row_get key k (r # rows) = (if key r = k then Some r else row_get key k rows)"
  by (simp add: row_get_def)

lemma row_get_None: "row_get key k rows = None \<longleftrightarrow> (\<forall>r \<in> set rows. key r \<noteq> k)"
  by (induction rows) auto

lemma row_get_SomeD: "row_get key k rows = Some r \<Longrightarrow> r \<in> set rows \<and> key r = k"
  by (induction rows) (auto split: if_splits)

lemma row_get_keyed:
  "keyed key rows \<Longrightarrow> row_get key k rows = Some r \<longleftrightarrow> r \<in> set rows \<and> key r = k"
  unfolding keyed_def
  by (induction rows) (auto simp: image_iff dest: row_get_SomeD)

lemma row_get_append:
  "row_get key k (xs @ ys) = (case row_get key k xs of None \<Rightarrow> row_get key k ys | Some r \<Rightarrow> Some r)"
  by (induction xs) auto

lemma row_get_map_same:
  "(\<And>r. key (g r) = key r) \<Longrightarrow> row_get key k (map g rows) = map_option g (row_get key k rows)"
  by (induction rows) auto

lemma row_get_put:
  "row_get key k (row_put key r rows) = (if k = key r then Some r else row_get key k rows)"
proof (cases "\<exists>x \<in> set rows. key x = key r")
  case True
  let ?g = "\<lambda>x. if key x = key r then r else x"
  have "row_get key k (map ?g rows) = map_option ?g (row_get key k rows)"
    by (rule row_get_map_same) auto
  moreover have "row_get key (key r) rows \<noteq> None"
    using True by (simp add: row_get_None)
  ultimately show ?thesis
    using True by (cases "row_get key k rows") (auto simp: row_put_def dest: row_get_SomeD)
next
  case False
  then have "row_get key (key r) rows = None" by (simp add: row_get_None)
  with False show ?thesis
    by (auto simp: row_put_def row_get_append split: option.splits)
qed

lemma row_get_del:
  "row_get key k (row_del key k' rows) = (if k = k' then None else row_get key k rows)"
  by (induction rows) (auto simp: row_del_def)

lemma row_get_upd:
  "(\<And>r. key r = k' \<Longrightarrow> key (f r) = k') \<Longrightarrow>
   row_get key k (row_upd key k' f rows) =
     (if k = k' then map_option f (row_get key k rows) else row_get key k rows)"
  by (induction rows) (auto simp: row_upd_def)

lemma keyed_Nil [simp]: "keyed key []"
  by (simp add: keyed_def)

lemma map_key_put:
  "map key (row_put key r rows) =
     (if \<exists>x \<in> set rows. key x = key r then map key rows else map key rows @ [key r])"
  by (auto simp: row_put_def)

lemma keyed_put [simp]: "keyed key rows \<Longrightarrow> keyed key (row_put key r rows)"
  by (auto simp: keyed_def map_key_put)

lemma keyed_del [simp]: "keyed key rows \<Longrightarrow> keyed key (row_del key k rows)"
  by (simp add: keyed_def row_del_def distinct_map_filter)

lemma keyed_upd [simp]:
  "(\<And>r. key r = k \<Longrightarrow> key (f r) = k) \<Longrightarrow> keyed key rows \<Longrightarrow> keyed key (row_upd key k f rows)"
  unfolding keyed_def row_upd_def
  by (rule subst [where P = distinct, of "map key rows"]) auto

lemma keyed_append_new:
  "keyed key (rows @ [r]) \<longleftrightarrow> keyed key rows \<and> row_get key (key r) rows = None"
  by (auto simp: keyed_def row_get_None image_iff)

lemma set_row_put: "set (row_put key r rows) \<subseteq> insert r (set rows)"
  by (auto simp: row_put_def)

lemma set_row_del: "set (row_del key k rows) = {r \<in> set rows. key r \<noteq> k}"
  by (auto simp: row_del_def)

section \<open>The store interface\<close>

locale keyed_store =
  fixes get :: "'k \<Rightarrow> 't \<Rightarrow> 'r option"
    and put :: "'r \<Rightarrow> 't \<Rightarrow> 't"
    and del :: "'k \<Rightarrow> 't \<Rightarrow> 't"
    and upd :: "'k \<Rightarrow> ('r \<Rightarrow> 'r) \<Rightarrow> 't \<Rightarrow> 't"
    and key :: "'r \<Rightarrow> 'k"
    and wf :: "'t \<Rightarrow> bool"
  assumes get_put: "get k (put r t) = (if k = key r then Some r else get k t)"
    and get_del: "get k (del k' t) = (if k = k' then None else get k t)"
    and get_upd: "(\<And>r. key r = k' \<Longrightarrow> key (f r) = k') \<Longrightarrow>
           get k (upd k' f t) = (if k = k' then map_option f (get k t) else get k t)"
    and get_key: "get k t = Some r \<Longrightarrow> key r = k"
    and wf_put: "wf t \<Longrightarrow> wf (put r t)"
    and wf_del: "wf t \<Longrightarrow> wf (del k t)"
    and wf_upd: "(\<And>r. key r = k \<Longrightarrow> key (f r) = k) \<Longrightarrow> wf t \<Longrightarrow> wf (upd k f t)"
begin

text \<open>\<open>PutItem\<close> with \<open>attribute_not_exists\<close>: refused (\<open>None\<close>) when the key is taken.\<close>

definition put_new :: "'r \<Rightarrow> 't \<Rightarrow> 't option" where
  "put_new r t = (if get (key r) t = None then Some (put r t) else None)"

lemma put_new_get: "put_new r t = Some t' \<Longrightarrow> get (key r) t' = Some r"
  by (auto simp: put_new_def get_put split: if_splits)

lemma put_new_other: "put_new r t = Some t' \<Longrightarrow> k \<noteq> key r \<Longrightarrow> get k t' = get k t"
  by (auto simp: put_new_def get_put split: if_splits)

lemma put_new_twice: "put_new r t = Some t' \<Longrightarrow> key r' = key r \<Longrightarrow> put_new r' t' = None"
  by (auto simp: put_new_def get_put split: if_splits)

lemma put_new_keeps: "put_new r t = Some t' \<Longrightarrow> get k t = Some x \<Longrightarrow> get k t' = Some x"
  by (auto simp: put_new_def get_put split: if_splits)

lemma del_put_new: "get (key r) t = None \<Longrightarrow> get k (del (key r) (put r t)) = get k t"
  by (auto simp: get_del get_put)

lemma upd_absent: "(\<And>r. key r = k' \<Longrightarrow> key (f r) = k') \<Longrightarrow> get k' t = None \<Longrightarrow>
  get k (upd k' f t) = get k t"
  by (auto simp: get_upd)

end

text \<open>Row lists implement the interface for every key function.\<close>

lemma row_store: "keyed_store (row_get key) (row_put key) (row_del key) (row_upd key) key (keyed key)"
  by unfold_locales (auto simp: row_get_put row_get_del row_get_upd dest: row_get_SomeD)

end
