(* ===== verification/A2Z_Clients.thy ===== *)
theory A2Z_Clients
  imports Complex_Main A2Z_Errors A2Z_Tables
begin

text \<open>
  What is outside the process: clocks, random identifiers and the AWS services, reached
  through \<open>clients.run_aws\<close> (\<open>app/core/clients.py\<close>).  They are parameters: an
  environment \<open>env\<close> answers every reading of a clock, every \<open>uuid4()\<close> and every call
  to AWS by the number of the interaction, which the state counts in \<open>tick\<close>.  A call to
  AWS may be refused, or carried out with its response lost; both raise in the caller.
  Every theorem holds for every environment unless it names what it needs of it.
\<close>

datatype outage = Throttled | ServiceError | AccessDenied | ConnectionLost

datatype aws_fault =
    Refused outage    \<comment> \<open>the service did not carry the call out\<close>
  | Lost outage       \<comment> \<open>it did, and the caller sees an error\<close>

text \<open>A parsed MIME message, as \<open>email.message_from_bytes\<close> presents it.\<close>

record mime_part =
  mp_disposition :: string              \<comment> \<open>the header, empty when absent\<close>
  mp_type :: string
  mp_payload :: "string option"         \<comment> \<open>decoded bytes\<close>
  mp_text :: string                     \<comment> \<open>the bytes in the part's charset\<close>
  mp_filename :: "string option"

datatype mime = Leaf mime_part | Multipart "mime list"

text \<open>What comes back from a POST: a connection or HTTP error, a 2xx body that is no JSON, or JSON.\<close>

datatype http_reply = Http_error | No_json | Reply json

record env =
  uuid4 :: "nat \<Rightarrow> string"
  utcnow :: "nat \<Rightarrow> int"                \<comment> \<open>microseconds since the epoch\<close>
  monotonic :: "nat \<Rightarrow> rat"             \<comment> \<open>seconds\<close>
  fault :: "nat \<Rightarrow> aws_fault option"
  service_id :: "nat \<Rightarrow> string"         \<comment> \<open>ids a service assigns: SES, EventBridge, SQS\<close>
  bus_rejects :: "nat \<Rightarrow> bool"          \<comment> \<open>EventBridge reports a failed entry\<close>
  int_of_str :: "string \<Rightarrow> int option"  \<comment> \<open>pydantic's reading of a string as an integer\<close>
  presign :: "string \<Rightarrow> int \<Rightarrow> nat \<Rightarrow> string"  \<comment> \<open>presigned GET URL: key, lifetime, time\<close>
  verification_token :: "string \<Rightarrow> string"       \<comment> \<open>SES, for a domain\<close>
  dkim_tokens :: "string \<Rightarrow> string list"          \<comment> \<open>SES, for a domain\<close>
  identity_status :: "string \<Rightarrow> nat \<Rightarrow> string option"  \<comment> \<open>SES, for a domain at a time\<close>
  is_prod :: bool                      \<comment> \<open>application settings\<close>
  topic_arn :: string
  hmac_hex :: "string \<Rightarrow> string \<Rightarrow> string"   \<comment> \<open>HMAC-SHA256 with a secret, in hex\<close>
  graph_api :: "string \<Rightarrow> json \<Rightarrow> nat \<Rightarrow> bool \<times> http_reply"
    \<comment> \<open>Graph API, for a URL, a body and a time: whether it took the message, and its reply\<close>
  json_loads :: "string \<Rightarrow> json option"
  b64decode :: "string \<Rightarrow> string option"
  mime_parse :: "string \<Rightarrow> string \<times> mime"    \<comment> \<open>the From header and the body\<close>
  search_match :: "string \<Rightarrow> string \<Rightarrow> bool" \<comment> \<open>Postgres full-text match of a query in a text\<close>
  repr_of :: "json \<Rightarrow> string"               \<comment> \<open>\<open>repr\<close> of a list or dictionary\<close>
  ilike :: "string \<Rightarrow> string \<Rightarrow> bool"        \<comment> \<open>\<open>ILIKE '%q%'\<close> of a query in a text\<close>

record world =
  tick :: nat

type_synonym ('w, 'a) op = "('w, exn, 'a) act"

fun outage_exn :: "outage \<Rightarrow> exn" where
  "outage_exn Throttled = AwsError ''ThrottlingException''"
| "outage_exn ServiceError = AwsError ''InternalServerError''"
| "outage_exn AccessDenied = AwsError ''AccessDeniedException''"
| "outage_exn ConnectionLost = Exn (Py BotoCoreError)"

definition next_tick :: "('z world_scheme, nat) op" where
  "next_tick = (\<lambda>w. (Inr (tick w), w\<lparr>tick := Suc (tick w)\<rparr>))"

definition new_uuid :: "env \<Rightarrow> ('z world_scheme, string) op" where
  "new_uuid E = bindE next_tick (\<lambda>n. ret (uuid4 E n))"

definition now_utc :: "env \<Rightarrow> ('z world_scheme, int) op" where
  "now_utc E = bindE next_tick (\<lambda>n. ret (utcnow E n))"

definition now_monotonic :: "env \<Rightarrow> ('z world_scheme, rat) op" where
  "now_monotonic E = bindE next_tick (\<lambda>n. ret (monotonic E n))"

definition new_service_id :: "env \<Rightarrow> ('z world_scheme, string) op" where
  "new_service_id E = bindE next_tick (\<lambda>n. ret (service_id E n))"

text \<open>\<open>run_aws(fn, ...)\<close>: one call to a service whose documented effect is \<open>fn\<close>.\<close>

definition run_aws :: "env \<Rightarrow> ('z world_scheme, 'a) op \<Rightarrow> ('z world_scheme, 'a) op" where
  "run_aws E fn = bindE next_tick (\<lambda>n.
     case fault E n of
       None \<Rightarrow> fn
     | Some (Refused x) \<Rightarrow> raise (outage_exn x)
     | Some (Lost x) \<Rightarrow> (\<lambda>w. (Inl (outage_exn x), snd (fn w))))"

text \<open>\<open>try: m except ClientError as exc: raise x from exc\<close>\<close>

definition except_client :: "('w, 'a) op \<Rightarrow> exn \<Rightarrow> ('w, 'a) op" where
  "except_client m x = catchE m (\<lambda>e. case e of AwsError _ \<Rightarrow> raise x | _ \<Rightarrow> raise e)"

lemma except_client_Inr [simp]: "except_client m x w = (Inr y, w') \<longleftrightarrow> m w = (Inr y, w')"
  by (auto simp: except_client_def catchE_app split: prod.splits sum.splits exn.splits)

lemma except_client_Inl:
  "except_client m x w = (Inl e, w') \<longleftrightarrow>
     (\<exists>e'. m w = (Inl e', w') \<and> e = (case e' of AwsError _ \<Rightarrow> x | _ \<Rightarrow> e'))"
  by (auto simp: except_client_def catchE_app split: prod.splits sum.splits exn.splits)

lemma except_client_leaves [frames]: "leaves f m \<Longrightarrow> leaves f (except_client m x)"
  unfolding except_client_def
  by (rule leaves_catchE) (auto simp: leaves_raise split: exn.split)

lemma except_client_keeps [keepers]: "keeps P m \<Longrightarrow> keeps P (except_client m x)"
  unfolding except_client_def
  by (rule keeps_catchE) (auto simp: keeps_raise split: exn.split)

lemma case_client_Inr:
  "(case e of AwsError c \<Rightarrow> f c | _ \<Rightarrow> raise e) w = (Inr y, w') \<longleftrightarrow>
     (\<exists>c. e = AwsError c \<and> f c w = (Inr y, w'))"
  by (cases e) auto

text \<open>The same with a test for the code of a failed condition, and conditional writes.\<close>

definition except_condition :: "('w, 'a) op \<Rightarrow> ('w, 'a) op \<Rightarrow> exn \<Rightarrow> ('w, 'a) op" where
  "except_condition m on_condition x = catchE m (\<lambda>e. case e of
     AwsError code \<Rightarrow>
       if code = ''ConditionalCheckFailedException'' then on_condition else raise x
   | _ \<Rightarrow> raise e)"

definition when_condition :: "('w \<Rightarrow> bool) \<Rightarrow> ('w, 'a) op \<Rightarrow> ('w, 'a) op" where
  "when_condition P m = (\<lambda>w. if P w then m w else (Inl (AwsError ''ConditionalCheckFailedException''), w))"

lemma except_condition_Inr:
  "except_condition m h x w = (Inr y, w') \<longleftrightarrow> m w = (Inr y, w') \<or>
     (\<exists>w1. m w = (Inl (AwsError ''ConditionalCheckFailedException''), w1) \<and> h w1 = (Inr y, w'))"
  by (auto simp: except_condition_def catchE_app split: prod.splits sum.splits exn.splits)

lemma except_condition_fail:
  "m w = (Inl (AwsError ''ConditionalCheckFailedException''), w1) \<Longrightarrow>
     except_condition m h x w = h w1"
  by (simp add: except_condition_def catchE_app)

lemma except_condition_run: "m w = (Inr y, w1) \<Longrightarrow> except_condition m h x w = (Inr y, w1)"
  by (simp add: except_condition_def catchE_app)

lemma except_condition_other:
  "m w = (Inl e, w1) \<Longrightarrow> e \<noteq> AwsError ''ConditionalCheckFailedException'' \<Longrightarrow>
     \<exists>e'. except_condition m h x w = (Inl e', w1)"
  by (cases e) (auto simp: except_condition_def catchE_app)

lemma except_condition_leaves [frames]:
  "leaves f m \<Longrightarrow> leaves f h \<Longrightarrow> leaves f (except_condition m h x)"
  unfolding except_condition_def
  by (rule leaves_catchE) (auto simp: leaves_raise split: exn.split)

lemma except_condition_keeps [keepers]:
  "keeps P m \<Longrightarrow> keeps P h \<Longrightarrow> keeps P (except_condition m h x)"
  unfolding except_condition_def
  by (rule keeps_catchE) (auto simp: keeps_raise split: exn.split)

lemma when_condition_leaves [frames]: "leaves f m \<Longrightarrow> leaves f (when_condition P m)"
  by (simp add: leaves_def when_condition_def)

lemma when_condition_keeps [keepers]: "keeps P m \<Longrightarrow> keeps P (when_condition Q m)"
  by (simp add: keeps_def when_condition_def)

text \<open>An environment in which AWS answers every call.\<close>

definition no_faults :: "env \<Rightarrow> bool" where
  "no_faults E \<longleftrightarrow> (\<forall>n. fault E n = None)"

text \<open>The error code of a conditional write whose condition failed.\<close>

definition condition_failed :: exn where
  "condition_failed = AwsError ''ConditionalCheckFailedException''"

lemma outage_not_condition [simp]: "outage_exn x \<noteq> condition_failed"
  by (cases x) (simp_all add: condition_failed_def)

lemma outage_not_condition_code [simp]:
  "outage_exn x \<noteq> AwsError ''ConditionalCheckFailedException''"
  using outage_not_condition by (simp add: condition_failed_def)

lemma next_tick_app [simp]: "next_tick w = (Inr (tick w), w\<lparr>tick := Suc (tick w)\<rparr>)"
  by (simp add: next_tick_def)

lemma new_uuid_app [simp]: "new_uuid E w = (Inr (uuid4 E (tick w)), w\<lparr>tick := Suc (tick w)\<rparr>)"
  by (simp add: new_uuid_def bindE_app)

lemma now_utc_app [simp]: "now_utc E w = (Inr (utcnow E (tick w)), w\<lparr>tick := Suc (tick w)\<rparr>)"
  by (simp add: now_utc_def bindE_app)

lemma now_monotonic_app [simp]:
  "now_monotonic E w = (Inr (monotonic E (tick w)), w\<lparr>tick := Suc (tick w)\<rparr>)"
  by (simp add: now_monotonic_def bindE_app)

lemma new_service_id_app [simp]:
  "new_service_id E w = (Inr (service_id E (tick w)), w\<lparr>tick := Suc (tick w)\<rparr>)"
  by (simp add: new_service_id_def bindE_app)

lemma clock_binds:
  "bindE (now_utc E) k w = k (utcnow E (tick w)) (w\<lparr>tick := Suc (tick w)\<rparr>)"
  "bindE (new_uuid E) k' w = k' (uuid4 E (tick w)) (w\<lparr>tick := Suc (tick w)\<rparr>)"
  "bindE (now_monotonic E) k'' w = k'' (monotonic E (tick w)) (w\<lparr>tick := Suc (tick w)\<rparr>)"
  "bindE (new_service_id E) k' w = k' (service_id E (tick w)) (w\<lparr>tick := Suc (tick w)\<rparr>)"
  by (simp_all add: bindE_app)

lemma run_aws_ok: "fault E (tick w) = None \<Longrightarrow> run_aws E fn w = fn (w\<lparr>tick := Suc (tick w)\<rparr>)"
  by (simp add: run_aws_def bindE_app)

lemma run_aws_no_faults [simp]: "no_faults E \<Longrightarrow> run_aws E fn w = fn (w\<lparr>tick := Suc (tick w)\<rparr>)"
  by (simp add: run_aws_ok no_faults_def)

lemma run_aws_Inr:
  "run_aws E fn w = (Inr x, w') \<Longrightarrow> fn (w\<lparr>tick := Suc (tick w)\<rparr>) = (Inr x, w')"
  by (auto simp: run_aws_def bindE_app split: option.splits aws_fault.splits)

lemma run_aws_Inl:
  "run_aws E fn w = (Inl e, w') \<Longrightarrow>
     fn (w\<lparr>tick := Suc (tick w)\<rparr>) = (Inl e, w') \<or>
     (\<exists>x. e = outage_exn x \<and>
        (w' = w\<lparr>tick := Suc (tick w)\<rparr> \<or> w' = snd (fn (w\<lparr>tick := Suc (tick w)\<rparr>))))"
  by (auto simp: run_aws_def bindE_app split: option.splits aws_fault.splits)

lemma run_aws_cases:
  assumes "run_aws E fn w = (r, w')"
  obtains "fn (w\<lparr>tick := Suc (tick w)\<rparr>) = (r, w')"
  | x where "r = Inl (outage_exn x)" "w' = w\<lparr>tick := Suc (tick w)\<rparr>" "\<not> no_faults E"
  | x where "r = Inl (outage_exn x)" "w' = snd (fn (w\<lparr>tick := Suc (tick w)\<rparr>))" "\<not> no_faults E"
proof (cases "fault E (tick w)")
  case None
  with assms that(1) show ?thesis by (simp add: run_aws_def bindE_app)
next
  case (Some ft)
  then have "\<not> no_faults E" by (auto simp: no_faults_def)
  with Some assms that(2,3) show ?thesis
    by (cases ft) (auto simp: run_aws_def bindE_app)
qed

text \<open>A conditional write: refused, carried out, or failed with or without an effect.\<close>

lemma conditional_write_cases:
  assumes run: "except_condition (run_aws E (when_condition P m)) h x w = (r, w')"
    and total: "\<And>v. \<not> isl (fst (m v))"
  obtains (refused) "\<not> P (w\<lparr>tick := Suc (tick w)\<rparr>)" "h (w\<lparr>tick := Suc (tick w)\<rparr>) = (r, w')"
  | (written) y where "P (w\<lparr>tick := Suc (tick w)\<rparr>)" "r = Inr y"
      "m (w\<lparr>tick := Suc (tick w)\<rparr>) = (Inr y, w')"
  | (failed) e where "r = Inl e" "\<not> no_faults E"
      "w' = w\<lparr>tick := Suc (tick w)\<rparr> \<or>
        P (w\<lparr>tick := Suc (tick w)\<rparr>) \<and> w' = snd (m (w\<lparr>tick := Suc (tick w)\<rparr>))"
proof -
  let ?v = "w\<lparr>tick := Suc (tick w)\<rparr>"
  let ?m = "run_aws E (when_condition P m)"
  obtain r1 w1 where aws: "?m w = (r1, w1)" by (rule prod.exhaust)
  from aws show thesis
  proof (cases rule: run_aws_cases)
    case 1
    show thesis
    proof (cases "P ?v")
      case True
      with 1 have m: "m ?v = (r1, w1)" by (simp add: when_condition_def)
      with total [of ?v] obtain y where y: "r1 = Inr y" by (cases r1) auto
      then have "r = Inr y" "w' = w1"
        using except_condition_run [where m = ?m and w = w and h = h and x = x] aws run by simp_all
      with m y show thesis using written [OF True] by simp
    next
      case False
      with 1 aws run refused show thesis by (simp add: when_condition_def except_condition_fail)
    qed
  next
    case (2 o')
    with except_condition_other [where m = ?m and w = w and h = h and x = x] aws run
    have "\<exists>e. r = Inl e" "w' = w1" by auto
    then show thesis using failed 2(2,3) by blast
  next
    case (3 o')
    with except_condition_other [where m = ?m and w = w and h = h and x = x] aws run
    have "\<exists>e. r = Inl e" "w' = w1" by auto
    moreover have "w1 = ?v \<or> P ?v \<and> w1 = snd (m ?v)"
      using 3(2) by (auto simp: when_condition_def)
    ultimately show thesis using failed 3(3) by blast
  qed
qed

text \<open>A handler that starts with a conditional write and leaves \<open>f\<close> alone afterwards.\<close>

lemma guarded_write:
  fixes f :: "'z world_scheme \<Rightarrow> 'b"
  assumes run: "bindE (except_condition (run_aws E (when_condition P m)) (raise x) y) k w = (r, w')"
    and total: "\<And>v. \<not> isl (fst (m v))" and rest: "\<And>u. leaves f (k u)"
    and tick: "\<And>w g. f (tick_update g w) = f w"
  obtains (refused) "\<not> P (w\<lparr>tick := Suc (tick w)\<rparr>)" "f w' = f w" "r = Inl x"
  | (written) "P (w\<lparr>tick := Suc (tick w)\<rparr>)" "f w' = f (snd (m (w\<lparr>tick := Suc (tick w)\<rparr>)))"
  | (failed) "f w' = f w" "isl r" "\<not> no_faults E"
proof -
  obtain r1 w1 where m: "except_condition (run_aws E (when_condition P m)) (raise x) y w = (r1, w1)"
      and f: "f w' = f w1" and err: "\<forall>e. r1 = Inl e \<longrightarrow> r = Inl e"
    using bindE_frame [where f = f, OF run rest] by blast
  from m total show thesis
  proof (cases rule: conditional_write_cases)
    case refused
    with f err that(1) show thesis by (auto simp: tick)
  next
    case (written y')
    with f that(2) show thesis by auto
  next
    case (failed e)
    with f err that(2,3) show thesis by (auto simp: tick)
  qed
qed

text \<open>A failed condition is reported only by the service itself.\<close>

lemma run_aws_condition:
  "run_aws E fn w = (Inl condition_failed, w') \<Longrightarrow>
     fn (w\<lparr>tick := Suc (tick w)\<rparr>) = (Inl condition_failed, w')"
  by (auto dest!: run_aws_Inl) (metis outage_not_condition)+

lemma next_tick_leaves [frames]:
  "(\<And>w g. f (tick_update g w) = f w) \<Longrightarrow> leaves f next_tick"
  by (simp add: leaves_def)

lemma clocks_leave [frames]:
  assumes "\<And>w g. f (tick_update g w) = f w"
  shows "leaves f (new_uuid E)" "leaves f (now_utc E)" "leaves f (now_monotonic E)"
    "leaves f (new_service_id E)"
  using assms by (simp_all add: leaves_def)

lemma run_aws_leaves [frames]:
  assumes "\<And>w g. f (tick_update g w) = f w" and "leaves f fn"
  shows "leaves f (run_aws E fn)"
proof (rule leavesI)
  fix w
  have "f (snd (fn v)) = f v" for v
    using assms(2) by (rule leaves_snd)
  with assms(1) show "f (snd (run_aws E fn w)) = f w"
    by (auto simp: run_aws_def bindE_app split: option.splits aws_fault.splits)
qed

lemma run_aws_keeps [keepers]:
  assumes "\<And>w g. P w \<Longrightarrow> P (tick_update g w)" and "keeps P fn"
  shows "keeps P (run_aws E fn)"
proof (rule keepsI)
  fix w
  assume "P w"
  with assms(1) have "P (w\<lparr>tick := Suc (tick w)\<rparr>)" by simp
  moreover have "P v \<Longrightarrow> P (snd (fn v))" for v
    using assms(2) by (simp add: keeps_def)
  ultimately show "P (snd (run_aws E fn w))"
    by (auto simp: run_aws_def bindE_app split: option.splits aws_fault.splits)
qed

lemma clocks_keep [keepers]:
  assumes "\<And>w g. P w \<Longrightarrow> P (tick_update g w)"
  shows "keeps P (new_uuid E)" "keeps P (now_utc E)" "keeps P (now_monotonic E)"
    "keeps P (new_service_id E)"
  using assms by (simp_all add: keeps_def)

section \<open>A sample environment\<close>

text \<open>An environment in which nothing fails, for evaluating the model on concrete inputs.\<close>

definition sample_env :: env where
  "sample_env =
     \<lparr>uuid4 = (\<lambda>n. ''uuid-'' @ show_nat n), utcnow = (\<lambda>n. 1000000 * int n), monotonic = of_nat,
      fault = (\<lambda>_. None), service_id = (\<lambda>n. ''aws-'' @ show_nat n), bus_rejects = (\<lambda>_. False),
      int_of_str = (\<lambda>_. None),
      presign = (\<lambda>key lifetime n. key @ ''?signed='' @ show_nat n),
      verification_token = (\<lambda>d. ''token-'' @ d), dkim_tokens = (\<lambda>d. [''k1'', ''k2'', ''k3'']),
      identity_status = (\<lambda>_ _. Some ''Success''), is_prod = True, topic_arn = ''arn:sns'',
      hmac_hex = (\<lambda>secret body. secret @ body), graph_api = (\<lambda>url body n. (False, Http_error)), 
      json_loads = (\<lambda>s. None), b64decode = (\<lambda>s. Some s), mime_parse = (\<lambda>s. (s, Multipart [])),
      search_match = (\<lambda>q t. q = t), repr_of = (\<lambda>_. ''...''), ilike = (\<lambda>q t. q = t)\<rparr>"

lemma sample_env_simps [simp]:
  "no_faults sample_env" "fault sample_env n = None" "bus_rejects sample_env n = False"
  "utcnow sample_env n = 1000000 * int n" "monotonic sample_env n = of_nat n"
  "is_prod sample_env" "topic_arn sample_env = ''arn:sns''"
  "uuid4 sample_env n = ''uuid-'' @ show_nat n" "service_id sample_env n = ''aws-'' @ show_nat n"
  by (simp_all add: sample_env_def no_faults_def)

end
