(* ===== verification/A2Z_Cache.thy ===== *)
theory A2Z_Cache
  imports A2Z_Clients
begin

text \<open>
  \<open>TTLCache\<close> of \<open>app/core/cache.py\<close>: a dictionary of values with an expiry, read and
  written at the time of the monotonic clock.  The locale \<open>ttl_store\<close> is what the
  read-through caches of the program (secrets, media URLs) rely on; the registry of
  clearables (\<open>register_clearable\<close>, \<open>clear_all\<close>) exists for tests and is not modelled.
\<close>

section \<open>The cache\<close>

type_synonym 'v ttl_cache = "string \<Rightarrow> (rat \<times> 'v) option"

definition empty_cache :: "'v ttl_cache" where
  "empty_cache = (\<lambda>_. None)"

definition cache_get :: "'v ttl_cache \<Rightarrow> rat \<Rightarrow> string \<Rightarrow> 'v option \<times> 'v ttl_cache" where
  "cache_get st now key =
     (case st key of
        None \<Rightarrow> (None, st)
      | Some (expires_at, value) \<Rightarrow>
          if now \<ge> expires_at then (None, st(key := None)) else (Some value, st))"

definition cache_set :: "'v ttl_cache \<Rightarrow> rat \<Rightarrow> string \<Rightarrow> 'v \<Rightarrow> rat \<Rightarrow> 'v ttl_cache" where
  "cache_set st now key value ttl_seconds = st(key \<mapsto> (now + ttl_seconds, value))"

definition cache_ttl :: "'v ttl_cache \<Rightarrow> rat \<Rightarrow> string \<Rightarrow> rat option" where
  "cache_ttl st now key =
     (case st key of
        None \<Rightarrow> None
      | Some (expires_at, _) \<Rightarrow>
          (let remaining = expires_at - now in if remaining \<le> 0 then None else Some remaining))"

definition cache_delete :: "string \<Rightarrow> 'v ttl_cache \<Rightarrow> 'v ttl_cache" where
  "cache_delete key st = st(key := None)"

definition cache_clear :: "'v ttl_cache \<Rightarrow> 'v ttl_cache" where
  "cache_clear st = empty_cache"

text \<open>What the cache holds for a key at a time.\<close>

definition cached :: "'v ttl_cache \<Rightarrow> rat \<Rightarrow> string \<Rightarrow> 'v option" where
  "cached st now key =
     (case st key of None \<Rightarrow> None | Some (e, v) \<Rightarrow> if now < e then Some v else None)"

section \<open>The interface of a store with expiry\<close>

locale ttl_store =
  fixes get :: "'s \<Rightarrow> rat \<Rightarrow> 'k \<Rightarrow> 'v option \<times> 's"
    and set :: "'s \<Rightarrow> rat \<Rightarrow> 'k \<Rightarrow> 'v \<Rightarrow> rat \<Rightarrow> 's"
    and del :: "'k \<Rightarrow> 's \<Rightarrow> 's"
    and live :: "'s \<Rightarrow> rat \<Rightarrow> 'k \<Rightarrow> 'v option"
  assumes get_value: "fst (get s t k) = live s t k"
    and get_later: "t \<le> t' \<Longrightarrow> live (snd (get s t k)) t' k' = live s t' k'"
    and get_shrinks: "live (snd (get s t k)) t' k' = Some v \<Longrightarrow> live s t' k' = Some v"
    and set_live: "live (set s t k v d) t' k' =
           (if k' = k then (if t' < t + d then Some v else None) else live s t' k')"
    and del_live: "live (del k s) t' k' = (if k' = k then None else live s t' k')"
begin

text \<open>A read-through access: the cached value, or the fetched one, which is then cached.\<close>

definition read_through :: "'s \<Rightarrow> rat \<Rightarrow> 'k \<Rightarrow> rat \<Rightarrow> 'v \<Rightarrow> 'v \<times> 's" where
  "read_through s t k d fetched =
     (case get s t k of
        (Some v, s') \<Rightarrow> (v, s')
      | (None, s') \<Rightarrow> (fetched, set s' t k fetched d))"

text \<open>Every value the store can still hand out satisfies \<open>P\<close> at that time.\<close>

definition all_live :: "(rat \<Rightarrow> 'k \<Rightarrow> 'v \<Rightarrow> bool) \<Rightarrow> 's \<Rightarrow> bool" where
  "all_live P s \<longleftrightarrow> (\<forall>t k v. live s t k = Some v \<longrightarrow> P t k v)"

lemma all_live_get: "all_live P s \<Longrightarrow> all_live P (snd (get s t k))"
  by (auto simp: all_live_def dest: get_shrinks)

lemma all_live_del: "all_live P s \<Longrightarrow> all_live P (del k s)"
  by (auto simp: all_live_def del_live)

lemma all_live_set:
  "all_live P s \<Longrightarrow> (\<And>t'. t' < t + d \<Longrightarrow> P t' k v) \<Longrightarrow> all_live P (set s t k v d)"
  by (auto simp: all_live_def set_live)

lemma get_hit: "get s t k = (Some v, s') \<Longrightarrow> live s t k = Some v"
  by (metis fst_conv get_value)

lemma get_miss: "get s t k = (None, s') \<Longrightarrow> live s t k = None"
  by (metis fst_conv get_value)

lemma read_through_value:
  "fst (read_through s t k d fetched) = (case live s t k of None \<Rightarrow> fetched | Some v \<Rightarrow> v)"
  by (auto simp: read_through_def split: prod.splits option.splits dest: get_hit get_miss)

lemma read_after_delete: "fst (read_through (del k s) t k d fetched) = fetched"
  by (simp add: read_through_value del_live)

lemma set_expires: "t + d \<le> t' \<Longrightarrow> live (set s t k v d) t' k = None"
  by (simp add: set_live)

end

lemma cache_get_value: "fst (cache_get st t k) = cached st t k"
  by (auto simp: cache_get_def cached_def split: option.splits)

lemma cache_get_later: "t \<le> t' \<Longrightarrow> cached (snd (cache_get st t k)) t' k' = cached st t' k'"
  by (auto simp: cache_get_def cached_def split: option.splits)

lemma cache_get_shrinks: "cached (snd (cache_get st t k)) t' k' = Some v \<Longrightarrow> cached st t' k' = Some v"
  by (auto simp: cache_get_def cached_def split: option.splits if_splits)

interpretation ttl: ttl_store cache_get cache_set cache_delete cached
proof unfold_locales
  fix s :: "'v ttl_cache" and t t' d :: rat and k k' :: string and v :: 'v
  show "fst (cache_get s t k) = cached s t k" by (rule cache_get_value)
  show "t \<le> t' \<Longrightarrow> cached (snd (cache_get s t k)) t' k' = cached s t' k'"
    by (rule cache_get_later)
  show "cached (snd (cache_get s t k)) t' k' = Some v \<Longrightarrow> cached s t' k' = Some v"
    by (rule cache_get_shrinks)
  show "cached (cache_set s t k v d) t' k' =
      (if k' = k then if t' < t + d then Some v else None else cached s t' k')"
    by (simp add: cached_def cache_set_def)
  show "cached (cache_delete k s) t' k' = (if k' = k then None else cached s t' k')"
    by (simp add: cached_def cache_delete_def)
qed

text \<open>
  The cache refines a map with expiry times.  A read returns the value stored under
  the key exactly while the clock is before its expiry, an entry read when it is expired
  is dropped, and \<open>ttl\<close> reports a positive remaining time exactly when a read would hit.
\<close>

theorem cache_get_expiry:
  "fst (cache_get (cache_set st t0 key v d) t key) = (if t < t0 + d then Some v else None) \<and>
   (snd (cache_get (cache_set st t0 key v d) t key) key = None) = (t0 + d \<le> t) \<and>
   cache_ttl (cache_set st t0 key v d) t key =
     (if fst (cache_get (cache_set st t0 key v d) t key) = None then None
      else Some (t0 + d - t))"
  by (auto simp: cache_get_def cache_set_def cache_ttl_def)

end
