(* ===== verification/A2Z_RateLimit.thy ===== *)
theory A2Z_RateLimit
  imports A2Z_Clients
begin

text \<open>
  The sliding-window limiter of \<open>app/core/rate_limit.py\<close> with the registry of limits of
  \<open>app/config.py\<close>.  A window is the deque of the times of the requests admitted for one
  \<open>(org_id, action)\<close>.  The reference it is compared with keeps the whole history and
  counts.
\<close>

section \<open>The limiter\<close>

record limiter_world = world +
  windows :: "(string \<times> string) \<Rightarrow> rat list option"

text \<open>\<open>RATE_LIMITS\<close> and \<open>limits_for\<close>.\<close>

definition RATE_LIMITS :: "(string \<times> (int \<times> int)) list" where
  "RATE_LIMITS =
     [(''email.send'', (50, 3600)),
      (''ai.parse.user'', (30, 60)),
      (''ai.parse.org'', (500, 86400)),
      (''omnichannel.whatsapp.send'', (80, 1)),
      (''omnichannel.messenger.send'', (80, 1)),
      (''omnichannel.instagram.send'', (80, 1))]"

definition limits_for :: "string \<Rightarrow> exn + (int \<times> int)" where
  "limits_for action =
     (case map_of RATE_LIMITS action of None \<Rightarrow> Inl (Exn (Py KeyErrorPy)) | Some l \<Rightarrow> Inr l)"

text \<open>\<open>while dq and dq[0] <= window_start: dq.popleft()\<close>\<close>

fun evict :: "rat \<Rightarrow> rat list \<Rightarrow> rat list" where
  "evict window_start [] = []"
| "evict window_start (t # dq) = (if t \<le> window_start then evict window_start dq else t # dq)"

text \<open>
  The body of \<open>check_and_increment\<close> on one deque.  With a limit of zero the code reads
  \<open>dq[0]\<close> of an empty deque.
\<close>

definition window_step :: "int \<Rightarrow> int \<Rightarrow> rat \<Rightarrow> rat list \<Rightarrow> (exn + unit) \<times> rat list" where
  "window_step limit window_seconds now dq0 =
     (let window_start = now - of_int window_seconds;
          dq = evict window_start dq0
      in if int (length dq) \<ge> limit
         then (case dq of
                 [] \<Rightarrow> (Inl (Exn (Py IndexErrorPy)), dq)
               | t # _ \<Rightarrow> (Inl (RateLimited (max 1 \<lceil>t + of_int window_seconds - now\<rceil>)), dq))
         else (Inr (), dq @ [now]))"

definition check_and_increment ::
  "env \<Rightarrow> string \<Rightarrow> string \<Rightarrow> int \<Rightarrow> int \<Rightarrow> ('z limiter_world_scheme, unit) op" where
  "check_and_increment E org_id action limit window_seconds =
     bindE (now_monotonic E) (\<lambda>now w.
       let key = (org_id, action);
           (r, dq) = window_step limit window_seconds now
                       (case windows w key of None \<Rightarrow> [] | Some dq \<Rightarrow> dq)
       in (r, w\<lparr>windows := (windows w)(key \<mapsto> dq)\<rparr>))"

section \<open>Reference: count the admitted requests of the window\<close>

definition recent :: "int \<Rightarrow> rat \<Rightarrow> rat list \<Rightarrow> rat list" where
  "recent window_seconds now hist = filter (\<lambda>t. now - of_int window_seconds < t) hist"

text \<open>Requests at the times \<open>ts\<close>, with the history of the admitted ones.\<close>

fun spec_run :: "int \<Rightarrow> int \<Rightarrow> rat list \<Rightarrow> rat list \<Rightarrow> bool list \<times> rat list" where
  "spec_run limit window hist [] = ([], hist)"
| "spec_run limit window hist (t # ts) =
     (let ok = int (length (recent window t hist)) < limit;
          (oks, hist') = spec_run limit window (if ok then hist @ [t] else hist) ts
      in (ok # oks, hist'))"

fun window_run :: "int \<Rightarrow> int \<Rightarrow> rat list \<Rightarrow> rat list \<Rightarrow> bool list \<times> rat list" where
  "window_run limit window dq [] = ([], dq)"
| "window_run limit window dq (t # ts) =
     (let (r, dq') = window_step limit window t dq;
          (oks, dq'') = window_run limit window dq' ts
      in ((case r of Inr _ \<Rightarrow> True | Inl _ \<Rightarrow> False) # oks, dq''))"

lemma evict_filter: "sorted dq \<Longrightarrow> evict ws dq = filter (\<lambda>t. ws < t) dq"
proof (induction dq)
  case (Cons t dq)
  show ?case
  proof (cases "t \<le> ws")
    case True
    with Cons show ?thesis by simp
  next
    case False
    with Cons.prems have "\<forall>x \<in> set dq. ws < x" by auto
    then have "filter (\<lambda>t. ws < t) dq = dq" by (simp add: filter_id_conv)
    with False show ?thesis by simp
  qed
qed simp

lemma evict_sorted: "sorted dq \<Longrightarrow> sorted (evict ws dq)"
  by (simp add: evict_filter sorted_wrt_filter)

lemma recent_recent:
  "t \<le> t' \<Longrightarrow> recent window t' (recent window t hist) = recent window t' hist"
  by (auto simp: recent_def intro!: filter_cong)

lemma sorted_recent: "sorted hist \<Longrightarrow> sorted (recent window t hist)"
  by (simp add: recent_def sorted_wrt_filter)

lemma set_recent: "set (recent window t hist) \<subseteq> set hist"
  by (auto simp: recent_def)

text \<open>One step: the deque is the recent part of the history.\<close>

lemma window_step_recent:
  assumes "sorted hist" and "dq = recent window t0 hist" and "t0 \<le> t"
  shows "snd (window_step limit window t dq) =
      recent window t (if int (length (recent window t hist)) < limit then hist @ [t] else hist)
      \<or> window \<le> 0"
    and "(\<exists>u. fst (window_step limit window t dq) = Inr u) \<longleftrightarrow>
      int (length (recent window t hist)) < limit"
proof -
  have "evict (t - of_int window) dq = recent window t (recent window t0 hist)"
    using assms sorted_recent [of hist window t0] by (simp add: evict_filter recent_def)
  then have dq: "evict (t - of_int window) dq = recent window t hist"
    by (simp add: recent_recent [OF assms(3)])
  show "snd (window_step limit window t dq) =
      recent window t (if int (length (recent window t hist)) < limit then hist @ [t] else hist)
      \<or> window \<le> 0"
    unfolding window_step_def Let_def dq
    by (auto simp: recent_def split: list.splits)
  show "(\<exists>u. fst (window_step limit window t dq) = Inr u) \<longleftrightarrow>
      int (length (recent window t hist)) < limit"
    unfolding window_step_def Let_def dq by (auto split: list.splits)
qed

lemma window_run_spec:
  assumes "0 < window" and "sorted hist" and "dq = recent window t0 hist"
    and "\<forall>x \<in> set hist. x \<le> t0" and "sorted (t0 # ts)"
  shows "fst (window_run limit window dq ts) = fst (spec_run limit window hist ts)"
  using assms(2-5)
proof (induction ts arbitrary: hist dq t0)
  case Nil
  then show ?case by simp
next
  case (Cons t ts)
  let ?ok = "int (length (recent window t hist)) < limit"
  let ?hist = "if ?ok then hist @ [t] else hist"
  from Cons.prems have le: "t0 \<le> t" by simp
  note step = window_step_recent [OF Cons.prems(1,2) le, of limit]
  obtain r dq' where r: "window_step limit window t dq = (r, dq')"
    by (cases "window_step limit window t dq")
  from step(1) r assms(1) have dq': "dq' = recent window t ?hist" by auto
  have "sorted ?hist" "\<forall>x \<in> set ?hist. x \<le> t"
    using Cons.prems le by (auto simp: sorted_append intro: order_trans)
  then have "fst (window_run limit window dq' ts) = fst (spec_run limit window ?hist ts)"
    using Cons.IH [of ?hist dq' t] dq' Cons.prems(4) by simp
  moreover from step(2) r have "(case r of Inr _ \<Rightarrow> True | Inl _ \<Rightarrow> False) = ?ok"
    by (auto split: sum.splits)
  ultimately show ?case
    using r by (auto simp: Let_def case_prod_beta)
qed

text \<open>The number of admissions in any window of the reference stays within the limit.\<close>

definition within_limit :: "int \<Rightarrow> int \<Rightarrow> rat list \<Rightarrow> bool" where
  "within_limit limit window hist \<longleftrightarrow>
     (\<forall>a. int (length (filter (\<lambda>t. a < t \<and> t \<le> a + of_int window) hist)) \<le> max 0 limit)"

lemma within_limit_snoc:
  assumes "within_limit limit window hist" and "\<forall>x \<in> set hist. x \<le> t"
    and "int (length (recent window t hist)) < limit"
  shows "within_limit limit window (hist @ [t])"
  unfolding within_limit_def
proof
  fix a :: rat
  let ?in = "\<lambda>x :: rat. a < x \<and> x \<le> a + of_int window"
  show "int (length (filter ?in (hist @ [t]))) \<le> max 0 limit"
  proof (cases "?in t")
    case True
    have "length (filter ?in hist) \<le> length (recent window t hist)"
    proof -
      have "filter ?in hist = filter ?in (recent window t hist)"
        using True by (auto simp: recent_def intro!: filter_cong)
      then show ?thesis by (metis length_filter_le)
    qed
    with True assms(3) show ?thesis by simp
  next
    case False
    then have "filter ?in (hist @ [t]) = filter ?in hist" by simp
    with assms(1) show ?thesis unfolding within_limit_def by metis
  qed
qed

lemma spec_run_within:
  fixes t0 :: rat
  shows "within_limit limit window hist \<Longrightarrow> \<forall>x \<in> set hist. x \<le> t0 \<Longrightarrow> sorted (t0 # ts) \<Longrightarrow>
   within_limit limit window (snd (spec_run limit window hist ts))"
proof (induction ts arbitrary: hist t0)
  case (Cons t ts)
  let ?ok = "int (length (recent window t hist)) < limit"
  let ?hist = "if ?ok then hist @ [t] else hist"
  from Cons.prems have "\<forall>x \<in> set hist. x \<le> t" by (auto intro: order_trans)
  then have "within_limit limit window ?hist" "\<forall>x \<in> set ?hist. x \<le> t"
    using within_limit_snoc [OF Cons.prems(1)] Cons.prems(1) by auto
  with Cons.IH [of ?hist t] Cons.prems(3) show ?case
    by (simp add: Let_def case_prod_beta)
qed simp

lemma spec_run_accepted:
  "snd (spec_run limit window hist ts) =
     hist @ map snd (filter fst (zip (fst (spec_run limit window hist ts)) ts))"
  by (induction ts arbitrary: hist) (auto simp: Let_def case_prod_beta)

text \<open>The times at which the limiter admitted a request, from an empty window.\<close>

definition admitted :: "int \<Rightarrow> int \<Rightarrow> rat list \<Rightarrow> rat list" where
  "admitted limit window ts = map snd (filter fst (zip (fst (window_run limit window [] ts)) ts))"

lemma window_run_spec_Nil:
  assumes "0 < window" and "sorted ts"
  shows "fst (window_run limit window [] ts) = fst (spec_run limit window [] ts)"
proof (cases ts)
  case (Cons t ts')
  with assms show ?thesis
    by (intro window_run_spec [of window "[]" "[]" t]) (auto simp: recent_def)
qed simp

text \<open>
  C7: the deque refines the full history.  For requests at non-decreasing times, the
  limiter admits exactly those that the reference admits, which remembers every admitted
  request and counts the ones younger than the window.
\<close>

theorem limiter_refines_history:
  assumes "0 < window" and "sorted ts"
  shows "fst (window_run limit window [] ts) = fst (spec_run limit window [] ts)"
  using assms by (rule window_run_spec_Nil)

theorem limiter_refines_history_witness:
  "fst (window_run 1 10 [] [0, 1, 11]) = [True, False, True]"
proof -
  have "fst (spec_run 1 10 [] [0, 1, 11]) = [True, False, True]"
    by (simp add: recent_def)
  with limiter_refines_history [of 10 "[0, 1, 11]" 1] show ?thesis by simp
qed

text \<open>
  No interval of the length of the window, wherever it starts, contains more
  admitted requests than the limit (none when the limit is negative).
\<close>

theorem limiter_bounds_every_window:
  assumes "0 < window" and "sorted ts"
  shows "int (length (filter (\<lambda>t. a < t \<and> t \<le> a + of_int window) (admitted limit window ts)))
           \<le> max 0 limit"
proof -
  have "within_limit limit window (snd (spec_run limit window [] ts))"
  proof (cases ts)
    case (Cons t ts')
    with assms(2) show ?thesis
      by (intro spec_run_within [of limit window "[]" t]) (auto simp: within_limit_def)
  qed (simp add: within_limit_def)
  then show ?thesis
    using assms by (simp add: admitted_def window_run_spec_Nil spec_run_accepted within_limit_def)
qed

theorem limiter_bounds_every_window_witness:
  "int (length (filter (\<lambda>t. 0 < t \<and> t \<le> 10) (admitted 2 10 [1, 1, 2, 10, 11]))) \<le> 2"
  using limiter_bounds_every_window [of 10 "[1, 1, 2, 10, 11]" 0 2] by simp

lemma window_step_rejected:
  assumes "window_step limit window now dq0 = (Inl (RateLimited r), dq)"
  obtains t ts where "dq = t # ts" "dq = evict (now - of_int window) dq0"
    "r = max 1 \<lceil>t + of_int window - now\<rceil>" "limit \<le> int (length dq)"
  using assms by (auto simp: window_step_def Let_def split: if_splits list.splits)

lemma evict_length: "length (evict ws dq) \<le> length dq"
  by (induction dq) auto

lemma evict_set: "set (evict ws dq) \<subseteq> set dq"
  by (induction dq) auto

text \<open>
  A rejected caller who waits the \<open>retry_after\<close> seconds it was told is admitted, if
  nobody else used the window; the wait is at least one second and never longer than the
  window, rounded up.  (The window holds at most \<open>limit\<close> entries, none from the future.)
\<close>

theorem retry_after_suffices:
  assumes "window_step limit window now dq0 = (Inl (RateLimited r), dq)"
    and "int (length dq0) \<le> limit" and "\<forall>t \<in> set dq0. t \<le> now" and "0 < window"
  shows "1 \<le> r \<and> r \<le> window \<and> fst (window_step limit window (now + of_int r) dq) = Inr ()"
proof -
  from assms(1) obtain t ts where dq: "dq = t # ts" "dq = evict (now - of_int window) dq0"
    and r: "r = max 1 \<lceil>t + of_int window - now\<rceil>" by (rule window_step_rejected)
  have "t \<in> set dq0" using dq evict_set by (metis list.set_intros(1) subsetD)
  with assms(3) have "t \<le> now" by blast
  then have "\<lceil>t + of_int window - now\<rceil> \<le> window" by (simp add: ceiling_le_iff)
  with r assms(4) have bounds: "1 \<le> r \<and> r \<le> window" by simp
  have "t + of_int window - now \<le> of_int \<lceil>t + of_int window - now\<rceil>" by (rule le_of_int_ceiling)
  also have "\<dots> \<le> of_int r" using r by simp
  finally have "t \<le> now + of_int r - of_int window" by simp
  then have "length (evict (now + of_int r - of_int window) dq) \<le> length ts"
    using dq evict_length by simp
  moreover have "Suc (length ts) \<le> length dq0"
    using dq evict_length by (metis length_Cons)
  ultimately have "int (length (evict (now + of_int r - of_int window) dq)) < limit"
    using assms(2) by linarith
  with bounds show ?thesis by (simp add: window_step_def Let_def)
qed

theorem retry_after_suffices_witness:
  "fst (window_step 2 10 9 [2, 7]) = Inl (RateLimited 3) \<and>
   fst (window_step 2 10 12 [2, 7]) = Inr ()"
proof -
  have "window_step 2 10 9 [2, 7] = (Inl (RateLimited 3), [2, 7])"
    by (simp add: window_step_def)
  with retry_after_suffices [of 2 10 9 "[2, 7]" 3 "[2, 7]"] show ?thesis by simp
qed

text \<open>Frame: the limiter touches its own window only.\<close>

lemma check_and_increment_app:
  "check_and_increment E org_id action limit window_seconds w =
     (case window_step limit window_seconds (monotonic E (tick w))
             (case windows w (org_id, action) of None \<Rightarrow> [] | Some dq \<Rightarrow> dq) of
        (r, dq) \<Rightarrow>
          (r, w\<lparr>tick := Suc (tick w), windows := (windows w)((org_id, action) \<mapsto> dq)\<rparr>))"
  by (simp add: check_and_increment_def bindE_app Let_def)

lemma check_and_increment_leaves [frames]:
  assumes "\<And>w g. f (tick_update g w) = f w" and "\<And>w g. f (windows_update g w) = f w"
  shows "leaves f (check_and_increment E org_id action limit window_seconds)"
  by (rule leavesI) (simp add: check_and_increment_app assms split: prod.split)

lemma check_and_increment_other:
  assumes "key \<noteq> (org_id, action)"
  shows "windows (snd (check_and_increment E org_id action limit window_seconds w)) key =
    windows w key"
  unfolding check_and_increment_app using assms by (simp only: split: prod.split) simp

end
