(* ===== verification/A2Z_Realtime.thy ===== *)
theory A2Z_Realtime
  imports A2Z_RateLimit
begin

text \<open>
  The in-process publish/subscribe broker of \<open>app/core/realtime.py\<close>: per channel the set
  of live subscriber queues, each a bounded inbox that loses its oldest message when it
  is full.  Queue objects have an identity, here a number; messages are the serialised
  payloads.  Every payload of the model is serialisable, so the \<open>RealtimeError\<close> branch of
  \<open>publish_update\<close>, for payloads \<open>json.dumps\<close> rejects, does not occur.
\<close>

section \<open>State\<close>

record realtime_world = limiter_world +
  subscribers :: "string \<Rightarrow> nat list option"   \<comment> \<open>\<open>_subscribers\<close>: channel key to queue set\<close>
  inboxes :: "nat \<Rightarrow> json list"                \<comment> \<open>the contents of each queue\<close>
  next_queue :: nat                            \<comment> \<open>identity of the next queue object\<close>

definition QUEUE_MAXSIZE :: nat where
  "QUEUE_MAXSIZE = 100"

definition channel_key :: "string \<Rightarrow> string" where
  "channel_key channel = ''rt:'' @ channel"

section \<open>Bounded inboxes\<close>

text \<open>\<open>put_nowait\<close>; when the queue is full, \<open>get_nowait\<close> and \<open>put_nowait\<close> again.\<close>

definition put_dropping_oldest :: "'m \<Rightarrow> 'm list \<Rightarrow> 'm list" where
  "put_dropping_oldest message queue =
     (if length queue < QUEUE_MAXSIZE then queue @ [message]
      else (case queue of [] \<Rightarrow> [message] | _ # rest \<Rightarrow> rest @ [message]))"

locale lossy_queue =
  fixes put :: "'m \<Rightarrow> 'm list \<Rightarrow> 'm list" and capacity :: nat
  assumes capacity_pos: "0 < capacity"
    and put_room: "length q < capacity \<Longrightarrow> put m q = q @ [m]"
    and put_full: "length q = capacity \<Longrightarrow> put m q = tl q @ [m]"
begin

lemma put_window:
  assumes "length q \<le> capacity"
  shows "put m q = drop (length (q @ [m]) - capacity) (q @ [m])"
proof (cases "length q < capacity")
  case True
  then show ?thesis by (simp add: put_room)
next
  case False
  with assms capacity_pos show ?thesis by (cases q) (auto simp: put_full)
qed

lemma put_length: "length q \<le> capacity \<Longrightarrow> length (put m q) \<le> capacity"
  by (simp add: put_window)

text \<open>A queue that is never read holds the newest \<open>capacity\<close> messages, in order.\<close>

lemma puts_window:
  "length q \<le> capacity \<Longrightarrow> fold put ms q = drop (length (q @ ms) - capacity) (q @ ms)"
proof (induction ms arbitrary: q)
  case (Cons m ms)
  define n where "n = length (q @ [m]) - capacity"
  have "fold put (m # ms) q = fold put ms (drop n (q @ [m]))"
    using Cons.prems by (simp add: put_window n_def)
  also have "\<dots> = drop (length (drop n (q @ [m]) @ ms) - capacity) (drop n (q @ [m]) @ ms)"
    by (rule Cons.IH) (simp add: n_def)
  also have "drop n (q @ [m]) @ ms = drop n (q @ m # ms)"
    using capacity_pos by (simp add: n_def)
  also have "drop (length (drop n (q @ m # ms)) - capacity) (drop n (q @ m # ms)) =
      drop (length (q @ m # ms) - capacity) (q @ m # ms)"
    unfolding drop_drop by (rule arg_cong [where f = "\<lambda>i. drop i (q @ m # ms)"]) (auto simp: n_def)
  finally show ?case .
qed simp

lemma put_last: "length q \<le> capacity \<Longrightarrow> last (put m q) = m"
  by (cases "length q < capacity") (auto simp: put_room put_full)

end

interpretation inbox: lossy_queue put_dropping_oldest QUEUE_MAXSIZE
  by unfold_locales (auto simp: put_dropping_oldest_def QUEUE_MAXSIZE_def split: list.splits)

section \<open>Publish and subscribe\<close>

definition publish_update ::
  "string \<Rightarrow> string \<Rightarrow> (string \<times> json) list \<Rightarrow> ('z realtime_world_scheme, unit) op" where
  "publish_update org_id channel payload =
     (let message = JObj (dict_merge payload [(''org_id'', JStr org_id)]) in
      modifyE (\<lambda>w.
        let queues = (case subscribers w (channel_key channel) of None \<Rightarrow> [] | Some qs \<Rightarrow> qs) in
        w\<lparr>inboxes := (\<lambda>q. if q \<in> set queues then put_dropping_oldest message (inboxes w q)
                         else inboxes w q)\<rparr>))"

text \<open>Entering the \<open>subscribe\<close> block: a new queue, added under every channel's key.\<close>

definition add_subscriber ::
  "nat \<Rightarrow> string \<Rightarrow> (string \<Rightarrow> nat list option) \<Rightarrow> (string \<Rightarrow> nat list option)" where
  "add_subscriber queue key subs =
     subs(key \<mapsto> List.insert queue (case subs key of None \<Rightarrow> [] | Some qs \<Rightarrow> qs))"

definition subscribe :: "string list \<Rightarrow> ('z realtime_world_scheme, nat) op" where
  "subscribe channels = (\<lambda>w.
     let queue = next_queue w; keys = map channel_key channels in
     (Inr queue,
      w\<lparr>subscribers := fold (add_subscriber queue) keys (subscribers w),
        inboxes := (inboxes w)(queue := []), next_queue := Suc queue\<rparr>))"

text \<open>Leaving it (\<open>finally\<close>): discard the queue, and delete a key left without queues.\<close>

definition drop_subscriber ::
  "nat \<Rightarrow> string \<Rightarrow> (string \<Rightarrow> nat list option) \<Rightarrow> (string \<Rightarrow> nat list option)" where
  "drop_subscriber queue key subs =
     (case subs key of
        None \<Rightarrow> subs
      | Some qs \<Rightarrow>
          (let rest = removeAll queue qs in
           if rest = [] then subs(key := None) else subs(key \<mapsto> rest)))"

definition unsubscribe :: "nat \<Rightarrow> string list \<Rightarrow> ('z realtime_world_scheme, unit) op" where
  "unsubscribe queue channels =
     modifyE (\<lambda>w. w\<lparr>subscribers :=
        fold (drop_subscriber queue) (map channel_key channels) (subscribers w)\<rparr>)"

text \<open>\<open>Subscription.get\<close>: the next message, or \<open>None\<close> when nothing arrived in time.\<close>

definition subscription_get :: "nat \<Rightarrow> ('z realtime_world_scheme, json option) op" where
  "subscription_get queue = (\<lambda>w.
     case inboxes w queue of
       [] \<Rightarrow> (Inr None, w)
     | m # rest \<Rightarrow> (Inr (Some m), w\<lparr>inboxes := (inboxes w)(queue := rest)\<rparr>))"

lemma publish_update_leaves [frames]:
  "(\<And>w g. f (inboxes_update g w) = f w) \<Longrightarrow> leaves f (publish_update org_id channel payload)"
  by (simp add: publish_update_def Let_def leaves_def)

lemma publish_update_app:
  "publish_update org_id channel payload w =
     (Inr (), snd (publish_update org_id channel payload w))"
  by (simp add: publish_update_def Let_def)

section \<open>Properties\<close>

definition live_queues :: "string \<Rightarrow> 'z realtime_world_scheme \<Rightarrow> nat set" where
  "live_queues channel w = (case subscribers w (channel_key channel) of None \<Rightarrow> {} | Some qs \<Rightarrow> set qs)"

definition bounded_inboxes :: "'z realtime_world_scheme \<Rightarrow> bool" where
  "bounded_inboxes w \<longleftrightarrow> (\<forall>q. length (inboxes w q) \<le> QUEUE_MAXSIZE)"

definition wf_subscribers :: "(string \<Rightarrow> nat list option) \<Rightarrow> bool" where
  "wf_subscribers subs \<longleftrightarrow> (\<forall>key qs. subs key = Some qs \<longrightarrow> qs \<noteq> [] \<and> distinct qs)"

definition publishes ::
  "string \<Rightarrow> string \<Rightarrow> (string \<times> json) list list \<Rightarrow> ('z realtime_world_scheme, unit) op" where
  "publishes org_id channel payloads = forE (publish_update org_id channel) payloads"

lemma publish_inbox:
  "inboxes (snd (publish_update org_id channel p w)) q =
     (if q \<in> live_queues channel w
      then put_dropping_oldest (JObj (dict_merge p [(''org_id'', JStr org_id)])) (inboxes w q)
      else inboxes w q)"
  by (auto simp: publish_update_def Let_def live_queues_def split: option.splits)

lemma publish_bounded:
  "bounded_inboxes w \<Longrightarrow> bounded_inboxes (snd (publish_update org_id c p w))"
  by (simp add: bounded_inboxes_def publish_inbox inbox.put_length)

lemma publish_subscribers: "subscribers (snd (publish_update org_id channel p w)) = subscribers w"
  by (simp add: publish_update_def Let_def)

lemma publishes_inbox:
  "inboxes (snd (publishes org_id channel ps w)) q =
     (if q \<in> live_queues channel w
      then fold put_dropping_oldest
             (map (\<lambda>p. JObj (dict_merge p [(''org_id'', JStr org_id)])) ps) (inboxes w q)
      else inboxes w q)"
proof (induction ps arbitrary: w)
  case (Cons p ps)
  let ?w = "snd (publish_update org_id channel p w)"
  have "snd (publishes org_id channel (p # ps) w) = snd (publishes org_id channel ps ?w)"
    unfolding publishes_def by (simp add: thenE_run [OF publish_update_app])
  moreover have "live_queues channel ?w = live_queues channel w"
    by (simp add: live_queues_def publish_subscribers)
  ultimately show ?case
    using Cons.IH [of ?w] by (auto simp: publish_inbox)
qed (simp add: publishes_def)

text \<open>
  Bounded, ordered delivery.  After any sequence of publications on a channel, every
  subscribed inbox holds exactly the newest hundred of what it held and what was
  published, in order and stamped with the publisher's organisation; an inbox that is not
  subscribed to the channel is untouched.
\<close>

theorem publish_keeps_newest:
  assumes "bounded_inboxes w"
  shows "inboxes (snd (publishes org_id channel ps w)) q =
     (let msgs = inboxes w q @
          (if q \<in> live_queues channel w
           then map (\<lambda>p. JObj (dict_merge p [(''org_id'', JStr org_id)])) ps else [])
      in drop (length msgs - QUEUE_MAXSIZE) msgs)"
  using assms inbox.puts_window [of "inboxes w q"]
  by (simp add: publishes_inbox bounded_inboxes_def Let_def)

theorem publish_keeps_newest_witness:
  "inboxes (snd (publishes ''a'' ''c'' [[(''n'', JNum 1)], [(''org_id'', JStr ''evil'')]]
      \<lparr>tick = 0, windows = (\<lambda>_. None), subscribers = [''rt:c'' \<mapsto> [7]],
       inboxes = (\<lambda>_. []), next_queue = 8\<rparr>)) 7 =
    [JObj [(''n'', JNum 1), (''org_id'', JStr ''a'')], JObj [(''org_id'', JStr ''a'')]]"
  by (subst publish_keeps_newest)
    (simp_all add: bounded_inboxes_def live_queues_def channel_key_def dict_merge_def Let_def
      QUEUE_MAXSIZE_def)

lemma add_then_drop_key:
  assumes "wf_subscribers subs" and "\<forall>qs. subs key = Some qs \<longrightarrow> q \<notin> set qs"
  shows "drop_subscriber q key (add_subscriber q key subs) = subs"
proof (cases "subs key")
  case None
  then show ?thesis
    by (auto simp: drop_subscriber_def add_subscriber_def fun_eq_iff)
next
  case (Some qs)
  with assms have "qs \<noteq> []" "q \<notin> set qs" by (auto simp: wf_subscribers_def)
  with Some show ?thesis
    by (auto simp: drop_subscriber_def add_subscriber_def fun_eq_iff List.insert_def)
qed

lemma fold_add_subscriber:
  "fold (add_subscriber q) keys subs key =
     (if key \<in> set keys
      then Some (List.insert q (case subs key of None \<Rightarrow> [] | Some qs \<Rightarrow> qs)) else subs key)"
  by (induction keys arbitrary: subs) (auto simp: add_subscriber_def split: option.splits)

lemma fold_drop_subscriber:
  "fold (drop_subscriber q) keys subs key =
     (if key \<in> set keys
      then (case subs key of None \<Rightarrow> None
            | Some qs \<Rightarrow> if removeAll q qs = [] then None else Some (removeAll q qs))
      else subs key)"
  by (induction keys arbitrary: subs)
    (auto simp: drop_subscriber_def Let_def split: option.splits)

text \<open>
  A subscription leaves nothing behind.  Entering and leaving the block with the same
  channels, in any order and with repetitions, restores the table of subscribers
  exactly: no queue and no empty set remains.
\<close>

theorem subscription_torn_down:
  assumes "wf_subscribers (subscribers w)"
    and "\<forall>key qs. subscribers w key = Some qs \<longrightarrow> next_queue w \<notin> set qs"
    and "subscribe channels w = (Inr q, w1)" and "set channels' = set channels"
  shows "subscribers (snd (unsubscribe q channels' w1)) = subscribers w"
proof
  fix key
  from assms(3) have "q = next_queue w"
    and w1: "subscribers w1 = fold (add_subscriber q) (map channel_key channels) (subscribers w)"
    by (auto simp: subscribe_def Let_def)
  with assms(1,2) have
    "subscribers w key = Some qs \<Longrightarrow> qs \<noteq> [] \<and> removeAll q qs = qs" for qs
    by (auto simp: wf_subscribers_def)
  then show "subscribers (snd (unsubscribe q channels' w1)) key = subscribers w key"
    using assms(4)
    by (auto simp: unsubscribe_def w1 fold_drop_subscriber fold_add_subscriber List.insert_def
        split: option.splits)
qed

theorem subscription_torn_down_witness:
  "subscribers (snd (unsubscribe 8 [''d'', ''c'']
      (snd (subscribe [''c'', ''d'', ''c'']
        \<lparr>tick = 0, windows = (\<lambda>_. None), subscribers = [''rt:c'' \<mapsto> [7]],
         inboxes = (\<lambda>_. []), next_queue = 8\<rparr>)))) = [''rt:c'' \<mapsto> [7]]"
  by (subst subscription_torn_down [where channels = "[''c'', ''d'', ''c'']"
        and w = "\<lparr>tick = 0, windows = (\<lambda>_. None), subscribers = [''rt:c'' \<mapsto> [7]],
         inboxes = (\<lambda>_. []), next_queue = 8\<rparr>"])
    (auto simp: wf_subscribers_def subscribe_def Let_def)

end
