(* ===== verification/A2Z_Audit.thy ===== *)
theory A2Z_Audit
  imports A2Z_Realtime
begin

text \<open>
  The audit log of \<open>app/core/audit.py\<close>: an append-only DynamoDB table keyed by a random
  event id, read per organisation, newest first.  Times are microseconds since the epoch
  (the code stores their ISO text, which sorts the same way); expiry by TTL is done by
  DynamoDB and not modelled.
\<close>

section \<open>Events\<close>

datatype ActionType =
    ORG_CREATED | MEMBER_ADDED | MEMBER_ROLE_CHANGED | MEMBER_REMOVED
  | EMAIL_SENT | EMAIL_BOUNCED | EMAIL_COMPLAINED | EMAIL_UNSUPPRESSED
  | FILE_UPLOADED | FILE_DELETED | SETTINGS_CHANGED

fun action_value :: "ActionType \<Rightarrow> string" where
  "action_value ORG_CREATED = ''org.created''"
| "action_value MEMBER_ADDED = ''member.added''"
| "action_value MEMBER_ROLE_CHANGED = ''member.role_changed''"
| "action_value MEMBER_REMOVED = ''member.removed''"
| "action_value EMAIL_SENT = ''email.sent''"
| "action_value EMAIL_BOUNCED = ''email.bounced''"
| "action_value EMAIL_COMPLAINED = ''email.complained''"
| "action_value EMAIL_UNSUPPRESSED = ''email.unsuppressed''"
| "action_value FILE_UPLOADED = ''file.uploaded''"
| "action_value FILE_DELETED = ''file.deleted''"
| "action_value SETTINGS_CHANGED = ''settings.changed''"

text \<open>The parameter \<open>action: ActionType | str\<close>.\<close>

datatype action = Act ActionType | ActStr string

fun action_str :: "action \<Rightarrow> string" where
  "action_str (Act a) = action_value a"
| "action_str (ActStr s) = s"

record audit_event =
  ae_event_id :: string
  ae_org_id :: string
  ae_timestamp :: int
  ae_actor_id :: string
  ae_action :: string
  ae_resource_type :: string
  ae_resource_id :: string
  ae_metadata :: "(string \<times> json) list"
  ae_ttl :: int

record audit_world = realtime_world +
  audit_tbl :: "audit_event list"

text \<open>\<open>_AUDIT_RETENTION\<close>: seven years of 365 days, in microseconds; \<open>ttl\<close> is in seconds.\<close>

definition AUDIT_RETENTION :: int where
  "AUDIT_RETENTION = 365 * 7 * 86400 * 1000000"

definition epoch_seconds :: "int \<Rightarrow> int" where
  "epoch_seconds t = t div 1000000"

section \<open>Writing\<close>

definition log_audit ::
  "env \<Rightarrow> string \<Rightarrow> string \<Rightarrow> action \<Rightarrow> string \<Rightarrow> string \<Rightarrow> (string \<times> json) list
    \<Rightarrow> ('z audit_world_scheme, audit_event) op" where
  "log_audit E org_id actor_id act resource_type resource_id metadata =
     bindE (now_utc E) (\<lambda>now.
     bindE (new_uuid E) (\<lambda>event_id.
       let event =
         \<lparr>ae_event_id = event_id, ae_org_id = org_id, ae_timestamp = now,
          ae_actor_id = actor_id, ae_action = action_str act,
          ae_resource_type = resource_type, ae_resource_id = resource_id,
          ae_metadata = metadata, ae_ttl = epoch_seconds (now + AUDIT_RETENTION)\<rparr>
       in thenE
            (catchE (run_aws E (modifyE (\<lambda>w. w\<lparr>audit_tbl := row_put ae_event_id event (audit_tbl w)\<rparr>)))
              (\<lambda>_. raise (Exn (Core AuditError))))
            (ret event)))"

section \<open>Reading\<close>

text \<open>The key condition: the organisation, and the inclusive time bounds that are given.\<close>

definition in_range :: "int option \<Rightarrow> int option \<Rightarrow> int \<Rightarrow> bool" where
  "in_range from_time to_time t \<longleftrightarrow>
     (case from_time of None \<Rightarrow> True | Some f \<Rightarrow> f \<le> t) \<and>
     (case to_time of None \<Rightarrow> True | Some u \<Rightarrow> t \<le> u)"

text \<open>The filter expression: the optional conditions on action, actor and resource.\<close>

definition audit_filter ::
  "action option \<Rightarrow> string option \<Rightarrow> string option \<Rightarrow> audit_event \<Rightarrow> bool" where
  "audit_filter action_type actor_id resource_id ev \<longleftrightarrow>
     (case action_type of None \<Rightarrow> True | Some a \<Rightarrow> ae_action ev = action_str a) \<and>
     (case actor_id of None \<Rightarrow> True | Some a \<Rightarrow> ae_actor_id ev = a) \<and>
     (case resource_id of None \<Rightarrow> True | Some r \<Rightarrow> ae_resource_id ev = r)"

text \<open>The rows of the index for the key condition, newest first.\<close>

definition audit_index :: "string \<Rightarrow> int option \<Rightarrow> int option \<Rightarrow> audit_event list \<Rightarrow> audit_event list" where
  "audit_index org_id from_time to_time tbl =
     rev (sort_key ae_timestamp
       (filter (\<lambda>ev. ae_org_id ev = org_id \<and> in_range from_time to_time (ae_timestamp ev)) tbl))"

text \<open>
  A query evaluates \<open>Limit\<close> rows of the index and then applies the filter expression to
  them (DynamoDB's documented order).  It rejects a limit below one and a \<open>BETWEEN\<close> whose
  bounds are reversed.
\<close>

definition get_audit_events ::
  "env \<Rightarrow> string \<Rightarrow> action option \<Rightarrow> string option \<Rightarrow> string option \<Rightarrow> int option \<Rightarrow> int option
    \<Rightarrow> int \<Rightarrow> ('z audit_world_scheme, audit_event list) op" where
  "get_audit_events E org_id action_type actor_id resource_id from_time to_time limit =
     catchE
       (run_aws E
         (if limit < 1 \<or> (case (from_time, to_time) of (Some f, Some u) \<Rightarrow> u < f | _ \<Rightarrow> False)
          then raise (AwsError ''ValidationException'')
          else getsE (\<lambda>w. filter (audit_filter action_type actor_id resource_id)
                 (take (nat limit) (audit_index org_id from_time to_time (audit_tbl w))))))
       (\<lambda>_. raise (Exn (Core AuditError)))"

section \<open>Lemmas\<close>

lemma log_audit_leaves [frames]:
  assumes "\<And>w g. f (tick_update g w) = f w" and "\<And>w g. f (audit_tbl_update g w) = f w"
  shows "leaves f (log_audit E org_id actor_id act resource_type resource_id metadata)"
  unfolding log_audit_def by (intro frames) (simp_all add: assms)

lemma log_audit_Inl:
  "log_audit E org_id actor_id act rt rid md w = (Inl e, w') \<Longrightarrow> e = Exn (Core AuditError)"
  by (auto simp: log_audit_def act_Inl Let_def)

lemma log_audit_no_faults:
  "no_faults E \<Longrightarrow> \<exists>ev w'. log_audit E org_id actor_id act rt rid md w = (Inr ev, w')"
  by (simp add: log_audit_def bindE_app thenE_app catchE_app Let_def)

text \<open>What one call writes: nothing, or one row under the fresh id.\<close>

definition audit_row ::
  "env \<Rightarrow> 'z audit_world_scheme \<Rightarrow> string \<Rightarrow> string \<Rightarrow> action \<Rightarrow> string \<Rightarrow> string
    \<Rightarrow> (string \<times> json) list \<Rightarrow> audit_event" where
  "audit_row E w org_id actor_id act resource_type resource_id metadata =
     \<lparr>ae_event_id = uuid4 E (Suc (tick w)), ae_org_id = org_id, ae_timestamp = utcnow E (tick w),
      ae_actor_id = actor_id, ae_action = action_str act, ae_resource_type = resource_type,
      ae_resource_id = resource_id, ae_metadata = metadata,
      ae_ttl = epoch_seconds (utcnow E (tick w) + AUDIT_RETENTION)\<rparr>"

lemma log_audit_ok [simp]:
  "no_faults E \<Longrightarrow> log_audit E org_id actor_id act rt rid md w =
     (Inr (audit_row E w org_id actor_id act rt rid md),
      w\<lparr>tick := Suc (Suc (Suc (tick w))),
        audit_tbl := row_put ae_event_id (audit_row E w org_id actor_id act rt rid md) (audit_tbl w)\<rparr>)"
  by (simp add: log_audit_def act_apps Let_def audit_row_def)

lemma log_audit_result:
  assumes "log_audit E org_id actor_id act rt rid md w = (r, w')"
  defines "ev \<equiv> audit_row E w org_id actor_id act rt rid md"
  shows "(r = Inr ev \<and> audit_tbl w' = row_put ae_event_id ev (audit_tbl w)) \<or>
    (r = Inl (Exn (Core AuditError)) \<and>
      audit_tbl w' \<in> {audit_tbl w, row_put ae_event_id ev (audit_tbl w)})"
  using assms(1) unfolding log_audit_def ev_def audit_row_def
  by (auto simp: act_apps run_aws_def Let_def split: option.splits aws_fault.splits)

lemma set_row_put_new: "r \<in> set (row_put key r rows)"
  by (auto simp: row_put_def)

lemma log_audit_logged:
  assumes "log_audit E org_id actor_id act rt rid md w = (Inr ev, w')"
  shows "ev \<in> set (audit_tbl w') \<and> ae_org_id ev = org_id \<and> ae_actor_id ev = actor_id \<and>
    ae_action ev = action_str act \<and> ae_resource_type ev = rt \<and> ae_resource_id ev = rid"
  using log_audit_result [OF assms] by (auto simp: set_row_put_new audit_row_def)

lemma audit_index_sorted: "sorted_wrt (\<lambda>a b. ae_timestamp b \<le> ae_timestamp a)
    (audit_index org_id f u tbl)"
  unfolding audit_index_def sorted_wrt_rev
  using sorted_sort_key [of ae_timestamp] by (simp add: sorted_wrt_map)

lemma set_audit_index:
  "set (audit_index org_id f u tbl) =
     {ev \<in> set tbl. ae_org_id ev = org_id \<and> in_range f u (ae_timestamp ev)}"
  by (auto simp: audit_index_def)

lemma get_audit_events_Inr:
  assumes "get_audit_events E org_id a p r f u limit w = (Inr evs, w')"
  shows "evs = filter (audit_filter a p r)
      (take (nat limit) (audit_index org_id f u (audit_tbl w)))"
  using assms unfolding get_audit_events_def
  by (auto simp: act_Inr dest!: run_aws_Inr split: if_splits option.splits)

text \<open>A state in which nothing has happened yet, for evaluating the model.\<close>

definition fresh_audit :: "'z \<Rightarrow> 'z audit_world_scheme" where
  "fresh_audit z =
     \<lparr>tick = 0, windows = (\<lambda>_. None), subscribers = (\<lambda>_. None), inboxes = (\<lambda>_. []),
      next_queue = 0, audit_tbl = [], \<dots> = z\<rparr>"

lemma fresh_audit_simps [simp]:
  "tick (fresh_audit z) = 0" "windows (fresh_audit z) = (\<lambda>_. None)"
  "subscribers (fresh_audit z) = (\<lambda>_. None)" "inboxes (fresh_audit z) = (\<lambda>_. [])"
  "next_queue (fresh_audit z) = 0" "audit_tbl (fresh_audit z) = []"
  by (simp_all add: fresh_audit_def)

definition sample_event :: "nat \<Rightarrow> string \<Rightarrow> string \<Rightarrow> audit_event" where
  "sample_event n org_id act =
     \<lparr>ae_event_id = ''e'' @ show_nat n, ae_org_id = org_id, ae_timestamp = int n,
      ae_actor_id = ''ann'', ae_action = act, ae_resource_type = ''user'',
      ae_resource_id = ''bob'', ae_metadata = [], ae_ttl = 0\<rparr>"

section \<open>Properties\<close>

text \<open>
  The log is append-only.  A call of \<open>log_audit\<close> whose event id is new leaves every
  earlier event in place and adds at most one, at the end, carrying the caller's
  organisation, actor and action; it reports success only when the event was written,
  and any failure of AWS surfaces as \<open>AuditError\<close>.
\<close>

theorem log_audit_append_only:
  assumes "\<forall>x \<in> set (audit_tbl w). ae_event_id x \<noteq> uuid4 E (Suc (tick w))"
    and "log_audit E org_id actor_id act rt rid md w = (r, w')"
  shows "\<exists>ev. ae_org_id ev = org_id \<and> ae_actor_id ev = actor_id \<and> ae_action ev = action_str act \<and>
      (r = Inr ev \<and> audit_tbl w' = audit_tbl w @ [ev] \<or>
       r = Inl (Exn (Core AuditError)) \<and>
         (audit_tbl w' = audit_tbl w \<or> audit_tbl w' = audit_tbl w @ [ev]))"
proof -
  let ?ev = "audit_row E w org_id actor_id act rt rid md"
  have "row_put ae_event_id ?ev (audit_tbl w) = audit_tbl w @ [?ev]"
    using assms(1) by (auto simp: row_put_def audit_row_def)
  with log_audit_result [OF assms(2)] show ?thesis
    by (intro exI [of _ ?ev]) (auto simp: audit_row_def)
qed

theorem log_audit_append_only_witness:
  "length (audit_tbl (snd (log_audit sample_env ''acme'' ''ann'' (Act ORG_CREATED) ''org'' ''acme'' []
      (fresh_audit ())))) \<le> 1"
proof -
  obtain r w' where run: "log_audit sample_env ''acme'' ''ann'' (Act ORG_CREATED) ''org'' ''acme'' []
      (fresh_audit ()) = (r, w')" by (rule prod.exhaust)
  with log_audit_append_only [OF _ run] show ?thesis by auto
qed

text \<open>
  A query never crosses organisations.  Whatever \<open>get_audit_events\<close> returns is a part
  of the log of the requested organisation that satisfies every filter and time bound,
  newest first and at most \<open>limit\<close> events long.
\<close>

theorem audit_query_sound:
  assumes "get_audit_events E org_id a p r f u limit w = (Inr evs, w')"
  shows "(\<forall>ev \<in> set evs. ev \<in> set (audit_tbl w) \<and> ae_org_id ev = org_id \<and>
            in_range f u (ae_timestamp ev) \<and> audit_filter a p r ev) \<and>
     sorted_wrt (\<lambda>x y. ae_timestamp y \<le> ae_timestamp x) evs \<and> int (length evs) \<le> max 0 limit"
proof -
  let ?ix = "audit_index org_id f u (audit_tbl w)"
  note evs = get_audit_events_Inr [OF assms]
  have "\<forall>ev \<in> set evs. ev \<in> set ?ix \<and> audit_filter a p r ev"
    using evs by (auto dest: in_set_takeD)
  moreover have "sorted_wrt (\<lambda>x y. ae_timestamp y \<le> ae_timestamp x) evs"
    unfolding evs by (intro sorted_wrt_filter sorted_wrt_take audit_index_sorted)
  moreover have "length evs \<le> nat limit"
    unfolding evs by (rule order_trans [OF length_filter_le]) simp
  ultimately show ?thesis by (auto simp: set_audit_index)
qed

theorem audit_query_sound_witness:
  "\<exists>evs w'. get_audit_events sample_env ''acme'' None (Some ''ann'') None (Some 1) None 5
       ((fresh_audit ())\<lparr>audit_tbl := [sample_event 1 ''acme'' ''a'', sample_event 2 ''other'' ''a'']\<rparr>)
     = (Inr evs, w') \<and> (\<forall>ev \<in> set evs. ae_org_id ev = ''acme'')"
proof -
  obtain evs w' where run: "get_audit_events sample_env ''acme'' None (Some ''ann'') None (Some 1) None 5
       ((fresh_audit ())\<lparr>audit_tbl := [sample_event 1 ''acme'' ''a'', sample_event 2 ''other'' ''a'']\<rparr>)
     = (Inr evs, w')"
    by (simp add: get_audit_events_def catchE_app)
  with audit_query_sound [OF run] show ?thesis by auto
qed



text \<open>
  The case the completeness theorem excludes: with a filter, a matching event can be
  missed although nothing at all is returned.
\<close>

lemma audit_filter_after_limit:
  "fst (get_audit_events sample_env ''acme'' (Some (ActStr ''a'')) None None None None 1
       ((fresh_audit ())\<lparr>audit_tbl := [sample_event 1 ''acme'' ''a'', sample_event 2 ''acme'' ''b'']\<rparr>))
     = Inr []"
  by (simp add: get_audit_events_def catchE_app audit_index_def audit_filter_def in_range_def
      sample_event_def)

end
