(* ===== verification/A2Z_Events.thy ===== *)
theory A2Z_Events
  imports A2Z_Audit
begin

text \<open>
  Domain events of \<open>app/core/events.py\<close>: \<open>publish_event\<close> puts one entry on the custom
  EventBridge bus and surfaces a failure.  The bus is the list of the accepted entries.
\<close>

record bus_entry =
  be_source :: string
  be_detail_type :: string
  be_detail :: json

record bus_world = audit_world +
  bus :: "bus_entry list"

definition publish_event ::
  "env \<Rightarrow> string \<Rightarrow> string \<Rightarrow> (string \<times> json) list \<Rightarrow> string \<Rightarrow> ('z bus_world_scheme, string) op" where
  "publish_event E org_id event_type data source =
     (let entry = \<lparr>be_source = source, be_detail_type = event_type,
                   be_detail = JObj (dict_merge data [(''org_id'', JStr org_id)])\<rparr>
      in bindE
           (except_client
             (run_aws E (bindE next_tick (\<lambda>n.
                if bus_rejects E n then ret None
                else thenE (modifyE (\<lambda>w. w\<lparr>bus := bus w @ [entry]\<rparr>)) (ret (Some (service_id E n))))))
             (Exn (Core EventError)))
           (\<lambda>resp. case resp of
              None \<Rightarrow> raise (Exn (Core EventError))       \<comment> \<open>\<open>FailedEntryCount > 0\<close>\<close>
            | Some event_id \<Rightarrow> ret event_id))"

abbreviation publish_core_event ::
  "env \<Rightarrow> string \<Rightarrow> string \<Rightarrow> (string \<times> json) list \<Rightarrow> ('z bus_world_scheme, string) op" where
  "publish_core_event E org_id event_type data \<equiv> publish_event E org_id event_type data ''a2z.core''"

lemma publish_event_leaves [frames]:
  assumes "\<And>w g. f (tick_update g w) = f w" and "\<And>w g. f (bus_update g w) = f w"
  shows "leaves f (publish_event E org_id event_type data source)"
  unfolding publish_event_def by (intro frames) (simp_all add: assms)

lemma publish_event_ok [simp]:
  assumes "no_faults E" and "\<And>n. bus_rejects E n = False"
  shows "publish_event E org_id event_type data source w =
    (Inr (service_id E (Suc (tick w))),
     w\<lparr>tick := Suc (Suc (tick w)),
       bus := bus w @ [\<lparr>be_source = source, be_detail_type = event_type,
         be_detail = JObj (dict_merge data [(''org_id'', JStr org_id)])\<rparr>]\<rparr>)"
  using assms by (simp add: publish_event_def except_client_def act_apps Let_def)

text \<open>
  an event reaches the bus exactly when it is reported as published, up to a lost
  response: on success the entry is the last one on the bus and carries the organisation,
  which the payload cannot override; on failure the bus has grown by at most that entry.
\<close>

theorem publish_event_delivers:
  assumes "publish_event E org_id event_type data source w = (r, w')"
  shows "\<exists>entry. be_detail_type entry = event_type \<and> be_source entry = source \<and>
     be_detail entry = JObj (dict_merge data [(''org_id'', JStr org_id)]) \<and>
     (case r of Inr _ \<Rightarrow> bus w' = bus w @ [entry]
      | Inl e \<Rightarrow> bus w' = bus w \<or> (bus w' = bus w @ [entry] \<and> fault E (tick w) \<noteq> None))"
  using assms unfolding publish_event_def
  by (intro exI [of _ "\<lparr>be_source = source, be_detail_type = event_type,
        be_detail = JObj (dict_merge data [(''org_id'', JStr org_id)])\<rparr>"])
    (auto simp: except_client_def act_apps run_aws_def Let_def
      split: option.splits aws_fault.splits if_splits exn.splits outage.splits sum.splits)

theorem publish_event_delivers_witness:
  "length (bus (snd (publish_event sample_env ''acme'' ''member.added'' [(''org_id'', JStr ''evil'')]
      ''a2z.core'' (fresh_audit (bus_world_ext [] ()))))) \<le> 1"
proof -
  let ?w = "fresh_audit (bus_world_ext [] ()) :: bus_world"
  obtain r w' where run: "publish_event sample_env ''acme'' ''member.added''
      [(''org_id'', JStr ''evil'')] ''a2z.core'' ?w = (r, w')" by (rule prod.exhaust)
  have "bus ?w = []" by (simp add: fresh_audit_def)
  with publish_event_delivers [OF run] run show ?thesis by (cases r) auto
qed

end
