(* ===== verification/A2Z_Settings.thy ===== *)
theory A2Z_Settings
  imports A2Z_Events
begin

text \<open>
  Organisation settings of \<open>app/core/settings.py\<close>: one DynamoDB item per organisation,
  defaults applied on read, partial updates, and the atomic invoice counter.  An item is
  its list of attributes; the model \<open>OrgSettings\<close> validates the types when it is built.
  A time is stored as its number of microseconds.
\<close>

section \<open>State\<close>

type_synonym settings_item = "string \<times> (string \<times> json) list"

record settings_world = bus_world +
  settings_tbl :: "settings_item list"

record org_settings =
  os_org_id :: string
  os_timezone :: string
  os_currency :: string
  os_locale :: string
  os_domain :: string
  os_invoice_number_prefix :: string
  os_next_invoice_number :: int
  os_plan_tier :: string
  os_sender_name :: string
  os_metadata :: "(string \<times> json) list"
  os_updated_at :: "int option"

definition DEFAULTS :: "(string \<times> json) list" where
  "DEFAULTS =
     [(''timezone'', JStr ''UTC''), (''currency'', JStr ''USD''), (''locale'', JStr ''en_US''),
      (''domain'', JStr ''''), (''invoice_number_prefix'', JStr ''INV-''),
      (''next_invoice_number'', JNum 1), (''plan_tier'', JStr ''free''),
      (''sender_name'', JStr ''''), (''metadata'', JObj [])]"

definition MUTABLE_FIELDS :: "string list" where
  "MUTABLE_FIELDS = map fst DEFAULTS"

interpretation settings_store:
  keyed_store "row_get fst" "row_put fst" "row_del fst" "row_upd fst"
    "fst :: settings_item \<Rightarrow> string" "keyed fst"
  by (rule row_store)

section \<open>Validation by the model\<close>

text \<open>pydantic's lax mode: no value but a string is a string; integers also from booleans
  and from the strings pydantic reads as one.\<close>

fun as_str :: "json \<Rightarrow> exn + string" where
  "as_str (JStr s) = Inr s"
| "as_str _ = Inl (Exn (Py ValidationErrorPy))"

fun as_int :: "env \<Rightarrow> json \<Rightarrow> exn + int" where
  "as_int E (JNum n) = Inr n"
| "as_int E (JBool b) = Inr (if b then 1 else 0)"
| "as_int E (JStr s) =
     (case int_of_str E s of None \<Rightarrow> Inl (Exn (Py ValidationErrorPy)) | Some n \<Rightarrow> Inr n)"
| "as_int E _ = Inl (Exn (Py ValidationErrorPy))"

fun as_dict :: "json \<Rightarrow> exn + (string \<times> json) list" where
  "as_dict (JObj d) = Inr d"
| "as_dict _ = Inl (Exn (Py ValidationErrorPy))"

fun as_time :: "json option \<Rightarrow> exn + int option" where
  "as_time None = Inr None"
| "as_time (Some JNull) = Inr None"
| "as_time (Some (JNum t)) = Inr (Some t)"
| "as_time _ = Inl (Exn (Py ValidationErrorPy))"

definition field :: "(string \<times> json) list \<Rightarrow> string \<Rightarrow> json" where
  "field d k = (case map_of d k of None \<Rightarrow> JNull | Some v \<Rightarrow> v)"

definition bindS :: "exn + 'a \<Rightarrow> ('a \<Rightarrow> exn + 'b) \<Rightarrow> exn + 'b" where
  "bindS m k = (case m of Inl e \<Rightarrow> Inl e | Inr x \<Rightarrow> k x)"

definition liftS :: "exn + 'a \<Rightarrow> ('w, 'a) op" where
  "liftS m = (case m of Inl e \<Rightarrow> raise e | Inr x \<Rightarrow> ret x)"

lemma liftS_Inr [simp]: "liftS m w = (Inr x, w') \<longleftrightarrow> m = Inr x \<and> w' = w"
  by (cases m) (auto simp: liftS_def)

lemma liftS_Inl [simp]: "liftS m w = (Inl e, w') \<longleftrightarrow> m = Inl e \<and> w' = w"
  by (cases m) (auto simp: liftS_def)

text \<open>\<open>OrgSettings(org_id=org_id, **merged)\<close>\<close>

definition build_settings :: "env \<Rightarrow> string \<Rightarrow> (string \<times> json) list \<Rightarrow> exn + org_settings" where
  "build_settings E org_id merged =
     bindS (as_str (field merged ''timezone'')) (\<lambda>tz.
     bindS (as_str (field merged ''currency'')) (\<lambda>cur.
     bindS (as_str (field merged ''locale'')) (\<lambda>loc.
     bindS (as_str (field merged ''domain'')) (\<lambda>dom.
     bindS (as_str (field merged ''invoice_number_prefix'')) (\<lambda>pre.
     bindS (as_int E (field merged ''next_invoice_number'')) (\<lambda>nxt.
     bindS (as_str (field merged ''plan_tier'')) (\<lambda>tier.
     bindS (as_str (field merged ''sender_name'')) (\<lambda>sender.
     bindS (as_dict (field merged ''metadata'')) (\<lambda>md.
     bindS (as_time (map_of merged ''updated_at'')) (\<lambda>upd.
     Inr \<lparr>os_org_id = org_id, os_timezone = tz, os_currency = cur, os_locale = loc,
          os_domain = dom, os_invoice_number_prefix = pre, os_next_invoice_number = nxt,
          os_plan_tier = tier, os_sender_name = sender, os_metadata = md,
          os_updated_at = upd\<rparr>))))))))))"

section \<open>Operations\<close>

definition settings_data :: "settings_item list \<Rightarrow> string \<Rightarrow> (string \<times> json) list" where
  "settings_data tbl org_id =
     (case row_get fst org_id tbl of None \<Rightarrow> [] | Some (_, attrs) \<Rightarrow> attrs)"

definition merged_settings :: "settings_item list \<Rightarrow> string \<Rightarrow> (string \<times> json) list" where
  "merged_settings tbl org_id =
     dict_merge DEFAULTS (filter (\<lambda>(k, v). k \<noteq> ''org_id'') (settings_data tbl org_id))"

definition get_org_settings :: "env \<Rightarrow> string \<Rightarrow> ('z settings_world_scheme, org_settings) op" where
  "get_org_settings E org_id =
     bindE (run_aws E (getsE (\<lambda>w. merged_settings (settings_tbl w) org_id))) (\<lambda>merged.
       liftS (build_settings E org_id merged))"

text \<open>\<open>UpdateItem\<close> with \<open>SET\<close>: creates the item when there is none.\<close>

definition update_settings_item ::
  "string \<Rightarrow> (string \<times> json) list \<Rightarrow> settings_item list \<Rightarrow> settings_item list" where
  "update_settings_item org_id changes tbl =
     row_put fst (org_id, dict_merge (settings_data tbl org_id) changes) tbl"

definition set_org_settings ::
  "env \<Rightarrow> string \<Rightarrow> (string \<times> json) list \<Rightarrow> string \<Rightarrow> ('z settings_world_scheme, org_settings) op" where
  "set_org_settings E org_id changes changed_by =
     (if \<exists>k \<in> set (map fst changes). k \<notin> set MUTABLE_FIELDS
      then raise (Exn (Core SettingsError))
      else if changes = [] then raise (Exn (Core SettingsError))
      else
        bindE (now_utc E) (\<lambda>now.
        thenE (except_client
          (run_aws E (modifyE (\<lambda>w. w\<lparr>settings_tbl :=
             update_settings_item org_id ((''updated_at'', JNum now) # changes) (settings_tbl w)\<rparr>)))
          (Exn (Core SettingsError)))
        (bindE (log_audit E org_id changed_by (Act SETTINGS_CHANGED) ''settings'' org_id
             [(''changed_fields'', JArr (map JStr (sort (map fst changes))))]) (\<lambda>_.
        (bindE (publish_core_event E org_id ''settings.changed''
             [(''changed_fields'', JArr (map JStr (sort (map fst changes))))]) (\<lambda>_.
        get_org_settings E org_id))))))"

text \<open>\<open>UpdateItem\<close> with \<open>ADD next_invoice_number 1\<close>: a missing number counts as zero, and
  an attribute that is not a number is rejected.\<close>

definition add_invoice_number :: "string \<Rightarrow> ('z settings_world_scheme, int) op" where
  "add_invoice_number org_id = (\<lambda>w.
     let attrs = settings_data (settings_tbl w) org_id in
     case (case map_of attrs ''next_invoice_number'' of
             None \<Rightarrow> Some 0 | Some (JNum n) \<Rightarrow> Some n | Some _ \<Rightarrow> None) of
       None \<Rightarrow> (Inl (AwsError ''ValidationException''), w)
     | Some n \<Rightarrow>
         (Inr (n + 1), w\<lparr>settings_tbl := update_settings_item org_id
             [(''next_invoice_number'', JNum (n + 1))] (settings_tbl w)\<rparr>))"

definition get_next_invoice_number :: "env \<Rightarrow> string \<Rightarrow> string \<Rightarrow> ('z settings_world_scheme, string) op" where
  "get_next_invoice_number E org_id pre =
     bindE (except_client (run_aws E (add_invoice_number org_id))
          (Exn (Core SettingsError)))
     (\<lambda>n. ret (pre @ show_int n))"

section \<open>Lemmas\<close>

text \<open>What a reader sees of a field, and the organisation's counter.\<close>

definition effective :: "settings_item list \<Rightarrow> string \<Rightarrow> string \<Rightarrow> json option" where
  "effective tbl org_id k = map_of (merged_settings tbl org_id) k"

definition counter :: "settings_item list \<Rightarrow> string \<Rightarrow> int" where
  "counter tbl org_id =
     (case map_of (settings_data tbl org_id) ''next_invoice_number'' of Some (JNum n) \<Rightarrow> n | _ \<Rightarrow> 0)"

lemma settings_data_update:
  "settings_data (update_settings_item org_id changes tbl) other =
     (if other = org_id then dict_merge (settings_data tbl org_id) changes
      else settings_data tbl other)"
  by (simp add: settings_data_def update_settings_item_def settings_store.get_put)

lemma map_of_merged:
  "k \<noteq> ''org_id'' \<Longrightarrow> map_of (merged_settings tbl org_id) k =
     (case map_of (rev (settings_data tbl org_id)) k of
        None \<Rightarrow> map_of DEFAULTS k | Some v \<Rightarrow> Some v)"
proof -
  assume "k \<noteq> ''org_id''"
  then have "map_of (rev (filter (\<lambda>(k, v). k \<noteq> ''org_id'') d)) k = map_of (rev d) k" for d :: "(string \<times> json) list"
    by (induction d rule: rev_induct) auto
  then show ?thesis
    by (simp add: merged_settings_def map_of_dict_merge_rev map_add_def split: option.split)
qed

lemma effective_update:
  assumes "k \<noteq> ''org_id''" and "distinct (map fst (settings_data tbl org_id))"
  shows "effective (update_settings_item org_id changes tbl) org_id k =
    (case map_of (rev changes) k of None \<Rightarrow> effective tbl org_id k | Some v \<Rightarrow> Some v)"
proof -
  let ?d = "settings_data tbl org_id"
  have "map_of (rev (dict_merge ?d changes)) = map_of (dict_merge ?d changes)"
    and "map_of (rev ?d) = map_of ?d"
    using assms(2) by (simp_all add: distinct_dict_merge map_of_rev_distinct)
  with assms(1) show ?thesis
    by (simp add: effective_def map_of_merged settings_data_update map_of_dict_merge_rev map_add_def
        split: option.split)
qed

lemma effective_other:
  "other \<noteq> org_id \<Longrightarrow>
   effective (update_settings_item org_id changes tbl) other k = effective tbl other k"
  by (simp add: effective_def merged_settings_def settings_data_update)

text \<open>Items have distinct attribute names; every operation keeps it.\<close>

definition wf_settings :: "settings_item list \<Rightarrow> bool" where
  "wf_settings tbl \<longleftrightarrow> keyed fst tbl \<and> (\<forall>org_id. distinct (map fst (settings_data tbl org_id)))"

lemma wf_settings_update: "wf_settings tbl \<Longrightarrow> wf_settings (update_settings_item org_id changes tbl)"
  by (simp add: wf_settings_def settings_data_update distinct_dict_merge)
    (simp add: update_settings_item_def)

lemma get_org_settings_leaves [frames]:
  assumes "\<And>w g. f (tick_update g w) = f w"
  shows "leaves f (get_org_settings E org_id)"
  unfolding get_org_settings_def liftS_def by (intro frames) (simp_all add: assms)

lemma get_org_settings_Inr:
  "get_org_settings E org_id w = (Inr s, w') \<Longrightarrow>
     build_settings E org_id (merged_settings (settings_tbl w) org_id) = Inr s"
  by (auto simp: get_org_settings_def act_Inr dest!: run_aws_Inr)

lemma set_org_settings_Inr:
  assumes "set_org_settings E org_id changes changed_by w = (Inr s, w')"
  shows "settings_tbl w' = update_settings_item org_id
           ((''updated_at'', JNum (utcnow E (tick w))) # changes) (settings_tbl w)"
    and "build_settings E org_id (merged_settings (settings_tbl w') org_id) = Inr s"
    and "set (map fst changes) \<subseteq> set MUTABLE_FIELDS"
    and "\<exists>ev \<in> set (audit_tbl w'). ae_org_id ev = org_id \<and> ae_actor_id ev = changed_by \<and>
           ae_action ev = ''settings.changed''"
proof -
  let ?tbl = "update_settings_item org_id ((''updated_at'', JNum (utcnow E (tick w))) # changes)
      (settings_tbl w)"
  let ?md = "[(''changed_fields'', JArr (map JStr (sort (map fst changes))))]"
  from assms obtain ev v w1 w2 w3 where
    upd: "settings_tbl w1 = ?tbl"
    and audit: "log_audit E org_id changed_by (Act SETTINGS_CHANGED) ''settings'' org_id ?md w1
      = (Inr ev, w2)"
    and pub: "publish_core_event E org_id ''settings.changed'' ?md w2 = (Inr v, w3)"
    and get: "get_org_settings E org_id w3 = (Inr s, w')"
    by (auto simp: set_org_settings_def act_Inr dest!: run_aws_Inr split: if_splits)
      (rule that [rotated], assumption+, simp)
  have "settings_tbl w2 = settings_tbl w1"
    using audit by (rule leavesD [where f = settings_tbl, rotated]) (intro frames, simp_all)
  moreover have "settings_tbl w3 = settings_tbl w2"
    using pub by (rule leavesD [where f = settings_tbl, rotated]) (intro frames, simp_all)
  moreover have get_frame: "settings_tbl w' = settings_tbl w3"
    using get by (rule leavesD [where f = settings_tbl, rotated]) (intro frames, simp_all)
  ultimately show "settings_tbl w' = ?tbl"
    using upd by simp
  show "build_settings E org_id (merged_settings (settings_tbl w') org_id) = Inr s"
    using get_org_settings_Inr [OF get] get_frame by simp
  show "set (map fst changes) \<subseteq> set MUTABLE_FIELDS"
    using assms by (auto simp: set_org_settings_def split: if_splits)
  have "audit_tbl w3 = audit_tbl w2"
    using pub by (rule leavesD [where f = audit_tbl, rotated]) (intro frames, simp_all)
  moreover have "audit_tbl w' = audit_tbl w3"
    using get by (rule leavesD [where f = audit_tbl, rotated]) (intro frames, simp_all)
  ultimately show "\<exists>ev \<in> set (audit_tbl w'). ae_org_id ev = org_id \<and> ae_actor_id ev = changed_by \<and>
           ae_action ev = ''settings.changed''"
    using log_audit_logged [OF audit] by auto
qed

section \<open>Properties\<close>

text \<open>
  a successful settings change.  Every changed field reads back with its new value,
  every other field keeps the value it had (or its default), no other organisation's
  settings change, the returned settings are the model built from the new item, only known
  fields were accepted, and the change is in the audit log under its author.
\<close>

theorem set_settings_effect:
  assumes "set_org_settings E org_id changes changed_by w = (Inr s, w')"
    and "wf_settings (settings_tbl w)" and "distinct (map fst changes)"
  shows "(\<forall>other k. k \<notin> {''org_id'', ''updated_at''} \<longrightarrow>
      effective (settings_tbl w') other k =
        (case (if other = org_id then map_of changes k else None) of
           None \<Rightarrow> effective (settings_tbl w) other k | Some v \<Rightarrow> Some v)) \<and>
    build_settings E org_id (merged_settings (settings_tbl w') org_id) = Inr s \<and>
    wf_settings (settings_tbl w') \<and> set (map fst changes) \<subseteq> set MUTABLE_FIELDS \<and>
    (\<exists>ev \<in> set (audit_tbl w'). ae_org_id ev = org_id \<and> ae_actor_id ev = changed_by \<and>
       ae_action ev = ''settings.changed'')"
proof -
  note eff = set_org_settings_Inr [OF assms(1)]
  have "distinct (map fst (settings_data (settings_tbl w) org_id))"
    using assms(2) by (simp add: wf_settings_def)
  then have "\<forall>other k. k \<notin> {''org_id'', ''updated_at''} \<longrightarrow>
      effective (settings_tbl w') other k =
        (case (if other = org_id then map_of changes k else None) of
           None \<Rightarrow> effective (settings_tbl w) other k | Some v \<Rightarrow> Some v)"
    using assms(3) unfolding eff(1)
    by (auto simp: effective_update effective_other map_of_rev_distinct map_add_def
        split: option.split)
  moreover have "wf_settings (settings_tbl w')"
    unfolding eff(1) by (rule wf_settings_update [OF assms(2)])
  ultimately show ?thesis using eff(2-) by blast
qed

lemma get_org_settings_ok:
  "no_faults E \<Longrightarrow> get_org_settings E org_id w =
     (build_settings E org_id (merged_settings (settings_tbl w) org_id), w\<lparr>tick := Suc (tick w)\<rparr>)"
  by (cases "build_settings E org_id (merged_settings (settings_tbl w) org_id)")
    (simp_all add: get_org_settings_def liftS_def act_apps)

lemmas settings_eval = merged_settings_def settings_data_def update_settings_item_def row_put_def
  dict_merge_def build_settings_def bindS_def field_def DEFAULTS_def

definition fresh_settings :: settings_world where
  "fresh_settings = fresh_audit (bus_world_ext [] (settings_world_ext [] ()))"

theorem set_settings_effect_witness:
  "effective (settings_tbl (snd (set_org_settings sample_env ''acme''
      [(''currency'', JStr ''EUR'')] ''ann'' fresh_settings))) ''acme'' ''currency'' = Some (JStr ''EUR'')"
proof -
  have "\<not> isl (fst (set_org_settings sample_env ''acme'' [(''currency'', JStr ''EUR'')] ''ann''
      fresh_settings))"
    by (simp add: set_org_settings_def MUTABLE_FIELDS_def DEFAULTS_def get_org_settings_ok
        fresh_settings_def fresh_audit_def act_apps except_client_def settings_eval)
  then obtain s w' where run: "set_org_settings sample_env ''acme'' [(''currency'', JStr ''EUR'')] ''ann''
      fresh_settings = (Inr s, w')" by (rule returned)
  have "wf_settings (settings_tbl fresh_settings)"
    by (simp add: fresh_settings_def fresh_audit_def wf_settings_def settings_data_def)
  from set_settings_effect [OF run this] run show ?thesis by simp
qed

text \<open>\<open>n\<close> attempts to allocate a number for one organisation, some of which may fail.\<close>

fun allocate ::
  "env \<Rightarrow> string \<Rightarrow> string \<Rightarrow> nat \<Rightarrow> 'z settings_world_scheme \<Rightarrow> string list \<times> 'z settings_world_scheme" where
  "allocate E org_id pre 0 w = ([], w)"
| "allocate E org_id pre (Suc n) w =
     (let (r, w1) = get_next_invoice_number E org_id pre w;
          (rs, w2) = allocate E org_id pre n w1
      in (case r of Inl _ \<Rightarrow> rs | Inr s \<Rightarrow> s # rs, w2))"

lemma map_of_dict_merge_single: "map_of (dict_merge d [(k, v)]) = (map_of d)(k \<mapsto> v)"
  by (simp add: dict_merge_def)

lemma counter_update:
  "counter (update_settings_item org_id [(''next_invoice_number'', JNum n)] tbl) other =
     (if other = org_id then n else counter tbl other)"
  by (simp add: counter_def settings_data_update map_of_dict_merge_single)

lemma add_invoice_number_run:
  assumes "add_invoice_number org_id w = (r, w')"
  shows "(r = Inr (counter (settings_tbl w) org_id + 1) \<and>
            settings_tbl w' = update_settings_item org_id
              [(''next_invoice_number'', JNum (counter (settings_tbl w) org_id + 1))] (settings_tbl w)) \<or>
         (r = Inl (AwsError ''ValidationException'') \<and> w' = w)"
  using assms unfolding add_invoice_number_def
  by (auto simp: Let_def counter_def split: option.splits json.splits)

lemma get_next_invoice_number_run:
  assumes "get_next_invoice_number E org_id pre w = (r, w')"
  defines "c \<equiv> counter (settings_tbl w) org_id"
  shows "(r = Inr (pre @ show_int (c + 1)) \<and> counter (settings_tbl w') org_id = c + 1) \<or>
         (\<exists>e. r = Inl e \<and> counter (settings_tbl w') org_id \<in> {c, c + 1})"
proof (cases r)
  case (Inr s)
  with assms(1) obtain n where "add_invoice_number org_id (w\<lparr>tick := Suc (tick w)\<rparr>) = (Inr n, w')"
      and "s = pre @ show_int n"
    by (auto simp: get_next_invoice_number_def act_Inr dest!: run_aws_Inr)
  with Inr show ?thesis
    by (auto dest!: add_invoice_number_run simp: c_def counter_update)
next
  case (Inl e)
  with assms(1) obtain e' where "run_aws E (add_invoice_number org_id) w = (Inl e', w')"
    by (auto simp: get_next_invoice_number_def act_Inl except_client_Inl)
  then have "add_invoice_number org_id (w\<lparr>tick := Suc (tick w)\<rparr>) = (Inl e', w') \<or>
      w' = w\<lparr>tick := Suc (tick w)\<rparr> \<or> w' = snd (add_invoice_number org_id (w\<lparr>tick := Suc (tick w)\<rparr>))"
    by (auto dest!: run_aws_Inl)
  moreover obtain r2 w2 where "add_invoice_number org_id (w\<lparr>tick := Suc (tick w)\<rparr>) = (r2, w2)"
    by (rule prod.exhaust)
  ultimately have "counter (settings_tbl w') org_id \<in> {c, c + 1}"
    using add_invoice_number_run [of org_id "w\<lparr>tick := Suc (tick w)\<rparr>" r2 w2]
    by (auto simp: c_def counter_update)
  with Inl show ?thesis by blast
qed

lemma allocate_numbers:
  "allocate E org_id pre n w = (rs, w') \<Longrightarrow>
   \<exists>ns. rs = map (\<lambda>i. pre @ show_int i) ns \<and> sorted_wrt (<) ns \<and>
     (\<forall>i \<in> set ns. counter (settings_tbl w) org_id < i \<and> i \<le> counter (settings_tbl w') org_id) \<and>
     counter (settings_tbl w) org_id \<le> counter (settings_tbl w') org_id"
proof (induction n arbitrary: w rs w')
  case (Suc n)
  let ?c = "\<lambda>w. counter (settings_tbl w) org_id"
  obtain r w1 where step: "get_next_invoice_number E org_id pre w = (r, w1)" by (rule prod.exhaust)
  obtain rs1 w2 where rest: "allocate E org_id pre n w1 = (rs1, w2)" by (rule prod.exhaust)
  with Suc.prems step have w2: "w2 = w'" and rs: "rs = (case r of Inl _ \<Rightarrow> rs1 | Inr s \<Rightarrow> s # rs1)"
    by auto
  from Suc.IH [OF rest] w2 obtain ns where ns: "rs1 = map (\<lambda>i. pre @ show_int i) ns"
      "sorted_wrt (<) ns" "\<forall>i \<in> set ns. ?c w1 < i \<and> i \<le> ?c w'" "?c w1 \<le> ?c w'"
    by blast
  from get_next_invoice_number_run [OF step] show ?case
  proof (elim disjE exE conjE)
    assume "r = Inr (pre @ show_int (?c w + 1))" "?c w1 = ?c w + 1"
    with ns rs show ?thesis by (intro exI [of _ "(?c w + 1) # ns"]) auto
  next
    fix e
    assume "r = Inl e" "?c w1 \<in> {?c w, ?c w + 1}"
    with ns rs show ?thesis by (intro exI [of _ ns]) auto
  qed
qed simp

text \<open>
  Invoice numbers never collide.  Whatever fails in between, the numbers that one
  organisation's calls return are the prefix followed by strictly increasing integers above
  the stored counter, so they are pairwise different.
\<close>

theorem invoice_numbers_never_collide:
  assumes "allocate E org_id pre n w = (rs, w')"
  shows "distinct rs \<and>
    (\<exists>ns. rs = map (\<lambda>i. pre @ show_int i) ns \<and> sorted_wrt (<) ns \<and>
       (\<forall>i \<in> set ns. counter (settings_tbl w) org_id < i \<and> i \<le> counter (settings_tbl w') org_id))"
proof -
  from allocate_numbers [OF assms] obtain ns where ns: "rs = map (\<lambda>i. pre @ show_int i) ns"
      "sorted_wrt (<) ns"
      "\<forall>i \<in> set ns. counter (settings_tbl w) org_id < i \<and> i \<le> counter (settings_tbl w') org_id"
    by blast
  have "inj (\<lambda>i. pre @ show_int i)"
    by (auto intro: injI simp: show_int_inject)
  then have "distinct rs"
    unfolding ns(1) distinct_map using strict_sorted_iff ns(2) by (auto intro: inj_on_subset)
  with ns show ?thesis by blast
qed

theorem invoice_numbers_never_collide_witness:
  "distinct (fst (allocate sample_env ''acme'' ''INV-'' 3 fresh_settings))"
  using invoice_numbers_never_collide [of sample_env "''acme''" "''INV-''" 3 fresh_settings]
  by (cases "allocate sample_env ''acme'' ''INV-'' 3 fresh_settings") simp

text \<open>
  Without faults, \<open>n\<close> calls return the \<open>n\<close> numbers after the stored counter, without a
  gap; a new organisation's first number is 1.
\<close>

theorem invoice_numbers_consecutive:
  assumes "no_faults E" and "map_of (settings_data (settings_tbl w) org_id) ''next_invoice_number'' = v"
    and "v = None \<or> v = Some (JNum c)"
  shows "fst (allocate E org_id pre n w) =
    map (\<lambda>i. pre @ show_int ((if v = None then 0 else c) + int i + 1)) [0..<n]"
  using assms(2,3)
proof (induction n arbitrary: w v c)
  case (Suc n)
  let ?c = "if v = None then 0 else c"
  let ?w = "w\<lparr>tick := Suc (tick w), settings_tbl := update_settings_item org_id
             [(''next_invoice_number'', JNum (?c + 1))] (settings_tbl w)\<rparr>"
  have "get_next_invoice_number E org_id pre w = (Inr (pre @ show_int (?c + 1)), ?w)"
    using Suc.prems \<open>no_faults E\<close>
    by (auto simp: get_next_invoice_number_def add_invoice_number_def except_client_def act_apps Let_def)
  moreover have "fst (allocate E org_id pre n ?w) =
      map (\<lambda>i. pre @ show_int ((?c + 1) + int i + 1)) [0..<n]"
    using Suc.IH [of ?w "Some (JNum (?c + 1))" "?c + 1"]
    by (simp add: settings_data_update map_of_dict_merge_single)
  moreover have "[0..<Suc n] = 0 # map Suc [0..<n]"
    by (simp add: map_Suc_upt upt_conv_Cons)
  ultimately show ?case
    by (simp del: upt_Suc add: split_beta Let_def comp_def algebra_simps)
qed simp

theorem invoice_numbers_consecutive_witness:
  "fst (allocate sample_env ''acme'' ''INV-'' 3 fresh_settings) = [''INV-1'', ''INV-2'', ''INV-3'']"
  using invoice_numbers_consecutive [of sample_env fresh_settings "''acme''" None 0 "''INV-''" 3]
  by (simp add: fresh_settings_def fresh_audit_def settings_data_def show_int_def show_nat.simps
      digit_def upt_rec numeral_eq_Suc)

lemma bindS_Inr: "bindS m k = Inr y \<longleftrightarrow> (\<exists>x. m = Inr x \<and> k x = Inr y)"
  by (cases m) (auto simp: bindS_def)

lemma bindS_Inl: "bindS m k = Inl e \<longleftrightarrow> m = Inl e \<or> (\<exists>x. m = Inr x \<and> k x = Inl e)"
  by (cases m) (auto simp: bindS_def)

lemma as_str_Inr: "as_str v = Inr s \<longleftrightarrow> v = JStr s"
  by (cases v) auto

lemma as_Inl:
  "as_str v = Inl e \<Longrightarrow> e = Exn (Py ValidationErrorPy)"
  "as_int E v = Inl e \<Longrightarrow> e = Exn (Py ValidationErrorPy)"
  "as_dict v = Inl e \<Longrightarrow> e = Exn (Py ValidationErrorPy)"
  "as_time u = Inl e \<Longrightarrow> e = Exn (Py ValidationErrorPy)"
proof -
  show "as_str v = Inl e \<Longrightarrow> e = Exn (Py ValidationErrorPy)" by (cases v) auto
  show "as_int E v = Inl e \<Longrightarrow> e = Exn (Py ValidationErrorPy)"
    by (cases v) (auto split: option.splits)
  show "as_dict v = Inl e \<Longrightarrow> e = Exn (Py ValidationErrorPy)" by (cases v) auto
  show "as_time u = Inl e \<Longrightarrow> e = Exn (Py ValidationErrorPy)"
    by (induction u rule: as_time.induct) auto
qed

definition STRING_FIELDS :: "string list" where
  "STRING_FIELDS = [''timezone'', ''currency'', ''locale'', ''domain'', ''invoice_number_prefix'',
     ''plan_tier'', ''sender_name'']"

lemma build_settings_Inl: "build_settings E org_id merged = Inl e \<Longrightarrow> e = Exn (Py ValidationErrorPy)"
  unfolding build_settings_def by (auto simp only: bindS_Inl dest: as_Inl)

lemma build_settings_string:
  "build_settings E org_id merged = Inr s \<Longrightarrow> k \<in> set STRING_FIELDS \<Longrightarrow> \<exists>t. field merged k = JStr t"
  unfolding build_settings_def STRING_FIELDS_def by (auto simp: bindS_Inr as_str_Inr)

lemma set_org_settings_writes:
  assumes "no_faults E" and "k \<in> set MUTABLE_FIELDS"
  shows "settings_tbl (snd (set_org_settings E org_id [(k, v)] changed_by w)) =
    update_settings_item org_id [(''updated_at'', JNum (utcnow E (tick w))), (k, v)] (settings_tbl w)"
proof -
  define rest :: "('a settings_world_scheme, org_settings) op" where
    "rest = bindE (log_audit E org_id changed_by (Act SETTINGS_CHANGED) ''settings'' org_id
             [(''changed_fields'', JArr (map JStr (sort (map fst [(k, v)]))))]) (\<lambda>_.
        (bindE (publish_core_event E org_id ''settings.changed''
             [(''changed_fields'', JArr (map JStr (sort (map fst [(k, v)]))))]) (\<lambda>_.
        get_org_settings E org_id)))"
  have "leaves settings_tbl rest"
    unfolding rest_def by (intro frames) simp_all
  then have frame: "settings_tbl (snd (rest u)) = settings_tbl u" for u
    by (rule leaves_snd)
  have "set_org_settings E org_id [(k, v)] changed_by w = rest (w\<lparr>tick := Suc (Suc (tick w)),
      settings_tbl := update_settings_item org_id
        [(''updated_at'', JNum (utcnow E (tick w))), (k, v)] (settings_tbl w)\<rparr>)"
    using assms unfolding set_org_settings_def rest_def
    by (simp add: act_apps except_client_def)
  then show ?thesis by (simp add: frame)
qed



lemma get_next_invoice_number_leaves [frames]:
  assumes "\<And>w g. f (tick_update g w) = f w" "\<And>w g. f (settings_tbl_update g w) = f w"
  shows "leaves f (get_next_invoice_number E org_id pre)"
  unfolding get_next_invoice_number_def
proof (intro frames)
  show "leaves f (add_invoice_number org_id)"
    unfolding add_invoice_number_def Let_def
    by (auto simp: leaves_def assms split: option.splits sum.splits prod.splits)
qed (simp_all add: assms)

end
