(* ===== verification/A2Z_Membership.thy ===== *)
theory A2Z_Membership
  imports A2Z_Settings
begin

text \<open>
  Users, organisations and roles of \<open>app/core/membership.py\<close>: one DynamoDB table with the
  adjacency-list pattern, an inverted index for the members of an organisation, and
  conditional writes.  Items are kept as their attributes; times are microseconds.
  A query's result is taken to fit one page of the service.
\<close>

section \<open>State\<close>

datatype Role = OWNER | ADMIN | MEMBER | GUEST

fun role_value :: "Role \<Rightarrow> string" where
  "role_value OWNER = ''owner''"
| "role_value ADMIN = ''admin''"
| "role_value MEMBER = ''member''"
| "role_value GUEST = ''guest''"

text \<open>\<open>Role(value)\<close>; an unknown value is a \<open>ValueError\<close>.\<close>

definition Role_of :: "string \<Rightarrow> Role option" where
  "Role_of s = find (\<lambda>r. role_value r = s) [OWNER, ADMIN, MEMBER, GUEST]"

text \<open>\<open>_ROLE_ORDER\<close>, as the order of the type.\<close>

fun ROLE_ORDER :: "Role \<Rightarrow> nat" where
  "ROLE_ORDER OWNER = 0"
| "ROLE_ORDER ADMIN = 1"
| "ROLE_ORDER MEMBER = 2"
| "ROLE_ORDER GUEST = 3"

lemma ROLE_ORDER_inject: "ROLE_ORDER a = ROLE_ORDER b \<longleftrightarrow> a = b"
  by (cases a; cases b) auto

instantiation Role :: linorder
begin

definition less_eq_Role :: "Role \<Rightarrow> Role \<Rightarrow> bool" where
  "less_eq_Role a b \<longleftrightarrow> ROLE_ORDER a \<le> ROLE_ORDER b"

definition less_Role :: "Role \<Rightarrow> Role \<Rightarrow> bool" where
  "less_Role a b \<longleftrightarrow> ROLE_ORDER a < ROLE_ORDER b"

instance
  by standard (auto simp: less_eq_Role_def less_Role_def ROLE_ORDER_inject [symmetric])

end

record membership =
  mb_user_id :: string
  mb_org_id :: string
  mb_role :: Role
  mb_joined_at :: int

record org =
  og_org_id :: string
  og_name :: string
  og_owner_id :: string
  og_created_at :: int

text \<open>An item: its primary key, its key in the index when it has one, the other attributes.\<close>

record item =
  PK :: string
  SK :: string
  GSI1 :: "(string \<times> string) option"
  attrs :: "(string \<times> json) list"

definition item_key :: "'z item_scheme \<Rightarrow> string \<times> string" where
  "item_key it = (PK it, SK it)"

record member_world = settings_world +
  member_tbl :: "item list"

interpretation member_store:
  keyed_store "row_get item_key" "row_put item_key" "row_del item_key" "row_upd item_key"
    item_key "keyed item_key"
  by (rule row_store)

definition user_pk :: "string \<Rightarrow> string" where
  "user_pk user_id = ''USER#'' @ user_id"

definition org_pk :: "string \<Rightarrow> string" where
  "org_pk org_id = ''ORG#'' @ org_id"

definition membership_item :: "string \<Rightarrow> string \<Rightarrow> Role \<Rightarrow> int \<Rightarrow> item" where
  "membership_item org_id user_id role now =
     \<lparr>PK = user_pk user_id, SK = org_pk org_id, GSI1 = Some (org_pk org_id, user_pk user_id),
      attrs = [(''role'', JStr (role_value role)), (''joined_at'', JNum now)]\<rparr>"

section \<open>Slugs\<close>

definition lower :: "char \<Rightarrow> char" where
  "lower c = (if CHR ''A'' \<le> c \<and> c \<le> CHR ''Z'' then char_of (of_char c + (32 :: nat)) else c)"

definition slug_char :: "char \<Rightarrow> bool" where
  "slug_char c \<longleftrightarrow> (CHR ''a'' \<le> c \<and> c \<le> CHR ''z'') \<or> (CHR ''0'' \<le> c \<and> c \<le> CHR ''9'')"

text \<open>\<open>re.sub("[^a-z0-9]+", "-", s)\<close>: every run of other characters becomes one dash.\<close>

fun dash_runs :: "bool \<Rightarrow> string \<Rightarrow> string" where
  "dash_runs in_run [] = []"
| "dash_runs in_run (c # s) =
     (if slug_char c then c # dash_runs False s
      else if in_run then dash_runs True s else CHR ''-'' # dash_runs True s)"

definition strip_char :: "char \<Rightarrow> string \<Rightarrow> string" where
  "strip_char c s = rev (dropWhile (\<lambda>x. x = c) (rev (dropWhile (\<lambda>x. x = c) s)))"

definition slug :: "string \<Rightarrow> string" where
  "slug name =
     (let b = strip_char (CHR ''-'') (dash_runs False (map lower name))
      in if b = [] then ''org'' else b)"

section \<open>Queries\<close>

text \<open>\<open>data[k]\<close> of a decoded item, with the conversions of the code.\<close>

definition item_attr :: "item \<Rightarrow> string \<Rightarrow> exn + json" where
  "item_attr it k = (case map_of (attrs it) k of None \<Rightarrow> Inl (Exn (Py KeyErrorPy)) | Some v \<Rightarrow> Inr v)"

fun role_json :: "json \<Rightarrow> exn + Role" where
  "role_json (JStr s) = (case Role_of s of None \<Rightarrow> Inl (Exn (Py ValueErrorPy)) | Some r \<Rightarrow> Inr r)"
| "role_json _ = Inl (Exn (Py ValueErrorPy))"

fun time_json :: "json \<Rightarrow> exn + int" where
  "time_json (JNum t) = Inr t"
| "time_json (JStr s) = Inl (Exn (Py ValueErrorPy))"
| "time_json _ = Inl (Exn (Py TypeErrorPy))"

definition to_membership :: "string \<Rightarrow> string \<Rightarrow> item \<Rightarrow> exn + membership" where
  "to_membership user_id org_id it =
     bindS (bindS (item_attr it ''role'') role_json) (\<lambda>role.
     bindS (bindS (item_attr it ''joined_at'') time_json) (\<lambda>joined.
     Inr \<lparr>mb_user_id = user_id, mb_org_id = org_id, mb_role = role, mb_joined_at = joined\<rparr>))"

definition get_membership ::
  "env \<Rightarrow> string \<Rightarrow> string \<Rightarrow> ('z member_world_scheme, membership option) op" where
  "get_membership E user_id org_id =
     bindE (run_aws E (getsE (\<lambda>w. row_get item_key (user_pk user_id, org_pk org_id) (member_tbl w))))
     (\<lambda>resp. case resp of
        None \<Rightarrow> ret None
      | Some it \<Rightarrow> liftS (bindS (to_membership user_id org_id it) (\<lambda>m. Inr (Some m))))"

definition to_org :: "string \<Rightarrow> item \<Rightarrow> exn + org" where
  "to_org org_id it =
     bindS (bindS (item_attr it ''name'') as_str) (\<lambda>name.
     bindS (bindS (item_attr it ''owner_id'') as_str) (\<lambda>owner_id.
     bindS (bindS (item_attr it ''created_at'') time_json) (\<lambda>created.
     Inr \<lparr>og_org_id = org_id, og_name = name, og_owner_id = owner_id, og_created_at = created\<rparr>)))"

definition get_org :: "env \<Rightarrow> string \<Rightarrow> ('z member_world_scheme, org option) op" where
  "get_org E org_id =
     bindE (run_aws E (getsE (\<lambda>w. row_get item_key (org_pk org_id, ''METADATA'') (member_tbl w))))
     (\<lambda>resp. case resp of
        None \<Rightarrow> ret None
      | Some it \<Rightarrow> liftS (bindS (to_org org_id it) (\<lambda>g. Inr (Some g))))"

text \<open>\<open>s.split(p, 1)[1]\<close> of a string that starts with \<open>p\<close>.\<close>

definition after :: "string \<Rightarrow> string \<Rightarrow> string" where
  "after p s = drop (length p) s"

definition user_org_items :: "string \<Rightarrow> item list \<Rightarrow> item list" where
  "user_org_items user_id tbl =
     sort_key SK (filter (\<lambda>it. PK it = user_pk user_id \<and> startswith (SK it) ''ORG#'') tbl)"

definition list_user_orgs :: "env \<Rightarrow> string \<Rightarrow> ('z member_world_scheme, org list) op" where
  "list_user_orgs E user_id =
     bindE (run_aws E (getsE (\<lambda>w. user_org_items user_id (member_tbl w)))) (\<lambda>items.
     bindE (mapE (\<lambda>it. get_org E (after ''ORG#'' (SK it))) items) (\<lambda>orgs.
     ret (map the (filter (\<lambda>g. g \<noteq> None) orgs))))"

text \<open>The rows of the index \<open>GSI1\<close> for an organisation, in the order of its sort key.\<close>

definition org_member_items :: "string \<Rightarrow> item list \<Rightarrow> item list" where
  "org_member_items org_id tbl =
     sort_key (\<lambda>it. snd (the (GSI1 it)))
       (filter (\<lambda>it. map_option fst (GSI1 it) = Some (org_pk org_id)) tbl)"

fun mapS :: "('a \<Rightarrow> exn + 'b) \<Rightarrow> 'a list \<Rightarrow> exn + 'b list" where
  "mapS f [] = Inr []"
| "mapS f (x # xs) = bindS (f x) (\<lambda>y. bindS (mapS f xs) (\<lambda>ys. Inr (y # ys)))"

definition list_org_members :: "env \<Rightarrow> string \<Rightarrow> ('z member_world_scheme, membership list) op" where
  "list_org_members E org_id =
     bindE (run_aws E (getsE (\<lambda>w. org_member_items org_id (member_tbl w)))) (\<lambda>items.
     bindE (liftS (mapS (\<lambda>it. to_membership (after ''USER#'' (snd (the (GSI1 it)))) org_id it) items))
     (\<lambda>members. ret (sort_key mb_role members)))"

section \<open>Mutations\<close>

abbreviation put_items :: "item list \<Rightarrow> ('z member_world_scheme, unit) op" where
  "put_items its \<equiv> modifyE (\<lambda>w. w\<lparr>member_tbl := fold (row_put item_key) its (member_tbl w)\<rparr>)"

definition create_org :: "env \<Rightarrow> string \<Rightarrow> string \<Rightarrow> ('z member_world_scheme, org) op" where
  "create_org E org_name owner_id =
     bindE (now_utc E) (\<lambda>now.
     bindE (new_uuid E) (\<lambda>uid.
       let org_id = slug org_name @ ''-'' @ take 8 (filter (\<lambda>c. c \<noteq> CHR ''-'') uid);
           g = \<lparr>og_org_id = org_id, og_name = org_name, og_owner_id = owner_id,
                og_created_at = now\<rparr>;
           org_item = \<lparr>PK = org_pk org_id, SK = ''METADATA'', GSI1 = None,
             attrs = [(''name'', JStr org_name), (''owner_id'', JStr owner_id),
                      (''created_at'', JNum now)]\<rparr>;
           member_item = membership_item org_id owner_id OWNER now
       in thenE (except_client (run_aws E (put_items [org_item, member_item]))
            (Exn (Core MembershipError)))
          (thenE (log_audit E org_id owner_id (Act ORG_CREATED) ''org'' org_id [(''name'', JStr org_name)])
            (ret g))))"

definition add_member ::
  "env \<Rightarrow> string \<Rightarrow> string \<Rightarrow> Role \<Rightarrow> string \<Rightarrow> ('z member_world_scheme, membership) op" where
  "add_member E org_id user_id role inviter_id =
     bindE (now_utc E) (\<lambda>now.
     let it = membership_item org_id user_id role now in
     thenE (except_condition
       (run_aws E (when_condition (\<lambda>w. row_get item_key (item_key it) (member_tbl w) = None)
          (put_items [it])))
       (raise (Exn (Core AlreadyExistsError))) (Exn (Core MembershipError)))
     (thenE (log_audit E org_id inviter_id (Act MEMBER_ADDED) ''user'' user_id
               [(''role'', JStr (role_value role))])
     (thenE (publish_core_event E org_id ''member.added''
               [(''user_id'', JStr user_id), (''role'', JStr (role_value role)),
                (''inviter_id'', JStr inviter_id)])
     (ret \<lparr>mb_user_id = user_id, mb_org_id = org_id, mb_role = role, mb_joined_at = now\<rparr>))))"

text \<open>\<open>ReturnValues="ALL_OLD"\<close>: the attributes before the update.\<close>

definition set_role :: "string \<times> string \<Rightarrow> Role \<Rightarrow> ('z member_world_scheme, item) op" where
  "set_role k new_role =
     bindE (getsE (\<lambda>w. the (row_get item_key k (member_tbl w)))) (\<lambda>old.
     thenE (modifyE (\<lambda>w. w\<lparr>member_tbl := row_upd item_key k
         (\<lambda>it. it\<lparr>attrs := dict_set ''role'' (JStr (role_value new_role)) (attrs it)\<rparr>) (member_tbl w)\<rparr>))
       (ret old))"

definition change_role ::
  "env \<Rightarrow> string \<Rightarrow> string \<Rightarrow> Role \<Rightarrow> string \<Rightarrow> ('z member_world_scheme, membership) op" where
  "change_role E org_id user_id new_role changer_id =
     (let k = (user_pk user_id, org_pk org_id) in
     bindE (except_condition
       (run_aws E (when_condition (\<lambda>w. row_get item_key k (member_tbl w) \<noteq> None) (set_role k new_role)))
       (raise (Exn (Core NotFoundError))) (Exn (Core MembershipError))) (\<lambda>old_item.
     let old = field (attrs old_item) ''role'' in
     thenE (log_audit E org_id changer_id (Act MEMBER_ROLE_CHANGED) ''user'' user_id
              [(''old_role'', old), (''new_role'', JStr (role_value new_role))])
     (thenE (publish_core_event E org_id ''member.role_changed''
               [(''user_id'', JStr user_id), (''old_role'', old),
                (''new_role'', JStr (role_value new_role))])
     (bindE (let joined = field (attrs old_item) ''joined_at'' in
             if joined = JNull \<or> joined = JStr [] then now_utc E else liftS (time_json joined)) (\<lambda>joined_at.
      ret \<lparr>mb_user_id = user_id, mb_org_id = org_id, mb_role = new_role,
           mb_joined_at = joined_at\<rparr>)))))"

definition remove_member ::
  "env \<Rightarrow> string \<Rightarrow> string \<Rightarrow> string \<Rightarrow> ('z member_world_scheme, unit) op" where
  "remove_member E org_id user_id remover_id =
     (let k = (user_pk user_id, org_pk org_id) in
     thenE (except_condition
       (run_aws E (when_condition (\<lambda>w. row_get item_key k (member_tbl w) \<noteq> None)
          (modifyE (\<lambda>w. w\<lparr>member_tbl := row_del item_key k (member_tbl w)\<rparr>))))
       (raise (Exn (Core NotFoundError))) (Exn (Core MembershipError)))
     (thenE (log_audit E org_id remover_id (Act MEMBER_REMOVED) ''user'' user_id [])
     (thenE (publish_core_event E org_id ''member.removed''
               [(''user_id'', JStr user_id), (''remover_id'', JStr remover_id)])
     (ret ()))))"

definition create_user_if_not_exists ::
  "env \<Rightarrow> string \<Rightarrow> string \<Rightarrow> ('z member_world_scheme, unit) op" where
  "create_user_if_not_exists E user_id email =
     bindE (now_utc E) (\<lambda>now.
     let it = \<lparr>PK = user_pk user_id, SK = ''METADATA'', GSI1 = None,
               attrs = [(''email'', JStr email), (''created_at'', JNum now)]\<rparr> in
     except_condition
       (run_aws E (when_condition (\<lambda>w. row_get item_key (item_key it) (member_tbl w) = None)
          (put_items [it])))
       (ret ()) (Exn (Core MembershipError)))"

section \<open>The abstract view\<close>

text \<open>Who belongs to which organisation, with role and time of joining.\<close>

type_synonym memberships = "string \<times> string \<Rightarrow> (Role \<times> int) option"

definition member_of :: "item list \<Rightarrow> memberships" where
  "member_of tbl = (\<lambda>(user_id, org_id).
     case row_get item_key (user_pk user_id, org_pk org_id) tbl of
       None \<Rightarrow> None
     | Some it \<Rightarrow>
         (case to_membership user_id org_id it of
            Inl _ \<Rightarrow> None | Inr m \<Rightarrow> Some (mb_role m, mb_joined_at m)))"

text \<open>Items are what the operations write.\<close>

definition wf_item :: "item \<Rightarrow> bool" where
  "wf_item it \<longleftrightarrow>
     (\<exists>o_id u r t. it = membership_item o_id u r t) \<or>
     (GSI1 it = None \<and> SK it = ''METADATA'' \<and>
       ((\<exists>u. PK it = user_pk u) \<or>
        (\<exists>o_id n ow t. PK it = org_pk o_id \<and>
           attrs it = [(''name'', JStr n), (''owner_id'', JStr ow), (''created_at'', JNum t)])))"

definition wf_members :: "item list \<Rightarrow> bool" where
  "wf_members tbl \<longleftrightarrow> keyed item_key tbl \<and> list_all wf_item tbl"

lemma user_pk_inject [simp]: "user_pk u = user_pk v \<longleftrightarrow> u = v"
  by (simp add: user_pk_def)

lemma org_pk_inject [simp]: "org_pk g = org_pk h \<longleftrightarrow> g = h"
  by (simp add: org_pk_def)

lemma pk_distinct [simp]:
  "user_pk u \<noteq> org_pk g" "org_pk g \<noteq> user_pk u" "org_pk g \<noteq> ''METADATA''" "''METADATA'' \<noteq> org_pk g"
  by (simp_all add: user_pk_def org_pk_def)

lemma item_key_simps [simp]:
  "item_key (membership_item g u r t) = (user_pk u, org_pk g)"
  "item_key \<lparr>PK = p, SK = s, GSI1 = i, attrs = a\<rparr> = (p, s)"
  "item_key (it\<lparr>attrs := a2\<rparr>) = item_key it"
  by (simp_all add: item_key_def membership_item_def)

lemma role_value_inject: "role_value a = role_value b \<longleftrightarrow> a = b"
  by (cases a; cases b) auto

lemma Role_of_value [simp]: "Role_of (role_value r) = Some r"
  by (cases r) (simp_all add: Role_of_def)

lemma to_membership_item [simp]:
  "to_membership u g (membership_item g' u' r t) =
     Inr \<lparr>mb_user_id = u, mb_org_id = g, mb_role = r, mb_joined_at = t\<rparr>"
  by (simp add: to_membership_def membership_item_def item_attr_def bindS_def)

lemma wf_membership:
  assumes "wf_members tbl" and "row_get item_key (user_pk u, org_pk g) tbl = Some it"
  shows "\<exists>r t. it = membership_item g u r t"
proof -
  from row_get_SomeD [OF assms(2)] assms(1) have "wf_item it" and "item_key it = (user_pk u, org_pk g)"
    by (auto simp: wf_members_def list_all_iff)
  then show ?thesis by (auto simp: wf_item_def item_key_def membership_item_def)
qed

lemma wf_put: "wf_members tbl \<Longrightarrow> wf_item it \<Longrightarrow> wf_members (row_put item_key it tbl)"
  using set_row_put [of item_key it tbl] by (auto simp: wf_members_def list_all_iff)

lemma wf_del: "wf_members tbl \<Longrightarrow> wf_members (row_del item_key k tbl)"
  by (auto simp: wf_members_def list_all_iff set_row_del)

lemma wf_item_membership [simp]: "wf_item (membership_item g u r t)"
  unfolding wf_item_def by blast

lemma membership_item_inject [simp]:
  "membership_item g u r t = membership_item g' u' r' t' \<longleftrightarrow>
     g = g' \<and> u = u' \<and> r = r' \<and> t = t'"
  by (auto simp: membership_item_def role_value_inject)

lemma member_of_iff:
  "wf_members tbl \<Longrightarrow> member_of tbl (u, g) = Some (r, t) \<longleftrightarrow>
     row_get item_key (user_pk u, org_pk g) tbl = Some (membership_item g u r t)"
  using wf_membership [of tbl u g]
  by (auto simp: member_of_def split: option.splits)

lemma member_of_None:
  "wf_members tbl \<Longrightarrow> member_of tbl (u, g) = None \<longleftrightarrow>
     row_get item_key (user_pk u, org_pk g) tbl = None"
  using wf_membership [of tbl u g] by (auto simp: member_of_def split: option.splits)

lemma wf_item_org [simp]:
  "wf_item \<lparr>PK = org_pk g, SK = ''METADATA'', GSI1 = None,
     attrs = [(''name'', JStr n), (''owner_id'', JStr ow), (''created_at'', JNum t)]\<rparr>"
  by (simp add: wf_item_def)

lemma wf_item_user [simp]:
  "wf_item \<lparr>PK = user_pk u, SK = ''METADATA'', GSI1 = None, attrs = a\<rparr>"
  by (auto simp: wf_item_def)

section \<open>Commands and their abstract effect\<close>

datatype member_cmd =
    Create_org string string
  | Add_member string string Role string
  | Change_role string string Role string
  | Remove_member string string string
  | Create_user string string

fun exec :: "env \<Rightarrow> member_cmd \<Rightarrow> ('z member_world_scheme, unit) op" where
  "exec E (Create_org name owner) = thenE (create_org E name owner) (ret ())"
| "exec E (Add_member g u r by') = thenE (add_member E g u r by') (ret ())"
| "exec E (Change_role g u r by') = thenE (change_role E g u r by') (ret ())"
| "exec E (Remove_member g u by') = remove_member E g u by'"
| "exec E (Create_user u email) = create_user_if_not_exists E u email"

text \<open>The id given to the organisation that a call creates in a state.\<close>

definition new_org_id :: "env \<Rightarrow> nat \<Rightarrow> string \<Rightarrow> string" where
  "new_org_id E n name = slug name @ ''-'' @ take 8 (filter (\<lambda>c. c \<noteq> CHR ''-'') (uuid4 E (Suc n)))"

fun allowed :: "member_cmd \<Rightarrow> memberships \<Rightarrow> bool" where
  "allowed (Add_member g u r _) M \<longleftrightarrow> M (u, g) = None"
| "allowed (Change_role g u r _) M \<longleftrightarrow> M (u, g) \<noteq> None"
| "allowed (Remove_member g u _) M \<longleftrightarrow> M (u, g) \<noteq> None"
| "allowed _ M \<longleftrightarrow> True"

fun refusal :: "member_cmd \<Rightarrow> exn" where
  "refusal (Add_member _ _ _ _) = Exn (Core AlreadyExistsError)"
| "refusal _ = Exn (Core NotFoundError)"

fun effect :: "env \<Rightarrow> nat \<Rightarrow> member_cmd \<Rightarrow> memberships \<Rightarrow> memberships" where
  "effect E n (Create_org name owner) M = M((owner, new_org_id E n name) \<mapsto> (OWNER, utcnow E n))"
| "effect E n (Add_member g u r _) M = M((u, g) \<mapsto> (r, utcnow E n))"
| "effect E n (Change_role g u r _) M = M((u, g) := map_option (\<lambda>(_, t). (r, t)) (M (u, g)))"
| "effect E n (Remove_member g u _) M = M((u, g) := None)"
| "effect E n (Create_user _ _) M = M"

lemma member_of_put:
  "member_of (row_put item_key (membership_item g u r t) tbl) = (member_of tbl)((u, g) \<mapsto> (r, t))"
  by (auto simp: member_of_def member_store.get_put fun_eq_iff)

lemma member_of_put_other:
  assumes "\<And>u g. (user_pk u, org_pk g) \<noteq> item_key it"
  shows "member_of (row_put item_key it tbl) = member_of tbl"
  using assms by (auto simp: member_of_def member_store.get_put fun_eq_iff)

lemma member_of_del:
  "member_of (row_del item_key (user_pk u, org_pk g) tbl) = (member_of tbl)((u, g) := None)"
  by (auto simp: member_of_def member_store.get_del fun_eq_iff)

text \<open>What each operation does to the table.\<close>

lemma add_member_run:
  assumes "add_member E g u r i w = (res, w')"
  defines "k \<equiv> (user_pk u, org_pk g)"
  obtains (refused) "row_get item_key k (member_tbl w) \<noteq> None" "member_tbl w' = member_tbl w"
      "res = Inl (Exn (Core AlreadyExistsError))"
  | (written) "row_get item_key k (member_tbl w) = None"
      "member_tbl w' = row_put item_key (membership_item g u r (utcnow E (tick w))) (member_tbl w)"
  | (failed) "member_tbl w' = member_tbl w" "isl res" "\<not> no_faults E"
proof -
  from assms(1) show thesis
    unfolding add_member_def clock_binds Let_def thenE_def
    by (rule guarded_write [where f = member_tbl])
      (use that in \<open>auto simp: k_def intro!: frames\<close>)
qed

lemma change_role_run:
  assumes "change_role E g u r c w = (res, w')"
  defines "k \<equiv> (user_pk u, org_pk g)"
  obtains (refused) "row_get item_key k (member_tbl w) = None" "member_tbl w' = member_tbl w"
      "res = Inl (Exn (Core NotFoundError))"
  | (written) "row_get item_key k (member_tbl w) \<noteq> None"
      "member_tbl w' = row_upd item_key k
         (\<lambda>it. it\<lparr>attrs := dict_set ''role'' (JStr (role_value r)) (attrs it)\<rparr>) (member_tbl w)"
  | (failed) "member_tbl w' = member_tbl w" "isl res" "\<not> no_faults E"
proof -
  from assms(1) show thesis
    unfolding change_role_def Let_def
    by (rule guarded_write [where f = member_tbl])
      (use that in \<open>auto simp: k_def set_role_def bindE_app thenE_app liftS_def intro!: frames split: sum.split\<close>)
qed

lemma remove_member_run:
  assumes "remove_member E g u c w = (res, w')"
  defines "k \<equiv> (user_pk u, org_pk g)"
  obtains (refused) "row_get item_key k (member_tbl w) = None" "member_tbl w' = member_tbl w"
      "res = Inl (Exn (Core NotFoundError))"
  | (written) "row_get item_key k (member_tbl w) \<noteq> None"
      "member_tbl w' = row_del item_key k (member_tbl w)"
  | (failed) "member_tbl w' = member_tbl w" "isl res" "\<not> no_faults E"
proof -
  from assms(1) show thesis
    unfolding remove_member_def Let_def thenE_def
    by (rule guarded_write [where f = member_tbl])
      (use that in \<open>auto simp: k_def intro!: frames\<close>)
qed

lemma create_org_run:
  fixes w :: "'z member_world_scheme"
  assumes "create_org E name owner w = (res, w')"
  defines "g \<equiv> new_org_id E (tick w) name" and "now \<equiv> utcnow E (tick w)"
  obtains (written) "member_tbl w' = row_put item_key (membership_item g owner OWNER now)
        (row_put item_key \<lparr>PK = org_pk g, SK = ''METADATA'', GSI1 = None,
           attrs = [(''name'', JStr name), (''owner_id'', JStr owner), (''created_at'', JNum now)]\<rparr>
           (member_tbl w))"
      "\<And>o'. res = Inr o' \<Longrightarrow> o' = \<lparr>og_org_id = g, og_name = name, og_owner_id = owner, og_created_at = now\<rparr>"
  | (failed) "member_tbl w' = member_tbl w" "isl res"
proof -
  let ?org = "\<lparr>og_org_id = g, og_name = name, og_owner_id = owner, og_created_at = now\<rparr>"
  let ?its = "[\<lparr>PK = org_pk g, SK = ''METADATA'', GSI1 = None,
      attrs = [(''name'', JStr name), (''owner_id'', JStr owner), (''created_at'', JNum now)]\<rparr>,
      membership_item g owner OWNER now]"
  let ?put = "except_client (run_aws E (put_items ?its)) (Exn (Core MembershipError))
     :: ('z member_world_scheme, unit) op"
  let ?rest = "thenE (log_audit E g owner (Act ORG_CREATED) ''org'' g [(''name'', JStr name)]) (ret ?org)"
  from assms(1) have run: "thenE ?put ?rest (w\<lparr>tick := Suc (Suc (tick w))\<rparr>) = (res, w')"
    by (simp add: create_org_def clock_binds Let_def g_def new_org_id_def now_def)
  have "leaves member_tbl ?rest" by (intro frames) simp_all
  from thenE_frame [OF run this] obtain r1 w1 where
    put: "?put (w\<lparr>tick := Suc (Suc (tick w))\<rparr>) = (r1, w1)" and frame: "member_tbl w' = member_tbl w1"
    and err: "\<forall>e. r1 = Inl e \<longrightarrow> res = Inl e" by blast
  have res: "o' = ?org" if "res = Inr o'" for o'
    using run that by (auto simp: act_Inr)
  obtain r2 where "run_aws E (put_items ?its) (w\<lparr>tick := Suc (Suc (tick w))\<rparr>) = (r2, w1)"
      and r2: "isl r2 \<longrightarrow> isl r1"
    using put by (cases r1) (auto simp: except_client_Inl)
  then show thesis
    by (cases rule: run_aws_cases) (use that err frame r2 res in \<open>auto simp: isl_def\<close>)
qed

lemma create_user_run:
  assumes "create_user_if_not_exists E u email w = (res, w')"
  shows "member_tbl w' = member_tbl w \<or>
    (\<exists>t. member_tbl w' = row_put item_key \<lparr>PK = user_pk u, SK = ''METADATA'', GSI1 = None,
           attrs = [(''email'', JStr email), (''created_at'', JNum t)]\<rparr> (member_tbl w))"
  using assms unfolding create_user_if_not_exists_def clock_binds Let_def
  by (rule conditional_write_cases) auto

lemma member_of_upd:
  assumes "wf_members tbl"
  shows "member_of (row_upd item_key (user_pk u, org_pk g)
           (\<lambda>it. it\<lparr>attrs := dict_set ''role'' (JStr (role_value r)) (attrs it)\<rparr>) tbl) =
         (member_of tbl)((u, g) := map_option (\<lambda>(_, t). (r, t)) (member_of tbl (u, g)))"
proof -
  have upd: "(membership_item g u r0 t)\<lparr>attrs := dict_set ''role'' (JStr (role_value r))
      (attrs (membership_item g u r0 t))\<rparr> = membership_item g u r t" for r0 t
    by (simp add: membership_item_def)
  show ?thesis
  proof (cases "row_get item_key (user_pk u, org_pk g) tbl")
    case None
    then show ?thesis by (auto simp: member_of_def member_store.get_upd fun_eq_iff)
  next
    case (Some it)
    with wf_membership [OF assms Some] upd show ?thesis
      by (auto simp: member_of_def member_store.get_upd fun_eq_iff)
  qed
qed

lemma wf_upd:
  assumes "wf_members tbl"
  shows "wf_members (row_upd item_key (user_pk u, org_pk g)
           (\<lambda>it. it\<lparr>attrs := dict_set ''role'' (JStr (role_value r)) (attrs it)\<rparr>) tbl)"
proof -
  have "wf_item (it\<lparr>attrs := dict_set ''role'' (JStr (role_value r)) (attrs it)\<rparr>)"
    if "wf_item it" "item_key it = (user_pk u, org_pk g)" for it
  proof -
    from that have "\<exists>g' u' r' t. it = membership_item g' u' r' t"
      by (auto simp: wf_item_def item_key_def)
    then obtain g' u' r' t where "it = membership_item g' u' r' t" by blast
    then have "it\<lparr>attrs := dict_set ''role'' (JStr (role_value r)) (attrs it)\<rparr> = membership_item g' u' r t"
      by (simp add: membership_item_def)
    then show ?thesis by simp
  qed
  with assms show ?thesis
    by (auto simp: wf_members_def list_all_iff row_upd_def)
      (simp flip: row_upd_def)
qed

section \<open>Properties\<close>

lemma exec_refines:
  assumes run: "exec E c w = (r, w')" and wf: "wf_members (member_tbl w)"
  defines "M \<equiv> member_of (member_tbl w)"
  shows "wf_members (member_tbl w') \<and>
    (if allowed c M
     then member_of (member_tbl w') = effect E (tick w) c M \<or>
          (isl r \<and> member_of (member_tbl w') = M)
     else member_tbl w' = member_tbl w \<and> isl r \<and> (no_faults E \<longrightarrow> r = Inl (refusal c)))"
proof (cases c)
  case (Create_org name owner)
  with run obtain res where op: "create_org E name owner w = (res, w')" and r: "isl res \<longrightarrow> isl r"
    by (cases "create_org E name owner w") (auto simp: thenE_app split: sum.splits)
  from op show ?thesis
    by (cases rule: create_org_run)
      (use Create_org wf r in \<open>auto simp: M_def member_of_put member_of_put_other wf_put\<close>)
next
  case (Add_member g u ro i)
  with run obtain res where op: "add_member E g u ro i w = (res, w')"
      and r: "\<forall>e. res = Inl e \<longrightarrow> r = Inl e"
    by (cases "add_member E g u ro i w") (auto simp: thenE_app split: sum.splits)
  have allowed: "allowed c M \<longleftrightarrow> row_get item_key (user_pk u, org_pk g) (member_tbl w) = None"
    using Add_member wf by (simp add: M_def member_of_None)
  from op show ?thesis
    by (cases rule: add_member_run)
      (use allowed Add_member wf r in \<open>auto simp: M_def member_of_put wf_put isl_def\<close>)
next
  case (Change_role g u ro i)
  with run obtain res where op: "change_role E g u ro i w = (res, w')"
      and r: "\<forall>e. res = Inl e \<longrightarrow> r = Inl e"
    by (cases "change_role E g u ro i w") (auto simp: thenE_app split: sum.splits)
  have allowed: "allowed c M \<longleftrightarrow> row_get item_key (user_pk u, org_pk g) (member_tbl w) \<noteq> None"
    using Change_role member_of_None [OF wf, of u g] by (simp add: M_def)
  from op show ?thesis
    by (cases rule: change_role_run)
      (use allowed Change_role wf r in \<open>auto simp: M_def member_of_upd wf_upd isl_def\<close>)
next
  case (Remove_member g u i)
  with run have op: "remove_member E g u i w = (r, w')" by simp
  have allowed: "allowed c M \<longleftrightarrow> row_get item_key (user_pk u, org_pk g) (member_tbl w) \<noteq> None"
    using Remove_member member_of_None [OF wf, of u g] by (simp add: M_def)
  from op show ?thesis
    by (cases rule: remove_member_run)
      (use allowed Remove_member wf in \<open>auto simp: M_def member_of_del wf_del isl_def\<close>)
next
  case (Create_user u email)
  with run have "create_user_if_not_exists E u email w = (r, w')" by simp
  from create_user_run [OF this] Create_user wf show ?thesis
    by (auto simp: M_def member_of_put_other wf_put)
qed

definition fresh_members :: member_world where
  "fresh_members = fresh_audit (bus_world_ext [] (settings_world_ext [] (member_world_ext [] ())))"

lemma fresh_members_tbl [simp]: "member_tbl fresh_members = []"
  by (simp add: fresh_members_def fresh_audit_def)

lemma wf_members_Nil [simp]: "wf_members []"
  by (simp add: wf_members_def)

text \<open>
  C24: the operations implement the abstract map from users and organisations to roles.  An
  allowed command takes the map to its abstract effect, or leaves it unchanged and reports
  a failure; a command that is not allowed (adding a member twice, changing or removing
  one that does not exist) changes no item and, unless AWS fails, reports
  \<open>AlreadyExistsError\<close> or \<open>NotFoundError\<close>.  The form of the items is preserved.
\<close>

theorem membership_refinement:
  assumes "exec E c w = (r, w')" and "wf_members (member_tbl w)"
  shows "wf_members (member_tbl w') \<and>
    (if allowed c (member_of (member_tbl w))
     then member_of (member_tbl w') = effect E (tick w) c (member_of (member_tbl w)) \<or>
          (isl r \<and> member_of (member_tbl w') = member_of (member_tbl w))
     else member_tbl w' = member_tbl w \<and> isl r \<and> (no_faults E \<longrightarrow> r = Inl (refusal c)))"
  by (rule exec_refines [OF assms])

theorem membership_refinement_witness:
  "member_of (member_tbl (snd (exec sample_env (Add_member ''acme'' ''bob'' GUEST ''ann'') fresh_members)))
     (''bob'', ''acme'') = Some (GUEST, 0)"
proof -
  let ?c = "Add_member ''acme'' ''bob'' GUEST ''ann''"
  obtain r w' where run: "exec sample_env ?c fresh_members = (r, w')" by (rule prod.exhaust)
  then have "\<not> isl r"
    by (simp add: add_member_def clock_binds Let_def except_condition_def when_condition_def act_apps
        fresh_members_def fresh_audit_def) (auto simp: isl_def)
  moreover have "allowed ?c (member_of (member_tbl fresh_members))"
    by (simp add: member_of_None)
  ultimately show ?thesis
    using membership_refinement [OF run] run
    by (simp add: fresh_members_def fresh_audit_def)
qed

text \<open>Sequences of commands.\<close>

inductive reached :: "env \<Rightarrow> 'z member_world_scheme \<Rightarrow> 'z member_world_scheme \<Rightarrow> bool"
  for E :: env and w0 :: "'z member_world_scheme" where
  start: "reached E w0 w0"
| step: "reached E w0 w \<Longrightarrow> exec E c w = (r, w') \<Longrightarrow> reached E w0 w'"

lemma reached_wf: "reached E w0 w \<Longrightarrow> wf_members (member_tbl w0) \<Longrightarrow> wf_members (member_tbl w)"
  by (induction rule: reached.induct) (auto dest: exec_refines)

lemma get_membership_wf:
  assumes "wf_members (member_tbl w)" and "get_membership E u g w = (r, w')"
  shows "(\<exists>x. r = Inl (outage_exn x)) \<or>
    r = Inr (map_option (\<lambda>(ro, t). \<lparr>mb_user_id = u, mb_org_id = g, mb_role = ro, mb_joined_at = t\<rparr>)
          (member_of (member_tbl w) (u, g)))"
proof -
  let ?row = "row_get item_key (user_pk u, org_pk g) (member_tbl w)"
  let ?read = "getsE (\<lambda>w. row_get item_key (user_pk u, org_pk g) (member_tbl w))
     :: ('a member_world_scheme, item option) op"
  obtain r1 w1 where read: "run_aws E ?read w = (r1, w1)" by (rule prod.exhaust)
  then show ?thesis
  proof (cases rule: run_aws_cases)
    case 1
    then have "r1 = Inr ?row" by auto
    with read assms(2) have run: "(case ?row of None \<Rightarrow> ret None
        | Some it \<Rightarrow> liftS (bindS (to_membership u g it) (\<lambda>m. Inr (Some m)))) w1 = (r, w')"
      by (simp add: get_membership_def bindE_app)
    show ?thesis
    proof (cases ?row)
      case None
      with run assms(1) show ?thesis by (simp add: member_of_def)
    next
      case (Some it)
      with wf_membership [OF assms(1) Some] run show ?thesis
        by (auto simp: member_of_def bindS_def liftS_def)
    qed
  next
    case (2 x)
    with read assms(2) show ?thesis by (auto simp: get_membership_def bindE_app)
  next
    case (3 x)
    with read assms(2) show ?thesis by (auto simp: get_membership_def bindE_app)
  qed
qed

text \<open>
  After any sequence of commands, whatever AWS did to them, a membership read returns
  the abstract map's entry; the only errors it can raise are those of AWS, never one from
  a malformed item.
\<close>

theorem reads_after_commands:
  assumes "reached E w0 w" and "member_tbl w0 = []" and "get_membership E u g w = (r, w')"
  shows "(\<exists>x. r = Inl (outage_exn x)) \<or>
    r = Inr (map_option (\<lambda>(ro, t). \<lparr>mb_user_id = u, mb_org_id = g, mb_role = ro, mb_joined_at = t\<rparr>)
          (member_of (member_tbl w) (u, g)))"
  using assms by (intro get_membership_wf reached_wf [OF assms(1)]) auto

theorem reads_after_commands_witness:
  "fst (get_membership sample_env ''bob'' ''acme'' fresh_members) = Inr None"
proof -
  obtain r w' where run: "get_membership sample_env ''bob'' ''acme'' fresh_members = (r, w')"
    by (rule prod.exhaust)
  then have "\<not> isl r" by (simp add: get_membership_def bindE_app) (auto simp: isl_def)
  with reads_after_commands [OF start _ run] run show ?thesis
    by (auto simp: member_of_None isl_def)
qed

lemma mapS_Inr:
  "mapS f xs = Inr ys \<longleftrightarrow> list_all2 (\<lambda>x y. f x = Inr y) xs ys"
proof (induction xs arbitrary: ys)
  case (Cons x xs)
  then show ?case by (cases ys) (auto simp: bindS_Inr)
qed auto

lemma GSI1_membership_item [simp]: "GSI1 (membership_item g u r t) = Some (org_pk g, user_pk u)"
  by (simp add: membership_item_def)

lemma wf_item_index:
  "wf_item it \<Longrightarrow> map_option fst (GSI1 it) = Some (org_pk g) \<Longrightarrow> \<exists>u r t. it = membership_item g u r t"
  by (auto simp: wf_item_def)

lemma org_member_items_wf:
  assumes "wf_members tbl"
  shows "set (org_member_items g tbl) =
    {membership_item g u r t | u r t. member_of tbl (u, g) = Some (r, t)}"
proof -
  have "it \<in> set (org_member_items g tbl) \<longleftrightarrow>
      (\<exists>u r t. it = membership_item g u r t \<and> it \<in> set tbl)" for it
    using assms wf_item_index [of it g] by (auto simp: org_member_items_def wf_members_def list_all_iff)
  then show ?thesis
    using assms by (auto simp: member_of_iff row_get_keyed wf_members_def)
qed

lemma after_append [simp]: "after p (p @ s) = s"
  by (simp add: after_def)

lemma after_user [simp]: "after ''USER#'' (user_pk u) = u" and after_org [simp]: "after ''ORG#'' (org_pk g) = g"
  by (simp_all add: after_def user_pk_def org_pk_def)

lemma to_membership_index:
  "to_membership (after ''USER#'' (snd (the (GSI1 (membership_item g u r t))))) g (membership_item g u r t) =
     Inr \<lparr>mb_user_id = u, mb_org_id = g, mb_role = r, mb_joined_at = t\<rparr>"
  by simp

lemma list_org_members_Inr:
  assumes "list_org_members E g w = (Inr ms, w')"
  shows "\<exists>ms0. ms = sort_key mb_role ms0 \<and>
    list_all2 (\<lambda>it m. to_membership (after ''USER#'' (snd (the (GSI1 it)))) g it = Inr m)
      (org_member_items g (member_tbl w)) ms0"
  using assms unfolding list_org_members_def
  by (auto simp: act_Inr mapS_Inr dest!: run_aws_Inr)

lemma keyed_distinct: "keyed key xs \<Longrightarrow> distinct xs"
  by (simp add: keyed_def distinct_map)

text \<open>
  the listing of an organisation.  It contains every member of the organisation and
  nobody else, once, with the stored role, ordered by role (owners first), and within a
  role in the order of the index.
\<close>

theorem list_members_exact:
  assumes "list_org_members E g w = (Inr ms, w')" and "wf_members (member_tbl w)"
  shows "set ms = {\<lparr>mb_user_id = u, mb_org_id = g, mb_role = r, mb_joined_at = t\<rparr> | u r t.
           member_of (member_tbl w) (u, g) = Some (r, t)} \<and>
    sorted (map mb_role ms) \<and> distinct (map mb_user_id ms)"
proof -
  let ?its = "org_member_items g (member_tbl w)"
  let ?f = "\<lambda>it. to_membership (after ''USER#'' (snd (the (GSI1 it)))) g it"
  let ?mk = "\<lambda>u r t. \<lparr>mb_user_id = u, mb_org_id = g, mb_role = r, mb_joined_at = t\<rparr>"
  from list_org_members_Inr [OF assms(1)] obtain ms0 where
    ms: "ms = sort_key mb_role ms0" and all: "list_all2 (\<lambda>it m. ?f it = Inr m) ?its ms0" by blast
  have its: "set ?its = {membership_item g u r t | u r t. member_of (member_tbl w) (u, g) = Some (r, t)}"
    by (rule org_member_items_wf [OF assms(2)])
  have f: "?f (membership_item g u r t) = Inr (?mk u r t)" for u r t
    by (rule to_membership_index)
  have mk: "\<exists>u r t. it = membership_item g u r t \<and> m = ?mk u r t \<and>
      member_of (member_tbl w) (u, g) = Some (r, t)" if "?f it = Inr m" "it \<in> set ?its" for it m
    using that f its by auto
  have ms0: "ms0 = map (\<lambda>it. projr (?f it)) ?its"
    using all by (auto simp: list_all2_conv_all_nth intro: nth_equalityI)
  have "set ms0 = {?mk u r t | u r t. member_of (member_tbl w) (u, g) = Some (r, t)}"
    unfolding ms0 set_map its by (rule set_eqI) (auto simp: image_iff, force)
  moreover have "distinct (map mb_user_id ms0)"
  proof -
    have "distinct ?its"
      using assms(2) keyed_distinct [of item_key "member_tbl w"]
      by (simp add: org_member_items_def wf_members_def)
    moreover have "inj_on (\<lambda>it. mb_user_id (projr (?f it))) (set ?its)"
      using its by (auto simp: inj_on_def f)
    ultimately have "distinct (map (\<lambda>it. mb_user_id (projr (?f it))) ?its)"
      unfolding distinct_map by blast
    then show ?thesis unfolding ms0 map_map comp_def .
  qed
  ultimately show ?thesis by (simp add: ms distinct_map)
qed

lemma user_pk_order: "user_pk ''bob'' \<le> user_pk ''ann'' \<longleftrightarrow> False"
  by (simp add: user_pk_def less_le_not_le)

theorem list_members_exact_witness:
  "\<exists>ms w'. list_org_members sample_env ''acme'' (fresh_members\<lparr>member_tbl :=
       [membership_item ''acme'' ''bob'' GUEST 7, membership_item ''acme'' ''ann'' OWNER 5,
        membership_item ''other'' ''eve'' OWNER 6]\<rparr>) = (Inr ms, w') \<and>
     sorted (map mb_role ms) \<and> length ms = 2"
proof -
  let ?tbl = "[membership_item ''acme'' ''bob'' GUEST 7, membership_item ''acme'' ''ann'' OWNER 5,
        membership_item ''other'' ''eve'' OWNER 6]"
  obtain ms w' where run: "list_org_members sample_env ''acme'' (fresh_members\<lparr>member_tbl := ?tbl\<rparr>)
      = (Inr ms, w')" and len: "length ms = 2"
    by (simp add: list_org_members_def bindE_app org_member_items_def liftS_def bindS_def
        to_membership_index user_pk_order)
  have "wf_members ?tbl"
    by (simp add: wf_members_def keyed_def)
  with list_members_exact [OF run] run len show ?thesis by simp
qed

text \<open>Shape of the generated organisation ids.\<close>

definition url_safe :: "string \<Rightarrow> bool" where
  "url_safe s \<longleftrightarrow> s \<noteq> [] \<and> hd s \<noteq> CHR ''-'' \<and> (\<forall>c \<in> set s. slug_char c \<or> c = CHR ''-'')"

lemma dash_runs_chars: "c \<in> set (dash_runs b s) \<Longrightarrow> slug_char c \<or> c = CHR ''-''"
  by (induction b s rule: dash_runs.induct) (auto split: if_splits)

lemma strip_char_subset: "set (strip_char c s) \<subseteq> set s"
  unfolding strip_char_def by (auto dest!: set_dropWhileD)

lemma strip_char_hd: "strip_char c s \<noteq> [] \<Longrightarrow> hd (strip_char c s) \<noteq> c"
proof -
  let ?t = "dropWhile (\<lambda>x. x = c) s"
  assume ne: "strip_char c s \<noteq> []"
  then have "?t \<noteq> []" unfolding strip_char_def by (metis dropWhile.simps(1) rev.simps(1))
  then have t: "hd ?t \<noteq> c" by (rule hd_dropWhile)
  have "rev ?t = takeWhile (\<lambda>x. x = c) (rev ?t) @ dropWhile (\<lambda>x. x = c) (rev ?t)"
    by simp
  then have "?t = strip_char c s @ rev (takeWhile (\<lambda>x. x = c) (rev ?t))"
    unfolding strip_char_def by (metis rev_append rev_rev_ident)
  with ne t show ?thesis by (metis hd_append2)
qed

lemma slug_url_safe: "url_safe (slug name)"
proof -
  let ?b = "strip_char (CHR ''-'') (dash_runs False (map lower name))"
  have b: "\<forall>c \<in> set ?b. slug_char c \<or> c = CHR ''-''"
    using strip_char_subset dash_runs_chars by blast
  have org: "url_safe ''org''"
    by code_simp
  show ?thesis
  proof (cases "?b = []")
    case True
    with org show ?thesis by (simp add: slug_def)
  next
    case False
    with b strip_char_hd [OF False] show ?thesis unfolding slug_def url_safe_def by (simp add: Let_def)
  qed
qed

lemma create_org_Inr:
  assumes "create_org E name owner w = (Inr g, w')"
  shows "og_org_id g = new_org_id E (tick w) name"
    and "row_get item_key (org_pk (og_org_id g), ''METADATA'') (member_tbl w') =
      Some \<lparr>PK = org_pk (og_org_id g), SK = ''METADATA'', GSI1 = None,
           attrs = [(''name'', JStr name), (''owner_id'', JStr owner), (''created_at'', JNum (utcnow E (tick w)))]\<rparr>"
    and "member_of (member_tbl w') (owner, og_org_id g) = Some (OWNER, utcnow E (tick w))"
  using assms
  by (cases rule: create_org_run; simp add: member_store.get_put member_of_put isl_def)+

text \<open>
  Creating an organisation.  On success the creator is its owner, its record can be
  read back, and its id is made of a slug of the name and a suffix of the uuid: it is not
  empty, does not start with a dash, and consists of the characters a-z, 0-9 and '-' when
  the uuid does; in particular it contains no '/'.
\<close>

theorem create_org_effect:
  assumes "create_org E name owner w = (Inr g, w')"
    and "\<forall>n. \<forall>c \<in> set (uuid4 E n). slug_char c \<or> c = CHR ''-''"
  shows "member_of (member_tbl w') (owner, og_org_id g) = Some (OWNER, utcnow E (tick w)) \<and>
    row_get item_key (org_pk (og_org_id g), ''METADATA'') (member_tbl w') =
      Some \<lparr>PK = org_pk (og_org_id g), SK = ''METADATA'', GSI1 = None,
           attrs = [(''name'', JStr name), (''owner_id'', JStr owner), (''created_at'', JNum (utcnow E (tick w)))]\<rparr> \<and>
    startswith (og_org_id g) (slug name @ ''-'') \<and>
    url_safe (og_org_id g) \<and> CHR ''/'' \<notin> set (og_org_id g)"
proof -
  have "slug name \<noteq> []" "hd (slug name) \<noteq> CHR ''-''"
      "\<forall>c \<in> set (slug name). slug_char c \<or> c = CHR ''-''"
    using slug_url_safe [of name] by (simp_all add: url_safe_def)
  moreover have "\<forall>c \<in> set (take 8 (filter (\<lambda>c. c \<noteq> CHR ''-'') (uuid4 E n))). slug_char c \<or> c = CHR ''-''" for n
    using assms(2) by (fastforce dest!: in_set_takeD)
  ultimately have safe: "url_safe (new_org_id E (tick w) name)"
    unfolding url_safe_def new_org_id_def by auto
  moreover have "\<not> slug_char (CHR ''/'')"
    by code_simp
  ultimately have "CHR ''/'' \<notin> set (new_org_id E (tick w) name)"
    unfolding url_safe_def by auto
  with safe create_org_Inr [OF assms(1)] show ?thesis
    by (simp add: startswith_iff new_org_id_def)
qed

definition hex_env :: env where
  "hex_env = sample_env\<lparr>uuid4 := (\<lambda>_. ''0123abcd-4567-89ab'')\<rparr>"

lemma hex_slug: "list_all (\<lambda>c. slug_char c \<or> c = CHR ''-'') ''0123abcd-4567-89ab''"
  by code_simp

theorem create_org_effect_witness:
  "\<exists>g w'. create_org hex_env ''A & B'' ''ann'' fresh_members = (Inr g, w') \<and>
     og_org_id g = ''a-b-0123abcd'' \<and> url_safe (og_org_id g)"
proof -
  have [simp]: "no_faults hex_env" "uuid4 hex_env n = ''0123abcd-4567-89ab''" for n
    by (simp_all add: hex_env_def no_faults_def)
  obtain g w' where run: "create_org hex_env ''A & B'' ''ann'' fresh_members = (Inr g, w')"
    and id: "og_org_id g = slug ''A & B'' @ ''-'' @ ''0123abcd''"
    by (simp add: create_org_def clock_binds Let_def act_apps except_client_def)
  have "slug ''A & B'' = ''a-b''" by code_simp
  moreover have "\<forall>n. \<forall>c \<in> set (uuid4 hex_env n). slug_char c \<or> c = CHR ''-''"
    using hex_slug unfolding list_all_iff by simp
  ultimately show ?thesis using create_org_effect [OF run] run id by auto
qed

lemma get_membership_leaves [frames]:
  assumes "\<And>w g. f (tick_update g w) = f w"
  shows "leaves f (get_membership E user_id org_id)"
  unfolding get_membership_def liftS_def by (intro frames) (simp_all add: assms)

end
