(* ===== verification/A2Z_Storage.thy ===== *)
theory A2Z_Storage
  imports A2Z_Membership A2Z_Cache
begin

text \<open>
  File storage of \<open>app/core/storage.py\<close> (objects in S3, metadata rows in DynamoDB) and the
  cached signed URLs of \<open>app/services/omnichannel/media.py\<close>.  Bytes are lists of 8-bit
  characters; a metadata row is its attributes.
\<close>

section \<open>Timestamps\<close>

text \<open>
  \<open>strftime("%Y%m%d-%H%M%S-%f")\<close> of a UTC time in microseconds: the proleptic Gregorian
  date of a day number, counting years from the first of March.
\<close>

definition civil :: "int \<Rightarrow> int \<times> int \<times> int" where
  "civil days =
     (let z = days + 719468;
          era = z div 146097;
          doe = z - era * 146097;
          yoe = (doe - doe div 1460 + doe div 36524 - doe div 146096) div 365;
          doy = doe - (365 * yoe + yoe div 4 - yoe div 100);
          mp = (5 * doy + 2) div 153;
          d = doy - (153 * mp + 2) div 5 + 1;
          m = (if mp < 10 then mp + 3 else mp - 9)
      in (yoe + era * 400 + (if m \<le> 2 then 1 else 0), m, d))"

definition pad :: "nat \<Rightarrow> int \<Rightarrow> string" where
  "pad k i = zfill k (show_int i)"

definition timestamp :: "int \<Rightarrow> string" where
  "timestamp us =
     (let secs = us div 1000000; days = secs div 86400; s = secs mod 86400; (y, m, d) = civil days
      in pad 4 y @ pad 2 m @ pad 2 d @ ''-'' @ pad 2 (s div 3600) @ pad 2 (s mod 3600 div 60) @
         pad 2 (s mod 60) @ ''-'' @ pad 6 (us mod 1000000))"

section \<open>State\<close>

type_synonym file_row = "(string \<times> string) \<times> (string \<times> json) list"

record storage_world = member_world +
  s3 :: "string \<Rightarrow> string option"          \<comment> \<open>the bucket: key to bytes\<close>
  files_tbl :: "file_row list"              \<comment> \<open>rows keyed by organisation and object key\<close>
  media_cache :: "string ttl_cache"         \<comment> \<open>signed URLs of \<open>media.py\<close>\<close>

interpretation file_store:
  keyed_store "row_get fst" "row_put fst" "row_del fst" "row_upd fst"
    "fst :: file_row \<Rightarrow> string \<times> string" "keyed fst"
  by (rule row_store)

record stored_file =
  sf_key :: string
  sf_filename :: string
  sf_signed_url :: string
  sf_size_bytes :: int
  sf_mime_type :: string
  sf_uploaded_at :: int
  sf_uploaded_by :: string
  sf_service_type :: "string option"

definition MAX_FILE_BYTES :: int where
  "MAX_FILE_BYTES = 100 * 1024 * 1024"

definition SIGNED_URL_TTL :: int where
  "SIGNED_URL_TTL = 3600"

section \<open>Operations\<close>

definition generate_signed_url :: "env \<Rightarrow> string \<Rightarrow> int \<Rightarrow> ('z storage_world_scheme, string) op" where
  "generate_signed_url E key expires_in = bindE next_tick (\<lambda>n. ret (presign E key expires_in n))"

definition in_scope :: "string \<Rightarrow> string \<Rightarrow> bool" where
  "in_scope org_id key \<longleftrightarrow> startswith key (org_id @ ''/'')"

definition assert_org_scope :: "string \<Rightarrow> string \<Rightarrow> ('z storage_world_scheme, unit) op" where
  "assert_org_scope org_id key =
     (if \<not> in_scope org_id key then raise (Exn (Core StorageError)) else ret ())"

definition file_key :: "string \<Rightarrow> string \<Rightarrow> int \<Rightarrow> string \<Rightarrow> string" where
  "file_key org_id service_type now filename =
     org_id @ ''/'' @ service_type @ ''/'' @ timestamp now @ ''_'' @ filename"

definition upload_file ::
  "env \<Rightarrow> string \<Rightarrow> string \<Rightarrow> string \<Rightarrow> string \<Rightarrow> string \<Rightarrow> string \<Rightarrow> int option
    \<Rightarrow> ('z storage_world_scheme, stored_file) op" where
  "upload_file E org_id service_type filename content mime_type uploaded_by ttl_days =
     (if int (length content) > MAX_FILE_BYTES then raise (Exn (Core FileTooLargeError))
      else
        bindE (now_utc E) (\<lambda>now.
        let key = file_key org_id service_type now filename;
            meta = [(''filename'', JStr filename), (''size_bytes'', JNum (int (length content))),
                    (''mime_type'', JStr mime_type), (''uploaded_at'', JNum now),
                    (''uploaded_by'', JStr uploaded_by), (''service_type'', JStr service_type),
                    (''is_deleted'', JBool False)] @
                   (case ttl_days of None \<Rightarrow> []
                    | Some d \<Rightarrow> [(''ttl'', JNum (epoch_seconds (now + d * 86400 * 1000000)))])
        in thenE (except_client
             (run_aws E (modifyE (\<lambda>w. w\<lparr>s3 := (s3 w)(key \<mapsto> content)\<rparr>))) (Exn (Core StorageError)))
          (thenE (run_aws E (modifyE (\<lambda>w. w\<lparr>files_tbl := row_put fst ((org_id, key), meta) (files_tbl w)\<rparr>)))
          (thenE (log_audit E org_id uploaded_by (Act FILE_UPLOADED) ''file'' key
             [(''filename'', JStr filename), (''size_bytes'', JNum (int (length content))),
              (''mime_type'', JStr mime_type)])
          (bindE (generate_signed_url E key SIGNED_URL_TTL) (\<lambda>signed.
           ret \<lparr>sf_key = key, sf_filename = filename, sf_signed_url = signed,
                sf_size_bytes = int (length content), sf_mime_type = mime_type,
                sf_uploaded_at = now, sf_uploaded_by = uploaded_by,
                sf_service_type = Some service_type\<rparr>))))))"

definition download_file :: "env \<Rightarrow> string \<Rightarrow> string \<Rightarrow> ('z storage_world_scheme, string) op" where
  "download_file E org_id key =
     thenE (assert_org_scope org_id key)
     (catchE
       (run_aws E (bindE (getsE (\<lambda>w. s3 w key)) (\<lambda>obj.
          case obj of None \<Rightarrow> raise (AwsError ''NoSuchKey'') | Some body \<Rightarrow> ret body)))
       (\<lambda>e. case e of
          AwsError code \<Rightarrow>
            if code \<in> {''NoSuchKey'', ''404''} then raise (Exn (Core StorageNotFoundError))
            else raise (Exn (Core StorageError))
        | _ \<Rightarrow> raise e))"

text \<open>\<open>data[k]\<close>, with the conversion of the model's field.\<close>

definition attr :: "(string \<times> json) list \<Rightarrow> string \<Rightarrow> (json \<Rightarrow> exn + 'a) \<Rightarrow> exn + 'a" where
  "attr d k f = (case map_of d k of None \<Rightarrow> Inl (Exn (Py KeyErrorPy)) | Some v \<Rightarrow> f v)"

fun as_opt_str :: "json option \<Rightarrow> exn + string option" where
  "as_opt_str None = Inr None"
| "as_opt_str (Some JNull) = Inr None"
| "as_opt_str (Some (JStr s)) = Inr (Some s)"
| "as_opt_str _ = Inl (Exn (Py ValidationErrorPy))"

definition to_stored_file :: "env \<Rightarrow> file_row \<Rightarrow> ('z storage_world_scheme, stored_file) op" where
  "to_stored_file E row = (case row of ((org_id, key), data) \<Rightarrow>
     bindE (generate_signed_url E key SIGNED_URL_TTL) (\<lambda>signed. liftS (
       bindS (attr data ''filename'' as_str) (\<lambda>fname.
       bindS (attr data ''size_bytes'' (as_int E)) (\<lambda>size.
       bindS (attr data ''mime_type'' as_str) (\<lambda>mime.
       bindS (attr data ''uploaded_at'' time_json) (\<lambda>uploaded.
       bindS (attr data ''uploaded_by'' as_str) (\<lambda>by'.
       bindS (as_opt_str (map_of data ''service_type'')) (\<lambda>svc.
       Inr \<lparr>sf_key = key, sf_filename = fname, sf_signed_url = signed, sf_size_bytes = size,
            sf_mime_type = mime, sf_uploaded_at = uploaded, sf_uploaded_by = by',
            sf_service_type = svc\<rparr>)))))))))"

definition get_file_metadata :: "env \<Rightarrow> string \<Rightarrow> string \<Rightarrow> ('z storage_world_scheme, stored_file) op" where
  "get_file_metadata E org_id key =
     thenE (assert_org_scope org_id key)
     (bindE (run_aws E (getsE (\<lambda>w. row_get fst (org_id, key) (files_tbl w)))) (\<lambda>resp.
      case resp of
        None \<Rightarrow> raise (Exn (Core StorageNotFoundError))
      | Some row \<Rightarrow> to_stored_file E row))"

text \<open>\<open>UpdateItem\<close> with \<open>SET is_deleted = true\<close> creates the row when there is none.\<close>

definition mark_deleted :: "string \<times> string \<Rightarrow> file_row list \<Rightarrow> file_row list" where
  "mark_deleted k tbl =
     row_put fst (k, dict_set ''is_deleted'' (JBool True)
       (case row_get fst k tbl of None \<Rightarrow> [] | Some (_, data) \<Rightarrow> data)) tbl"

definition delete_file :: "env \<Rightarrow> string \<Rightarrow> string \<Rightarrow> string \<Rightarrow> ('z storage_world_scheme, unit) op" where
  "delete_file E org_id key deleted_by =
     thenE (assert_org_scope org_id key)
     (thenE (except_client
        (run_aws E (modifyE (\<lambda>w. w\<lparr>s3 := (s3 w)(key := None)\<rparr>))) (Exn (Core StorageError)))
     (thenE (run_aws E (modifyE (\<lambda>w. w\<lparr>files_tbl := mark_deleted (org_id, key) (files_tbl w)\<rparr>)))
     (thenE (log_audit E org_id deleted_by (Act FILE_DELETED) ''file'' key [])
     (ret ()))))"

definition list_rows :: "string \<Rightarrow> string option \<Rightarrow> file_row list \<Rightarrow> file_row list" where
  "list_rows org_id service_type tbl =
     (case service_type of
        Some s \<Rightarrow> filter (\<lambda>((o', _), data). o' = org_id \<and> map_of data ''service_type'' = Some (JStr s)) tbl
      | None \<Rightarrow> sort_key (\<lambda>((_, key), _). key) (filter (\<lambda>((o', _), _). o' = org_id) tbl))"

definition listed :: "string option \<Rightarrow> file_row \<Rightarrow> bool" where
  "listed filename_prefix row = (case row of (_, data) \<Rightarrow>
     \<not> truthy (field data ''is_deleted'') \<and>
     (case filename_prefix of
        None \<Rightarrow> True
      | Some p \<Rightarrow> p = [] \<or>
          (case map_of data ''filename'' of
             Some (JStr f) \<Rightarrow> startswith f p | _ \<Rightarrow> False)))"

definition list_files ::
  "env \<Rightarrow> string \<Rightarrow> string option \<Rightarrow> string option \<Rightarrow> ('z storage_world_scheme, stored_file list) op" where
  "list_files E org_id service_type filename_prefix =
     bindE (run_aws E (getsE (\<lambda>w. list_rows org_id service_type (files_tbl w)))) (\<lambda>rows.
       mapE (to_stored_file E) (filter (listed filename_prefix) rows))"

section \<open>Cached signed URLs\<close>

definition SIGN_EXPIRY_SECONDS :: int where
  "SIGN_EXPIRY_SECONDS = 2 * 3600"

definition MEDIA_CACHE_TTL :: rat where
  "MEDIA_CACHE_TTL = 3600"

definition media_cache_key :: "string \<Rightarrow> string" where
  "media_cache_key s3_key = ''mediaurl:'' @ s3_key"

definition media_get :: "env \<Rightarrow> string \<Rightarrow> ('z storage_world_scheme, string option) op" where
  "media_get E key = bindE (now_monotonic E) (\<lambda>now w.
     let (v, st) = cache_get (media_cache w) now key in (Inr v, w\<lparr>media_cache := st\<rparr>))"

definition media_set :: "env \<Rightarrow> string \<Rightarrow> string \<Rightarrow> rat \<Rightarrow> ('z storage_world_scheme, unit) op" where
  "media_set E key value ttl_seconds = bindE (now_monotonic E) (\<lambda>now.
     modifyE (\<lambda>w. w\<lparr>media_cache := cache_set (media_cache w) now key value ttl_seconds\<rparr>))"

definition signed_url_for_attachment ::
  "env \<Rightarrow> string \<Rightarrow> string \<Rightarrow> ('z storage_world_scheme, string) op" where
  "signed_url_for_attachment E org_id s3_key =
     (if \<not> in_scope org_id s3_key then raise (Exn (Core StorageError))
      else
        bindE (media_get E (media_cache_key s3_key)) (\<lambda>cached.
        case cached of
          Some url \<Rightarrow> ret url
        | None \<Rightarrow>
            bindE (generate_signed_url E s3_key SIGN_EXPIRY_SECONDS) (\<lambda>url.
            thenE (media_set E (media_cache_key s3_key) url MEDIA_CACHE_TTL) (ret url))))"

section \<open>Lemmas\<close>

lemma in_scope_iff: "in_scope org_id key \<longleftrightarrow> (\<exists>t. key = org_id @ ''/'' @ t)"
  by (auto simp: in_scope_def startswith_iff)

lemma scope_partition: "in_scope g key \<Longrightarrow> CHR ''/'' \<notin> set g \<Longrightarrow>
    map_option fst (partition_at (CHR ''/'') key) = Some g"
  by (auto simp: in_scope_iff partition_at_append)

lemma in_scope_unique:
  "in_scope g key \<Longrightarrow> in_scope h key \<Longrightarrow> CHR ''/'' \<notin> set g \<Longrightarrow> CHR ''/'' \<notin> set h \<Longrightarrow> g = h"
  using scope_partition [of g key] scope_partition [of h key] by simp

lemma file_key_in_scope [simp]: "in_scope g (file_key g svc now fname)"
  by (auto simp: in_scope_iff file_key_def)

text \<open>What one organisation owns: its objects and its rows.\<close>

definition tenant_view ::
  "string \<Rightarrow> 'z storage_world_scheme \<Rightarrow> (string \<Rightarrow> string option) \<times> file_row list" where
  "tenant_view g w =
     (s3 w |` {key. in_scope g key}, filter (\<lambda>((o', _), _). o' = g) (files_tbl w))"

lemma filter_row_put:
  "\<not> P r \<Longrightarrow> (\<And>x. key x = key r \<Longrightarrow> \<not> P x) \<Longrightarrow> filter P (row_put key r rows) = filter P rows"
proof -
  assume P: "\<not> P r" "\<And>x. key x = key r \<Longrightarrow> \<not> P x"
  then have "filter P (map (\<lambda>x. if key x = key r then r else x) rows) = filter P rows"
    by (induction rows) auto
  with P show ?thesis by (simp add: row_put_def)
qed

lemma tenant_view_simps [simp]:
  "tenant_view g (tick_update f w) = tenant_view g w"
  "tenant_view g (audit_tbl_update f2 w) = tenant_view g w"
  "tenant_view g (media_cache_update f3 w) = tenant_view g w"
  by (simp_all add: tenant_view_def)

lemma tenant_view_s3: "\<not> in_scope g key \<Longrightarrow> tenant_view g (w\<lparr>s3 := (s3 w)(key := v)\<rparr>) = tenant_view g w"
  by (auto simp: tenant_view_def restrict_map_def fun_eq_iff)

lemma tenant_view_row:
  "h \<noteq> g \<Longrightarrow> tenant_view g (w\<lparr>files_tbl := row_put fst ((h, key), d) (files_tbl w)\<rparr>) = tenant_view g w"
  using filter_row_put [of "\<lambda>((o', _), _). o' = g" "((h, key), d)" fst "files_tbl w"]
  unfolding tenant_view_def by auto

lemma generate_signed_url_leaves [frames]:
  "(\<And>w g. f (tick_update g w) = f w) \<Longrightarrow> leaves f (generate_signed_url E key n)"
  unfolding generate_signed_url_def by (intro frames) simp_all

lemma liftS_leaves [frames]: "leaves f (liftS m)"
  by (cases m) (simp_all add: liftS_def leaves_def)

lemma to_stored_file_leaves [frames]:
  "(\<And>w g. f (tick_update g w) = f w) \<Longrightarrow> leaves f (to_stored_file E row)"
  unfolding to_stored_file_def by (intro frames) simp_all

lemma upload_file_leaves_other:
  assumes "h \<noteq> g" "CHR ''/'' \<notin> set g" "CHR ''/'' \<notin> set h"
  shows "leaves (tenant_view h) (upload_file E g svc fname content mime by' ttl_days)"
proof -
  have "\<not> in_scope h (file_key g svc now fname)" for now
    using in_scope_unique [of g "file_key g svc now fname" h] assms by auto
  then show ?thesis
    using assms(1) unfolding upload_file_def Let_def
    by (intro frames) (simp_all add: tenant_view_s3 tenant_view_row)
qed

lemma delete_file_leaves_other:
  assumes "h \<noteq> g" "CHR ''/'' \<notin> set g" "CHR ''/'' \<notin> set h"
  shows "leaves (tenant_view h) (delete_file E g key by')"
proof (cases "in_scope g key")
  case True
  then have "\<not> in_scope h key"
    using in_scope_unique [of g key h] assms by auto
  then show ?thesis
    using assms(1) unfolding delete_file_def assert_org_scope_def mark_deleted_def
    by (intro frames) (simp_all add: tenant_view_s3 tenant_view_row)
next
  case False
  then show ?thesis
    by (simp add: delete_file_def assert_org_scope_def leaves_def thenE_app)
qed

lemma out_of_scope:
  assumes "\<not> in_scope g key"
  shows "download_file E g key w = (Inl (Exn (Core StorageError)), w)"
    and "get_file_metadata E g key w = (Inl (Exn (Core StorageError)), w)"
    and "delete_file E g key by' w = (Inl (Exn (Core StorageError)), w)"
    and "signed_url_for_attachment E g key w = (Inl (Exn (Core StorageError)), w)"
  using assms by (simp_all add: download_file_def get_file_metadata_def delete_file_def
      signed_url_for_attachment_def assert_org_scope_def thenE_app)

definition fresh_storage :: storage_world where
  "fresh_storage = fresh_audit (bus_world_ext [] (settings_world_ext [] (member_world_ext []
     (storage_world_ext (\<lambda>_. None) [] empty_cache ()))))"

section \<open>Properties\<close>

text \<open>
  C25: tenant isolation of files.  For organisation ids without a slash (the ids that
  \<open>create_org\<close> makes), a key belongs to at most one organisation; an operation of one
  organisation on a key of another is refused with \<open>StorageError\<close> before anything is read
  or written; and uploads and deletions leave the objects and rows of every other
  organisation as they were, on every path.
\<close>

theorem storage_isolation:
  assumes "g \<noteq> h" "CHR ''/'' \<notin> set g" "CHR ''/'' \<notin> set h"
  shows "tenant_view h (snd (upload_file E g svc fname content mime by' ttl_days w)) = tenant_view h w \<and>
    tenant_view h (snd (delete_file E g key by' w)) = tenant_view h w \<and>
    (in_scope h key \<longrightarrow>
      download_file E g key w = (Inl (Exn (Core StorageError)), w) \<and>
      get_file_metadata E g key w = (Inl (Exn (Core StorageError)), w) \<and>
      delete_file E g key by' w = (Inl (Exn (Core StorageError)), w) \<and>
      signed_url_for_attachment E g key w = (Inl (Exn (Core StorageError)), w))"
proof -
  have "in_scope h key \<Longrightarrow> \<not> in_scope g key"
    using in_scope_unique [of g key h] assms by auto
  then show ?thesis
    by (simp add: out_of_scope
        leaves_snd [OF upload_file_leaves_other [OF assms(1) [symmetric] assms(2,3)]]
        leaves_snd [OF delete_file_leaves_other [OF assms(1) [symmetric] assms(2,3)]])
qed

theorem storage_isolation_witness:
  "download_file sample_env ''acme'' ''other/omnichannel/x'' fresh_storage
     = (Inl (Exn (Core StorageError)), fresh_storage)"
  using storage_isolation [of "''acme''" "''other''" sample_env "''s''" "''f''" "''c''" "''m''" "''u''" None
      fresh_storage "''other/omnichannel/x''"]
  by (simp add: in_scope_def startswith_def)

text \<open>
  Round trip.  An upload of more than 100 MB is refused with \<open>FileTooLargeError\<close> and
  stores nothing.  After a successful upload, when AWS answers, the organisation reads
  back exactly the bytes and the metadata under the returned key, and the upload is in the
  audit log.
\<close>

theorem upload_round_trip:
  assumes "no_faults E"
  shows "case upload_file E g svc fname content mime by' ttl_days w of
     (Inl e, w') \<Rightarrow> MAX_FILE_BYTES < int (length content) \<and> e = Exn (Core FileTooLargeError) \<and> w' = w
   | (Inr f, w') \<Rightarrow>
       int (length content) \<le> MAX_FILE_BYTES \<and> sf_key f = file_key g svc (utcnow E (tick w)) fname \<and>
       fst (download_file E g (sf_key f) w') = Inr content \<and>
       (\<exists>f'. fst (get_file_metadata E g (sf_key f) w') = Inr f' \<and>
          f' = f\<lparr>sf_signed_url := sf_signed_url f'\<rparr>) \<and>
       sf_size_bytes f = int (length content) \<and>
       (\<exists>ev \<in> set (audit_tbl w'). ae_org_id ev = g \<and> ae_action ev = ''file.uploaded'' \<and>
          ae_resource_id ev = sf_key f)"
proof (cases "MAX_FILE_BYTES < int (length content)")
  case True
  then show ?thesis by (simp add: upload_file_def)
next
  case False
  with assms show ?thesis
    by (simp add: upload_file_def clock_binds Let_def act_apps except_client_def audit_row_def
        generate_signed_url_def set_row_put_new download_file_def get_file_metadata_def
        assert_org_scope_def to_stored_file_def row_get_put liftS_def bindS_def attr_def)
      (rule bexI [OF _ set_row_put_new], simp)
qed

theorem upload_round_trip_witness:
  "\<exists>f w'. upload_file sample_env ''acme'' ''invoicing'' ''a.pdf'' ''hello'' ''application/pdf'' ''ann'' None
        fresh_storage = (Inr f, w') \<and>
     fst (download_file sample_env ''acme'' (sf_key f) w') = Inr ''hello''"
proof -
  let ?up = "upload_file sample_env ''acme'' ''invoicing'' ''a.pdf'' ''hello'' ''application/pdf'' ''ann'' None
        fresh_storage"
  obtain r w' where run: "?up = (r, w')" by (rule prod.exhaust)
  moreover have "\<not> MAX_FILE_BYTES < int (length ''hello'')" by (simp add: MAX_FILE_BYTES_def)
  ultimately show ?thesis
    using upload_round_trip [where E = sample_env and g = "''acme''" and svc = "''invoicing''"
        and fname = "''a.pdf''" and content = "''hello''" and mime = "''application/pdf''"
        and by' = "''ann''" and ttl_days = None and w = fresh_storage]
    by (cases r) auto
qed

lemma mapE_Inr: "mapE f xs w = (Inr ys, w') \<Longrightarrow> list_all2 (\<lambda>x y. \<exists>v v'. f x v = (Inr y, v')) xs ys"
proof (induction xs arbitrary: w ys)
  case (Cons x xs)
  then show ?case by (auto simp: act_Inr)
qed simp

lemma list_all2_setD2: "list_all2 P xs ys \<Longrightarrow> y \<in> set ys \<Longrightarrow> \<exists>x \<in> set xs. P x y"
  by (induction rule: list_all2_induct) auto

lemma to_stored_file_key: "to_stored_file E row w = (Inr f, w') \<Longrightarrow> sf_key f = snd (fst row)"
  by (cases row) (auto simp: to_stored_file_def act_Inr bindS_Inr)

lemma row_put_key: "x \<in> set (row_put key r rows) \<Longrightarrow> key x = key r \<Longrightarrow> x = r"
  by (auto simp: row_put_def split: if_splits)

lemma list_files_Inr:
  assumes "list_files E g svc p w = (Inr fs, w')" and "f \<in> set fs"
  shows "\<exists>row \<in> set (files_tbl w). fst row = (g, sf_key f) \<and> listed p row"
proof -
  let ?rows = "filter (listed p) (list_rows g svc (files_tbl w))"
  from assms(1) obtain v where "mapE (to_stored_file E) ?rows v = (Inr fs, w')"
    by (auto simp: list_files_def act_Inr dest!: run_aws_Inr)
  from list_all2_setD2 [OF mapE_Inr [OF this] assms(2)] obtain row where
    "row \<in> set ?rows" "sf_key f = snd (fst row)"
    using to_stored_file_key by blast
  then show ?thesis
    by (intro bexI [of _ row]) (auto simp: list_rows_def split: option.splits)
qed

text \<open>
  Deletion.  When AWS answers, a deleted file can no longer be downloaded and is not
  listed any more, and its row is kept.  Deleting a key that has no row creates one without
  the other attributes: reading its metadata then raises \<open>KeyError\<close> instead of
  \<open>StorageNotFoundError\<close>.
\<close>

theorem delete_file_effect:
  assumes "no_faults E" and "in_scope g key" and "delete_file E g key by' w = (r, w')"
  shows "r = Inr () \<and> fst (download_file E g key w') = Inl (Exn (Core StorageNotFoundError)) \<and>
    row_get fst (g, key) (files_tbl w') \<noteq> None \<and>
    (\<forall>svc p fs w''. list_files E g svc p w' = (Inr fs, w'') \<longrightarrow> key \<notin> sf_key ` set fs) \<and>
    (row_get fst (g, key) (files_tbl w) = None \<longrightarrow>
      fst (get_file_metadata E g key w') = Inl (Exn (Py KeyErrorPy)))"
proof -
  let ?old = "case row_get fst (g, key) (files_tbl w) of None \<Rightarrow> [] | Some (_, data) \<Rightarrow> data"
  let ?row = "((g, key), dict_set ''is_deleted'' (JBool True) ?old)"
  from assms have r: "r = Inr ()" and tbl: "files_tbl w' = row_put fst ?row (files_tbl w)"
    and obj: "s3 w' key = None"
    by (auto simp: delete_file_def assert_org_scope_def act_apps except_client_def mark_deleted_def)
  have "fst (download_file E g key w') = Inl (Exn (Core StorageNotFoundError))"
    using assms(1,2) obj by (simp add: download_file_def assert_org_scope_def act_apps)
  moreover have "key \<notin> sf_key ` set fs" if "list_files E g svc p w' = (Inr fs, w'')" for svc p fs w''
  proof
    assume "key \<in> sf_key ` set fs"
    then obtain f where "f \<in> set fs" "sf_key f = key" by auto
    with list_files_Inr [OF that] obtain row where row: "row \<in> set (files_tbl w')" "fst row = (g, key)"
        and "listed p row" by blast
    moreover from row have "row = ?row"
      using row_put_key [of row fst ?row "files_tbl w"] tbl by simp
    ultimately show False by (auto simp: listed_def field_def)
  qed
  moreover have "fst (get_file_metadata E g key w') = Inl (Exn (Py KeyErrorPy))"
    if "row_get fst (g, key) (files_tbl w) = None"
    using that assms(1,2) tbl
    by (simp add: get_file_metadata_def assert_org_scope_def act_apps row_get_put to_stored_file_def
        generate_signed_url_def liftS_def bindS_def attr_def)
  ultimately show ?thesis using r tbl by (simp add: row_get_put)
qed

theorem delete_file_effect_witness:
  "fst (get_file_metadata sample_env ''acme'' ''acme/x''
      (snd (delete_file sample_env ''acme'' ''acme/x'' ''ann'' fresh_storage)))
   = Inl (Exn (Py KeyErrorPy))"
proof -
  obtain r w' where run: "delete_file sample_env ''acme'' ''acme/x'' ''ann'' fresh_storage = (r, w')"
    by (rule prod.exhaust)
  from delete_file_effect [OF _ _ run] run show ?thesis
    by (simp add: in_scope_def startswith_def fresh_storage_def fresh_audit_def)
qed

text \<open>
  Every cached URL was signed for the key it is cached under, with the long lifetime, and
  is handed out for less than the cache's time to live after it was signed and stored.
\<close>

definition media_entry :: "env \<Rightarrow> rat \<Rightarrow> string \<Rightarrow> string \<Rightarrow> bool" where
  "media_entry E t k url \<longleftrightarrow> (\<forall>key. k = media_cache_key key \<longrightarrow>
     (\<exists>n. url = presign E key SIGN_EXPIRY_SECONDS n \<and> t < monotonic E (Suc n) + MEDIA_CACHE_TTL))"

definition media_ok :: "env \<Rightarrow> string ttl_cache \<Rightarrow> bool" where
  "media_ok E st \<longleftrightarrow> (\<forall>t k url. cached st t k = Some url \<longrightarrow> media_entry E t k url)"

lemma media_ok_live: "media_ok E st \<longleftrightarrow> ttl.all_live (media_entry E) st"
  by (simp add: media_ok_def ttl.all_live_def)

text \<open>
  Attachment URLs.  A returned URL was signed for the requested key, which lies in the
  organisation's prefix, with a lifetime of two hours, and by a signature stored less than
  one hour before the request read the clock: at least one hour of its lifetime is left
  (less the time between signing and storing).  The cache keeps that invariant.
\<close>

theorem attachment_url_lifetime:
  assumes "signed_url_for_attachment E g key w = (Inr url, w')"
    and "media_ok E (media_cache w)" and "\<forall>m n. m \<le> n \<longrightarrow> monotonic E m \<le> monotonic E n"
  shows "in_scope g key \<and> media_ok E (media_cache w') \<and>
    (\<exists>n. url = presign E key SIGN_EXPIRY_SECONDS n \<and>
       monotonic E (tick w) < monotonic E (Suc n) + (of_int SIGN_EXPIRY_SECONDS - 3600))"
proof -
  from assms(1) have scope: "in_scope g key"
    by (auto simp: signed_url_for_attachment_def split: if_splits)
  let ?k = "media_cache_key key"
  let ?t = "monotonic E (tick w)"
  obtain v st where get: "cache_get (media_cache w) ?t ?k = (v, st)" by (rule prod.exhaust)
  have st: "ttl.all_live (media_entry E) st"
    using ttl.all_live_get [of "media_entry E" "media_cache w" ?t ?k] assms(2) get
    by (simp add: media_ok_live)
  show ?thesis
  proof (cases v)
    case (Some u)
    with get have "media_entry E ?t ?k u"
      using assms(2) ttl.get_hit [of "media_cache w" ?t ?k u st] by (simp add: media_ok_def)
    moreover from assms(1) scope get Some have "url = u" "media_cache w' = st"
      by (auto simp: signed_url_for_attachment_def media_get_def clock_binds bindE_app)
    ultimately show ?thesis using scope st
      by (auto simp: media_ok_live media_entry_def MEDIA_CACHE_TTL_def SIGN_EXPIRY_SECONDS_def)
  next
    case None
    let ?n = "Suc (tick w)"
    from assms(1) scope get None have url: "url = presign E key SIGN_EXPIRY_SECONDS ?n"
      and cache: "media_cache w' = cache_set st (monotonic E (Suc ?n)) ?k url MEDIA_CACHE_TTL"
      by (auto simp: signed_url_for_attachment_def media_get_def media_set_def clock_binds act_apps
          generate_signed_url_def)
    have "media_entry E t ?k url" if "t < monotonic E (Suc ?n) + MEDIA_CACHE_TTL" for t
      using that url by (auto simp: media_entry_def media_cache_key_def)
    with ttl.all_live_set [OF st] have "media_ok E (media_cache w')"
      by (simp add: media_ok_live cache)
    moreover have "?t < monotonic E (Suc ?n) + (of_int SIGN_EXPIRY_SECONDS - 3600)"
      using assms(3) [rule_format, of "tick w" "Suc ?n"] by (simp add: SIGN_EXPIRY_SECONDS_def)
    ultimately show ?thesis using scope url by blast
  qed
qed

theorem attachment_url_lifetime_witness:
  "\<exists>url w'. signed_url_for_attachment sample_env ''acme'' ''acme/x'' fresh_storage = (Inr url, w') \<and>
     media_ok sample_env (media_cache w')"
proof -
  obtain url w' where run: "signed_url_for_attachment sample_env ''acme'' ''acme/x'' fresh_storage = (Inr url, w')"
    by (simp add: signed_url_for_attachment_def in_scope_def startswith_def media_get_def media_set_def
        clock_binds act_apps generate_signed_url_def fresh_storage_def fresh_audit_def cache_get_def
        empty_cache_def)
  have "media_ok sample_env (media_cache fresh_storage)"
    by (simp add: media_ok_def fresh_storage_def fresh_audit_def cached_def empty_cache_def)
  from attachment_url_lifetime [OF run this] run show ?thesis by simp
qed

lemma upload_file_leaves [frames]:
  assumes "\<And>w g. f (tick_update g w) = f w" "\<And>w g. f (audit_tbl_update g w) = f w"
    "\<And>w g. f (s3_update g w) = f w" "\<And>w g. f (files_tbl_update g w) = f w"
    "\<And>w g. f (media_cache_update g w) = f w"
  shows "leaves f (upload_file E org_id service_type filename content mime_type uploaded_by ttl_days)"
  unfolding upload_file_def by (intro frames) (simp_all add: assms)

end
