(* ===== verification/A2Z_Secrets.thy ===== *)
theory A2Z_Secrets
  imports A2Z_Storage
begin

text \<open>
  Per-organisation credentials of \<open>app/core/secrets.py\<close>: AWS Secrets Manager behind a
  read-through cache with a five-minute lifetime that a write invalidates.  A stored
  string is either the JSON text of a value, as \<open>put_secret\<close> writes it, or some other
  text put there by hand; decoding the JSON text of a value gives the value back.
\<close>

section \<open>State\<close>

datatype secret_string = Dumped "(string \<times> json) list" | OtherText string

fun loads :: "secret_string \<Rightarrow> exn + (string \<times> json) list" where
  "loads (Dumped value) = Inr value"
| "loads (OtherText _) = Inl (Exn (Py ValueErrorPy))"

record secrets_world = storage_world +
  secret_store :: "string \<Rightarrow> secret_string option"
  secret_cache :: "secret_string ttl_cache"

definition SECRET_CACHE_TTL :: rat where
  "SECRET_CACHE_TTL = 300"

definition secret_name :: "string \<Rightarrow> string \<Rightarrow> string \<Rightarrow> string" where
  "secret_name org_id service_type key = ''a2z/'' @ org_id @ ''/'' @ service_type @ ''/'' @ key"

definition secret_cache_key :: "string \<Rightarrow> string \<Rightarrow> string \<Rightarrow> string" where
  "secret_cache_key org_id service_type key = ''secret:'' @ org_id @ '':'' @ service_type @ '':'' @ key"

section \<open>Operations\<close>

definition secret_get :: "env \<Rightarrow> string \<Rightarrow> ('z secrets_world_scheme, secret_string option) op" where
  "secret_get E k = bindE (now_monotonic E) (\<lambda>now w.
     let (v, st) = cache_get (secret_cache w) now k in (Inr v, w\<lparr>secret_cache := st\<rparr>))"

definition secret_set :: "env \<Rightarrow> string \<Rightarrow> secret_string \<Rightarrow> ('z secrets_world_scheme, unit) op" where
  "secret_set E k raw = bindE (now_monotonic E) (\<lambda>now.
     modifyE (\<lambda>w. w\<lparr>secret_cache := cache_set (secret_cache w) now k raw SECRET_CACHE_TTL\<rparr>))"

definition get_secret_value :: "string \<Rightarrow> ('z secrets_world_scheme, secret_string) op" where
  "get_secret_value name = bindE (getsE (\<lambda>w. secret_store w name)) (\<lambda>s.
     case s of None \<Rightarrow> raise (AwsError ''ResourceNotFoundException'') | Some raw \<Rightarrow> ret raw)"

definition get_secret ::
  "env \<Rightarrow> string \<Rightarrow> string \<Rightarrow> string \<Rightarrow> ('z secrets_world_scheme, (string \<times> json) list) op" where
  "get_secret E org_id service_type key =
     (let cache_key = secret_cache_key org_id service_type key;
          name = secret_name org_id service_type key in
      bindE (secret_get E cache_key) (\<lambda>cached.
      case cached of
        Some raw \<Rightarrow> liftS (loads raw)
      | None \<Rightarrow>
          bindE (catchE (run_aws E (get_secret_value name))
            (\<lambda>e. case e of
               AwsError code \<Rightarrow>
                 if code \<in> {''ResourceNotFoundException'', ''InvalidRequestException''}
                 then raise (Exn (Core SecretNotFoundError)) else raise e
             | _ \<Rightarrow> raise e)) (\<lambda>raw.
          bindE (liftS (loads raw)) (\<lambda>value.
          thenE (secret_set E cache_key raw) (ret value)))))"

definition put_secret_value :: "string \<Rightarrow> secret_string \<Rightarrow> ('z secrets_world_scheme, unit) op" where
  "put_secret_value name raw = bindE (getsE (\<lambda>w. secret_store w name)) (\<lambda>s.
     case s of None \<Rightarrow> raise (AwsError ''ResourceNotFoundException'')
     | Some _ \<Rightarrow> modifyE (\<lambda>w. w\<lparr>secret_store := (secret_store w)(name \<mapsto> raw)\<rparr>))"

definition create_secret :: "string \<Rightarrow> secret_string \<Rightarrow> ('z secrets_world_scheme, unit) op" where
  "create_secret name raw = bindE (getsE (\<lambda>w. secret_store w name)) (\<lambda>s.
     case s of Some _ \<Rightarrow> raise (AwsError ''ResourceExistsException'')
     | None \<Rightarrow> modifyE (\<lambda>w. w\<lparr>secret_store := (secret_store w)(name \<mapsto> raw)\<rparr>))"

definition put_secret ::
  "env \<Rightarrow> string \<Rightarrow> string \<Rightarrow> string \<Rightarrow> (string \<times> json) list \<Rightarrow> ('z secrets_world_scheme, unit) op" where
  "put_secret E org_id service_type key value =
     (let name = secret_name org_id service_type key; raw = Dumped value in
      thenE (catchE (run_aws E (put_secret_value name raw))
        (\<lambda>e. case e of
           AwsError code \<Rightarrow>
             if code \<noteq> ''ResourceNotFoundException'' then raise (Exn (Core SecretsError))
             else except_client (run_aws E (create_secret name raw)) (Exn (Core SecretsError))
         | _ \<Rightarrow> raise e))
      (modifyE (\<lambda>w. w\<lparr>secret_cache := cache_delete (secret_cache_key org_id service_type key) (secret_cache w)\<rparr>)))"

section \<open>Lemmas\<close>

text \<open>Names of different secrets differ when organisation and service contain no separator.\<close>

lemma sep_inject:
  assumes "c \<notin> set a" "c \<notin> set b"
  shows "(a :: string) @ c # s = b @ c # t \<longleftrightarrow> a = b \<and> s = t"
proof
  assume "a @ c # s = b @ c # t"
  with partition_at_append [OF assms(1), of s] partition_at_append [OF assms(2), of t]
  have "Some (a, s) = Some (b, t)" by metis
  then show "a = b \<and> s = t" by blast
qed simp

lemma secret_name_inject:
  assumes "CHR ''/'' \<notin> set g" "CHR ''/'' \<notin> set h" "CHR ''/'' \<notin> set s" "CHR ''/'' \<notin> set t"
  shows "secret_name g s k = secret_name h t l \<longleftrightarrow> g = h \<and> s = t \<and> k = l"
  using assms by (simp add: secret_name_def sep_inject)

lemma secret_cache_key_inject:
  assumes "CHR '':'' \<notin> set g" "CHR '':'' \<notin> set h" "CHR '':'' \<notin> set s" "CHR '':'' \<notin> set t"
  shows "secret_cache_key g s k = secret_cache_key h t l \<longleftrightarrow> g = h \<and> s = t \<and> k = l"
  using assms by (simp add: secret_cache_key_def sep_inject)

definition plain :: "string \<Rightarrow> bool" where
  "plain s \<longleftrightarrow> CHR ''/'' \<notin> set s \<and> CHR '':'' \<notin> set s"

text \<open>
  \<open>serves g s k v w\<close>: the secret's stored value is \<open>v\<close> and no live cache entry
  contradicts it.
\<close>

definition serves ::
  "string \<Rightarrow> string \<Rightarrow> string \<Rightarrow> (string \<times> json) list \<Rightarrow> 'z secrets_world_scheme \<Rightarrow> bool" where
  "serves g s k v w \<longleftrightarrow> secret_store w (secret_name g s k) = Some (Dumped v) \<and>
     (\<forall>t raw. cached (secret_cache w) t (secret_cache_key g s k) = Some raw \<longrightarrow> raw = Dumped v)"

lemma serves_tick [simp]: "serves g s k v (tick_update f w) = serves g s k v w"
  by (simp add: serves_def)

lemma serves_cache_get:
  assumes "serves g s k v w"
  shows "serves g s k v (w\<lparr>secret_cache := snd (cache_get (secret_cache w) t ck)\<rparr>)"
  using assms ttl.get_shrinks by (fastforce simp: serves_def)

lemma serves_cache_set:
  assumes "serves g s k v w" and "ck = secret_cache_key g s k \<Longrightarrow> raw = Dumped v"
  shows "serves g s k v (w\<lparr>secret_cache := cache_set (secret_cache w) t ck raw d\<rparr>)"
  using assms by (auto simp: serves_def ttl.set_live split: if_splits)

lemma serves_cache_delete:
  "serves g s k v w \<Longrightarrow> serves g s k v (w\<lparr>secret_cache := cache_delete ck (secret_cache w)\<rparr>)"
  by (auto simp: serves_def ttl.del_live)

lemma serves_store:
  "serves g s k v w \<Longrightarrow> name \<noteq> secret_name g s k \<Longrightarrow>
   serves g s k v (w\<lparr>secret_store := (secret_store w)(name \<mapsto> raw)\<rparr>)"
  by (auto simp: serves_def)

lemma keeps_case_exn [keepers]:
  "(\<And>c. keeps P (m c)) \<Longrightarrow> (\<And>n. keeps P (k n)) \<Longrightarrow> (\<And>s. keeps P (h s)) \<Longrightarrow>
   keeps P (case e of Exn c \<Rightarrow> m c | RateLimited n \<Rightarrow> k n | AwsError s \<Rightarrow> h s)"
  by (cases e) auto

lemma keeps_liftS [keepers]: "keeps P (liftS m)"
  by (cases m) (simp_all add: liftS_def keeps_def)

lemma get_secret_value_run:
  "run_aws E (get_secret_value name) w = (Inr raw, w') \<Longrightarrow>
     secret_store w name = Some raw \<and> w' = w\<lparr>tick := Suc (tick w)\<rparr>"
  by (auto simp: get_secret_value_def bindE_app dest!: run_aws_Inr split: option.splits)

lemma get_secret_value_leaves: "(\<And>w g. f (tick_update g w) = f w) \<Longrightarrow>
    leaves f (run_aws E (get_secret_value name))"
  unfolding get_secret_value_def by (intro frames) simp_all

text \<open>One read: the cached value, or the stored one, which is then cached.\<close>

lemma get_secret_run:
  assumes "get_secret E g s k w = (r, w')"
  defines "ck \<equiv> secret_cache_key g s k" and "t \<equiv> monotonic E (tick w)"
  obtains (hit) raw where "cached (secret_cache w) t ck = Some raw" "r = loads raw"
      "secret_cache w' = snd (cache_get (secret_cache w) t ck)" "secret_store w' = secret_store w"
  | (miss) raw val t' where "cached (secret_cache w) t ck = None"
      "secret_store w (secret_name g s k) = Some raw" "loads raw = Inr val" "r = Inr val"
      "secret_cache w' = cache_set (snd (cache_get (secret_cache w) t ck)) t' ck raw SECRET_CACHE_TTL"
      "t' = monotonic E (Suc (Suc (tick w)))"
      "secret_store w' = secret_store w"
  | (failed) e where "cached (secret_cache w) t ck = None" "r = Inl e"
      "secret_cache w' = snd (cache_get (secret_cache w) t ck)" "secret_store w' = secret_store w"
      "(\<exists>x. e = outage_exn x \<and> \<not> no_faults E) \<or>
        (secret_store w (secret_name g s k) = None \<and> e = Exn (Core SecretNotFoundError)) \<or>
        (\<exists>raw. secret_store w (secret_name g s k) = Some raw \<and> loads raw = Inl e)"
proof -
  obtain v st where get: "cache_get (secret_cache w) t ck = (v, st)" by (rule prod.exhaust)
  have v: "cached (secret_cache w) t ck = v" using ttl.get_value [of "secret_cache w" t ck] get by simp
  let ?w1 = "w\<lparr>tick := Suc (tick w), secret_cache := st\<rparr>"
  show thesis
  proof (cases v)
    case (Some raw)
    with assms get have "liftS (loads raw) ?w1 = (r, w')"
      by (simp add: get_secret_def Let_def secret_get_def clock_binds bindE_app)
    then have "r = loads raw" "w' = ?w1" by (cases "loads raw"; auto simp: liftS_def)+
    with Some v get hit show thesis by simp
  next
    case None
    let ?read = "run_aws E (get_secret_value (secret_name g s k)) :: ('a secrets_world_scheme, secret_string) op"
    obtain r1 w1 where read: "?read ?w1 = (r1, w1)" by (rule prod.exhaust)
    have store: "secret_store w1 = secret_store w" and cache: "secret_cache w1 = st"
      using leavesD [where f = secret_store, OF get_secret_value_leaves read]
        leavesD [where f = secret_cache, OF get_secret_value_leaves read] by simp_all
    show thesis
    proof (cases r1)
      case (Inr raw)
      then have stored: "secret_store w (secret_name g s k) = Some raw"
          and w1: "w1 = ?w1\<lparr>tick := Suc (Suc (tick w))\<rparr>"
        using get_secret_value_run [of E _ ?w1 raw w1] read by simp_all
      show thesis
      proof (cases "loads raw")
        case (Inl e)
        with assms get None read Inr have "r = Inl e" "w' = w1"
          by (auto simp: get_secret_def Let_def secret_get_def clock_binds bindE_app catchE_app liftS_def)
        with v None get stored store cache failed [of e] Inl show thesis by simp
      next
        case (Inr val)
        with assms get None read \<open>r1 = Inr raw\<close> w1 have "r = Inr val"
            "w' = w1\<lparr>tick := Suc (Suc (Suc (tick w))), secret_cache :=
              cache_set st (monotonic E (Suc (Suc (tick w)))) ck raw SECRET_CACHE_TTL\<rparr>"
          by (auto simp: get_secret_def Let_def secret_get_def secret_set_def clock_binds act_apps liftS_def)
        with v None get stored store Inr miss show thesis by simp
      qed
    next
      case (Inl e1)
      from read [unfolded Inl] have "(\<exists>x. e1 = outage_exn x \<and> \<not> no_faults E) \<or>
          (secret_store w (secret_name g s k) = None \<and> e1 = AwsError ''ResourceNotFoundException'')"
        by (cases rule: run_aws_cases)
          (auto simp: get_secret_value_def bindE_app split: option.splits)
      moreover have "r = Inl (case e1 of AwsError code \<Rightarrow>
            if code \<in> {''ResourceNotFoundException'', ''InvalidRequestException''}
            then Exn (Core SecretNotFoundError) else e1 | _ \<Rightarrow> e1)" "w' = w1"
        using assms get None read Inl
        by (auto simp: get_secret_def Let_def secret_get_def clock_binds act_apps split: exn.splits if_splits)
      moreover have "(case outage_exn x of AwsError code \<Rightarrow>
            if code \<in> {''ResourceNotFoundException'', ''InvalidRequestException''}
            then Exn (Core SecretNotFoundError) else outage_exn x | _ \<Rightarrow> outage_exn x) = outage_exn x" for x
        by (cases x) auto
      ultimately show thesis
        using v None get store cache failed by (elim disjE exE conjE) auto
    qed
  qed
qed

text \<open>One write: on success the value is stored and the cache entry is gone.\<close>

lemma put_secret_keeps:
  assumes "\<And>w f. P (tick_update f w) = P w"
    and "\<And>w. P w \<Longrightarrow> P (w\<lparr>secret_store := (secret_store w)(secret_name g s k \<mapsto> Dumped val)\<rparr>)"
    and "\<And>w. P w \<Longrightarrow> P (w\<lparr>secret_cache := cache_delete (secret_cache_key g s k) (secret_cache w)\<rparr>)"
  shows "keeps P (put_secret E g s k val)"
  unfolding put_secret_def put_secret_value_def create_secret_def Let_def
  by (intro keepers) (simp_all add: assms)

lemma put_secret_Inr:
  assumes "put_secret E g s k val w = (Inr u, w')"
  shows "serves g s k val w'"
proof -
  have stored: "secret_store w1 (secret_name g s k) = Some (Dumped val)"
    if "run_aws E (put_secret_value (secret_name g s k) (Dumped val)) v = (Inr u', w1) \<or>
        run_aws E (create_secret (secret_name g s k) (Dumped val)) v = (Inr u', w1)" for u' v w1
    using that by (auto simp: put_secret_value_def create_secret_def bindE_app dest!: run_aws_Inr
        split: option.splits)
  from assms show ?thesis
    by (auto simp: put_secret_def Let_def act_Inr case_client_Inr serves_def ttl.del_live
        dest!: stored [OF disjI1] stored [OF disjI2] split: if_splits)
qed

section \<open>Properties\<close>

datatype secret_cmd = Get_secret string string string | Put_secret string string string "(string \<times> json) list"

fun run_secret :: "env \<Rightarrow> secret_cmd \<Rightarrow> ('z secrets_world_scheme, (string \<times> json) list) op" where
  "run_secret E (Get_secret g s k) = get_secret E g s k"
| "run_secret E (Put_secret g s k v) = thenE (put_secret E g s k v) (ret v)"

text \<open>A history of calls, each returning or failing.\<close>

fun run_secrets :: "env \<Rightarrow> secret_cmd list \<Rightarrow> 'z secrets_world_scheme \<Rightarrow> 'z secrets_world_scheme" where
  "run_secrets E [] w = w"
| "run_secrets E (c # cs) w = run_secrets E cs (snd (run_secret E c w))"

fun other_secret :: "string \<Rightarrow> string \<Rightarrow> string \<Rightarrow> secret_cmd \<Rightarrow> bool" where
  "other_secret g s k (Get_secret g' s' k') \<longleftrightarrow> plain g' \<and> plain s'"
| "other_secret g s k (Put_secret g' s' k' v) \<longleftrightarrow> plain g' \<and> plain s' \<and> (g', s', k') \<noteq> (g, s, k)"

lemma keeps_serves_get:
  assumes "plain g" "plain s" "plain g'" "plain s'"
  shows "keeps (serves g s k v) (get_secret E g' s' k')"
proof (rule keepsI)
  fix w
  assume serves: "serves g s k v w"
  obtain r w' where run: "get_secret E g' s' k' w = (r, w')" by (rule prod.exhaust)
  have same: "secret_cache_key g' s' k' = secret_cache_key g s k \<longleftrightarrow> g' = g \<and> s' = s \<and> k' = k"
    using assms by (intro secret_cache_key_inject) (auto simp: plain_def)
  let ?ck = "secret_cache_key g' s' k'" and ?t = "monotonic E (tick w)"
  have get: "serves g s k v (w'\<lparr>secret_store := secret_store w, secret_cache := snd (cache_get (secret_cache w) ?t ?ck)\<rparr>)"
    using serves_cache_get [OF serves, of ?t ?ck] by (simp add: serves_def)
  from run have "serves g s k v w'"
  proof (cases rule: get_secret_run)
    case (hit raw)
    with get show ?thesis by (simp add: serves_def)
  next
    case (miss raw val t')
    have "raw = Dumped v" if "?ck = secret_cache_key g s k"
      using that same miss(2) serves by (auto simp: serves_def)
    with serves_cache_set [OF get, of ?ck raw t' SECRET_CACHE_TTL] miss(5,7) show ?thesis
      by (simp add: serves_def)
  next
    case (failed e)
    with get show ?thesis by (simp add: serves_def)
  qed
  with run show "serves g s k v (snd (get_secret E g' s' k' w))" by simp
qed

lemma keeps_serves_put:
  assumes "plain g" "plain s" "plain g'" "plain s'" "(g', s', k') \<noteq> (g, s, k)"
  shows "keeps (serves g s k v) (put_secret E g' s' k' v')"
proof -
  have "secret_name g' s' k' \<noteq> secret_name g s k"
    using assms secret_name_inject [of g' g s' s k' k] by (auto simp: plain_def)
  then show ?thesis
    by (intro put_secret_keeps) (simp_all add: serves_store serves_cache_delete)
qed

lemma keeps_serves:
  assumes "plain g" "plain s" "other_secret g s k c"
  shows "keeps (serves g s k v) (run_secret E c)"
  using assms by (cases c) (auto intro!: keepers keeps_serves_get keeps_serves_put)

lemma run_secrets_serves:
  "plain g \<Longrightarrow> plain s \<Longrightarrow> list_all (other_secret g s k) cs \<Longrightarrow> serves g s k v w \<Longrightarrow>
     serves g s k v (run_secrets E cs w)"
proof (induction cs arbitrary: w)
  case (Cons c cs)
  then show ?case
    using keeps_serves [of g s k c v E] by (auto simp: keeps_def)
qed simp

lemma get_secret_serves:
  assumes "serves g s k v w" and "get_secret E g s k w = (r, w')"
  shows "r = Inr v \<or> (\<exists>x. r = Inl (outage_exn x) \<and> \<not> no_faults E)"
  using assms(2)
proof (cases rule: get_secret_run)
  case (hit raw)
  with assms(1) have "raw = Dumped v" by (auto simp: serves_def)
  with hit(2) show ?thesis by simp
next
  case (miss raw val t')
  with assms(1) show ?thesis by (auto simp: serves_def)
next
  case (failed e)
  with assms(1) show ?thesis by (auto simp: serves_def)
qed

text \<open>
  A read never returns a stale secret after a write.  Once \<open>put_secret\<close> has returned,
  and whatever other reads and writes of other secrets follow (each failing or not), a
  read of the secret returns the value written, or reports a failure of AWS.  Organisation
  and service names are assumed to contain neither of the separators.
\<close>

theorem secret_read_after_write:
  assumes "put_secret E g s k v w = (Inr u, w1)" and "plain g" "plain s"
    and "list_all (other_secret g s k) cs"
    and "get_secret E g s k (run_secrets E cs w1) = (r, w2)"
  shows "r = Inr v \<or> (\<exists>x. r = Inl (outage_exn x) \<and> \<not> no_faults E)"
  using get_secret_serves [OF run_secrets_serves [OF assms(2-4) put_secret_Inr [OF assms(1)]] assms(5)] .

definition fresh_secrets :: secrets_world where
  "fresh_secrets = fresh_audit (bus_world_ext [] (settings_world_ext [] (member_world_ext []
     (storage_world_ext (\<lambda>_. None) [] empty_cache (secrets_world_ext (\<lambda>_. None) empty_cache ())))))"

theorem secret_read_after_write_witness:
  "fst (get_secret sample_env ''acme'' ''omnichannel'' ''wa'' (run_secrets sample_env
     [Get_secret ''acme'' ''omnichannel'' ''wa'']
     (snd (put_secret sample_env ''acme'' ''omnichannel'' ''wa'' [(''token'', JStr ''t'')] fresh_secrets))))
   = Inr [(''token'', JStr ''t'')]"
proof -
  let ?v = "[(''token'', JStr ''t'')]"
  obtain w1 where put: "put_secret sample_env ''acme'' ''omnichannel'' ''wa'' ?v fresh_secrets = (Inr (), w1)"
    by (simp add: put_secret_def Let_def act_apps put_secret_value_def create_secret_def except_client_def
        fresh_secrets_def fresh_audit_def)
  obtain r w2 where get: "get_secret sample_env ''acme'' ''omnichannel'' ''wa'' (run_secrets sample_env
     [Get_secret ''acme'' ''omnichannel'' ''wa''] w1) = (r, w2)" by (rule prod.exhaust)
  have "r = Inr ?v \<or> (\<exists>x. r = Inl (outage_exn x) \<and> \<not> no_faults sample_env)"
    by (rule secret_read_after_write [OF put _ _ _ get]) (simp_all add: plain_def)
  with put get show ?thesis by simp
qed

text \<open>No live cache entry survives the horizon.\<close>

definition expires_by :: "rat \<Rightarrow> 'z secrets_world_scheme \<Rightarrow> bool" where
  "expires_by h w \<longleftrightarrow> (\<forall>t ck raw. cached (secret_cache w) t ck = Some raw \<longrightarrow> t < h)"

text \<open>
  Bounded staleness.  If all cached secrets expire before \<open>h\<close>, a read at a clock value
  of at least \<open>h\<close> returns what Secrets Manager holds at that moment (or reports that there
  is none, that it is not JSON, or a failure of AWS), whoever changed it; and after a read
  every cached secret expires within five minutes of the clock read when it was stored.
\<close>

theorem secret_staleness_bounded:
  assumes "get_secret E g s k w = (r, w')" and "expires_by h w"
  shows "(h \<le> monotonic E (tick w) \<longrightarrow>
      (case secret_store w (secret_name g s k) of
         None \<Rightarrow> r = Inl (Exn (Core SecretNotFoundError))
       | Some raw \<Rightarrow> r = loads raw) \<or> (\<exists>x. r = Inl (outage_exn x) \<and> \<not> no_faults E)) \<and>
    expires_by (max h (monotonic E (Suc (Suc (tick w))) + 300)) w'"
proof -
  have get: "cached (snd (cache_get (secret_cache w) t ck)) t' ck' = Some raw \<Longrightarrow> t' < h" for t ck t' ck' raw
    using assms(2) ttl.get_shrinks [of "secret_cache w" t ck t' ck' raw] by (auto simp: expires_by_def)
  from assms(1) show ?thesis
  proof (cases rule: get_secret_run)
    case (hit raw)
    with assms(2) have "monotonic E (tick w) < h" by (auto simp: expires_by_def)
    with hit get show ?thesis by (auto simp: expires_by_def less_max_iff_disj)
  next
    case (miss raw val t')
    with get show ?thesis
      by (auto simp: expires_by_def ttl.set_live less_max_iff_disj SECRET_CACHE_TTL_def split: if_splits)
  next
    case (failed e)
    with get show ?thesis by (auto simp: expires_by_def less_max_iff_disj)
  qed
qed

theorem secret_staleness_bounded_witness:
  "fst (get_secret sample_env ''acme'' ''omnichannel'' ''wa'' fresh_secrets)
     = Inl (Exn (Core SecretNotFoundError))"
proof -
  obtain r w' where run: "get_secret sample_env ''acme'' ''omnichannel'' ''wa'' fresh_secrets = (r, w')"
    by (rule prod.exhaust)
  have "expires_by 0 fresh_secrets"
    by (simp add: expires_by_def fresh_secrets_def fresh_audit_def cached_def empty_cache_def)
  from secret_staleness_bounded [OF run this] run show ?thesis
    by (simp add: fresh_secrets_def fresh_audit_def)
qed

end
