(* ===== verification/A2Z_Email.thy ===== *)
theory A2Z_Email
  imports A2Z_Secrets
begin

text \<open>
  Email of \<open>app/core/email.py\<close>: sending through SES with a configuration set per
  organisation and service, the suppression list, the rate limit, the record of every
  message, and the handlers of bounces and complaints.  SES is the list of the messages it
  accepted and the sets it knows; MIME encoding is left to the standard library.
\<close>

section \<open>State\<close>

datatype ServiceType = INVOICING | OMNICHANNEL | APPOINTMENTS | EXPENSES

fun service_value :: "ServiceType \<Rightarrow> string" where
  "service_value INVOICING = ''invoicing''"
| "service_value OMNICHANNEL = ''omnichannel''"
| "service_value APPOINTMENTS = ''appointments''"
| "service_value EXPENSES = ''expenses''"

datatype EmailStatus = QUEUED | SENT | DELIVERED | BOUNCED | COMPLAINED | REJECTED

record attachment =
  at_content :: string
  at_filename :: string
  at_mime_type :: string

record mail =
  ml_source :: string
  ml_to :: string
  ml_subject :: string
  ml_html :: string
  ml_text :: string
  ml_reply_to :: string
  ml_config_set :: string
  ml_attachments :: "attachment list"

record email_result =
  er_message_id :: string
  er_status :: EmailStatus
  er_timestamp :: int

record email_event =
  em_message_id :: string
  em_org_id :: string
  em_timestamp :: int
  em_to :: string
  em_service_type :: ServiceType
  em_status :: EmailStatus
  em_subject :: string
  em_metadata :: "(string \<times> json) list"
  em_ttl :: int

record suppression =
  sp_org_id :: string
  sp_email :: string
  sp_reason :: string
  sp_timestamp :: int
  sp_bounce_type :: "string option"

definition sp_key :: "suppression \<Rightarrow> string \<times> string" where
  "sp_key r = (sp_org_id r, sp_email r)"

record email_world = secrets_world +
  mails :: "mail list"                      \<comment> \<open>accepted by SES\<close>
  ses_config_sets :: "string list"
  ses_event_dests :: "string list"
  config_confirmed :: "string list"         \<comment> \<open>\<open>_config_sets_confirmed\<close>\<close>
  email_events :: "email_event list"
  suppressions :: "suppression list"

interpretation email_event_store:
  keyed_store "row_get em_message_id" "row_put em_message_id" "row_del em_message_id"
    "row_upd em_message_id" "em_message_id :: email_event \<Rightarrow> string" "keyed em_message_id"
  by (rule row_store)

interpretation suppression_store:
  keyed_store "row_get sp_key" "row_put sp_key" "row_del sp_key" "row_upd sp_key" sp_key "keyed sp_key"
  by (rule row_store)

section \<open>Addresses, domains and text\<close>

text \<open>\<open>$\<close> also matches before a final newline.\<close>

definition drop_newline :: "string \<Rightarrow> string" where
  "drop_newline s = (if s \<noteq> [] \<and> of_char (last s) = (10 :: nat) then butlast s else s)"

definition address_char :: "char \<Rightarrow> bool" where
  "address_char c \<longleftrightarrow> c \<noteq> CHR ''@'' \<and> \<not> py_space c"

text \<open>\<open>^[^@\s]+@[^@\s]+\.[^@\s]+$\<close>\<close>

definition address_ok :: "string \<Rightarrow> bool" where
  "address_ok to =
     (case partition_at (CHR ''@'') (drop_newline to) of
        None \<Rightarrow> False
      | Some (loc, host) \<Rightarrow>
          loc \<noteq> [] \<and> list_all address_char loc \<and> list_all address_char host \<and>
          host \<noteq> [] \<and> CHR ''.'' \<in> set (butlast (tl host)))"

definition alnum :: "char \<Rightarrow> bool" where
  "alnum c \<longleftrightarrow> slug_char c \<or> (CHR ''A'' \<le> c \<and> c \<le> CHR ''Z'')"

definition label_ok :: "string \<Rightarrow> bool" where
  "label_ok l \<longleftrightarrow> l \<noteq> [] \<and> length l \<le> 63 \<and> alnum (hd l) \<and> alnum (last l) \<and>
     list_all (\<lambda>c. alnum c \<or> c = CHR ''-'') l"

text \<open>\<open>_DOMAIN_RE\<close>\<close>

definition domain_ok :: "string \<Rightarrow> bool" where
  "domain_ok d = (let ls = split_on (CHR ''.'') (drop_newline d) in
     2 \<le> length ls \<and> list_all label_ok ls)"

text \<open>\<open>re.sub("<[^>]+>", "", html)\<close>\<close>

function strip_tags :: "string \<Rightarrow> string" where
  "strip_tags [] = []"
| "strip_tags (c # s) =
     (let tag = takeWhile (\<lambda>x. x \<noteq> CHR ''>'') s; rest = dropWhile (\<lambda>x. x \<noteq> CHR ''>'') s
      in if c = CHR ''<'' \<and> tag \<noteq> [] \<and> rest \<noteq> [] then strip_tags (tl rest)
         else c # strip_tags s)"
  by pat_completeness auto
termination
proof (relation "measure length")
  fix c :: char and s tag rest :: string
  assume "tag = takeWhile (\<lambda>x. x \<noteq> CHR ''>'') s" "rest = dropWhile (\<lambda>x. x \<noteq> CHR ''>'') s"
  then show "(tl rest, c # s) \<in> measure length"
    using length_dropWhile_le [of "\<lambda>x. x \<noteq> CHR ''>''" s] by simp
qed auto

definition html_to_text :: "string \<Rightarrow> string" where
  "html_to_text html = strip (strip_tags html)"

definition sender :: "string \<Rightarrow> ServiceType \<Rightarrow> string \<Rightarrow> string" where
  "sender domain service_type sender_name =
     (let addr = service_value service_type @ ''@'' @ domain in
      if sender_name \<noteq> [] then sender_name @ '' <'' @ addr @ ''>'' else addr)"

definition config_set_name :: "string \<Rightarrow> ServiceType \<Rightarrow> string" where
  "config_set_name org_id service_type = org_id @ ''-'' @ service_value service_type"

definition or_default :: "string \<Rightarrow> string \<Rightarrow> string" where
  "or_default s d = (if s = [] then d else s)"

definition DEFAULT_DOMAIN :: string where
  "DEFAULT_DOMAIN = ''example.com''"

section \<open>Configuration sets\<close>

definition ses_create_config_set :: "string \<Rightarrow> ('z email_world_scheme, unit) op" where
  "ses_create_config_set name = bindE (getsE ses_config_sets) (\<lambda>known.
     if name \<in> set known then raise (AwsError ''ConfigurationSetAlreadyExists'')
     else modifyE (\<lambda>w. w\<lparr>ses_config_sets := name # known\<rparr>))"

definition ses_create_event_dest :: "string \<Rightarrow> ('z email_world_scheme, unit) op" where
  "ses_create_event_dest name = bindE (getsE ses_config_sets) (\<lambda>known.
     if name \<notin> set known then raise (AwsError ''ConfigurationSetDoesNotExist'')
     else bindE (getsE ses_event_dests) (\<lambda>dests.
       if name \<in> set dests then raise (AwsError ''EventDestinationAlreadyExists'')
       else modifyE (\<lambda>w. w\<lparr>ses_event_dests := name # dests\<rparr>)))"

definition ensure_event_destination :: "env \<Rightarrow> string \<Rightarrow> ('z email_world_scheme, unit) op" where
  "ensure_event_destination E config_set =
     (if topic_arn E = [] then ret ()
      else catchE (run_aws E (ses_create_event_dest config_set))
        (\<lambda>e. case e of
           AwsError code \<Rightarrow>
             if code \<in> {''EventDestinationAlreadyExists'', ''AlreadyExists''} then ret ()
             else raise (Exn (Core EmailError))
         | _ \<Rightarrow> raise e))"

definition ensure_config_set :: "env \<Rightarrow> string \<Rightarrow> ServiceType \<Rightarrow> ('z email_world_scheme, string) op" where
  "ensure_config_set E org_id service_type =
     (let name = config_set_name org_id service_type in
      bindE (getsE config_confirmed) (\<lambda>confirmed.
      if name \<in> set confirmed then ret name
      else
        thenE (catchE (run_aws E (ses_create_config_set name))
          (\<lambda>e. case e of AwsError _ \<Rightarrow> ret () | _ \<Rightarrow> raise e))
        (thenE (ensure_event_destination E name)
        (thenE (modifyE (\<lambda>w. w\<lparr>config_confirmed := List.insert name (config_confirmed w)\<rparr>))
        (ret name)))))"

section \<open>Sending\<close>

definition is_suppressed :: "env \<Rightarrow> string \<Rightarrow> string \<Rightarrow> ('z email_world_scheme, bool) op" where
  "is_suppressed E org_id to =
     run_aws E (getsE (\<lambda>w. row_get sp_key (org_id, to) (suppressions w) \<noteq> None))"

definition ses_send :: "env \<Rightarrow> mail \<Rightarrow> ('z email_world_scheme, string) op" where
  "ses_send E m = run_aws E (bindE (getsE ses_config_sets) (\<lambda>known.
     if ml_config_set m \<notin> set known then raise (AwsError ''ConfigurationSetDoesNotExist'')
     else thenE (modifyE (\<lambda>w. w\<lparr>mails := mails w @ [m]\<rparr>)) (new_service_id E)))"

definition EMAIL_EVENT_RETENTION :: int where
  "EMAIL_EVENT_RETENTION = 90 * 86400 * 1000000"

definition record_event ::
  "env \<Rightarrow> string \<Rightarrow> string \<Rightarrow> string \<Rightarrow> ServiceType \<Rightarrow> string \<Rightarrow> (string \<times> json) list \<Rightarrow> int
    \<Rightarrow> ('z email_world_scheme, unit) op" where
  "record_event E org_id message_id to service_type subject metadata now =
     run_aws E (modifyE (\<lambda>w. w\<lparr>email_events := row_put em_message_id
       \<lparr>em_message_id = message_id, em_org_id = org_id, em_timestamp = now, em_to = to,
        em_service_type = service_type, em_status = SENT, em_subject = subject,
        em_metadata = metadata, em_ttl = epoch_seconds (now + EMAIL_EVENT_RETENTION)\<rparr>
       (email_events w)\<rparr>))"

definition check_send_rate :: "env \<Rightarrow> string \<Rightarrow> ('z email_world_scheme, unit) op" where
  "check_send_rate E org_id = bindE (liftS (limits_for ''email.send'')) (\<lambda>(limit, window).
     check_and_increment E org_id ''email.send'' limit window)"

definition compose_mail ::
  "org_settings \<Rightarrow> string \<Rightarrow> ServiceType \<Rightarrow> string \<Rightarrow> string \<Rightarrow> string \<Rightarrow> string option
    \<Rightarrow> attachment list \<Rightarrow> string option \<Rightarrow> mail" where
  "compose_mail s org_id service_type to subject body_html body_text attachments reply_to =
     (let domain = or_default (os_domain s) DEFAULT_DOMAIN in
      \<lparr>ml_source = sender domain service_type (os_sender_name s), ml_to = to, ml_subject = subject,
       ml_html = body_html,
       ml_text = or_default (case body_text of None \<Rightarrow> [] | Some t \<Rightarrow> t) (html_to_text body_html),
       ml_reply_to = or_default (case reply_to of None \<Rightarrow> [] | Some r \<Rightarrow> r)
         (service_value service_type @ ''@'' @ domain),
       ml_config_set = config_set_name org_id service_type, ml_attachments = attachments\<rparr>)"

definition send_email ::
  "env \<Rightarrow> string \<Rightarrow> ServiceType \<Rightarrow> string \<Rightarrow> string \<Rightarrow> string \<Rightarrow> string option \<Rightarrow> attachment list
    \<Rightarrow> string option \<Rightarrow> (string \<times> json) list \<Rightarrow> ('z email_world_scheme, email_result) op" where
  "send_email E org_id service_type to subject body_html body_text attachments reply_to metadata =
     (if \<not> address_ok to then raise (Exn (Core InvalidAddressError))
      else
      bindE (get_org_settings E org_id) (\<lambda>org.
      thenE (ensure_config_set E org_id service_type)
      (bindE (is_suppressed E org_id to) (\<lambda>suppressed.
      if suppressed then raise (Exn (Core SuppressionListError))
      else
      thenE (check_send_rate E org_id)
      (thenE (whenE (\<not> is_prod E) (catchE (run_aws E (ret ()))
          (\<lambda>e. case e of AwsError _ \<Rightarrow> ret () | _ \<Rightarrow> raise e)))
      (bindE (except_client (ses_send E (compose_mail org org_id service_type to subject body_html
                body_text attachments reply_to)) (Exn (Core EmailError))) (\<lambda>message_id.
      bindE (now_utc E) (\<lambda>now.
      thenE (record_event E org_id message_id to service_type subject metadata now)
      (thenE (log_audit E org_id ''system'' (Act EMAIL_SENT) ''email'' message_id
          [(''to'', JStr to), (''subject'', JStr subject),
           (''service_type'', JStr (service_value service_type))])
      (ret \<lparr>er_message_id = message_id, er_status = SENT, er_timestamp = now\<rparr>))))))))))"

section \<open>Domain verification\<close>

record domain_records =
  dr_domain :: string
  dr_txt_name :: string
  dr_txt_value :: string
  dr_dkim :: "(string \<times> string) list"

definition start_domain_verification ::
  "env \<Rightarrow> string \<Rightarrow> string \<Rightarrow> string \<Rightarrow> ('z email_world_scheme, domain_records) op" where
  "start_domain_verification E org_id domain changed_by =
     (if \<not> domain_ok domain then raise (Exn (Core InvalidAddressError))
      else
      bindE (except_client
        (bindE (run_aws E (ret (verification_token E domain))) (\<lambda>token.
         bindE (run_aws E (ret (dkim_tokens E domain))) (\<lambda>dkim. ret (token, dkim))))
        (Exn (Core EmailError))) (\<lambda>(token, dkim).
      thenE (set_org_settings E org_id [(''domain'', JStr domain)] changed_by)
      (ret \<lparr>dr_domain = domain, dr_txt_name = ''_amazonses.'' @ domain, dr_txt_value = token,
            dr_dkim = map (\<lambda>t. (t @ ''._domainkey.'' @ domain, t @ ''.dkim.amazonses.com'')) dkim\<rparr>)))"

definition get_domain_verification_status :: "env \<Rightarrow> string \<Rightarrow> ('z email_world_scheme, string) op" where
  "get_domain_verification_status E org_id =
     bindE (get_org_settings E org_id) (\<lambda>org.
     if os_domain org = [] then ret ''NotStarted''
     else bindE (run_aws E (bindE next_tick (\<lambda>n. ret (identity_status E (os_domain org) n)))) (\<lambda>st.
       case st of None \<Rightarrow> ret ''NotStarted'' | Some s \<Rightarrow> ret s))"

section \<open>Status and suppression\<close>

definition get_email_status :: "env \<Rightarrow> string \<Rightarrow> ('z email_world_scheme, EmailStatus) op" where
  "get_email_status E message_id =
     bindE (run_aws E (getsE (\<lambda>w. row_get em_message_id message_id (email_events w)))) (\<lambda>resp.
     case resp of None \<Rightarrow> raise (Exn (Core EmailError)) | Some ev \<Rightarrow> ret (em_status ev))"

definition resolve_org_for_message :: "env \<Rightarrow> string \<Rightarrow> ('z email_world_scheme, string option) op" where
  "resolve_org_for_message E message_id =
     bindE (run_aws E (getsE (\<lambda>w. row_get em_message_id message_id (email_events w)))) (\<lambda>resp.
     ret (map_option em_org_id resp))"

definition get_suppression_list ::
  "env \<Rightarrow> string \<Rightarrow> ('z email_world_scheme, string list \<times> string list) op" where
  "get_suppression_list E org_id =
     bindE (run_aws E (getsE (\<lambda>w. sort_key sp_email (filter (\<lambda>r. sp_org_id r = org_id) (suppressions w)))))
     (\<lambda>rows. ret (map sp_email (filter (\<lambda>r. sp_reason r = ''bounce'') rows),
                  map sp_email (filter (\<lambda>r. sp_reason r \<noteq> ''bounce'') rows)))"

definition unsuppress_email :: "env \<Rightarrow> string \<Rightarrow> string \<Rightarrow> ('z email_world_scheme, unit) op" where
  "unsuppress_email E org_id email =
     thenE (run_aws E (modifyE (\<lambda>w. w\<lparr>suppressions := row_del sp_key (org_id, email) (suppressions w)\<rparr>)))
     (thenE (log_audit E org_id ''system'' (Act EMAIL_UNSUPPRESSED) ''email'' email [(''email'', JStr email)])
     (ret ()))"

definition suppress ::
  "env \<Rightarrow> string \<Rightarrow> string \<Rightarrow> string \<Rightarrow> string option \<Rightarrow> ('z email_world_scheme, unit) op" where
  "suppress E org_id email reason bounce_type =
     bindE (now_utc E) (\<lambda>now.
     run_aws E (modifyE (\<lambda>w. w\<lparr>suppressions := row_put sp_key
       \<lparr>sp_org_id = org_id, sp_email = email, sp_reason = reason, sp_timestamp = now,
        sp_bounce_type = (case bounce_type of None \<Rightarrow> None | Some b \<Rightarrow> if b = [] then None else Some b)\<rparr>
       (suppressions w)\<rparr>)))"

definition set_event_status :: "env \<Rightarrow> string \<Rightarrow> EmailStatus \<Rightarrow> ('z email_world_scheme, unit) op" where
  "set_event_status E message_id status =
     catchE
       (run_aws E (when_condition (\<lambda>w. row_get em_message_id message_id (email_events w) \<noteq> None)
          (modifyE (\<lambda>w. w\<lparr>email_events := row_upd em_message_id message_id
             (\<lambda>ev. ev\<lparr>em_status := status\<rparr>) (email_events w)\<rparr>))))
       (\<lambda>e. case e of AwsError _ \<Rightarrow> ret () | _ \<Rightarrow> raise e)"

definition handle_bounce_notification ::
  "env \<Rightarrow> string \<Rightarrow> string \<Rightarrow> string \<Rightarrow> string \<Rightarrow> ('z email_world_scheme, unit) op" where
  "handle_bounce_notification E org_id message_id to bounce_type =
     thenE (suppress E org_id to ''bounce'' (Some bounce_type))
     (thenE (set_event_status E message_id BOUNCED)
     (thenE (log_audit E org_id ''system'' (Act EMAIL_BOUNCED) ''email'' message_id
        [(''to'', JStr to), (''bounce_type'', JStr bounce_type)])
     (thenE (publish_core_event E org_id ''email.bounced''
        [(''email'', JStr to), (''bounce_type'', JStr bounce_type), (''message_id'', JStr message_id)])
     (ret ()))))"

definition handle_complaint_notification ::
  "env \<Rightarrow> string \<Rightarrow> string \<Rightarrow> string \<Rightarrow> ('z email_world_scheme, unit) op" where
  "handle_complaint_notification E org_id message_id to =
     thenE (suppress E org_id to ''complaint'' None)
     (thenE (set_event_status E message_id COMPLAINED)
     (thenE (log_audit E org_id ''system'' (Act EMAIL_COMPLAINED) ''email'' message_id [(''to'', JStr to)])
     (thenE (publish_core_event E org_id ''email.complained''
        [(''email'', JStr to), (''message_id'', JStr message_id)])
     (ret ()))))"

section \<open>Lemmas\<close>

lemma ensure_config_set_leaves [frames]:
  assumes "\<And>w g. f (tick_update g w) = f w" "\<And>w g. f (ses_config_sets_update g w) = f w"
    "\<And>w g. f (ses_event_dests_update g w) = f w" "\<And>w g. f (config_confirmed_update g w) = f w"
  shows "leaves f (ensure_config_set E org_id service_type)"
  unfolding ensure_config_set_def ensure_event_destination_def ses_create_config_set_def
    ses_create_event_dest_def Let_def
  by (intro frames) (auto simp: assms intro!: frames split: exn.split)

lemma is_suppressed_run:
  assumes "is_suppressed E org_id to w = (r, w')"
  shows "(r = Inr (row_get sp_key (org_id, to) (suppressions w) \<noteq> None) \<or>
      (\<exists>x. r = Inl (outage_exn x) \<and> \<not> no_faults E)) \<and> (\<exists>n. w' = w\<lparr>tick := n\<rparr>)"
  using assms unfolding is_suppressed_def
  by (cases rule: run_aws_cases) auto

lemma record_event_leaves [frames]:
  assumes "\<And>w g. f (tick_update g w) = f w" "\<And>w g. f (email_events_update g w) = f w"
  shows "leaves f (record_event E org_id message_id to service_type subject metadata now)"
  unfolding record_event_def by (intro frames) (simp_all add: assms)

text \<open>The part of \<open>send_email\<close> after the checks, and the state the checks look at.\<close>

definition transmit ::
  "env \<Rightarrow> string \<Rightarrow> ServiceType \<Rightarrow> string \<Rightarrow> string \<Rightarrow> (string \<times> json) list \<Rightarrow> mail
    \<Rightarrow> ('z email_world_scheme, email_result) op" where
  "transmit E org_id service_type to subject metadata m =
      bindE (except_client (ses_send E m) (Exn (Core EmailError))) (\<lambda>message_id.
      bindE (now_utc E) (\<lambda>now.
      thenE (record_event E org_id message_id to service_type subject metadata now)
      (thenE (log_audit E org_id ''system'' (Act EMAIL_SENT) ''email'' message_id
          [(''to'', JStr to), (''subject'', JStr subject),
           (''service_type'', JStr (service_value service_type))])
      (ret \<lparr>er_message_id = message_id, er_status = SENT, er_timestamp = now\<rparr>))))"

definition verify_identity :: "env \<Rightarrow> ('z email_world_scheme, unit) op" where
  "verify_identity E = whenE (\<not> is_prod E) (catchE (run_aws E (ret ()))
          (\<lambda>e. case e of AwsError _ \<Rightarrow> ret () | _ \<Rightarrow> raise e))"

lemma verify_identity_leaves [frames]:
  "(\<And>w g. f (tick_update g w) = f w) \<Longrightarrow> leaves f (verify_identity E)"
  unfolding verify_identity_def by (intro frames) (auto intro!: frames split: exn.split)

definition outbox ::
  "'z email_world_scheme \<Rightarrow> mail list \<times> (string \<times> string \<Rightarrow> rat list option) \<times> email_event list
     \<times> suppression list" where
  "outbox w = (mails w, windows w, email_events w, suppressions w)"

lemma outbox_simps [simp]:
  "outbox (tick_update f w) = outbox w" "outbox (audit_tbl_update f2 w) = outbox w"
  "outbox (ses_config_sets_update f3 w) = outbox w" "outbox (ses_event_dests_update f3 w) = outbox w"
  "outbox (config_confirmed_update f3 w) = outbox w"
  by (simp_all add: outbox_def)

lemma send_email_stages:
  fixes w :: "'z email_world_scheme"
  assumes "send_email E g svc to subject html text atts reply md w = (r, w')"
  obtains (stopped) "outbox w' = outbox w" "isl r" "audit_tbl w' = audit_tbl w"
  | (refused) e w1 where "outbox w1 = outbox w" "check_send_rate E g w1 = (Inl e, w')" "r = Inl e"
      "address_ok to" "row_get sp_key (g, to) (suppressions w) = None"
  | (checked) s w1 w2 w3 where "address_ok to" "row_get sp_key (g, to) (suppressions w) = None"
      "build_settings E g (merged_settings (settings_tbl w) g) = Inr s"
      "outbox (w1 :: 'z email_world_scheme) = outbox w" "check_send_rate E g w1 = (Inr (), w2)" "outbox w3 = outbox w2"
      "transmit E g svc to subject md (compose_mail s g svc to subject html text atts reply) w3 = (r, w')
       \<or> (w' = w3 \<and> isl r)"
proof -
  have A: "leaves outbox (get_org_settings E g)" "leaves audit_tbl (get_org_settings E g)"
    "leaves outbox (ensure_config_set E g svc)" "leaves audit_tbl (ensure_config_set E g svc)"
    "leaves outbox (verify_identity E)"
    by (intro frames; simp)+
  show thesis
  proof (cases "address_ok to")
    case False
    with assms stopped show thesis by (auto simp: send_email_def)
  next
    case True
    with assms have run: "bindE (get_org_settings E g) (\<lambda>s.
        thenE (ensure_config_set E g svc)
        (bindE (is_suppressed E g to) (\<lambda>suppressed.
         if suppressed then raise (Exn (Core SuppressionListError))
         else thenE (check_send_rate E g) (thenE (verify_identity E)
           (transmit E g svc to subject md (compose_mail s g svc to subject html text atts reply)))))) w = (r, w')"
      unfolding send_email_def transmit_def verify_identity_def by simp
    then show thesis
    proof (cases rule: bindE_cases)
      case (stop e)
      with stopped leavesD [OF A(1) stop(1)] leavesD [OF A(2) stop(1)] show thesis by simp
    next
      case (go s w1)
      note f1 = leavesD [OF A(1) go(1)] leavesD [OF A(2) go(1)]
      have s: "build_settings E g (merged_settings (settings_tbl w) g) = Inr s"
        using get_org_settings_Inr [OF go(1)] .
      from go(2) show thesis
      proof (cases rule: thenE_cases)
        case (stop e)
        with stopped f1 leavesD [OF A(3) stop(1)] leavesD [OF A(4) stop(1)] show thesis by simp
      next
        case (go x w2)
        note f2 = leavesD [OF A(3) go(1)] leavesD [OF A(4) go(1)]
        from go(2) show thesis
        proof (cases rule: bindE_cases)
          case (stop e)
          with is_suppressed_run [OF stop(1)] f1 f2 stopped show thesis by auto
        next
          case (go b w3)
          have b: "b \<longleftrightarrow> row_get sp_key (g, to) (suppressions w) \<noteq> None"
            and f3: "outbox w3 = outbox w" "audit_tbl w3 = audit_tbl w"
            using is_suppressed_run [OF go(1)] f1 f2 by (auto simp: outbox_def)
          show thesis
          proof (cases b)
            case True
            with go(2) stopped f3 show thesis by auto
          next
            case False
            with go(2) have "thenE (check_send_rate E g) (thenE (verify_identity E)
              (transmit E g svc to subject md (compose_mail s g svc to subject html text atts reply))) w3 = (r, w')"
              by simp
            then show thesis
            proof (cases rule: thenE_cases)
              case (stop e)
              with refused f3 b False \<open>address_ok to\<close> show thesis by simp
            next
              case (go u w4)
              from go(2) show thesis
              proof (cases rule: thenE_cases)
                case (stop e)
                with go(1) checked [OF \<open>address_ok to\<close> _ s f3(1)] leavesD [OF A(5) stop(1)] b False
                show thesis by simp
              next
                case (go u' w5)
                with \<open>check_send_rate E g w3 = (Inr u, w4)\<close> checked [OF \<open>address_ok to\<close> _ s f3(1)]
                  leavesD [OF A(5) go(1)] b False
                show thesis by simp
              qed
            qed
          qed
        qed
      qed
    qed
  qed
qed

lemma transmit_run:
  assumes "transmit E g svc to subject md m w = (r, w')"
  shows "suppressions w' = suppressions w \<and> windows w' = windows w \<and>
    (mails w' = mails w \<and> isl r \<or>
     mails w' = mails w @ [m] \<and>
       (\<forall>res. r = Inr res \<longrightarrow> er_status res = SENT \<and>
          (\<exists>ev. row_get em_message_id (er_message_id res) (email_events w') = Some ev \<and>
             em_org_id ev = g \<and> em_to ev = to \<and> em_status ev = SENT \<and> em_service_type ev = svc) \<and>
          (\<exists>ev \<in> set (audit_tbl w'). ae_org_id ev = g \<and> ae_action ev = ''email.sent'' \<and>
             ae_resource_id ev = er_message_id res)))"
proof -
  let ?send = "except_client (ses_send E m) (Exn (Core EmailError))"
  have L: "leaves suppressions ?send" "leaves windows ?send"
    unfolding ses_send_def by (intro frames; simp)+
  from assms show ?thesis
    unfolding transmit_def
  proof (cases rule: bindE_cases)
    case (stop e)
    then have "mails w' = mails w \<or> mails w' = mails w @ [m]"
      by (auto simp: except_client_Inl ses_send_def act_apps run_aws_def split: option.splits aws_fault.splits if_splits)
    with stop L [THEN leavesD, OF stop(1)] show ?thesis by auto
  next
    case (go mid w1)
    then have m1: "mails w1 = mails w @ [m]"
      by (auto simp: ses_send_def act_Inr dest!: run_aws_Inr split: if_splits)
    let ?rest = "thenE (log_audit E g ''system'' (Act EMAIL_SENT) ''email'' mid
          [(''to'', JStr to), (''subject'', JStr subject), (''service_type'', JStr (service_value svc))])
          (ret \<lparr>er_message_id = mid, er_status = SENT, er_timestamp = utcnow E (tick w1)\<rparr>)"
    let ?v = "w1\<lparr>tick := Suc (tick w1)\<rparr>"
    let ?all = "thenE (record_event E g mid to svc subject md (utcnow E (tick w1))) ?rest"
    from go(2) have run: "?all ?v = (r, w')" by (simp add: clock_binds)
    have A: "leaves mails ?all" "leaves suppressions ?all" "leaves windows ?all"
      by (intro frames; simp)+
    have fr: "mails w' = mails w1" "suppressions w' = suppressions w1" "windows w' = windows w1"
      using leavesD [OF A(1) run] leavesD [OF A(2) run] leavesD [OF A(3) run] by simp_all
    have ok: "er_status res = SENT \<and>
          (\<exists>ev. row_get em_message_id (er_message_id res) (email_events w') = Some ev \<and>
             em_org_id ev = g \<and> em_to ev = to \<and> em_status ev = SENT \<and> em_service_type ev = svc) \<and>
          (\<exists>ev \<in> set (audit_tbl w'). ae_org_id ev = g \<and> ae_action ev = ''email.sent'' \<and>
             ae_resource_id ev = er_message_id res)" if r: "r = Inr res" for res
    proof -
      from run r obtain w2 aev where rec: "record_event E g mid to svc subject md (utcnow E (tick w1)) ?v = (Inr (), w2)"
        and audit: "log_audit E g ''system'' (Act EMAIL_SENT) ''email'' mid
          [(''to'', JStr to), (''subject'', JStr subject), (''service_type'', JStr (service_value svc))] w2
            = (Inr aev, w')"
        and res: "res = \<lparr>er_message_id = mid, er_status = SENT, er_timestamp = utcnow E (tick w1)\<rparr>"
        by (auto simp: act_Inr)
      from rec have "\<exists>ev. row_get em_message_id mid (email_events w2) = Some ev \<and>
             em_org_id ev = g \<and> em_to ev = to \<and> em_status ev = SENT \<and> em_service_type ev = svc"
        by (auto simp: record_event_def row_get_put dest!: run_aws_Inr)
      moreover have "email_events w' = email_events w2"
        using audit by (rule leavesD [where f = email_events, rotated]) (intro frames, simp_all)
      ultimately show ?thesis
        using log_audit_logged [OF audit] res by auto
    qed
    show ?thesis
      using fr m1 L [THEN leavesD, OF go(1)] ok by auto
  qed
qed

text \<open>The rate check on the organisation's window of sends.\<close>

abbreviation send_window :: "string \<Rightarrow> 'z email_world_scheme \<Rightarrow> rat list" where
  "send_window g w \<equiv> (case windows w (g, ''email.send'') of None \<Rightarrow> [] | Some dq \<Rightarrow> dq)"

lemma check_send_rate_run:
  assumes "check_send_rate E g w = (r, w')"
  shows "r = fst (window_step 50 3600 (monotonic E (tick w)) (send_window g w)) \<and>
    windows w' = (windows w)((g, ''email.send'') \<mapsto>
      snd (window_step 50 3600 (monotonic E (tick w)) (send_window g w))) \<and>
    mails w' = mails w \<and> email_events w' = email_events w \<and> suppressions w' = suppressions w \<and>
    audit_tbl w' = audit_tbl w"
  using assms
  by (cases "window_step 50 3600 (monotonic E (tick w)) (send_window g w)")
    (auto simp: check_send_rate_def limits_for_def RATE_LIMITS_def liftS_def bindE_app Let_def
      check_and_increment_def)

section \<open>Properties\<close>

lemma suppressed_not_sent:
  assumes "row_get sp_key (g, to) (suppressions w) \<noteq> None \<or> \<not> address_ok to"
    and "send_email E g svc to subject html text atts reply md w = (r, w')"
  shows "isl r \<and> mails w' = mails w \<and> windows w' = windows w \<and>
    email_events w' = email_events w \<and> audit_tbl w' = audit_tbl w \<and> suppressions w' = suppressions w"
  using assms(2)
  by (cases rule: send_email_stages) (use assms(1) in \<open>auto simp: outbox_def\<close>)

text \<open>
  C10: a suppressed address is never written to.  Whatever fails, \<open>send_email\<close> to an address
  on the organisation's suppression list, or to one that is not plausible, raises, hands
  nothing to SES, spends nothing of the rate limit, and records neither an email event nor
  an audit event.
\<close>

theorem suppressed_never_sent:
  assumes "row_get sp_key (g, to) (suppressions w) \<noteq> None \<or> \<not> address_ok to"
    and "send_email E g svc to subject html text atts reply md w = (r, w')"
  shows "isl r \<and> mails w' = mails w \<and> windows w' = windows w \<and>
    email_events w' = email_events w \<and> audit_tbl w' = audit_tbl w \<and> suppressions w' = suppressions w"
  by (rule suppressed_not_sent [OF assms])

definition fresh_email :: email_world where
  "fresh_email = fresh_audit (bus_world_ext [] (settings_world_ext [] (member_world_ext []
     (storage_world_ext (\<lambda>_. None) [] empty_cache (secrets_world_ext (\<lambda>_. None) empty_cache
     (email_world_ext [] [] [] [] [] [] ()))))))"

theorem suppressed_never_sent_witness:
  "mails (snd (send_email sample_env ''acme'' INVOICING ''bob@x.io'' ''s'' ''h'' None [] None []
     (fresh_email\<lparr>suppressions := [\<lparr>sp_org_id = ''acme'', sp_email = ''bob@x.io'', sp_reason = ''bounce'',
        sp_timestamp = 0, sp_bounce_type = None\<rparr>]\<rparr>))) = []"
proof -
  let ?w = "fresh_email\<lparr>suppressions := [\<lparr>sp_org_id = ''acme'', sp_email = ''bob@x.io'',
        sp_reason = ''bounce'', sp_timestamp = 0, sp_bounce_type = None\<rparr>]\<rparr>"
  obtain r w' where run: "send_email sample_env ''acme'' INVOICING ''bob@x.io'' ''s'' ''h'' None [] None [] ?w
      = (r, w')" by (rule prod.exhaust)
  have "row_get sp_key (''acme'', ''bob@x.io'') (suppressions ?w) \<noteq> None \<or> \<not> address_ok ''bob@x.io''"
    by (simp add: sp_key_def)
  from suppressed_never_sent [OF this run] run show ?thesis
    by (simp add: fresh_email_def fresh_audit_def)
qed

text \<open>
  What \<open>send_email\<close> does otherwise.  Either SES gets nothing, or it gets exactly one
  message, addressed to \<open>to\<close>, composed from the organisation's settings, through its own
  configuration set, and only after the organisation's window of 50 messages an hour
  admitted it; if the call succeeds there was a message, and it is recorded as sent by the
  organisation, and audited.
\<close>

theorem send_email_delivers:
  assumes "send_email E g svc to subject html text atts reply md w = (r, w')"
  shows "(mails w' = mails w \<and> isl r) \<or>
    (\<exists>s now dq. build_settings E g (merged_settings (settings_tbl w) g) = Inr s \<and>
       address_ok to \<and> row_get sp_key (g, to) (suppressions w) = None \<and>
       mails w' = mails w @ [compose_mail s g svc to subject html text atts reply] \<and>
       window_step 50 3600 now (send_window g w) = (Inr (), dq) \<and>
       windows w' = (windows w)((g, ''email.send'') \<mapsto> dq) \<and>
       (\<forall>res. r = Inr res \<longrightarrow>
          (\<exists>ev. row_get em_message_id (er_message_id res) (email_events w') = Some ev \<and>
             em_org_id ev = g \<and> em_to ev = to \<and> em_status ev = SENT) \<and>
          (\<exists>ev \<in> set (audit_tbl w'). ae_org_id ev = g \<and> ae_action ev = ''email.sent'' \<and>
             ae_resource_id ev = er_message_id res)))"
  using assms
proof (cases rule: send_email_stages)
  case (checked s w1 w2 w3)
  let ?m = "compose_mail s g svc to subject html text atts reply"
  note rate = check_send_rate_run [OF checked(5)]
  have same: "mails w3 = mails w" "send_window g w1 = send_window g w" "windows w1 = windows w"
      "windows w3 = windows w2"
    using checked(4,6) rate by (simp_all add: outbox_def)
  from rate same obtain dq where step: "window_step 50 3600 (monotonic E (tick w1)) (send_window g w) = (Inr (), dq)"
      "windows w3 = (windows w)((g, ''email.send'') \<mapsto> dq)"
    by (cases "window_step 50 3600 (monotonic E (tick w1)) (send_window g w)") auto
  from checked(7) show ?thesis
  proof
    assume "transmit E g svc to subject md ?m w3 = (r, w')"
    note sent = transmit_run [OF this]
    show ?thesis
    proof (cases "mails w' = mails w3 \<and> isl r")
      case True
      with same show ?thesis by simp
    next
      case False
      with sent have "mails w' = mails w3 @ [?m]" by blast
      with sent same step checked(1-3) show ?thesis
        by (intro disjI2 exI [of _ s] exI [of _ "monotonic E (tick w1)"] exI [of _ dq]) auto
    qed
  next
    assume "w' = w3 \<and> isl r"
    with same show ?thesis by simp
  qed
next
  case (refused e w1)
  with check_send_rate_run [OF refused(2)] show ?thesis by (simp add: outbox_def)
qed (simp add: outbox_def)

theorem send_email_delivers_witness:
  "\<exists>res w'. send_email sample_env ''acme'' INVOICING ''bob@x.io'' ''s'' ''h'' None [] None [] fresh_email
       = (Inr res, w') \<and> map ml_to (mails w') = [''bob@x.io'']"
proof -
  have "address_ok ''bob@x.io''" by code_simp
  then have "\<not> isl (fst (send_email sample_env ''acme'' INVOICING ''bob@x.io'' ''s'' ''h'' None [] None [] fresh_email))"
    by (simp add: send_email_def fresh_email_def fresh_audit_def get_org_settings_ok settings_eval
        ensure_config_set_def ensure_event_destination_def ses_create_config_set_def
        ses_create_event_dest_def is_suppressed_def check_send_rate_def limits_for_def RATE_LIMITS_def
        check_and_increment_def window_step_def ses_send_def record_event_def except_client_def
        compose_mail_def clock_binds act_apps liftS_def Let_def)
  then obtain res w' where run: "send_email sample_env ''acme'' INVOICING ''bob@x.io'' ''s'' ''h'' None [] None []
      fresh_email = (Inr res, w')" by (rule returned)
  from send_email_delivers [OF run] have "map ml_to (mails w') = [''bob@x.io'']"
    by (auto simp: compose_mail_def Let_def fresh_email_def fresh_audit_def)
  with run show ?thesis by simp
qed

lemma suppress_run:
  assumes "suppress E g to reason bt w = (r, w')" and "\<not> isl r"
  shows "row_get sp_key (g, to) (suppressions w') \<noteq> None"
  using assms unfolding suppress_def clock_binds
  by (cases r) (auto simp: row_get_put sp_key_def dest!: run_aws_Inr)

lemma set_event_status_leaves [frames]:
  assumes "\<And>w g. f (tick_update g w) = f w" "\<And>w g. f (email_events_update g w) = f w"
  shows "leaves f (set_event_status E mid st)"
  unfolding set_event_status_def by (intro frames) (auto simp: assms intro!: frames split: exn.split)

lemma handler_suppresses:
  "handle_bounce_notification E g mid to bt w = (Inr u, w1) \<Longrightarrow>
     row_get sp_key (g, to) (suppressions w1) \<noteq> None"
  "handle_complaint_notification E g mid to w = (Inr u, w1) \<Longrightarrow>
     row_get sp_key (g, to) (suppressions w1) \<noteq> None"
proof -
  have *: "row_get sp_key (g, to) (suppressions w1) \<noteq> None"
    if "thenE (suppress E g to reason b) k w = (Inr u, w1)" "leaves suppressions k" for reason b k
    using that(1)
  proof (cases rule: thenE_cases)
    case (go x v)
    with suppress_run [OF go(1)] leavesD [OF that(2) go(2)] show ?thesis by simp
  qed simp
  show "handle_bounce_notification E g mid to bt w = (Inr u, w1) \<Longrightarrow>
     row_get sp_key (g, to) (suppressions w1) \<noteq> None"
    unfolding handle_bounce_notification_def by (erule *) (intro frames; simp)
  show "handle_complaint_notification E g mid to w = (Inr u, w1) \<Longrightarrow>
     row_get sp_key (g, to) (suppressions w1) \<noteq> None"
    unfolding handle_complaint_notification_def by (erule *) (intro frames; simp)
qed

text \<open>
  A bounce or a complaint stops further mail.  Once either handler has got past its
  first write (in particular when it succeeds), the address is on the organisation's
  suppression list; and a later \<open>send_email\<close> of that organisation to it hands nothing to
  SES until the address is removed again.
\<close>

theorem bounce_suppresses:
  assumes "handle_bounce_notification E g mid to bt w = (Inr u, w1) \<or>
      handle_complaint_notification E g mid to w = (Inr u, w1)"
    and "suppressions w2 = suppressions w1"
    and "send_email E' g svc to subject html text atts reply md w2 = (r, w3)"
  shows "row_get sp_key (g, to) (suppressions w1) \<noteq> None \<and> isl r \<and> mails w3 = mails w2"
proof -
  have on_list: "row_get sp_key (g, to) (suppressions w1) \<noteq> None"
    using assms(1) handler_suppresses by blast
  with assms(2) have "row_get sp_key (g, to) (suppressions w2) \<noteq> None" by simp
  with suppressed_not_sent [OF _ assms(3)] on_list show ?thesis by simp
qed

theorem bounce_suppresses_witness:
  "mails (snd (send_email sample_env ''acme'' INVOICING ''bob@x.io'' ''s'' ''h'' None [] None []
     (snd (handle_bounce_notification sample_env ''acme'' ''m1'' ''bob@x.io'' ''Permanent'' fresh_email)))) = []"
proof -
  obtain w1 where b: "handle_bounce_notification sample_env ''acme'' ''m1'' ''bob@x.io'' ''Permanent'' fresh_email
      = (Inr (), w1)" and m: "mails w1 = []"
    by (simp add: handle_bounce_notification_def suppress_def set_event_status_def when_condition_def
        clock_binds act_apps fresh_email_def fresh_audit_def)
  obtain r w3 where s: "send_email sample_env ''acme'' INVOICING ''bob@x.io'' ''s'' ''h'' None [] None [] w1 = (r, w3)"
    by (rule prod.exhaust)
  from bounce_suppresses [OF disjI1 [OF b] refl s] b s m show ?thesis by simp
qed

text \<open>
  The suppression list.  It lists exactly the suppressed addresses of the organisation,
  each once, bounces apart from the rest; and after \<open>unsuppress_email\<close> the address is off
  the list while every other entry stays.
\<close>

theorem suppression_list_exact:
  assumes "keyed sp_key (suppressions w)"
    and "get_suppression_list E g w = (Inr (bounced, complained), w')"
    and "unsuppress_email E g a w = (Inr u, w2)"
  shows "set bounced \<union> set complained = {e. row_get sp_key (g, e) (suppressions w) \<noteq> None} \<and>
    (\<forall>e. e \<in> set bounced \<longleftrightarrow>
       (\<exists>r. row_get sp_key (g, e) (suppressions w) = Some r \<and> sp_reason r = ''bounce'')) \<and>
    distinct (bounced @ complained) \<and>
    (\<forall>h e. row_get sp_key (h, e) (suppressions w2) =
       (if (h, e) = (g, a) then None else row_get sp_key (h, e) (suppressions w)))"
proof -
  let ?rows = "sort_key sp_email (filter (\<lambda>r. sp_org_id r = g) (suppressions w))"
  from assms(2) have lists: "bounced = map sp_email (filter (\<lambda>r. sp_reason r = ''bounce'') ?rows)"
      "complained = map sp_email (filter (\<lambda>r. sp_reason r \<noteq> ''bounce'') ?rows)"
    by (auto simp: get_suppression_list_def act_Inr dest!: run_aws_Inr)
  have row: "row_get sp_key (g, e) (suppressions w) = Some r \<longleftrightarrow> r \<in> set ?rows \<and> sp_email r = e" for e r
    using assms(1) by (auto simp: row_get_keyed sp_key_def)
  have "distinct (map sp_email ?rows)"
  proof -
    have "distinct (map sp_key (filter (\<lambda>r. sp_org_id r = g) (suppressions w)))"
      using assms(1) by (simp add: keyed_def distinct_map_filter)
    then have "distinct (map sp_email (filter (\<lambda>r. sp_org_id r = g) (suppressions w)))"
      by (auto simp: distinct_map inj_on_def sp_key_def)
    then show ?thesis by (simp add: distinct_map)
  qed
  then have dist: "distinct (bounced @ complained)"
    unfolding lists by (auto simp: distinct_map inj_on_def)
  have "row_get sp_key (h, e) (suppressions w2) =
       (if (h, e) = (g, a) then None else row_get sp_key (h, e) (suppressions w))" for h e
  proof -
    from assms(3) obtain v ev where "suppressions v = row_del sp_key (g, a) (suppressions w)"
      and "log_audit E g ''system'' (Act EMAIL_UNSUPPRESSED) ''email'' a [(''email'', JStr a)] v = (Inr ev, w2)"
      by (auto simp: unsuppress_email_def act_Inr dest!: run_aws_Inr)
        (rule that [rotated], assumption, simp)
    moreover from this(2) have "suppressions w2 = suppressions v"
      by (rule leavesD [where f = suppressions, rotated]) (intro frames, simp_all)
    ultimately show ?thesis by (simp add: row_get_del)
  qed
  moreover have "e \<in> set bounced \<longleftrightarrow>
       (\<exists>r. row_get sp_key (g, e) (suppressions w) = Some r \<and> sp_reason r = ''bounce'')"
    and "e \<in> set complained \<longleftrightarrow>
       (\<exists>r. row_get sp_key (g, e) (suppressions w) = Some r \<and> sp_reason r \<noteq> ''bounce'')" for e
    unfolding row lists by auto
  ultimately show ?thesis using dist by blast
qed

theorem suppression_list_exact_witness:
  "\<exists>r. get_suppression_list sample_env ''acme'' (fresh_email\<lparr>suppressions :=
      [\<lparr>sp_org_id = ''acme'', sp_email = ''a@x.io'', sp_reason = ''bounce'', sp_timestamp = 0,
        sp_bounce_type = None\<rparr>]\<rparr>) = (Inr ([''a@x.io''], []), r) \<and> distinct ([''a@x.io''] @ [])"
proof -
  let ?w = "fresh_email\<lparr>suppressions := [\<lparr>sp_org_id = ''acme'', sp_email = ''a@x.io'',
        sp_reason = ''bounce'', sp_timestamp = 0, sp_bounce_type = None\<rparr>]\<rparr>"
  obtain v where g: "get_suppression_list sample_env ''acme'' ?w = (Inr ([''a@x.io''], []), v)"
    by (simp add: get_suppression_list_def bindE_app)
  obtain w2 where u: "unsuppress_email sample_env ''acme'' ''a@x.io'' ?w = (Inr (), w2)"
    by (simp add: unsuppress_email_def act_apps)
  have "keyed sp_key (suppressions ?w)" by (simp add: keyed_def)
  from suppression_list_exact [OF this g u] g show ?thesis by simp
qed

lemma send_email_leaves [frames]:
  assumes "\<And>w g. f (tick_update g w) = f w" "\<And>w g. f (audit_tbl_update g w) = f w"
    "\<And>w g. f (windows_update g w) = f w" "\<And>w g. f (bus_update g w) = f w"
    "\<And>w g. f (ses_config_sets_update g w) = f w" "\<And>w g. f (ses_event_dests_update g w) = f w"
    "\<And>w g. f (config_confirmed_update g w) = f w" "\<And>w g. f (email_events_update g w) = f w"
    "\<And>w g. f (mails_update g w) = f w"
  shows "leaves f (send_email E org_id service_type to subject html text attachments reply_to metadata)"
  unfolding send_email_def check_send_rate_def ses_send_def is_suppressed_def
  by (intro frames) (auto simp: assms intro!: frames split: exn.split)

end
