(* ===== verification/A2Z_Postgres.thy ===== *)
theory A2Z_Postgres
  imports A2Z_Email
begin

text \<open>
  A SQLAlchemy session on Postgres, as the services use it: a working copy of the tables
  that sees its own flushed changes, whose changes become visible to others by a commit
  and are discarded otherwise.  Constraints are checked when changes are flushed.  The
  operations are parametric in where a component keeps its committed tables and its
  session; the locale \<open>session\<close> states that interface.
\<close>

section \<open>Calls\<close>

definition run_pg :: "env \<Rightarrow> ('z world_scheme, 'a) op \<Rightarrow> ('z world_scheme, 'a) op" where
  "run_pg E fn = bindE next_tick (\<lambda>n.
     case fault E n of
       None \<Rightarrow> fn
     | Some (Refused _) \<Rightarrow> raise (Exn (Py DBAPIError))
     | Some (Lost _) \<Rightarrow> (\<lambda>w. (Inl (Exn (Py DBAPIError)), snd (fn w))))"

lemma run_pg_no_faults [simp]: "no_faults E \<Longrightarrow> run_pg E fn w = fn (w\<lparr>tick := Suc (tick w)\<rparr>)"
  by (simp add: run_pg_def bindE_app no_faults_def)

lemma run_pg_Inr:
  "run_pg E fn w = (Inr x, w') \<Longrightarrow> fn (w\<lparr>tick := Suc (tick w)\<rparr>) = (Inr x, w')"
  by (auto simp: run_pg_def bindE_app split: option.splits aws_fault.splits)

lemma run_pg_cases:
  assumes "run_pg E fn w = (r, w')"
  obtains "fn (w\<lparr>tick := Suc (tick w)\<rparr>) = (r, w')"
  | "r = Inl (Exn (Py DBAPIError))" "w' = w\<lparr>tick := Suc (tick w)\<rparr>" "\<not> no_faults E"
  | "r = Inl (Exn (Py DBAPIError))" "w' = snd (fn (w\<lparr>tick := Suc (tick w)\<rparr>))" "\<not> no_faults E"
proof (cases "fault E (tick w)")
  case None
  with assms that(1) show ?thesis by (simp add: run_pg_def bindE_app)
next
  case (Some ft)
  then have "\<not> no_faults E" by (auto simp: no_faults_def)
  with Some assms that(2,3) show ?thesis by (cases ft) (auto simp: run_pg_def bindE_app)
qed

lemma run_pg_leaves [frames]:
  assumes "\<And>w g. f (tick_update g w) = f w" and "leaves f fn"
  shows "leaves f (run_pg E fn)"
proof (rule leavesI)
  fix w
  have "f (snd (fn v)) = f v" for v
    using assms(2) by (rule leaves_snd)
  with assms(1) show "f (snd (run_pg E fn w)) = f w"
    by (auto simp: run_pg_def bindE_app split: option.splits aws_fault.splits)
qed

section \<open>Sessions\<close>

text \<open>
  \<open>async with session_factory()() as session\<close>: the body runs on a fresh working copy, and
  what it has not committed is gone when it returns or raises.
\<close>

definition in_session ::
  "('w \<Rightarrow> 't) \<Rightarrow> (('t \<Rightarrow> 't) \<Rightarrow> 'w \<Rightarrow> 'w) \<Rightarrow> ('w, 'a) op \<Rightarrow> ('w, 'a) op" where
  "in_session db tx_upd m = (\<lambda>w.
     case m (tx_upd (\<lambda>_. db w) w) of (r, w') \<Rightarrow> (r, tx_upd (\<lambda>_. db w') w'))"

definition pg_select :: "('z world_scheme \<Rightarrow> 't) \<Rightarrow> env \<Rightarrow> ('t \<Rightarrow> 'a) \<Rightarrow> ('z world_scheme, 'a) op" where
  "pg_select tx E f = run_pg E (getsE (\<lambda>w. f (tx w)))"

definition pg_modify :: "(('t \<Rightarrow> 't) \<Rightarrow> 'w \<Rightarrow> 'w) \<Rightarrow> ('t \<Rightarrow> 't) \<Rightarrow> ('w, unit) op" where
  "pg_modify tx_upd f = modifyE (tx_upd f)"

text \<open>The constraints: the error of a violation, or none.\<close>

definition pg_check :: "('w \<Rightarrow> 't) \<Rightarrow> ('t \<Rightarrow> exn option) \<Rightarrow> ('w, unit) op" where
  "pg_check tx check = (\<lambda>w. case check (tx w) of None \<Rightarrow> (Inr (), w) | Some e \<Rightarrow> (Inl e, w))"

definition pg_flush :: "('z world_scheme \<Rightarrow> 't) \<Rightarrow> ('t \<Rightarrow> exn option) \<Rightarrow> env \<Rightarrow> ('z world_scheme, unit) op" where
  "pg_flush tx check E = run_pg E (pg_check tx check)"

definition pg_commit ::
  "('z world_scheme \<Rightarrow> 't) \<Rightarrow> (('t \<Rightarrow> 't) \<Rightarrow> 'z world_scheme \<Rightarrow> 'z world_scheme) \<Rightarrow> ('t \<Rightarrow> exn option)
    \<Rightarrow> env \<Rightarrow> ('z world_scheme, unit) op" where
  "pg_commit tx db_upd check E = run_pg E (\<lambda>w.
     case check (tx w) of None \<Rightarrow> (Inr (), db_upd (\<lambda>_. tx w) w) | Some e \<Rightarrow> (Inl e, w))"

text \<open>\<open>session.rollback()\<close>\<close>

definition pg_rollback :: "('w \<Rightarrow> 't) \<Rightarrow> (('t \<Rightarrow> 't) \<Rightarrow> 'w \<Rightarrow> 'w) \<Rightarrow> ('w, unit) op" where
  "pg_rollback db tx_upd = modifyE (\<lambda>w. tx_upd (\<lambda>_. db w) w)"

lemma pg_select_leaves [frames]:
  "(\<And>w g. f (tick_update g w) = f w) \<Longrightarrow> leaves f (pg_select tx E g)"
  unfolding pg_select_def by (intro frames) simp_all

lemma pg_modify_leaves [frames]: "(\<And>w. f (tx_upd g w) = f w) \<Longrightarrow> leaves f (pg_modify tx_upd g)"
  unfolding pg_modify_def by (intro frames) simp_all

lemma pg_check_leaves [frames]: "leaves f (pg_check tx check)"
  by (auto simp: pg_check_def leaves_def split: option.split)

lemma pg_flush_leaves [frames]:
  "(\<And>w g. f (tick_update g w) = f w) \<Longrightarrow> leaves f (pg_flush tx check E)"
  unfolding pg_flush_def by (intro frames) simp_all

lemma pg_commit_leaves [frames]:
  assumes "\<And>w g. f (tick_update g w) = f w" and "\<And>w g. f (db_upd g w) = f w"
  shows "leaves f (pg_commit tx db_upd check E)"
  unfolding pg_commit_def
  by (rule run_pg_leaves) (auto simp: assms leaves_def split: option.split)

lemma pg_select_Inr: "pg_select tx E f w = (Inr x, w') \<Longrightarrow>
    (\<And>w g. tx (tick_update g w) = tx w) \<Longrightarrow> x = f (tx w)"
  by (auto simp: pg_select_def dest!: run_pg_Inr)

section \<open>The interface\<close>

locale session =
  fixes db tx :: "'z world_scheme \<Rightarrow> 't"
    and db_upd tx_upd :: "('t \<Rightarrow> 't) \<Rightarrow> 'z world_scheme \<Rightarrow> 'z world_scheme"
    and check :: "'t \<Rightarrow> exn option"
  assumes db_db: "db (db_upd f w) = f (db w)"
    and db_tx: "db (tx_upd f w) = db w"
    and tx_tx: "tx (tx_upd f w) = f (tx w)"
    and tx_db: "tx (db_upd f w) = tx w"
    and db_tick: "db (tick_update g w) = db w"
    and tx_tick: "tx (tick_update g w) = tx w"
begin

lemma select_value: "pg_select tx E f w = (Inr x, w') \<Longrightarrow> x = f (tx w)"
  by (rule pg_select_Inr [OF _ tx_tick])

lemma select_error: "pg_select tx E f w = (Inl e, w') \<Longrightarrow> e = Exn (Py DBAPIError) \<and> \<not> no_faults E"
  unfolding pg_select_def by (erule run_pg_cases) auto

lemma modify_app: "pg_modify tx_upd f w = (Inr (), tx_upd f w)"
  by (simp add: pg_modify_def)

lemma commit_cases:
  assumes "pg_commit tx db_upd check E w = (r, w')"
  obtains (committed) "r = Inr ()" "check (tx w) = None" "db w' = tx w" "tx w' = tx w"
  | (rejected) e where "r = Inl e" "check (tx w) = Some e" "db w' = db w" "tx w' = tx w"
  | (failed) "r = Inl (Exn (Py DBAPIError))" "\<not> no_faults E" "db w' = db w" "tx w' = tx w"
  | (lost) "r = Inl (Exn (Py DBAPIError))" "\<not> no_faults E" "check (tx w) = None" "db w' = tx w"
      "tx w' = tx w"
  using assms unfolding pg_commit_def
  by (elim run_pg_cases)
    (auto simp: that db_db tx_db db_tick tx_tick split: option.splits)

text \<open>A commit publishes the working copy as a whole, after checking it, or nothing.\<close>

lemma commit_atomic:
  assumes "pg_commit tx db_upd check E w = (r, w')"
  shows "(db w' = tx w \<and> check (tx w) = None) \<or> (db w' = db w \<and> isl r)"
  using assms by (cases rule: commit_cases) auto

lemma commit_then:
  assumes "thenE (pg_commit tx db_upd check E) k w = (r, w')" and "leaves db k"
  shows "db w' = db w \<and> (isl r \<or> db w = tx w) \<or> (db w' = tx w \<and> check (tx w) = None)"
proof -
  from thenE_frame [OF assms] obtain r1 w1 where
    c: "pg_commit tx db_upd check E w = (r1, w1)" "db w' = db w1" "\<forall>e. r1 = Inl e \<longrightarrow> r = Inl e"
    by blast
  from commit_atomic [OF c(1)] c(2,3) show ?thesis by (cases r1) auto
qed

text \<open>A session body starts from the committed tables.\<close>

lemma in_session_cases:
  assumes "in_session db tx_upd m w = (r, w')"
  obtains v v' where "m v = (r, v')" "tx v = db w" "db v = db w" "db w' = db v'"
    "v = tx_upd (\<lambda>_. db w) w" "w' = tx_upd (\<lambda>_. db v') v'"
  using assms that by (auto simp: in_session_def tx_tx db_tx split: prod.splits)

text \<open>
  How a body ends: its result, the tables it has committed and its working copy.  The rules
  walk through a body: a step that leaves both copies alone, a change of the working copy,
  a flush, a commit, or a step with a contract of its own.
\<close>

definition runs :: "(exn + 'a \<Rightarrow> 't \<Rightarrow> 't \<Rightarrow> bool) \<Rightarrow> ('z world_scheme, 'a) op \<Rightarrow> 'z world_scheme \<Rightarrow> bool" where
  "runs R m w \<longleftrightarrow> (case m w of (r, w') \<Rightarrow> R r (db w') (tx w'))"

lemma runsD: "runs R m w \<Longrightarrow> m w = (r, w') \<Longrightarrow> R r (db w') (tx w')"
  by (simp add: runs_def)

lemma runsI: "(\<And>r w'. m w = (r, w') \<Longrightarrow> R r (db w') (tx w')) \<Longrightarrow> runs R m w"
  by (simp add: runs_def split: prod.split)

lemma runs_mono: "runs R m w \<Longrightarrow> (\<And>r d t. R r d t \<Longrightarrow> S r d t) \<Longrightarrow> runs S m w"
  by (simp add: runs_def split: prod.splits)

lemma runs_ret: "R (Inr x) (db w) (tx w) \<Longrightarrow> runs R (ret x) w"
  by (simp add: runs_def)

lemma runs_raise: "R (Inl e) (db w) (tx w) \<Longrightarrow> runs R (raise e) w"
  by (simp add: runs_def)

lemma runs_bind:
  assumes "runs S m w" and "\<And>e d t. S (Inl e) d t \<Longrightarrow> R (Inl e) d t"
    and "\<And>x w1. m w = (Inr x, w1) \<Longrightarrow> S (Inr x) (db w1) (tx w1) \<Longrightarrow> runs R (k x) w1"
  shows "runs R (bindE m k) w"
proof (rule runsI)
  fix r w'
  assume "bindE m k w = (r, w')"
  then show "R r (db w') (tx w')"
  proof (cases rule: bindE_cases)
    case (stop e)
    with runsD [OF assms(1) stop(1)] assms(2) show ?thesis by simp
  next
    case (go x w1)
    with runsD [OF assms(3) go(2)] runsD [OF assms(1) go(1)] show ?thesis by simp
  qed
qed

lemma runs_then:
  assumes "runs S m w" and "\<And>e d t. S (Inl e) d t \<Longrightarrow> R (Inl e) d t"
    and "\<And>x w1. m w = (Inr x, w1) \<Longrightarrow> S (Inr x) (db w1) (tx w1) \<Longrightarrow> runs R k w1"
  shows "runs R (thenE m k) w"
  unfolding thenE_def using assms by (rule runs_bind)

lemma runs_reads:
  assumes "leaves (\<lambda>w. (db w, tx w)) m" and "\<And>e. R (Inl e) (db w) (tx w)"
    and "\<And>x w1. m w = (Inr x, w1) \<Longrightarrow> db w1 = db w \<Longrightarrow> tx w1 = tx w \<Longrightarrow> runs R (k x) w1"
  shows "runs R (bindE m k) w"
proof (rule runs_bind)
  show "runs (\<lambda>_ d t. d = db w \<and> t = tx w) m w"
    using leavesD [OF assms(1)] by (auto intro!: runsI)
qed (use assms(2,3) in auto)

lemma runs_then_reads:
  assumes "leaves (\<lambda>w. (db w, tx w)) m" and "\<And>e. R (Inl e) (db w) (tx w)"
    and "\<And>x w1. m w = (Inr x, w1) \<Longrightarrow> db w1 = db w \<Longrightarrow> tx w1 = tx w \<Longrightarrow> runs R k w1"
  shows "runs R (thenE m k) w"
  unfolding thenE_def using assms by (rule runs_reads)

lemma runs_select:
  assumes "\<And>e. R (Inl e) (db w) (tx w)"
    and "\<And>w1. db w1 = db w \<Longrightarrow> tx w1 = tx w \<Longrightarrow> runs R (k (f (tx w))) w1"
  shows "runs R (bindE (pg_select tx E f) k) w"
proof (rule runs_reads)
  show "leaves (\<lambda>w. (db w, tx w)) (pg_select tx E f)"
    by (intro frames) (simp add: db_tick tx_tick)
qed (use assms in \<open>auto dest: select_value\<close>)

lemma runs_modify:
  assumes "\<And>w1. db w1 = db w \<Longrightarrow> tx w1 = f (tx w) \<Longrightarrow> runs R k w1"
  shows "runs R (thenE (pg_modify tx_upd f) k) w"
  using assms [of "tx_upd f w"] by (simp add: runs_def thenE_app modify_app db_tx tx_tx)

lemma runs_flush:
  assumes "\<And>e. R (Inl e) (db w) (tx w)"
    and "\<And>w1. check (tx w) = None \<Longrightarrow> db w1 = db w \<Longrightarrow> tx w1 = tx w \<Longrightarrow> runs R k w1"
  shows "runs R (thenE (pg_flush tx check E) k) w"
proof (rule runs_then_reads)
  show "leaves (\<lambda>w. (db w, tx w)) (pg_flush tx check E)"
    by (intro frames) (simp add: db_tick tx_tick)
next
  fix x w1
  assume run: "pg_flush tx check E w = (Inr x, w1)" and same: "db w1 = db w" "tx w1 = tx w"
  from run have "check (tx w) = None"
    by (auto simp: pg_flush_def pg_check_def tx_tick dest!: run_pg_Inr split: option.splits)
  from assms(2) [OF this same] show "runs R k w1" .
qed (rule assms(1))

lemma runs_lift:
  assumes "\<And>e. s = Inl e \<Longrightarrow> R (Inl e) (db w) (tx w)" and "\<And>x. s = Inr x \<Longrightarrow> runs R (k x) w"
  shows "runs R (bindE (liftS s) k) w"
  using assms by (cases s) (auto simp: runs_def bindE_app liftS_def ret_def raise_def)

lemma runs_commit:
  assumes "\<And>e. R (Inl e) (db w) (tx w)"
    and "check (tx w) = None \<Longrightarrow> R (Inl (Exn (Py DBAPIError))) (tx w) (tx w)"
    and "\<And>w1. check (tx w) = None \<Longrightarrow> db w1 = tx w \<Longrightarrow> tx w1 = tx w \<Longrightarrow> runs R k w1"
  shows "runs R (thenE (pg_commit tx db_upd check E) k) w"
proof (rule runs_then)
  show "runs (\<lambda>r d t. t = tx w \<and> (d = db w \<and> isl r \<or>
      d = tx w \<and> check (tx w) = None \<and> (\<forall>e. r = Inl e \<longrightarrow> e = Exn (Py DBAPIError))))
      (pg_commit tx db_upd check E) w"
    by (rule runsI, erule commit_cases) auto
qed (use assms in auto)

text \<open>A loop whose body keeps a relation between the two copies.\<close>

lemma runs_for:
  assumes "\<And>x v. x \<in> set xs \<Longrightarrow> I (db v) (tx v) \<Longrightarrow> runs (\<lambda>r d t. if isl r then S d else I d t) (f x) v"
    and "I (db w) (tx w)"
  shows "runs (\<lambda>r d t. if isl r then S d else I d t) (forE f xs) w"
  using assms
proof (induction xs arbitrary: w)
  case Nil
  then show ?case by (simp add: runs_def)
next
  case (Cons x xs)
  show ?case unfolding forE.simps
  proof (rule runs_then)
    show "runs (\<lambda>r d t. if isl r then S d else I d t) (f x) w" using Cons.prems by simp
  next
    fix y w1
    assume "if isl (Inr y) then S (db w1) else I (db w1) (tx w1)"
    with Cons show "runs (\<lambda>r d t. if isl r then S d else I d t) (forE f xs) w1" by simp
  qed simp
qed

text \<open>What a body has committed when it ends, when the working copy does not matter.\<close>

definition ends :: "(exn + 'a \<Rightarrow> 't \<Rightarrow> bool) \<Rightarrow> ('z world_scheme, 'a) op \<Rightarrow> 'z world_scheme \<Rightarrow> bool" where
  "ends R m w \<longleftrightarrow> (case m w of (r, w') \<Rightarrow> R r (db w'))"

lemma ends_runs: "ends R = runs (\<lambda>r d _. R r d)"
  by (simp add: ends_def runs_def fun_eq_iff)

lemma endsD: "ends R m w \<Longrightarrow> m w = (r, w') \<Longrightarrow> R r (db w')"
  by (simp add: ends_def)

lemma ends_mono: "ends R m w \<Longrightarrow> (\<And>r t. R r t \<Longrightarrow> S r t) \<Longrightarrow> ends S m w"
  by (simp add: ends_def split: prod.splits)

lemma ends_reads:
  assumes "leaves (\<lambda>w. (db w, tx w)) m" and "\<And>e. R (Inl e) (db w)"
    and "\<And>x w1. m w = (Inr x, w1) \<Longrightarrow> db w1 = db w \<Longrightarrow> tx w1 = tx w \<Longrightarrow> ends R (k x) w1"
  shows "ends R (bindE m k) w"
  using assms unfolding ends_runs by (rule runs_reads)

lemma ends_then_reads:
  assumes "leaves (\<lambda>w. (db w, tx w)) m" and "\<And>e. R (Inl e) (db w)"
    and "\<And>x w1. m w = (Inr x, w1) \<Longrightarrow> db w1 = db w \<Longrightarrow> tx w1 = tx w \<Longrightarrow> ends R k w1"
  shows "ends R (thenE m k) w"
  unfolding thenE_def using assms by (rule ends_reads)

lemma ends_select:
  assumes "\<And>e. R (Inl e) (db w)"
    and "\<And>w1. db w1 = db w \<Longrightarrow> tx w1 = tx w \<Longrightarrow> ends R (k (f (tx w))) w1"
  shows "ends R (bindE (pg_select tx E f) k) w"
  using assms unfolding ends_runs by (rule runs_select)

lemma ends_modify:
  assumes "\<And>w1. db w1 = db w \<Longrightarrow> tx w1 = f (tx w) \<Longrightarrow> ends R k w1"
  shows "ends R (thenE (pg_modify tx_upd f) k) w"
  using assms unfolding ends_runs by (rule runs_modify)

lemma ends_flush:
  assumes "\<And>e. R (Inl e) (db w)"
    and "\<And>w1. db w1 = db w \<Longrightarrow> tx w1 = tx w \<Longrightarrow> ends R k w1"
  shows "ends R (thenE (pg_flush tx check E) k) w"
  using assms unfolding ends_runs by (rule runs_flush)

lemma ends_lift:
  assumes "\<And>e. s = Inl e \<Longrightarrow> R (Inl e) (db w)" and "\<And>x. s = Inr x \<Longrightarrow> ends R (k x) w"
  shows "ends R (bindE (liftS s) k) w"
  using assms unfolding ends_runs by (rule runs_lift)

lemma ends_then_lift:
  assumes "\<And>e. s = Inl e \<Longrightarrow> R (Inl e) (db w)" and "\<And>x. s = Inr x \<Longrightarrow> ends R k w"
  shows "ends R (thenE (liftS s) k) w"
  unfolding thenE_def using assms by (rule ends_lift)

lemma ends_commit:
  assumes "\<And>e. R (Inl e) (db w)"
    and "check (tx w) = None \<Longrightarrow> R (Inl (Exn (Py DBAPIError))) (tx w)"
    and "\<And>w1. check (tx w) = None \<Longrightarrow> db w1 = tx w \<Longrightarrow> tx w1 = tx w \<Longrightarrow> ends R k w1"
  shows "ends R (thenE (pg_commit tx db_upd check E) k) w"
  using assms unfolding ends_runs by (rule runs_commit)

text \<open>The rest of a body that no longer touches the committed tables.\<close>

lemma ends_rest: "leaves db m \<Longrightarrow> (\<And>r. R r (db w)) \<Longrightarrow> ends R m w"
  using leaves_snd [of db m w] by (auto simp: ends_def split: prod.split)

lemma ends_session:
  assumes "\<And>v. db v = db w \<Longrightarrow> tx v = db w \<Longrightarrow> ends R m v"
    and "in_session db tx_upd m w = (r, w')"
  shows "R r (db w')"
  using assms(2)
proof (cases rule: in_session_cases)
  case (1 v v')
  with endsD [OF assms(1) 1(1)] show ?thesis by simp
qed

end

end
