(* ===== verification/A2Z_InvoiceRules.thy ===== *)
theory A2Z_InvoiceRules
  imports A2Z_Postgres
begin

text \<open>
  The pure part of invoicing: the tables of \<open>app/services/invoicing/models.py\<close>, the
  requests of \<open>schemas.py\<close>, the lifecycle and the arithmetic of \<open>state_machine.py\<close>, and the
  message bodies of \<open>email_templates.py\<close>.  Quantities are exact decimals, money is integer
  cents; dates are day numbers.
\<close>

section \<open>Tables\<close>

datatype InvoiceStatus = IS_DRAFT | IS_SENT | IS_PARTIALLY_PAID | IS_PAID | IS_VOID

fun invoice_status_value :: "InvoiceStatus \<Rightarrow> string" where
  "invoice_status_value IS_DRAFT = ''draft''"
| "invoice_status_value IS_SENT = ''sent''"
| "invoice_status_value IS_PARTIALLY_PAID = ''partially_paid''"
| "invoice_status_value IS_PAID = ''paid''"
| "invoice_status_value IS_VOID = ''void''"

datatype PaymentStatus = PS_UNPAID | PS_PARTIALLY_PAID | PS_PAID

record invoice =
  iv_id :: string
  iv_org_id :: string
  iv_number :: string
  iv_status :: InvoiceStatus
  iv_customer_email :: string
  iv_customer_name :: string
  iv_customer_company :: "string option"
  iv_invoice_date :: int
  iv_due_date :: "int option"
  iv_payment_terms :: "string option"
  iv_subtotal :: int
  iv_tax :: int
  iv_discount :: int
  iv_total :: int
  iv_paid :: int
  iv_payment_status :: PaymentStatus
  iv_currency :: string
  iv_notes :: "string option"
  iv_pdf_s3_key :: "string option"
  iv_is_deleted :: bool
  iv_created_by :: string
  iv_created_at :: int
  iv_updated_at :: int

record line_item =
  li_id :: string
  li_org_id :: string
  li_invoice_id :: string
  li_description :: string
  li_quantity :: rat
  li_unit_price :: int
  li_amount :: int
  li_created_at :: int

record payment =
  py_id :: string
  py_org_id :: string
  py_invoice_id :: string
  py_amount :: int
  py_payment_date :: int
  py_method :: string
  py_reference :: "string option"
  py_notes :: "string option"
  py_idempotency_key :: "string option"
  py_recorded_by :: string
  py_recorded_at :: int

section \<open>Requests\<close>

record line_item_create =
  lc_description :: string
  lc_quantity :: rat
  lc_unit_price :: int

record invoice_create =
  ic_customer_email :: string
  ic_customer_name :: string
  ic_customer_company :: "string option"
  ic_invoice_date :: int
  ic_due_date :: "int option"
  ic_payment_terms :: "string option"
  ic_line_items :: "line_item_create list"
  ic_tax :: int
  ic_discount :: int
  ic_notes :: "string option"

record invoice_update =
  iu_customer_email :: "string option"
  iu_customer_name :: "string option"
  iu_customer_company :: "string option"
  iu_invoice_date :: "int option"
  iu_due_date :: "int option"
  iu_payment_terms :: "string option"
  iu_line_items :: "line_item_create list option"
  iu_tax :: "int option"
  iu_discount :: "int option"
  iu_notes :: "string option"

record payment_request =
  pr_amount :: int
  pr_payment_date :: int
  pr_method :: string
  pr_reference :: "string option"
  pr_notes :: "string option"
  pr_idempotency_key :: "string option"

text \<open>The field constraints that pydantic enforces before a handler runs.\<close>

definition valid_line :: "line_item_create \<Rightarrow> bool" where
  "valid_line l \<longleftrightarrow> 0 < lc_quantity l \<and> 0 \<le> lc_unit_price l"

definition valid_create :: "invoice_create \<Rightarrow> bool" where
  "valid_create b \<longleftrightarrow> ic_line_items b \<noteq> [] \<and> list_all valid_line (ic_line_items b) \<and>
     0 \<le> ic_tax b \<and> 0 \<le> ic_discount b"

definition valid_update :: "invoice_update \<Rightarrow> bool" where
  "valid_update b \<longleftrightarrow> pred_option (list_all valid_line) (iu_line_items b) \<and>
     pred_option (\<lambda>t. 0 \<le> t) (iu_tax b) \<and> pred_option (\<lambda>t. 0 \<le> t) (iu_discount b)"

definition valid_payment :: "payment_request \<Rightarrow> bool" where
  "valid_payment b \<longleftrightarrow> 0 < pr_amount b"

section \<open>The lifecycle\<close>

definition assert_can_edit :: "InvoiceStatus \<Rightarrow> exn + unit" where
  "assert_can_edit s = (if s = IS_VOID then Inl (Exn (Inv InvalidStateTransitionError)) else Inr ())"

definition assert_can_send :: "InvoiceStatus \<Rightarrow> exn + unit" where
  "assert_can_send s = (if s \<notin> {IS_DRAFT} then Inl (Exn (Inv InvalidStateTransitionError)) else Inr ())"

definition assert_can_record_payment :: "InvoiceStatus \<Rightarrow> exn + unit" where
  "assert_can_record_payment s =
     (if s \<notin> {IS_SENT, IS_PARTIALLY_PAID, IS_PAID} then Inl (Exn (Inv InvalidStateTransitionError))
      else Inr ())"

definition assert_can_void :: "InvoiceStatus \<Rightarrow> exn + unit" where
  "assert_can_void s = (if s = IS_VOID then Inl (Exn (Inv InvalidStateTransitionError)) else Inr ())"

definition next_payment_status :: "int \<Rightarrow> int \<Rightarrow> PaymentStatus" where
  "next_payment_status amount_paid_cents total_cents =
     (if amount_paid_cents \<le> 0 then PS_UNPAID
      else if amount_paid_cents \<ge> total_cents then PS_PAID
      else PS_PARTIALLY_PAID)"

definition next_invoice_status :: "InvoiceStatus \<Rightarrow> PaymentStatus \<Rightarrow> InvoiceStatus" where
  "next_invoice_status current_status payment_status =
     (if current_status \<notin> {IS_SENT, IS_PARTIALLY_PAID, IS_PAID} then current_status
      else if payment_status = PS_PAID then IS_PAID
      else if payment_status = PS_PARTIALLY_PAID then IS_PARTIALLY_PAID
      else IS_SENT)"

section \<open>Money\<close>

text \<open>\<open>quantize(Decimal("1"), rounding=ROUND_HALF_UP)\<close>: to the nearest, ties away from zero.\<close>

definition round_half_up :: "rat \<Rightarrow> int" where
  "round_half_up x = (if 0 \<le> x then \<lfloor>x + 1/2\<rfloor> else - \<lfloor>- x + 1/2\<rfloor>)"

definition compute_line_amount_cents :: "rat \<Rightarrow> int \<Rightarrow> int" where
  "compute_line_amount_cents quantity unit_price_cents =
     round_half_up (quantity * of_int unit_price_cents)"

definition compute_totals :: "int list \<Rightarrow> int \<Rightarrow> int \<Rightarrow> exn + (int \<times> int)" where
  "compute_totals line_amounts_cents tax_cents discount_cents =
     (let subtotal_cents = sum_list line_amounts_cents;
          total_cents = subtotal_cents + tax_cents - discount_cents
      in if total_cents < 0 then Inl (Exn (Inv InvoiceValidationError))
         else Inr (subtotal_cents, total_cents))"

definition remaining_cents :: "'z invoice_scheme \<Rightarrow> int" where
  "remaining_cents iv = max (iv_total iv - iv_paid iv) 0"

text \<open>\<open>f"{currency_code} {cents / 100:,.2f}"\<close>, on amounts that a float divides exactly enough.\<close>

fun group3 :: "string \<Rightarrow> string" where
  "group3 (a # b # c # d # s) = a # b # c # CHR '','' # group3 (d # s)"
| "group3 s = s"

definition money :: "int \<Rightarrow> string \<Rightarrow> string" where
  "money cents currency_code =
     (let n = nat \<bar>cents\<bar> in
      currency_code @ '' '' @ (if cents < 0 then ''-'' else '''') @
        rev (group3 (rev (show_nat (n div 100)))) @ ''.'' @ zfill 2 (show_nat (n mod 100)))"

section \<open>Numbers and messages\<close>

text \<open>\<open>int(s)\<close> of the text of an integer, and \<open>{n:06d}\<close>.\<close>

definition parse_int :: "string \<Rightarrow> int" where
  "parse_int s = (case s of
     [] \<Rightarrow> 0
   | c # t \<Rightarrow> if c = CHR ''-'' then - int (read_nat t) else int (read_nat s))"

definition format06 :: "int \<Rightarrow> string" where
  "format06 n = (if n < 0 then CHR ''-'' # zfill 5 (show_nat (nat (- n))) else zfill 6 (show_nat (nat n)))"

text \<open>\<open>date.isoformat()\<close>\<close>

definition iso_date :: "int \<Rightarrow> string" where
  "iso_date day = (case civil day of (y, m, d) \<Rightarrow> pad 4 y @ ''-'' @ pad 2 m @ ''-'' @ pad 2 d)"

definition invoice_number :: "int \<Rightarrow> string \<Rightarrow> string" where
  "invoice_number us raw_number =
     (case civil (us div (86400 * 1000000)) of (y, _, _) \<Rightarrow>
       ''INV-'' @ show_int y @ ''-'' @ format06 (parse_int raw_number))"

definition render_invoice_email_html :: "invoice \<Rightarrow> org_settings \<Rightarrow> string" where
  "render_invoice_email_html iv s =
     ''<p>Hi '' @ iv_customer_name iv @ '',</p>'' @
     ''<p>'' @ or_default (os_sender_name s) (iv_org_id iv) @ '' has sent you invoice <strong>'' @
       iv_number iv @ ''</strong> '' @
     ''for <strong>'' @ money (iv_total iv) (iv_currency iv) @ ''</strong>.</p>'' @
     (case iv_due_date iv of None \<Rightarrow> '''' | Some d \<Rightarrow> ''<p>Due date: '' @ iso_date d @ ''</p>'') @
     ''<p>The invoice PDF is attached to this email.</p>'' @
     ''<p>Thank you for your business.</p>''"

definition newline :: string where
  "newline = [char_of (10 :: nat)]"

definition render_invoice_email_text :: "invoice \<Rightarrow> string" where
  "render_invoice_email_text iv =
     ''Hi '' @ iv_customer_name iv @ '','' @ newline @ newline @
     ''Invoice '' @ iv_number iv @ '' for '' @ money (iv_total iv) (iv_currency iv) @
       '' is attached to this email.'' @
     (case iv_due_date iv of None \<Rightarrow> '''' | Some d \<Rightarrow> newline @ ''Due date: '' @ iso_date d) @
     newline @ newline @ ''Thank you for your business.''"

section \<open>Edits as functions of the row\<close>

definition or_keep :: "'a option \<Rightarrow> 'a \<Rightarrow> 'a" where
  "or_keep u x = (case u of None \<Rightarrow> x | Some v \<Rightarrow> v)"

definition keep_some :: "'a option \<Rightarrow> 'a option \<Rightarrow> 'a option" where
  "keep_some u x = (case u of None \<Rightarrow> x | Some v \<Rightarrow> Some v)"

definition edit_header :: "invoice_update \<Rightarrow> invoice \<Rightarrow> invoice" where
  "edit_header b iv = iv\<lparr>
     iv_customer_email := or_keep (iu_customer_email b) (iv_customer_email iv),
     iv_customer_name := or_keep (iu_customer_name b) (iv_customer_name iv),
     iv_customer_company := keep_some (iu_customer_company b) (iv_customer_company iv),
     iv_invoice_date := or_keep (iu_invoice_date b) (iv_invoice_date iv),
     iv_due_date := keep_some (iu_due_date b) (iv_due_date iv),
     iv_payment_terms := keep_some (iu_payment_terms b) (iv_payment_terms iv),
     iv_notes := keep_some (iu_notes b) (iv_notes iv),
     iv_tax := or_keep (iu_tax b) (iv_tax iv),
     iv_discount := or_keep (iu_discount b) (iv_discount iv)\<rparr>"

definition recompute :: "int list \<Rightarrow> invoice \<Rightarrow> exn + invoice" where
  "recompute amounts iv =
     bindS (compute_totals amounts (iv_tax iv) (iv_discount iv)) (\<lambda>(subtotal, total).
     let payment_status = next_payment_status (iv_paid iv) total in
     Inr (iv\<lparr>iv_subtotal := subtotal, iv_total := total, iv_payment_status := payment_status,
            iv_status := next_invoice_status (iv_status iv) payment_status\<rparr>))"

definition needs_recompute :: "invoice_update \<Rightarrow> bool" where
  "needs_recompute b \<longleftrightarrow> iu_tax b \<noteq> None \<or> iu_discount b \<noteq> None \<or> iu_line_items b \<noteq> None"

definition apply_payment :: "int \<Rightarrow> invoice \<Rightarrow> invoice" where
  "apply_payment amount iv =
     (let paid = iv_paid iv + amount;
          payment_status = next_payment_status paid (iv_total iv)
      in iv\<lparr>iv_paid := paid, iv_payment_status := payment_status,
            iv_status := next_invoice_status (iv_status iv) payment_status\<rparr>)"

section \<open>Properties of the arithmetic\<close>

lemma round_half_up_nonneg: "0 \<le> x \<Longrightarrow> 0 \<le> round_half_up x"
  by (simp add: round_half_up_def)

lemma floor_half_error: "\<bar>of_int \<lfloor>x + 1/2\<rfloor> - x\<bar> \<le> (1/2 :: rat)"
  using of_int_floor_le [of "x + 1/2"] floor_correct [of "x + 1/2"] by (intro abs_leI) linarith+

lemma round_half_up_error: "\<bar>of_int (round_half_up x) - x\<bar> \<le> 1/2"
proof (cases "0 \<le> x")
  case True
  with floor_half_error [of x] show ?thesis by (simp add: round_half_up_def)
next
  case False
  have "\<bar>of_int \<lfloor>- x + 1/2\<rfloor> - (- x)\<bar> = \<bar>of_int (- \<lfloor>- x + 1/2\<rfloor>) - x\<bar>"
    by (simp add: abs_if)
  with False floor_half_error [of "- x"] show ?thesis by (simp add: round_half_up_def)
qed



lemma compute_totals_Inr:
  "compute_totals amounts tax disc = Inr (sub, tot) \<longleftrightarrow>
     sub = sum_list amounts \<and> tot = sum_list amounts + tax - disc \<and> 0 \<le> tot"
  by (auto simp: compute_totals_def Let_def)

text \<open>Which payment status goes with which status of an invoice on the paid track.\<close>

fun in_step :: "InvoiceStatus \<Rightarrow> PaymentStatus \<Rightarrow> bool" where
  "in_step IS_SENT p \<longleftrightarrow> p = PS_UNPAID"
| "in_step IS_PARTIALLY_PAID p \<longleftrightarrow> p = PS_PARTIALLY_PAID"
| "in_step IS_PAID p \<longleftrightarrow> p = PS_PAID"
| "in_step _ p \<longleftrightarrow> True"

lemma next_invoice_status_in_step: "in_step (next_invoice_status s p) p"
  by (cases s; cases p) (auto simp: next_invoice_status_def)

lemma next_invoice_status_track:
  "next_invoice_status s p = IS_DRAFT \<longleftrightarrow> s = IS_DRAFT"
  "next_invoice_status s p = IS_VOID \<longleftrightarrow> s = IS_VOID"
  by (auto simp: next_invoice_status_def)

text \<open>The consistency of one invoice.\<close>

definition invoice_ok :: "invoice \<Rightarrow> bool" where
  "invoice_ok iv \<longleftrightarrow>
     0 \<le> iv_tax iv \<and> 0 \<le> iv_discount iv \<and>
     iv_total iv = iv_subtotal iv + iv_tax iv - iv_discount iv \<and> 0 \<le> iv_total iv \<and>
     0 \<le> iv_paid iv \<and> iv_payment_status iv = next_payment_status (iv_paid iv) (iv_total iv) \<and>
     in_step (iv_status iv) (iv_payment_status iv) \<and>
     (iv_status iv = IS_DRAFT \<longrightarrow> iv_paid iv = 0) \<and>
     (iv_status iv \<in> {IS_SENT, IS_PARTIALLY_PAID, IS_PAID} \<longrightarrow> iv_pdf_s3_key iv \<noteq> None)"

lemma edit_header_simps [simp]:
  "iv_id (edit_header b iv) = iv_id iv" "iv_org_id (edit_header b iv) = iv_org_id iv"
  "iv_number (edit_header b iv) = iv_number iv" "iv_status (edit_header b iv) = iv_status iv"
  "iv_subtotal (edit_header b iv) = iv_subtotal iv" "iv_total (edit_header b iv) = iv_total iv"
  "iv_paid (edit_header b iv) = iv_paid iv" "iv_is_deleted (edit_header b iv) = iv_is_deleted iv"
  "iv_payment_status (edit_header b iv) = iv_payment_status iv"
  "iv_pdf_s3_key (edit_header b iv) = iv_pdf_s3_key iv"
  "iv_tax (edit_header b iv) = or_keep (iu_tax b) (iv_tax iv)"
  "iv_discount (edit_header b iv) = or_keep (iu_discount b) (iv_discount iv)"
  by (simp_all add: edit_header_def)

lemma recompute_ok:
  assumes "recompute amounts iv0 = Inr iv" and "0 \<le> iv_tax iv0" "0 \<le> iv_discount iv0" "0 \<le> iv_paid iv0"
    and "iv_status iv0 = IS_DRAFT \<longrightarrow> iv_paid iv0 = 0"
    and "iv_status iv0 \<in> {IS_SENT, IS_PARTIALLY_PAID, IS_PAID} \<longrightarrow> iv_pdf_s3_key iv0 \<noteq> None"
  shows "invoice_ok iv \<and> iv_subtotal iv = sum_list amounts"
proof -
  from assms(1) obtain sub tot where t: "compute_totals amounts (iv_tax iv0) (iv_discount iv0) = Inr (sub, tot)"
    and iv: "iv = iv0\<lparr>iv_subtotal := sub, iv_total := tot,
        iv_payment_status := next_payment_status (iv_paid iv0) tot,
        iv_status := next_invoice_status (iv_status iv0) (next_payment_status (iv_paid iv0) tot)\<rparr>"
    by (auto simp: recompute_def bindS_Inr Let_def)
  have "iv_status iv \<in> {IS_SENT, IS_PARTIALLY_PAID, IS_PAID} \<longrightarrow> iv_pdf_s3_key iv \<noteq> None"
    using assms(6) iv by (auto simp: next_invoice_status_def split: if_splits)
  with assms(2-5) t iv show ?thesis
    by (simp add: invoice_ok_def compute_totals_Inr next_invoice_status_in_step next_invoice_status_track)
qed

lemma apply_payment_ok:
  assumes "invoice_ok iv" "0 < amount" "iv_status iv \<noteq> IS_DRAFT"
  shows "invoice_ok (apply_payment amount iv)"
proof -
  have "iv_status (apply_payment amount iv) \<in> {IS_SENT, IS_PARTIALLY_PAID, IS_PAID} \<longrightarrow>
      iv_pdf_s3_key (apply_payment amount iv) \<noteq> None"
    using assms(1) by (auto simp: apply_payment_def Let_def invoice_ok_def next_invoice_status_def split: if_splits)
  with assms show ?thesis
    by (simp add: apply_payment_def Let_def invoice_ok_def next_invoice_status_in_step
        next_invoice_status_track)
qed

end
