(* ===== verification/A2Z_Access.thy ===== *)
theory A2Z_Access
  imports A2Z_Membership
begin

text \<open>
  The interface of the access checks that open every handler of the two services: a gate
  reads the caller's membership, and lets the handler go on only with a role it admits.
  Its clients, the handlers that start with a gate, are shown to do nothing for anybody
  else.  \<open>access.py\<close> of invoicing and of omni-channel provide the interpretations.
\<close>

locale access_gate =
  fixes gate :: "env \<Rightarrow> string \<Rightarrow> string \<Rightarrow> ('z member_world_scheme, membership) op"
    and admits :: "Role \<Rightarrow> bool"
    and forbidden :: exn
  assumes gate_Inr: "wf_members (member_tbl w) \<Longrightarrow> gate E u g w = (Inr m, w') \<Longrightarrow>
        (\<exists>t. member_of (member_tbl w) (u, g) = Some (mb_role m, t)) \<and> admits (mb_role m) \<and>
        mb_user_id m = u \<and> mb_org_id m = g"
    and gate_Inl: "wf_members (member_tbl w) \<Longrightarrow> gate E u g w = (Inl e, w') \<Longrightarrow>
        (\<exists>x. e = outage_exn x) \<or>
        (member_of (member_tbl w) (u, g) = None \<and> e = Exn (Core NotFoundError)) \<or>
        (\<exists>r t. member_of (member_tbl w) (u, g) = Some (r, t) \<and> \<not> admits r \<and> e = forbidden)"
    and gate_state: "gate E u g w = (r, w') \<Longrightarrow> \<exists>n. w' = w\<lparr>tick := n\<rparr>"
begin

definition may_enter :: "string \<Rightarrow> string \<Rightarrow> 'z member_world_scheme \<Rightarrow> bool" where
  "may_enter u g w \<longleftrightarrow>
     (\<exists>r t. member_of (member_tbl w) (u, g) = Some (r, t) \<and> admits r)"

definition refusal_of :: "string \<Rightarrow> string \<Rightarrow> 'z member_world_scheme \<Rightarrow> exn" where
  "refusal_of u g w =
     (if member_of (member_tbl w) (u, g) = None then Exn (Core NotFoundError) else forbidden)"

lemma gate_leaves: "(\<And>w n. f (w\<lparr>tick := n\<rparr>) = f w) \<Longrightarrow> leaves f (gate E u g)"
proof (rule leavesI)
  fix w
  assume f: "\<And>w n. f (w\<lparr>tick := n\<rparr>) = f w"
  obtain r w' where "gate E u g w = (r, w')" by (rule prod.exhaust)
  with gate_state [OF this] f show "f (snd (gate E u g w)) = f w" by auto
qed

text \<open>A handler behind the gate does nothing for a caller who may not enter.\<close>

lemma guarded_refuses:
  assumes "wf_members (member_tbl w)" and "\<not> may_enter u g w"
    and "bindE (gate E u g) body w = (r, w')"
  shows "(\<exists>n. w' = w\<lparr>tick := n\<rparr>) \<and>
    (r = Inl (refusal_of u g w) \<or> (\<exists>x. r = Inl (outage_exn x)))"
  using assms(3)
proof (cases rule: bindE_cases)
  case (stop e)
  with gate_Inl [OF assms(1) stop(1)] gate_state [OF stop(1)] show ?thesis
    by (auto simp: refusal_of_def)
next
  case (go m w1)
  with gate_Inr [OF assms(1) go(1)] assms(2) show ?thesis by (auto simp: may_enter_def)
qed

end


section \<open>Gates by role\<close>

text \<open>The shape of both services' gates, over the membership look-up.\<close>

definition role_gate :: "(Role \<Rightarrow> bool) \<Rightarrow> exn \<Rightarrow> env \<Rightarrow> string \<Rightarrow> string \<Rightarrow> ('z member_world_scheme, membership) op" where
  "role_gate admits forbidden E u g = bindE (get_membership E u g) (\<lambda>m.
     case m of None \<Rightarrow> raise (Exn (Core NotFoundError))
     | Some m \<Rightarrow> if admits (mb_role m) then ret m else raise forbidden)"

lemma tick_only:
  assumes "leaves (\<lambda>w. w\<lparr>tick := 0\<rparr>) m" and "m w = (r, w')"
  shows "\<exists>n. w' = w\<lparr>tick := n\<rparr>"
proof -
  from leavesD [OF assms] have "w'\<lparr>tick := 0\<rparr> = w\<lparr>tick := 0\<rparr>" .
  then have "w'\<lparr>tick := 0\<rparr>\<lparr>tick := tick w'\<rparr> = w\<lparr>tick := 0\<rparr>\<lparr>tick := tick w'\<rparr>" by simp
  then have "w' = w\<lparr>tick := tick w'\<rparr>" by simp
  then show ?thesis ..
qed

lemma role_gate_laws:
  assumes "wf_members (member_tbl w)" and "role_gate admits forbidden E u g w = (r, w')"
  shows "case r of
      Inr m \<Rightarrow> (\<exists>t. member_of (member_tbl w) (u, g) = Some (mb_role m, t)) \<and> admits (mb_role m) \<and>
        mb_user_id m = u \<and> mb_org_id m = g
    | Inl e \<Rightarrow> (\<exists>x. e = outage_exn x) \<or>
        (member_of (member_tbl w) (u, g) = None \<and> e = Exn (Core NotFoundError)) \<or>
        (\<exists>r t. member_of (member_tbl w) (u, g) = Some (r, t) \<and> \<not> admits r \<and> e = forbidden)"
  using assms(2) unfolding role_gate_def
proof (cases rule: bindE_cases)
  case (stop e)
  with get_membership_wf [OF assms(1) stop(1)] show ?thesis by auto
next
  case (go m w1)
  with get_membership_wf [OF assms(1) go(1)] show ?thesis
    by (cases "member_of (member_tbl w) (u, g)") (auto split: if_splits)
qed

lemma role_gate_access: "access_gate (role_gate admits forbidden) admits forbidden"
proof
  fix E u g r w' and w :: "'z member_world_scheme"
  assume run: "role_gate admits forbidden E u g w = (r, w')"
  have "leaves (\<lambda>w. w\<lparr>tick := 0\<rparr>) (role_gate admits forbidden E u g)"
    unfolding role_gate_def by (intro frames) simp
  from tick_only [OF this run] show "\<exists>n. w' = w\<lparr>tick := n\<rparr>" .
next
  fix E u g m w' and w :: "'z member_world_scheme"
  assume "wf_members (member_tbl w)" "role_gate admits forbidden E u g w = (Inr m, w')"
  from role_gate_laws [OF this]
  show "(\<exists>t. member_of (member_tbl w) (u, g) = Some (mb_role m, t)) \<and> admits (mb_role m) \<and>
      mb_user_id m = u \<and> mb_org_id m = g" by simp
next
  fix E u g e w' and w :: "'z member_world_scheme"
  assume "wf_members (member_tbl w)" "role_gate admits forbidden E u g w = (Inl e, w')"
  from role_gate_laws [OF this]
  show "(\<exists>x. e = outage_exn x) \<or>
      (member_of (member_tbl w) (u, g) = None \<and> e = Exn (Core NotFoundError)) \<or>
      (\<exists>r t. member_of (member_tbl w) (u, g) = Some (r, t) \<and> \<not> admits r \<and> e = forbidden)" by simp
qed

end
