(* ===== verification/A2Z_Invoicing.thy ===== *)
theory A2Z_Invoicing
  imports A2Z_InvoiceRules A2Z_Access
begin

text \<open>
  The invoicing service of \<open>app/services/invoicing/service.py\<close> with its access checks
  (\<open>access.py\<close>): create, read, list, edit, delete, send, pay and void invoices, each in a
  session of its own.  The PDF renderer is a parameter.
\<close>

section \<open>State and constraints\<close>

record inv_tables =
  invoices :: "invoice list"
  line_items :: "line_item list"
  payments :: "payment list"

record invoice_world = email_world +
  inv_db :: inv_tables      \<comment> \<open>committed\<close>
  inv_tx :: inv_tables      \<comment> \<open>the session's view\<close>

text \<open>\<open>BigInteger\<close> and \<open>Numeric(12, 3)\<close>.\<close>

definition fits64 :: "int \<Rightarrow> bool" where
  "fits64 n \<longleftrightarrow> - (2 ^ 63) \<le> n \<and> n < 2 ^ 63"

definition numeric_12_3 :: "rat \<Rightarrow> rat" where
  "numeric_12_3 q = of_int (round_half_up (q * 1000)) / 1000"

definition invoice_fits :: "invoice \<Rightarrow> bool" where
  "invoice_fits iv \<longleftrightarrow> fits64 (iv_subtotal iv) \<and> fits64 (iv_tax iv) \<and> fits64 (iv_discount iv) \<and>
     fits64 (iv_total iv) \<and> fits64 (iv_paid iv)"

definition item_fits :: "line_item \<Rightarrow> bool" where
  "item_fits it \<longleftrightarrow> \<bar>li_quantity it\<bar> < 10 ^ 9 \<and> fits64 (li_unit_price it) \<and> fits64 (li_amount it)"

definition idempotency_keys :: "payment list \<Rightarrow> (string \<times> string) list" where
  "idempotency_keys ps = concat (map (\<lambda>p.
     case py_idempotency_key p of None \<Rightarrow> [] | Some k \<Rightarrow> [(py_org_id p, k)]) ps)"

definition inv_check :: "inv_tables \<Rightarrow> exn option" where
  "inv_check t =
     (if \<not> (list_all invoice_fits (invoices t) \<and> list_all item_fits (line_items t) \<and>
            list_all (\<lambda>p. fits64 (py_amount p)) (payments t))
      then Some (Exn (Py DataError))
      else if \<not> (distinct (map iv_id (invoices t)) \<and>
            distinct (map (\<lambda>iv. (iv_org_id iv, iv_number iv)) (invoices t)) \<and>
            distinct (map li_id (line_items t)) \<and> distinct (map py_id (payments t)) \<and>
            distinct (idempotency_keys (payments t)))
      then Some (Exn (Py IntegrityError))
      else None)"

interpretation inv: session inv_db inv_tx inv_db_update inv_tx_update inv_check
  by unfold_locales simp_all

abbreviation select_inv :: "env \<Rightarrow> (inv_tables \<Rightarrow> 'a) \<Rightarrow> ('z invoice_world_scheme, 'a) op" where
  "select_inv \<equiv> pg_select inv_tx"

abbreviation modify_inv :: "(inv_tables \<Rightarrow> inv_tables) \<Rightarrow> ('z invoice_world_scheme, unit) op" where
  "modify_inv \<equiv> pg_modify inv_tx_update"

abbreviation flush_inv :: "env \<Rightarrow> ('z invoice_world_scheme, unit) op" where
  "flush_inv \<equiv> pg_flush inv_tx inv_check"

abbreviation commit_inv :: "env \<Rightarrow> ('z invoice_world_scheme, unit) op" where
  "commit_inv \<equiv> pg_commit inv_tx inv_db_update inv_check"

abbreviation inv_session :: "('z invoice_world_scheme, 'a) op \<Rightarrow> ('z invoice_world_scheme, 'a) op" where
  "inv_session \<equiv> in_session inv_db inv_tx_update"

section \<open>Access\<close>

definition require_membership :: "env \<Rightarrow> string \<Rightarrow> string \<Rightarrow> ('z member_world_scheme, membership) op" where
  "require_membership E user_id org_id = bindE (get_membership E user_id org_id) (\<lambda>m.
     case m of None \<Rightarrow> raise (Exn (Core NotFoundError)) | Some m \<Rightarrow> ret m)"

definition MUTATION_ROLES :: "Role list" where
  "MUTATION_ROLES = [OWNER, ADMIN]"

definition require_mutation_role :: "env \<Rightarrow> string \<Rightarrow> string \<Rightarrow> ('z member_world_scheme, membership) op" where
  "require_mutation_role E user_id org_id = bindE (require_membership E user_id org_id) (\<lambda>m.
     if mb_role m \<notin> set MUTATION_ROLES then raise (Exn (Inv InvoiceForbiddenError)) else ret m)"

lemma require_mutation_role_gate:
  "require_mutation_role = role_gate (\<lambda>r. r \<in> set MUTATION_ROLES) (Exn (Inv InvoiceForbiddenError))"
  unfolding require_mutation_role_def require_membership_def role_gate_def bindE_assoc
  by (intro ext arg_cong2 [where f = bindE, THEN fun_cong] refl)
    (auto simp: bindE_ret bindE_app fun_eq_iff split: option.split)

lemma require_membership_gate: "require_membership = role_gate (\<lambda>_. True) (Exn (Core NotFoundError))"
  by (simp add: require_membership_def role_gate_def fun_eq_iff cong: option.case_cong)

interpretation editor: access_gate require_mutation_role "\<lambda>r. r \<in> set MUTATION_ROLES"
  "Exn (Inv InvoiceForbiddenError)"
  unfolding require_mutation_role_gate by (rule role_gate_access)

interpretation reader: access_gate require_membership "\<lambda>_. True" "Exn (Core NotFoundError)"
  unfolding require_membership_gate by (rule role_gate_access)

section \<open>Loading and building rows\<close>

definition find_invoice :: "string \<Rightarrow> string \<Rightarrow> inv_tables \<Rightarrow> invoice option" where
  "find_invoice org_id invoice_id t =
     find (\<lambda>iv. iv_org_id iv = org_id \<and> iv_id iv = invoice_id \<and> \<not> iv_is_deleted iv) (invoices t)"

definition load_invoice :: "env \<Rightarrow> string \<Rightarrow> string \<Rightarrow> ('z invoice_world_scheme, invoice) op" where
  "load_invoice E org_id invoice_id =
     bindE (select_inv E (find_invoice org_id invoice_id)) (\<lambda>iv.
     case iv of None \<Rightarrow> raise (Exn (Inv InvoiceNotFoundError)) | Some iv \<Rightarrow> ret iv)"

definition items_of :: "string \<Rightarrow> string \<Rightarrow> inv_tables \<Rightarrow> line_item list" where
  "items_of org_id invoice_id t =
     sort_key li_created_at
       (filter (\<lambda>it. li_org_id it = org_id \<and> li_invoice_id it = invoice_id) (line_items t))"

definition load_line_items :: "env \<Rightarrow> string \<Rightarrow> string \<Rightarrow> ('z invoice_world_scheme, line_item list) op" where
  "load_line_items E org_id invoice_id = select_inv E (items_of org_id invoice_id)"

text \<open>\<open>_build_line_items\<close>; ids and times are filled in when the rows are flushed.\<close>

definition build_line_items ::
  "env \<Rightarrow> string \<Rightarrow> string \<Rightarrow> line_item_create list \<Rightarrow> ('z invoice_world_scheme, line_item list) op" where
  "build_line_items E org_id invoice_id items = bindE (now_utc E) (\<lambda>now.
     mapE (\<lambda>l. bindE (new_uuid E) (\<lambda>item_id.
       ret \<lparr>li_id = item_id, li_org_id = org_id, li_invoice_id = invoice_id,
            li_description = lc_description l, li_quantity = lc_quantity l,
            li_unit_price = lc_unit_price l,
            li_amount = compute_line_amount_cents (lc_quantity l) (lc_unit_price l),
            li_created_at = now\<rparr>)) items)"

definition stored_item :: "line_item \<Rightarrow> line_item" where
  "stored_item it = it\<lparr>li_quantity := numeric_12_3 (li_quantity it)\<rparr>"

definition add_items :: "line_item list \<Rightarrow> inv_tables \<Rightarrow> inv_tables" where
  "add_items its t = t\<lparr>line_items := line_items t @ map stored_item its\<rparr>"

definition drop_items :: "line_item list \<Rightarrow> inv_tables \<Rightarrow> inv_tables" where
  "drop_items its t = t\<lparr>line_items := filter (\<lambda>it. li_id it \<notin> set (map li_id its)) (line_items t)\<rparr>"

definition save_invoice :: "invoice \<Rightarrow> inv_tables \<Rightarrow> inv_tables" where
  "save_invoice iv t = t\<lparr>invoices := row_upd iv_id (iv_id iv) (\<lambda>_. iv) (invoices t)\<rparr>"

text \<open>\<open>session.refresh(invoice)\<close>\<close>

definition refresh_invoice :: "env \<Rightarrow> invoice \<Rightarrow> ('z invoice_world_scheme, invoice) op" where
  "refresh_invoice E iv = bindE (select_inv E (\<lambda>t. row_get iv_id (iv_id iv) (invoices t))) (\<lambda>row.
     case row of None \<Rightarrow> raise (Exn (Py DBAPIError)) | Some iv \<Rightarrow> ret iv)"

section \<open>Handlers\<close>

definition create_invoice ::
  "env \<Rightarrow> string \<Rightarrow> string \<Rightarrow> invoice_create
    \<Rightarrow> ('z invoice_world_scheme, invoice \<times> line_item list) op" where
  "create_invoice E org_id user_id body =
     thenE (require_mutation_role E user_id org_id)
     (bindE (get_org_settings E org_id) (\<lambda>s.
     bindE (get_next_invoice_number E org_id '''') (\<lambda>raw_number.
     bindE (now_utc E) (\<lambda>today.
     bindE (new_uuid E) (\<lambda>invoice_id.
     bindE (build_line_items E org_id invoice_id (ic_line_items body)) (\<lambda>items.
     bindE (liftS (compute_totals (map li_amount items) (ic_tax body) (ic_discount body)))
       (\<lambda>(subtotal, total).
     bindE (now_utc E) (\<lambda>now.
     let number = invoice_number today raw_number;
         iv = \<lparr>iv_id = invoice_id, iv_org_id = org_id, iv_number = number, iv_status = IS_DRAFT,
               iv_customer_email = ic_customer_email body, iv_customer_name = ic_customer_name body,
               iv_customer_company = ic_customer_company body,
               iv_invoice_date = ic_invoice_date body, iv_due_date = ic_due_date body,
               iv_payment_terms = ic_payment_terms body, iv_subtotal = subtotal,
               iv_tax = ic_tax body, iv_discount = ic_discount body, iv_total = total,
               iv_paid = 0, iv_payment_status = PS_UNPAID, iv_currency = os_currency s,
               iv_notes = ic_notes body, iv_pdf_s3_key = None, iv_is_deleted = False,
               iv_created_by = user_id, iv_created_at = now, iv_updated_at = now\<rparr>
     in
     thenE (modify_inv (\<lambda>t. t\<lparr>invoices := invoices t @ [iv]\<rparr>))
     (thenE (flush_inv E)
     (thenE (modify_inv (add_items items))
     (thenE (commit_inv E)
     (bindE (refresh_invoice E iv) (\<lambda>iv.
     (thenE (log_audit E org_id user_id (ActStr ''invoice.created'') ''invoice'' invoice_id
        [(''invoice_number'', JStr number), (''total_cents'', JNum total)])
     (ret (iv, items))))))))))))))))"

definition get_invoice ::
  "env \<Rightarrow> string \<Rightarrow> string \<Rightarrow> string \<Rightarrow> ('z invoice_world_scheme, invoice \<times> line_item list) op" where
  "get_invoice E org_id user_id invoice_id =
     thenE (require_membership E user_id org_id)
     (bindE (load_invoice E org_id invoice_id) (\<lambda>iv.
     bindE (load_line_items E org_id invoice_id) (\<lambda>items. ret (iv, items))))"

definition signed_pdf_url :: "env \<Rightarrow> invoice \<Rightarrow> ('z storage_world_scheme, string option) op" where
  "signed_pdf_url E iv = (case iv_pdf_s3_key iv of
     None \<Rightarrow> ret None
   | Some key \<Rightarrow> bindE (generate_signed_url E key 3600) (\<lambda>u. ret (Some u)))"

text \<open>\<open>base\<close>: the organisation's live invoices with one of the statuses, newest first.\<close>

definition invoice_rows :: "string \<Rightarrow> string list \<Rightarrow> inv_tables \<Rightarrow> invoice list" where
  "invoice_rows org_id statuses t =
     rev (sort_key iv_created_at (rev (filter (\<lambda>iv. iv_org_id iv = org_id \<and> \<not> iv_is_deleted iv \<and>
       (statuses = [] \<or> invoice_status_value (iv_status iv) \<in> set statuses)) (invoices t))))"

definition list_invoices ::
  "env \<Rightarrow> string \<Rightarrow> string \<Rightarrow> string list \<Rightarrow> nat \<Rightarrow> nat
    \<Rightarrow> ('z invoice_world_scheme, (invoice \<times> line_item list) list \<times> nat) op" where
  "list_invoices E org_id user_id statuses skip limit =
     thenE (require_membership E user_id org_id)
     (bindE (select_inv E (\<lambda>t. length (invoice_rows org_id statuses t))) (\<lambda>total.
     bindE (select_inv E (\<lambda>t. take limit (drop skip (invoice_rows org_id statuses t)))) (\<lambda>ivs.
     bindE (mapE (\<lambda>iv. bindE (load_line_items E org_id (iv_id iv)) (\<lambda>items. ret (iv, items))) ivs)
       (\<lambda>results. ret (results, total)))))"

text \<open>The changes that are logged, with their texts.\<close>

definition update_changes :: "invoice_update \<Rightarrow> (string \<times> json) list" where
  "update_changes b =
     (let str = (\<lambda>k u. case u of None \<Rightarrow> [] | Some v \<Rightarrow> [(k, JStr v)]);
          dat = (\<lambda>k u. case u of None \<Rightarrow> [] | Some d \<Rightarrow> [(k, JStr (iso_date d))]);
          num = (\<lambda>k u. case u of None \<Rightarrow> [] | Some n \<Rightarrow> [(k, JNum n)])
      in str ''customer_email'' (iu_customer_email b) @ str ''customer_name'' (iu_customer_name b) @
         str ''customer_company'' (iu_customer_company b) @ dat ''invoice_date'' (iu_invoice_date b) @
         dat ''due_date'' (iu_due_date b) @ str ''payment_terms'' (iu_payment_terms b) @
         str ''notes'' (iu_notes b) @ num ''tax_cents'' (iu_tax b) @
         num ''discount_cents'' (iu_discount b) @
         (if iu_line_items b \<noteq> None then [(''line_items'', JStr ''replaced'')] else []))"

definition replace_items ::
  "env \<Rightarrow> string \<Rightarrow> string \<Rightarrow> line_item_create list option \<Rightarrow> line_item list
    \<Rightarrow> ('z invoice_world_scheme, line_item list) op" where
  "replace_items E org_id invoice_id new old = (case new of
     None \<Rightarrow> ret old
   | Some ls \<Rightarrow>
       thenE (modify_inv (drop_items old))
       (thenE (flush_inv E)
       (bindE (build_line_items E org_id invoice_id ls) (\<lambda>items.
       thenE (modify_inv (add_items items))
       (thenE (flush_inv E) (ret items))))))"

definition update_invoice ::
  "env \<Rightarrow> string \<Rightarrow> string \<Rightarrow> string \<Rightarrow> invoice_update
    \<Rightarrow> ('z invoice_world_scheme, invoice \<times> line_item list) op" where
  "update_invoice E org_id invoice_id user_id body =
     thenE (require_mutation_role E user_id org_id)
     (bindE (load_invoice E org_id invoice_id) (\<lambda>iv0.
     thenE (liftS (assert_can_edit (iv_status iv0)))
     (let iv = edit_header body iv0 in
     thenE (modify_inv (save_invoice iv))
     (bindE (load_line_items E org_id invoice_id) (\<lambda>old.
     bindE (replace_items E org_id invoice_id (iu_line_items body) old) (\<lambda>items.
     bindE (if needs_recompute body then liftS (recompute (map li_amount items) iv) else ret iv) (\<lambda>iv.
     bindE (now_utc E) (\<lambda>now.
     thenE (modify_inv (save_invoice (iv\<lparr>iv_updated_at := now\<rparr>)))
     (thenE (commit_inv E)
     (bindE (refresh_invoice E iv) (\<lambda>iv.
     thenE (whenE (update_changes body \<noteq> [])
        (thenE (log_audit E org_id user_id (ActStr ''invoice.updated'') ''invoice'' (iv_id iv)
           (update_changes body)) (ret ())))
     (ret (iv, items)))))))))))))"

definition soft_delete_invoice ::
  "env \<Rightarrow> string \<Rightarrow> string \<Rightarrow> string \<Rightarrow> ('z invoice_world_scheme, unit) op" where
  "soft_delete_invoice E org_id invoice_id user_id =
     thenE (require_mutation_role E user_id org_id)
     (bindE (load_invoice E org_id invoice_id) (\<lambda>iv.
     bindE (now_utc E) (\<lambda>now.
     thenE (modify_inv (save_invoice (iv\<lparr>iv_is_deleted := True, iv_updated_at := now\<rparr>)))
     (thenE (commit_inv E)
     (thenE (log_audit E org_id user_id (ActStr ''invoice.deleted'') ''invoice'' (iv_id iv) [])
     (ret ()))))))"

definition send_invoice ::
  "env \<Rightarrow> (invoice \<Rightarrow> line_item list \<Rightarrow> org_settings \<Rightarrow> string) \<Rightarrow> string \<Rightarrow> string \<Rightarrow> string \<Rightarrow> string
    \<Rightarrow> ('z invoice_world_scheme, invoice \<times> email_result) op" where
  "send_invoice E render_invoice_pdf org_id invoice_id user_id recipient_email =
     thenE (require_mutation_role E user_id org_id)
     (bindE (load_invoice E org_id invoice_id) (\<lambda>iv.
     thenE (liftS (assert_can_send (iv_status iv)))
     (bindE (load_line_items E org_id invoice_id) (\<lambda>items.
     bindE (get_org_settings E org_id) (\<lambda>s.
     let pdf_bytes = render_invoice_pdf iv items s; pdf_name = iv_number iv @ ''.pdf'' in
     bindE (upload_file E org_id ''invoicing'' pdf_name pdf_bytes ''application/pdf'' user_id None) (\<lambda>stored.
     bindE (send_email E org_id INVOICING recipient_email (''Invoice '' @ iv_number iv)
        (render_invoice_email_html iv s) (Some (render_invoice_email_text iv))
        [\<lparr>at_content = pdf_bytes, at_filename = pdf_name, at_mime_type = ''application/pdf''\<rparr>] None
        [(''invoice_id'', JStr (iv_id iv)), (''invoice_number'', JStr (iv_number iv))]) (\<lambda>email_result.
     bindE (now_utc E) (\<lambda>now.
     thenE (modify_inv (save_invoice
        (iv\<lparr>iv_status := IS_SENT, iv_pdf_s3_key := Some (sf_key stored), iv_updated_at := now\<rparr>)))
     (thenE (commit_inv E)
     (bindE (refresh_invoice E iv) (\<lambda>iv.
     thenE (log_audit E org_id user_id (ActStr ''invoice.sent'') ''invoice'' (iv_id iv)
        [(''recipient_email'', JStr recipient_email)])
     (ret (iv, email_result)))))))))))))"

definition find_payment :: "string \<Rightarrow> string \<Rightarrow> inv_tables \<Rightarrow> payment option" where
  "find_payment org_id key t =
     find (\<lambda>p. py_org_id p = org_id \<and> py_idempotency_key p = Some key) (payments t)"

text \<open>\<open>if body.idempotency_key:\<close> an empty key counts as none here, but is stored.\<close>

definition lookup_payment ::
  "env \<Rightarrow> string \<Rightarrow> payment_request \<Rightarrow> ('z invoice_world_scheme, payment option) op" where
  "lookup_payment E org_id body = (case pr_idempotency_key body of
     None \<Rightarrow> ret None
   | Some key \<Rightarrow> if key = [] then ret None else select_inv E (find_payment org_id key))"

definition new_payment ::
  "env \<Rightarrow> string \<Rightarrow> string \<Rightarrow> string \<Rightarrow> payment_request \<Rightarrow> ('z invoice_world_scheme, payment) op" where
  "new_payment E org_id invoice_id user_id body =
     bindE (new_uuid E) (\<lambda>pid. bindE (now_utc E) (\<lambda>now.
     ret \<lparr>py_id = pid, py_org_id = org_id, py_invoice_id = invoice_id, py_amount = pr_amount body,
          py_payment_date = pr_payment_date body, py_method = pr_method body,
          py_reference = pr_reference body, py_notes = pr_notes body,
          py_idempotency_key = pr_idempotency_key body, py_recorded_by = user_id,
          py_recorded_at = now\<rparr>))"

definition record_payment ::
  "env \<Rightarrow> string \<Rightarrow> string \<Rightarrow> string \<Rightarrow> payment_request
    \<Rightarrow> ('z invoice_world_scheme, invoice \<times> payment) op" where
  "record_payment E org_id invoice_id user_id body =
     thenE (require_mutation_role E user_id org_id)
     (bindE (load_invoice E org_id invoice_id) (\<lambda>iv.
     thenE (liftS (assert_can_record_payment (iv_status iv)))
     (bindE (lookup_payment E org_id body) (\<lambda>existing.
     case existing of
       Some p \<Rightarrow> ret (iv, p)
     | None \<Rightarrow>
         bindE (new_payment E org_id invoice_id user_id body) (\<lambda>p.
         thenE (modify_inv (\<lambda>t. t\<lparr>payments := payments t @ [p]\<rparr>))
         (thenE (modify_inv (save_invoice
            ((apply_payment (pr_amount body) iv)\<lparr>iv_updated_at := py_recorded_at p\<rparr>)))
         (thenE (commit_inv E)
         (bindE (refresh_invoice E iv) (\<lambda>iv.
         thenE (log_audit E org_id user_id (ActStr ''invoice.payment_recorded'') ''invoice'' (iv_id iv)
            [(''amount_cents'', JNum (pr_amount body)), (''payment_method'', JStr (pr_method body))])
         (ret (iv, p)))))))))))"

definition void_invoice ::
  "env \<Rightarrow> string \<Rightarrow> string \<Rightarrow> string \<Rightarrow> string \<Rightarrow> ('z invoice_world_scheme, invoice) op" where
  "void_invoice E org_id invoice_id user_id reason =
     thenE (require_mutation_role E user_id org_id)
     (bindE (load_invoice E org_id invoice_id) (\<lambda>iv.
     thenE (liftS (assert_can_void (iv_status iv)))
     (bindE (now_utc E) (\<lambda>now.
     thenE (modify_inv (save_invoice (iv\<lparr>iv_status := IS_VOID, iv_updated_at := now\<rparr>)))
     (thenE (commit_inv E)
     (bindE (refresh_invoice E iv) (\<lambda>iv.
     thenE (log_audit E org_id user_id (ActStr ''invoice.voided'') ''invoice'' (iv_id iv)
        [(''reason'', JStr reason)])
     (ret iv))))))))"

definition list_payments ::
  "env \<Rightarrow> string \<Rightarrow> string \<Rightarrow> string \<Rightarrow> ('z invoice_world_scheme, payment list) op" where
  "list_payments E org_id user_id invoice_id =
     thenE (require_membership E user_id org_id)
     (thenE (load_invoice E org_id invoice_id)
     (select_inv E (\<lambda>t. sort_key py_recorded_at
        (filter (\<lambda>p. py_org_id p = org_id \<and> py_invoice_id p = invoice_id) (payments t)))))"

end
