(* ===== verification/A2Z_InvoiceSteps.thy ===== *)
theory A2Z_InvoiceSteps
  imports A2Z_Invoicing "HOL-Library.Multiset"
begin

text \<open>
  Invoicing as a transition system on the committed tables: the steps that one
  organisation's requests can commit, the consistency of the books, which every step
  preserves, and the lifecycle of an invoice along the steps.
\<close>

section \<open>Consistency\<close>

definition items_total :: "invoice \<Rightarrow> inv_tables \<Rightarrow> int" where
  "items_total iv t = sum_list (map li_amount (items_of (iv_org_id iv) (iv_id iv) t))"

definition payments_of :: "string \<Rightarrow> string \<Rightarrow> inv_tables \<Rightarrow> payment list" where
  "payments_of org_id invoice_id t =
     filter (\<lambda>p. py_org_id p = org_id \<and> py_invoice_id p = invoice_id) (payments t)"

definition payments_total :: "invoice \<Rightarrow> inv_tables \<Rightarrow> int" where
  "payments_total iv t = sum_list (map py_amount (payments_of (iv_org_id iv) (iv_id iv) t))"

definition balanced :: "inv_tables \<Rightarrow> invoice \<Rightarrow> bool" where
  "balanced t iv \<longleftrightarrow> invoice_ok iv \<and> iv_subtotal iv = items_total iv t \<and> iv_paid iv = payments_total iv t"

definition books_ok :: "inv_tables \<Rightarrow> bool" where
  "books_ok t \<longleftrightarrow> inv_check t = None \<and> list_all (balanced t) (invoices t) \<and>
     li_invoice_id ` set (line_items t) \<subseteq> iv_id ` set (invoices t) \<and>
     py_invoice_id ` set (payments t) \<subseteq> iv_id ` set (invoices t)"

section \<open>Steps\<close>

inductive inv_step :: "string \<Rightarrow> inv_tables \<Rightarrow> inv_tables \<Rightarrow> bool" for g :: string where
  created: "\<lbrakk>iv_org_id iv = g; iv_status iv = IS_DRAFT; iv_paid iv = 0; iv_payment_status iv = PS_UNPAID;
      \<not> iv_is_deleted iv; 0 \<le> iv_tax iv; 0 \<le> iv_discount iv;
      compute_totals (map li_amount items) (iv_tax iv) (iv_discount iv) = Inr (iv_subtotal iv, iv_total iv);
      \<forall>it \<in> set items. li_org_id it = g \<and> li_invoice_id it = iv_id iv;
      t' = add_items items (t\<lparr>invoices := invoices t @ [iv]\<rparr>); inv_check t' = None\<rbrakk>
    \<Longrightarrow> inv_step g t t'"
| edited: "\<lbrakk>find_invoice g i t = Some iv0; iv_status iv0 \<noteq> IS_VOID; valid_update body;
      (case iu_line_items body of
         None \<Rightarrow> items = items_of g i t \<and> t1 = t
       | Some _ \<Rightarrow> (\<forall>it \<in> set items. li_org_id it = g \<and> li_invoice_id it = i) \<and>
                   t1 = add_items items (drop_items (items_of g i t) t));
      (if needs_recompute body then recompute (map li_amount items) (edit_header body iv0) = Inr iv1
       else iv1 = edit_header body iv0);
      t' = save_invoice (iv1\<lparr>iv_updated_at := now\<rparr>) t1; inv_check t' = None\<rbrakk>
    \<Longrightarrow> inv_step g t t'"
| deleted: "\<lbrakk>find_invoice g i t = Some iv;
      t' = save_invoice (iv\<lparr>iv_is_deleted := True, iv_updated_at := now\<rparr>) t; inv_check t' = None\<rbrakk>
    \<Longrightarrow> inv_step g t t'"
| sent: "\<lbrakk>find_invoice g i t = Some iv; iv_status iv = IS_DRAFT;
      t' = save_invoice (iv\<lparr>iv_status := IS_SENT, iv_pdf_s3_key := Some key, iv_updated_at := now\<rparr>) t;
      inv_check t' = None\<rbrakk>
    \<Longrightarrow> inv_step g t t'"
| paid: "\<lbrakk>find_invoice g i t = Some iv; iv_status iv \<in> {IS_SENT, IS_PARTIALLY_PAID, IS_PAID};
      py_org_id p = g; py_invoice_id p = i; 0 < py_amount p;
      t' = save_invoice ((apply_payment (py_amount p) iv)\<lparr>iv_updated_at := now\<rparr>)
             (t\<lparr>payments := payments t @ [p]\<rparr>); inv_check t' = None\<rbrakk>
    \<Longrightarrow> inv_step g t t'"
| voided: "\<lbrakk>find_invoice g i t = Some iv; iv_status iv \<noteq> IS_VOID;
      t' = save_invoice (iv\<lparr>iv_status := IS_VOID, iv_updated_at := now\<rparr>) t; inv_check t' = None\<rbrakk>
    \<Longrightarrow> inv_step g t t'"

inductive_cases inv_step_cases: "inv_step g t t'"

section \<open>Every step keeps the books consistent\<close>

lemma find_invoice_SomeD:
  "find_invoice g i t = Some iv \<Longrightarrow>
     iv \<in> set (invoices t) \<and> iv_org_id iv = g \<and> iv_id iv = i \<and> \<not> iv_is_deleted iv"
  by (auto simp: find_invoice_def find_Some_iff)

lemma inv_check_None:
  "inv_check t = None \<Longrightarrow> distinct (map iv_id (invoices t)) \<and> distinct (map li_id (line_items t)) \<and>
     distinct (map (\<lambda>iv. (iv_org_id iv, iv_number iv)) (invoices t)) \<and> distinct (idempotency_keys (payments t))"
  by (simp add: inv_check_def split: if_splits)

text \<open>Replacing one invoice.\<close>

lemma save_invoice_simps [simp]:
  "line_items (save_invoice iv t) = line_items t" "payments (save_invoice iv t) = payments t"
  "invoices (save_invoice iv t) = row_upd iv_id (iv_id iv) (\<lambda>_. iv) (invoices t)"
  by (simp_all add: save_invoice_def)

lemma totals_save [simp]:
  "items_total x (save_invoice iv t) = items_total x t"
  "payments_total x (save_invoice iv t) = payments_total x t"
  by (simp_all add: items_total_def items_of_def payments_total_def payments_of_def)

lemma set_row_upd:
  "set (row_upd key k f rows) = f ` {r \<in> set rows. key r = k} \<union> {r \<in> set rows. key r \<noteq> k}"
  by (auto simp: row_upd_def)

lemma row_upd_ids: "iv_id iv = k \<Longrightarrow> iv_id ` set (row_upd iv_id k (\<lambda>_. iv) rows) = iv_id ` set rows"
  by (auto simp: row_upd_def) (metis imageI)

text \<open>The common case: one invoice changes, the amounts that belong to others do not.\<close>

lemma books_ok_save:
  assumes ok: "books_ok t" and check: "inv_check t' = None"
    and t': "t' = save_invoice iv t1" "invoices t1 = invoices t" "iv_id iv \<in> iv_id ` set (invoices t)"
    and others: "\<And>x. x \<in> set (invoices t) \<Longrightarrow> iv_id x \<noteq> iv_id iv \<Longrightarrow>
        items_total x t1 = items_total x t \<and> payments_total x t1 = payments_total x t"
    and own: "balanced t1 iv"
    and fk: "li_invoice_id ` set (line_items t1) \<subseteq> iv_id ` set (invoices t)"
      "py_invoice_id ` set (payments t1) \<subseteq> iv_id ` set (invoices t)"
  shows "books_ok t'"
proof -
  have ids: "iv_id ` set (invoices t') = iv_id ` set (invoices t)"
    using t' by (simp add: row_upd_ids)
  have "balanced t' x" if "x \<in> set (invoices t')" for x
  proof (cases "iv_id x = iv_id iv")
    case True
    with that t' have "x = iv" by (auto simp: set_row_upd)
    with own t' show ?thesis by (simp add: balanced_def)
  next
    case False
    with that t' have "x \<in> set (invoices t)" by (auto simp: set_row_upd)
    with ok others [OF this False] t' show ?thesis by (auto simp: books_ok_def balanced_def list_all_iff)
  qed
  with check ids fk t' show ?thesis by (simp add: books_ok_def list_all_iff)
qed

lemma books_ok_save_only:
  assumes "books_ok t" "find_invoice g i t = Some iv" "inv_check (save_invoice iv' t) = None"
    and "iv_id iv' = iv_id iv" "iv_org_id iv' = iv_org_id iv" "iv_subtotal iv' = iv_subtotal iv"
    and "iv_paid iv' = iv_paid iv" "invoice_ok iv'"
  shows "books_ok (save_invoice iv' t)"
proof (rule books_ok_save [OF assms(1,3) refl refl])
  note iv = find_invoice_SomeD [OF assms(2)]
  then show "iv_id iv' \<in> iv_id ` set (invoices t)" using assms(4) by (metis imageI)
  from iv assms(1) have "balanced t iv" by (simp add: books_ok_def list_all_iff)
  with assms(4-8) show "balanced t iv'" by (simp add: balanced_def items_total_def payments_total_def)
qed (use assms(1) in \<open>auto simp: books_ok_def\<close>)

lemma items_of_add:
  "items_total x (add_items items t) =
     items_total x t + sum_list (map li_amount (filter (\<lambda>it. li_org_id it = iv_org_id x \<and> li_invoice_id it = iv_id x) items))"
proof -
  have sums: "sum_list (map li_amount (sort_key li_created_at xs)) = sum_list (map li_amount xs)" for xs :: "line_item list"
    by (metis mset_map mset_sort sum_mset_sum_list)
  have "filter P (map stored_item items) = map stored_item (filter P items)"
    if "\<And>it. P (stored_item it) = P it" for P
    using that by (simp add: filter_map comp_def)
  then show ?thesis
    by (simp add: items_total_def items_of_def sums add_items_def stored_item_def comp_def)
qed

lemma payments_total_items [simp]:
  "payments_total x (add_items items t) = payments_total x t"
  "payments_total x (drop_items items t) = payments_total x t"
  by (simp_all add: payments_total_def payments_of_def add_items_def drop_items_def)

lemma invoices_items [simp]:
  "invoices (add_items items t) = invoices t" "invoices (drop_items items t) = invoices t"
  "payments (add_items items t) = payments t" "payments (drop_items items t) = payments t"
  by (simp_all add: add_items_def drop_items_def)

lemma set_items_of:
  "set (items_of g i t) = {it \<in> set (line_items t). li_org_id it = g \<and> li_invoice_id it = i}"
  by (auto simp: items_of_def)

lemma items_total_drop:
  assumes "distinct (map li_id (line_items t))"
  shows "items_total x (drop_items (items_of g i t) t) =
    (if iv_org_id x = g \<and> iv_id x = i then 0 else items_total x t)"
proof -
  have "li_id it \<in> set (map li_id (items_of g i t)) \<longleftrightarrow> li_org_id it = g \<and> li_invoice_id it = i"
    if "it \<in> set (line_items t)" for it
    using that assms by (auto simp: set_items_of distinct_map inj_on_def)
  then have "filter (\<lambda>it. li_id it \<notin> set (map li_id (items_of g i t))) (line_items t) =
      filter (\<lambda>it. \<not> (li_org_id it = g \<and> li_invoice_id it = i)) (line_items t)"
    by (intro filter_cong) auto
  then have "items_of (iv_org_id x) (iv_id x) (drop_items (items_of g i t) t) =
      (if iv_org_id x = g \<and> iv_id x = i then [] else items_of (iv_org_id x) (iv_id x) t)"
    by (auto simp: items_of_def drop_items_def filter_empty_conv intro!: arg_cong [where f = "sort_key li_created_at"]
        filter_cong)
  then show ?thesis by (simp add: items_total_def)
qed

lemma items_fk:
  "li_invoice_id ` set (line_items (add_items items t)) =
     li_invoice_id ` set (line_items t) \<union> li_invoice_id ` set items"
  "li_invoice_id ` set (line_items (drop_items items t)) \<subseteq> li_invoice_id ` set (line_items t)"
  by (auto simp: add_items_def drop_items_def stored_item_def image_Un image_image)

lemma invoice_ok_updated [simp]: "invoice_ok (iv\<lparr>iv_updated_at := now\<rparr>) = invoice_ok iv"
  by (simp add: invoice_ok_def)

lemma created_ok:
  assumes ok: "books_ok t" and iv: "iv_org_id iv = g" "iv_status iv = IS_DRAFT" "iv_paid iv = 0"
      "iv_payment_status iv = PS_UNPAID" "0 \<le> iv_tax iv" "0 \<le> iv_discount iv"
    and tot: "compute_totals (map li_amount items) (iv_tax iv) (iv_discount iv) = Inr (iv_subtotal iv, iv_total iv)"
    and its: "\<forall>it \<in> set items. li_org_id it = g \<and> li_invoice_id it = iv_id iv"
    and t': "t' = add_items items (t\<lparr>invoices := invoices t @ [iv]\<rparr>)" and check: "inv_check t' = None"
  shows "books_ok t'"
proof -
  from inv_check_None [OF check] t' have new: "iv_id iv \<notin> iv_id ` set (invoices t)" by auto
  let ?t1 = "t\<lparr>invoices := invoices t @ [iv]\<rparr>"
  have old: "items_total x ?t1 = items_total x t" "payments_total x t' = payments_total x t" for x
    unfolding t' by (simp_all add: items_total_def items_of_def payments_total_def payments_of_def)
  have fk: "li_invoice_id ` set (line_items t) \<subseteq> iv_id ` set (invoices t)"
      "py_invoice_id ` set (payments t) \<subseteq> iv_id ` set (invoices t)"
    using ok by (auto simp: books_ok_def)
  have none: "items_total iv t = 0" "payments_total iv t = 0"
  proof -
    have "filter (\<lambda>it. li_org_id it = iv_org_id iv \<and> li_invoice_id it = iv_id iv) (line_items t) = []"
      "filter (\<lambda>p. py_org_id p = iv_org_id iv \<and> py_invoice_id p = iv_id iv) (payments t) = []"
      unfolding filter_empty_conv using fk new by (metis imageI subsetD)+
    then show "items_total iv t = 0" "payments_total iv t = 0"
      by (simp_all add: items_total_def items_of_def payments_total_def payments_of_def)
  qed
  have "filter (\<lambda>it. li_org_id it = iv_org_id iv \<and> li_invoice_id it = iv_id iv) items = items"
    using its iv(1) by simp
  then have "balanced t' iv"
    using iv tot none old unfolding t' balanced_def items_of_add
    by (simp add: invoice_ok_def compute_totals_Inr next_payment_status_def)
  moreover have "balanced t' x" if "x \<in> set (invoices t)" for x
  proof -
    have "filter (\<lambda>it. li_org_id it = iv_org_id x \<and> li_invoice_id it = iv_id x) items = []"
      using its that new by (auto simp: filter_empty_conv)
    with ok that old show ?thesis
      unfolding t' balanced_def items_of_add by (simp add: books_ok_def list_all_iff balanced_def)
  qed
  ultimately have "list_all (balanced t') (invoices t')"
    unfolding t' by (auto simp: list_all_iff)
  moreover have "li_invoice_id ` set (line_items t') \<subseteq> iv_id ` set (invoices t')"
    using fk(1) its unfolding t' items_fk by auto
  ultimately show ?thesis
    using check fk(2) by (auto simp: books_ok_def t')
qed

lemma edited_ok:
  assumes ok: "books_ok t" and find: "find_invoice g i t = Some iv0"
    and body: "valid_update body"
    and items: "case iu_line_items body of
         None \<Rightarrow> items = items_of g i t \<and> t1 = t
       | Some _ \<Rightarrow> (\<forall>it \<in> set items. li_org_id it = g \<and> li_invoice_id it = i) \<and>
                   t1 = add_items items (drop_items (items_of g i t) t)"
    and iv1: "if needs_recompute body then recompute (map li_amount items) (edit_header body iv0) = Inr iv1
       else iv1 = edit_header body iv0"
    and t': "t' = save_invoice (iv1\<lparr>iv_updated_at := now\<rparr>) t1" and check: "inv_check t' = None"
  shows "books_ok t'"
proof -
  let ?iv = "iv1\<lparr>iv_updated_at := now\<rparr>"
  note iv0 = find_invoice_SomeD [OF find]
  from ok iv0 have bal0: "balanced t iv0" by (simp add: books_ok_def list_all_iff)
  then have ok0: "invoice_ok iv0" by (simp add: balanced_def)
  have same: "iv_id iv1 = i" "iv_org_id iv1 = g" "iv_paid iv1 = iv_paid iv0"
    using iv1 iv0 by (auto simp: recompute_def bindS_Inr Let_def split: if_splits)
  have nonneg: "0 \<le> iv_tax (edit_header body iv0)" "0 \<le> iv_discount (edit_header body iv0)"
    using body ok0 by (auto simp: or_keep_def valid_update_def invoice_ok_def split: option.splits)
  have good: "invoice_ok iv1 \<and> iv_subtotal iv1 = sum_list (map li_amount items)"
  proof (cases "needs_recompute body")
    case True
    with iv1 have "recompute (map li_amount items) (edit_header body iv0) = Inr iv1" by simp
    moreover have "0 \<le> iv_paid (edit_header body iv0)"
      "iv_status (edit_header body iv0) = IS_DRAFT \<longrightarrow> iv_paid (edit_header body iv0) = 0"
      "iv_status (edit_header body iv0) \<in> {IS_SENT, IS_PARTIALLY_PAID, IS_PAID} \<longrightarrow>
         iv_pdf_s3_key (edit_header body iv0) \<noteq> None"
      using ok0 by (simp_all add: invoice_ok_def)
    ultimately show ?thesis using nonneg by (intro recompute_ok)
  next
    case False
    then have "iv1 = edit_header body iv0" "iu_tax body = None" "iu_discount body = None"
        "items = items_of g i t"
      using iv1 items by (auto simp: needs_recompute_def)
    with ok0 bal0 iv0 show ?thesis
      by (auto simp: invoice_ok_def or_keep_def balanced_def items_total_def)
  qed
  have fk: "li_invoice_id ` set (line_items t) \<subseteq> iv_id ` set (invoices t)"
      "py_invoice_id ` set (payments t) \<subseteq> iv_id ` set (invoices t)"
    using ok by (auto simp: books_ok_def)
  have dist: "distinct (map li_id (line_items t))"
    using ok inv_check_None by (auto simp: books_ok_def)
  have in_ids: "i \<in> iv_id ` set (invoices t)" using iv0 by force
  show ?thesis
  proof (cases "iu_line_items body")
    case None
    with items have t1: "t1 = t" "items = items_of g i t" by simp_all
    show ?thesis
    proof (rule books_ok_save [OF ok check t'])
      have "items_total iv1 t = sum_list (map li_amount items)" "payments_total iv1 t = payments_total iv0 t"
        using same iv0 by (simp_all add: items_total_def payments_total_def t1)
      with good bal0 same show "balanced t1 ?iv"
        by (simp add: t1 balanced_def items_total_def payments_total_def)
      show "iv_id ?iv \<in> iv_id ` set (invoices t)" using same(1) in_ids by simp
    qed (simp_all add: t1 fk)
  next
    case (Some ls)
    with items have t1: "t1 = add_items items (drop_items (items_of g i t) t)"
      and its: "\<forall>it \<in> set items. li_org_id it = g \<and> li_invoice_id it = i" by simp_all
    have items1: "items_total x t1 = (if iv_org_id x = g \<and> iv_id x = i then sum_list (map li_amount items)
        else items_total x t)" for x
    proof -
      have "filter (\<lambda>it. li_org_id it = iv_org_id x \<and> li_invoice_id it = iv_id x) items =
          (if iv_org_id x = g \<and> iv_id x = i then items else [])"
        using its by (auto simp: filter_empty_conv)
      then show ?thesis
        unfolding t1 items_of_add items_total_drop [OF dist] by simp
    qed
    have fk1: "li_invoice_id ` set (line_items t1) \<subseteq> iv_id ` set (invoices t)"
    proof -
      have "li_invoice_id ` set items \<subseteq> iv_id ` set (invoices t)" using its in_ids by auto
      with fk(1) items_fk(2) [of "items_of g i t" t] show ?thesis
        unfolding t1 items_fk(1) by (intro Un_least) (rule order_trans)
    qed
    show ?thesis
    proof (rule books_ok_save [OF ok check t'])
      show "balanced t1 ?iv"
      proof -
        have "payments_total iv1 t1 = payments_total iv0 t"
          using same iv0 by (simp add: payments_total_def payments_of_def t1)
        with good bal0 same items1 [of ?iv] show ?thesis
          by (simp add: balanced_def payments_total_def)
      qed
    next
      show "invoices t1 = invoices t" by (simp add: t1)
      show "iv_id ?iv \<in> iv_id ` set (invoices t)" using same(1) in_ids by simp
      show "py_invoice_id ` set (payments t1) \<subseteq> iv_id ` set (invoices t)" using fk(2) by (simp add: t1)
    next
      fix x :: invoice
      assume "iv_id x \<noteq> iv_id ?iv"
      then show "items_total x t1 = items_total x t \<and> payments_total x t1 = payments_total x t"
        using same(1) items1 [of x] by (simp add: t1)
    qed (rule fk1)
  qed
qed

lemma paid_ok:
  assumes ok: "books_ok t" and find: "find_invoice g i t = Some iv"
    and st: "iv_status iv \<in> {IS_SENT, IS_PARTIALLY_PAID, IS_PAID}"
    and p: "py_org_id p = g" "py_invoice_id p = i" "0 < py_amount p"
    and t': "t' = save_invoice ((apply_payment (py_amount p) iv)\<lparr>iv_updated_at := now\<rparr>)
             (t\<lparr>payments := payments t @ [p]\<rparr>)" and check: "inv_check t' = None"
  shows "books_ok t'"
proof -
  let ?t1 = "t\<lparr>payments := payments t @ [p]\<rparr>"
  note iv = find_invoice_SomeD [OF find]
  from ok iv have bal: "balanced t iv" by (simp add: books_ok_def list_all_iff)
  have same: "iv_id (apply_payment a iv) = i" "iv_org_id (apply_payment a iv) = g"
      "iv_subtotal (apply_payment a iv) = iv_subtotal iv" "iv_paid (apply_payment a iv) = iv_paid iv + a" for a
    using iv by (simp_all add: apply_payment_def Let_def)
  have items: "items_total x ?t1 = items_total x t" for x
    by (simp add: items_total_def items_of_def)
  have pays: "payments_total x ?t1 = payments_total x t +
      (if iv_org_id x = g \<and> iv_id x = i then py_amount p else 0)" for x
    using p by (simp add: payments_total_def payments_of_def)
  have good: "invoice_ok (apply_payment (py_amount p) iv)"
    using apply_payment_ok [of iv "py_amount p"] bal st p by (auto simp: balanced_def)
  show ?thesis
  proof (rule books_ok_save [OF ok check t'])
    show "balanced ?t1 ((apply_payment (py_amount p) iv)\<lparr>iv_updated_at := now\<rparr>)"
    proof -
      have "items_total (apply_payment (py_amount p) iv) ?t1 = items_total iv t"
        using same(1,2) [of "py_amount p"] iv by (simp add: items_total_def items_of_def)
      moreover have "payments_total (apply_payment (py_amount p) iv) ?t1 = payments_total iv t + py_amount p"
        using same(1,2) [of "py_amount p"] iv p by (simp add: payments_total_def payments_of_def)
      ultimately show ?thesis
        using good bal same(3,4) [of "py_amount p"]
        by (simp add: balanced_def items_total_def payments_total_def)
    qed
  next
    show "py_invoice_id ` set (payments ?t1) \<subseteq> iv_id ` set (invoices t)"
    proof -
      have "i \<in> iv_id ` set (invoices t)" using iv by (auto intro!: image_eqI [where x = iv])
      moreover have "py_invoice_id ` set (payments t) \<subseteq> iv_id ` set (invoices t)"
        using ok by (simp add: books_ok_def)
      ultimately show ?thesis using p by simp
    qed
  next
    show "iv_id ((apply_payment (py_amount p) iv)\<lparr>iv_updated_at := now\<rparr>) \<in> iv_id ` set (invoices t)"
      using iv same(1) [of "py_amount p"] by (auto intro!: image_eqI [where x = iv])
  next
    fix x :: invoice
    assume "iv_id x \<noteq> iv_id ((apply_payment (py_amount p) iv)\<lparr>iv_updated_at := now\<rparr>)"
    then have "iv_id x \<noteq> i" using same(1) [of "py_amount p"] by simp
    then show "items_total x ?t1 = items_total x t \<and> payments_total x ?t1 = payments_total x t"
      using items pays by simp
  qed (use ok in \<open>simp_all add: books_ok_def\<close>)
qed

lemma inv_step_books_ok: "inv_step g t t' \<Longrightarrow> books_ok t \<Longrightarrow> books_ok t'"
proof (induction rule: inv_step.induct)
  case (created iv items t' t)
  then show ?case by (intro created_ok [of t iv g items t'])
next
  case (edited i t iv0 body items t1 iv1 t' now)
  then show ?case by (intro edited_ok [of t g i iv0 body items t1 iv1 t' now])
next
  case (deleted i t iv t' now)
  then have "invoice_ok iv"
    using find_invoice_SomeD [OF deleted(1)] by (auto simp: books_ok_def list_all_iff balanced_def)
  with deleted show ?case by (auto intro!: books_ok_save_only simp: invoice_ok_def)
next
  case (sent i t iv t' key now)
  then have ok: "invoice_ok iv"
    using find_invoice_SomeD [OF sent(1)] by (auto simp: books_ok_def list_all_iff balanced_def)
  with sent show ?case
    by (auto intro!: books_ok_save_only simp: invoice_ok_def next_payment_status_def)
next
  case (paid i t iv p t' now)
  then show ?case by (intro paid_ok [of t g i iv p t' now])
next
  case (voided i t iv t' now)
  then have "invoice_ok iv"
    using find_invoice_SomeD [OF voided(1)] by (auto simp: books_ok_def list_all_iff balanced_def)
  with voided show ?case by (auto intro!: books_ok_save_only simp: invoice_ok_def)
qed

end
