(* ===== verification/A2Z_InvoiceRuns.thy ===== *)
theory A2Z_InvoiceRuns
  imports A2Z_InvoiceSteps
begin

text \<open>
  The invoicing handlers as transactions: whatever a request returns, and whatever failed
  on the way, its session committed one step of the organisation's transition system or
  nothing.  From this: the consistency of the books after any sequence of requests, the
  access checks, the lifecycle and the payments.
\<close>

section \<open>What a handler commits\<close>

lemma require_role_leaves [frames]:
  assumes "\<And>w g. f (tick_update g w) = f w"
  shows "leaves f (require_membership E u g)" "leaves f (require_mutation_role E u g)"
  unfolding require_mutation_role_def require_membership_def by (intro frames; simp add: assms)+

lemma rows_leave [frames]:
  assumes "\<And>w g. f (tick_update g w) = f w"
  shows "leaves f (load_invoice E g i)" "leaves f (load_line_items E g i)"
    "leaves f (refresh_invoice E iv)" "leaves f (build_line_items E g i ls)"
    "leaves f (lookup_payment E g pb)" "leaves f (new_payment E g i u pb)"
  unfolding load_invoice_def load_line_items_def refresh_invoice_def build_line_items_def
    lookup_payment_def new_payment_def
  by (intro frames; simp add: assms)+

abbreviation commits :: "(inv_tables \<Rightarrow> bool) \<Rightarrow> ('z invoice_world_scheme, 'a) op \<Rightarrow> 'z invoice_world_scheme \<Rightarrow> bool" where
  "commits P \<equiv> inv.ends (\<lambda>_. P)"

text \<open>Loading an invoice returns the row that \<open>find_invoice\<close> names.\<close>

lemma ends_load_invoice:
  assumes "\<And>e. R (Inl e) (inv_db w)"
    and "\<And>iv w1. find_invoice g i (inv_tx w) = Some iv \<Longrightarrow> inv_db w1 = inv_db w \<Longrightarrow> inv_tx w1 = inv_tx w \<Longrightarrow>
          inv.ends R (k iv) w1"
  shows "inv.ends R (bindE (load_invoice E g i) k) w"
proof (rule inv.ends_reads)
  fix x w1
  assume "load_invoice E g i w = (Inr x, w1)" "inv_db w1 = inv_db w" "inv_tx w1 = inv_tx w"
  then show "inv.ends R (k x) w1"
    by (intro assms(2)) (auto simp: load_invoice_def act_Inr dest!: inv.select_value split: option.splits)
next
  show "leaves (\<lambda>w. (inv_db w, inv_tx w)) (load_invoice E g i)" by (intro frames) simp
qed (rule assms(1))

lemma build_line_items_Inr:
  assumes "build_line_items E g i ls w = (Inr its, w')"
  shows "\<forall>it \<in> set its. li_org_id it = g \<and> li_invoice_id it = i"
proof -
  have "\<forall>it \<in> set its. li_org_id it = g \<and> li_invoice_id it = i"
    if "mapE (\<lambda>l. bindE (new_uuid E) (\<lambda>item_id.
       ret \<lparr>li_id = item_id, li_org_id = g, li_invoice_id = i,
            li_description = lc_description l, li_quantity = lc_quantity l,
            li_unit_price = lc_unit_price l,
            li_amount = compute_line_amount_cents (lc_quantity l) (lc_unit_price l),
            li_created_at = now\<rparr>)) ls w = (Inr its, w')" for now and w :: "'a invoice_world_scheme" and w'
    using that by (induction ls arbitrary: its w w') (auto simp: act_Inr)
  with assms show ?thesis by (auto simp: build_line_items_def act_Inr)
qed


text \<open>
  Outcome \<open>nothing or Q\<close>: an error that committed nothing, or a checked commit of a table
  with property \<open>Q\<close>.
\<close>

abbreviation nothing_or ::
  "inv_tables \<Rightarrow> (inv_tables \<Rightarrow> bool) \<Rightarrow> exn + 'a \<Rightarrow> inv_tables \<Rightarrow> bool" where
  "nothing_or t Q \<equiv> (\<lambda>r t'. (t' = t \<and> isl r) \<or> (Q t' \<and> inv_check t' = None))"

lemma ends_commit_rest:
  assumes "leaves inv_db k" and "\<And>e. R (Inl e) (inv_db w)"
    and "\<And>r. inv_check (inv_tx w) = None \<Longrightarrow> R r (inv_tx w)"
  shows "inv.ends R (thenE (commit_inv E) k) w"
proof (rule inv.ends_commit)
  fix w1 :: "'a invoice_world_scheme"
  assume "inv_check (inv_tx w) = None" "inv_db w1 = inv_tx w"
  with assms show "inv.ends R k w1" by (intro inv.ends_rest) simp_all
qed (use assms in auto)

lemma ends_finish:
  assumes "leaves inv_db k" and "Q (inv_tx w)" and "inv_db w = t"
  shows "inv.ends (nothing_or t Q) (thenE (commit_inv E) k) w"
  by (rule ends_commit_rest) (use assms in auto)

lemma ends_case_option:
  assumes "x = None \<Longrightarrow> inv.ends R m w" and "\<And>y. x = Some y \<Longrightarrow> inv.ends R (f y) w"
  shows "inv.ends R (case x of None \<Rightarrow> m | Some y \<Rightarrow> f y) w"
  using assms by (cases x) simp_all

lemma soft_delete_outcome:
  assumes "inv_db w = t" "inv_tx w = t"
  shows "inv.ends (nothing_or t (\<lambda>t'. \<exists>iv now. find_invoice g i t = Some iv \<and>
      t' = save_invoice (iv\<lparr>iv_is_deleted := True, iv_updated_at := now\<rparr>) t)) (soft_delete_invoice E g i u) w"
  unfolding soft_delete_invoice_def
  by (rule inv.ends_then_reads ends_load_invoice inv.ends_reads inv.ends_modify ends_finish
     | intro frames exI conjI | assumption | simp add: assms)+

lemma liftS_assert:
  "assert_can_edit s = Inr x \<longleftrightarrow> s \<noteq> IS_VOID" "assert_can_void s = Inr x \<longleftrightarrow> s \<noteq> IS_VOID"
  "assert_can_send s = Inr x \<longleftrightarrow> s = IS_DRAFT"
  "assert_can_record_payment s = Inr x \<longleftrightarrow> s \<in> {IS_SENT, IS_PARTIALLY_PAID, IS_PAID}"
  by (auto simp: assert_can_edit_def assert_can_void_def assert_can_send_def assert_can_record_payment_def)

lemma void_outcome:
  assumes "inv_db w = t" "inv_tx w = t"
  shows "inv.ends (nothing_or t (\<lambda>t'. \<exists>iv now. find_invoice g i t = Some iv \<and> iv_status iv \<noteq> IS_VOID \<and>
      t' = save_invoice (iv\<lparr>iv_status := IS_VOID, iv_updated_at := now\<rparr>) t)) (void_invoice E g i u reason) w"
  unfolding void_invoice_def
  by (rule inv.ends_then_lift inv.ends_then_reads ends_load_invoice inv.ends_reads inv.ends_modify ends_finish
     | intro frames exI conjI | assumption | simp add: assms liftS_assert)+

lemma send_outcome:
  assumes "inv_db w = t" "inv_tx w = t"
  shows "inv.ends (nothing_or t (\<lambda>t'. \<exists>iv key now. find_invoice g i t = Some iv \<and> iv_status iv = IS_DRAFT \<and>
      t' = save_invoice (iv\<lparr>iv_status := IS_SENT, iv_pdf_s3_key := Some key, iv_updated_at := now\<rparr>) t))
    (send_invoice E render g i u recipient) w"
  unfolding send_invoice_def Let_def
  by (rule inv.ends_then_lift inv.ends_then_reads ends_load_invoice inv.ends_reads inv.ends_modify ends_finish
     | intro frames exI conjI | assumption | simp add: assms liftS_assert)+

lemma save_invoice_twice:
  "iv_id x = iv_id y \<Longrightarrow> save_invoice x (save_invoice y t) = save_invoice x t"
  by (simp add: save_invoice_def row_upd_def comp_def)

lemma save_invoice_commute:
  "add_items its (save_invoice x t) = save_invoice x (add_items its t)"
  "drop_items its (save_invoice x t) = save_invoice x (drop_items its t)"
  "items_of g i (save_invoice x t) = items_of g i t"
  by (simp_all add: save_invoice_def add_items_def drop_items_def items_of_def)

lemma new_payment_Inr:
  "new_payment E g i u pb w = (Inr p, w') \<Longrightarrow> py_org_id p = g \<and> py_invoice_id p = i \<and>
     py_amount p = pr_amount pb \<and> py_idempotency_key p = pr_idempotency_key pb"
  by (auto simp: new_payment_def act_Inr)

lemma lookup_payment_Inr:
  "lookup_payment E g pb w = (Inr x, w') \<Longrightarrow>
     x = (case pr_idempotency_key pb of None \<Rightarrow> None
          | Some key \<Rightarrow> if key = [] then None else find_payment g key (inv_tx w))"
  by (auto simp: lookup_payment_def dest!: inv.select_value split: option.splits if_splits)

lemma record_payment_outcome:
  assumes "inv_db w = t" "inv_tx w = t" and "valid_payment body"
  shows "inv.ends (\<lambda>r t'. (\<exists>iv p key. r = Inr (iv, p) \<and> t' = t \<and> find_invoice g i t = Some iv \<and>
        pr_idempotency_key body = Some key \<and> key \<noteq> [] \<and> find_payment g key t = Some p) \<or>
      nothing_or t (\<lambda>t'. \<exists>iv p now. find_invoice g i t = Some iv \<and>
        iv_status iv \<in> {IS_SENT, IS_PARTIALLY_PAID, IS_PAID} \<and>
        py_org_id p = g \<and> py_invoice_id p = i \<and> py_amount p = pr_amount body \<and>
        py_idempotency_key p = pr_idempotency_key body \<and>
        t' = save_invoice ((apply_payment (py_amount p) iv)\<lparr>iv_updated_at := now\<rparr>)
             (t\<lparr>payments := payments t @ [p]\<rparr>)) r t')
    (record_payment E g i u body) w" (is "inv.ends (\<lambda>r t'. ?replay r t' \<or> nothing_or t ?Q r t') _ _")
  unfolding record_payment_def
    apply (rule inv.ends_then_reads)
      apply (intro frames, simp) apply (simp add: assms)
    apply (rule ends_load_invoice)
     apply (simp add: assms)
    apply (rule inv.ends_then_lift)
     apply (simp add: assms)
    apply (rule inv.ends_reads)
      apply (intro frames, simp) apply (simp add: assms)
    apply (drule lookup_payment_Inr)
    apply (rule ends_case_option)
     apply (rule inv.ends_reads)
       apply (intro frames, simp) apply (simp add: assms)
     apply (drule new_payment_Inr)
     apply (rule inv.ends_modify)+
     apply (rule ends_commit_rest)
       apply (intro frames; simp)
      apply (simp add: assms)
     apply (rule disjI2, rule disjI2)
     apply (intro exI conjI)
            apply (auto simp: assms liftS_assert)[8]
    apply (simp add: inv.ends_def assms split: option.splits if_splits)
  done

lemma recompute_keeps: "recompute amounts iv = Inr iv' \<Longrightarrow> iv_id iv' = iv_id iv \<and> iv_org_id iv' = iv_org_id iv"
  by (auto simp: recompute_def bindS_Inr Let_def)

lemma ends_recompute:
  assumes "\<And>e. R (Inl e) (inv_db w)"
    and "\<And>iv'. (if b then recompute amounts iv = Inr iv' else iv' = iv) \<Longrightarrow> inv.ends R (k iv') w"
  shows "inv.ends R (bindE (if b then liftS (recompute amounts iv) else ret iv) k) w"
proof (cases b)
  case True
  then show ?thesis unfolding if_P [OF True] using assms by (intro inv.ends_lift) auto
next
  case False
  with assms(2) [of iv] show ?thesis by (simp add: bindE_ret)
qed

text \<open>What replacing the line items does to the working copy.\<close>

lemma ends_replace_items:
  assumes "\<And>e. R (Inl e) (inv_db w)"
    and "\<And>its w1. case new of
         None \<Rightarrow> its = old \<and> inv_tx w1 = inv_tx w
       | Some _ \<Rightarrow> (\<forall>it \<in> set its. li_org_id it = g \<and> li_invoice_id it = i) \<and>
                   inv_tx w1 = add_items its (drop_items old (inv_tx w)) \<Longrightarrow>
       inv_db w1 = inv_db w \<Longrightarrow> inv.ends R (k its) w1"
  shows "inv.ends R (bindE (replace_items E g i new old) k) w"
proof (cases new)
  case None
  with assms(2) [of old w] show ?thesis by (simp add: replace_items_def bindE_ret)
next
  case (Some ls)
  show ?thesis
    unfolding replace_items_def Some option.case bindE_thenE bindE_assoc bindE_ret
    apply (rule inv.ends_modify)
    apply (rule inv.ends_flush)
     apply (simp add: assms)
    apply (rule inv.ends_reads)
      apply (intro frames, simp)
     apply (simp add: assms)
    apply (drule build_line_items_Inr)
    apply (rule inv.ends_modify)
    apply (rule inv.ends_flush)
     apply (simp add: assms)
    apply (rule assms(2))
     apply (simp_all add: Some)
    done
qed

text \<open>The edited tables, as a function of the committed ones.\<close>

definition edited_tables ::
  "string \<Rightarrow> string \<Rightarrow> invoice_update \<Rightarrow> inv_tables \<Rightarrow> inv_tables \<Rightarrow> bool" where
  "edited_tables g i body t t' \<longleftrightarrow> (\<exists>iv0 items t1 iv1 now. find_invoice g i t = Some iv0 \<and>
      iv_status iv0 \<noteq> IS_VOID \<and>
      (case iu_line_items body of
         None \<Rightarrow> items = items_of g i t \<and> t1 = t
       | Some _ \<Rightarrow> (\<forall>it \<in> set items. li_org_id it = g \<and> li_invoice_id it = i) \<and>
                   t1 = add_items items (drop_items (items_of g i t) t)) \<and>
      (if needs_recompute body then recompute (map li_amount items) (edit_header body iv0) = Inr iv1
       else iv1 = edit_header body iv0) \<and>
      t' = save_invoice (iv1\<lparr>iv_updated_at := now\<rparr>) t1)"

lemma edited_tablesI:
  assumes "find_invoice g i t = Some iv0" "iv_status iv0 \<noteq> IS_VOID"
    and h: "h = save_invoice (edit_header body iv0) t"
    and items: "case iu_line_items body of
         None \<Rightarrow> items = items_of g i h \<and> h1 = h
       | Some _ \<Rightarrow> (\<forall>it \<in> set items. li_org_id it = g \<and> li_invoice_id it = i) \<and>
                   h1 = add_items items (drop_items (items_of g i h) h)"
    and rec: "if needs_recompute body then recompute (map li_amount items) (edit_header body iv0) = Inr iv1
       else iv1 = edit_header body iv0"
  shows "edited_tables g i body t (save_invoice (iv1\<lparr>iv_updated_at := now\<rparr>) h1)"
proof -
  define t1 where "t1 = (case iu_line_items body of None \<Rightarrow> t
      | Some _ \<Rightarrow> add_items items (drop_items (items_of g i t) t))"
  have "h1 = save_invoice (edit_header body iv0) t1"
    using items by (auto simp: t1_def h save_invoice_commute split: option.splits)
  moreover have "iv_id iv1 = iv_id iv0"
    using rec by (auto dest: recompute_keeps split: if_splits)
  ultimately have "save_invoice (iv1\<lparr>iv_updated_at := now\<rparr>) h1 = save_invoice (iv1\<lparr>iv_updated_at := now\<rparr>) t1"
    by (simp add: save_invoice_twice)
  moreover have "case iu_line_items body of
         None \<Rightarrow> items = items_of g i t \<and> t1 = t
       | Some _ \<Rightarrow> (\<forall>it \<in> set items. li_org_id it = g \<and> li_invoice_id it = i) \<and>
                   t1 = add_items items (drop_items (items_of g i t) t)"
    using items by (auto simp: t1_def h save_invoice_commute split: option.splits)
  ultimately show ?thesis
    unfolding edited_tables_def using assms(1,2) rec by blast
qed

lemma update_outcome:
  assumes "inv_db w = t" "inv_tx w = t"
  shows "inv.ends (nothing_or t (edited_tables g i body t)) (update_invoice E g i u body) w"
  unfolding update_invoice_def Let_def
  apply (rule inv.ends_then_reads)
    apply (intro frames, simp) apply (simp add: assms)
  apply (rule ends_load_invoice)
   apply (simp add: assms)
  apply (rule inv.ends_then_lift)
   apply (simp add: assms)
  apply (rule inv.ends_modify)
  unfolding load_line_items_def
  apply (rule inv.ends_select)
   apply (simp add: assms)
  apply (rule ends_replace_items)
    apply (simp add: assms)
  apply (rule ends_recompute)
   apply (simp add: assms)
  apply (rule inv.ends_reads)
    apply (intro frames, simp) apply (simp add: assms)
  apply (rule inv.ends_modify)
  apply (rule ends_finish)
    apply (intro frames; simp)
   apply simp
   apply (rule edited_tablesI)
       apply (auto simp: assms liftS_assert cong: option.case_cong split: option.splits)
  done

lemma create_outcome:
  assumes "inv_db w = t" "inv_tx w = t" and "valid_create body"
  shows "inv.ends (nothing_or t (\<lambda>t'. \<exists>iv items. iv_org_id iv = g \<and> iv_status iv = IS_DRAFT \<and> iv_paid iv = 0 \<and>
      iv_payment_status iv = PS_UNPAID \<and> \<not> iv_is_deleted iv \<and> 0 \<le> iv_tax iv \<and> 0 \<le> iv_discount iv \<and>
      compute_totals (map li_amount items) (iv_tax iv) (iv_discount iv) = Inr (iv_subtotal iv, iv_total iv) \<and>
      (\<forall>it \<in> set items. li_org_id it = g \<and> li_invoice_id it = iv_id iv) \<and>
      t' = add_items items (t\<lparr>invoices := invoices t @ [iv]\<rparr>))) (create_invoice E g u body) w"
  unfolding create_invoice_def Let_def
  apply (rule inv.ends_then_reads)
    apply (intro frames, simp) apply (simp add: assms)
  apply (rule inv.ends_reads, intro frames, simp, simp add: assms)
  apply (rule inv.ends_reads, intro frames, simp, simp, simp add: assms)
  apply (rule inv.ends_reads, intro frames, simp, simp add: assms)
  apply (rule inv.ends_reads, intro frames, simp, simp add: assms)
  apply (rule inv.ends_reads, intro frames, simp, simp add: assms)
  apply (drule build_line_items_Inr)
  apply (rule inv.ends_lift, simp add: assms)
  apply (simp only: split_paired_all prod.case)
  apply (rule inv.ends_reads, intro frames, simp, simp add: assms)
  apply (rule inv.ends_modify)
  apply (rule inv.ends_flush, simp add: assms)
  apply (rule inv.ends_modify)
  apply (rule ends_finish)
    apply (intro frames; simp)
   apply (intro exI conjI)
            prefer 10
            apply (simp add: assms)
           apply (use assms(3) in \<open>simp_all add: assms valid_create_def\<close>)
  done

end
