(* ===== verification/A2Z_InvoiceService.thy ===== *)
theory A2Z_InvoiceService
  imports A2Z_InvoiceRuns
begin

text \<open>
  The invoicing service as its clients see it: the requests of the handlers, served one
  after another under any schedule of failures, and the properties of all such runs.
\<close>

section \<open>Requests\<close>

datatype inv_request =
    Create invoice_create
  | Update string invoice_update
  | Delete string
  | Send string string
  | Pay string payment_request
  | Void string string
  | Get string
  | List_by "string list" nat nat
  | Payments string

fun valid_request :: "inv_request \<Rightarrow> bool" where
  "valid_request (Create b) = valid_create b"
| "valid_request (Update _ b) = valid_update b"
| "valid_request (Pay _ b) = valid_payment b"
| "valid_request _ = True"

type_synonym renderer = "invoice \<Rightarrow> line_item list \<Rightarrow> org_settings \<Rightarrow> string"

fun handle :: "env \<Rightarrow> renderer \<Rightarrow> string \<Rightarrow> string \<Rightarrow> inv_request \<Rightarrow> ('z invoice_world_scheme, unit) op" where
  "handle E pdf g u (Create b) = thenE (create_invoice E g u b) (ret ())"
| "handle E pdf g u (Update i b) = thenE (update_invoice E g i u b) (ret ())"
| "handle E pdf g u (Delete i) = soft_delete_invoice E g i u"
| "handle E pdf g u (Send i recipient) = thenE (send_invoice E pdf g i u recipient) (ret ())"
| "handle E pdf g u (Pay i b) = thenE (record_payment E g i u b) (ret ())"
| "handle E pdf g u (Void i reason) = thenE (void_invoice E g i u reason) (ret ())"
| "handle E pdf g u (Get i) = thenE (get_invoice E g u i) (ret ())"
| "handle E pdf g u (List_by ss skip limit) = thenE (list_invoices E g u ss skip limit) (ret ())"
| "handle E pdf g u (Payments i) = thenE (list_payments E g u i) (ret ())"

definition serve ::
  "env \<Rightarrow> renderer \<Rightarrow> string \<Rightarrow> string \<Rightarrow> inv_request \<Rightarrow> 'z invoice_world_scheme \<Rightarrow> 'z invoice_world_scheme" where
  "serve E pdf g u q w = snd (inv_session (handle E pdf g u q) w)"

text \<open>Each request with the organisation and the caller it comes from.\<close>

fun serve_all ::
  "env \<Rightarrow> renderer \<Rightarrow> (string \<times> string \<times> inv_request) list \<Rightarrow> 'z invoice_world_scheme \<Rightarrow> 'z invoice_world_scheme" where
  "serve_all E pdf [] w = w"
| "serve_all E pdf ((g, u, q) # qs) w = serve_all E pdf qs (serve E pdf g u q w)"

section \<open>One request, one step\<close>

lemma reads_leave_db [frames]:
  "leaves inv_db (get_invoice E g u i)" "leaves inv_db (list_invoices E g u ss skip limit)"
  "leaves inv_db (list_payments E g u i)"
  unfolding get_invoice_def list_invoices_def list_payments_def by (intro frames; simp)+

lemma ends_then_ret:
  assumes "inv.ends R m w" and "\<And>r t. R r t \<Longrightarrow> S t"
  shows "inv.ends (\<lambda>_. S) (thenE m (ret ())) w"
  using assms by (auto simp: inv.ends_def thenE_app split: prod.splits sum.splits)

lemma inv_step_edited: "edited_tables g i body t t' \<Longrightarrow> valid_update body \<Longrightarrow> inv_check t' = None \<Longrightarrow> inv_step g t t'"
  unfolding edited_tables_def by (elim exE conjE) (rule edited)

lemma handle_steps:
  assumes "inv_db w = t" "inv_tx w = t" "valid_request q"
  shows "inv.ends (\<lambda>_ t'. t' = t \<or> inv_step g t t') (handle E pdf g u q) w"
proof (cases q)
  case (Create b)
  with assms show ?thesis
    by (auto intro: created intro!: ends_then_ret [OF create_outcome])
next
  case (Update i b)
  with assms show ?thesis
    by (auto intro: inv_step_edited intro!: ends_then_ret [OF update_outcome])
next
  case (Delete i)
  with assms show ?thesis
    by (auto intro: deleted intro!: inv.ends_mono [OF soft_delete_outcome])
next
  case (Send i r)
  with assms show ?thesis
    by (auto intro: sent intro!: ends_then_ret [OF send_outcome])
next
  case (Pay i b)
  with assms show ?thesis
    by (auto intro: paid intro!: ends_then_ret [OF record_payment_outcome] simp: valid_payment_def)
next
  case (Void i r)
  with assms show ?thesis
    by (auto intro: voided intro!: ends_then_ret [OF void_outcome])
qed (use assms in \<open>auto intro!: inv.ends_rest frames\<close>)

lemma serve_step:
  assumes "valid_request q"
  shows "inv_db (serve E pdf g u q w) = inv_db w \<or> inv_step g (inv_db w) (inv_db (serve E pdf g u q w))"
proof -
  obtain r w' where run: "inv_session (handle E pdf g u q) w = (r, w')" by (rule prod.exhaust)
  have "inv_db w' = inv_db w \<or> inv_step g (inv_db w) (inv_db w')"
    by (rule inv.ends_session [OF _ run]) (rule handle_steps, simp_all add: assms)
  with run show ?thesis by (simp add: serve_def)
qed


section \<open>The books\<close>

lemma serve_all_induct:
  fixes w :: "'z invoice_world_scheme"
  assumes "\<And>g u q (w :: 'z invoice_world_scheme). C g \<Longrightarrow> valid_request q \<Longrightarrow> P (inv_db w) \<Longrightarrow>
      P (inv_db (serve E pdf g u q w))"
    and "P (inv_db w)" and "list_all (\<lambda>(g, u, q). valid_request q \<and> C g) qs"
  shows "P (inv_db (serve_all E pdf qs w))"
  using assms(2,3)
proof (induction qs arbitrary: w)
  case (Cons x qs)
  obtain g u q where x: "x = (g, u, q)" by (rule prod_cases3)
  with Cons.prems assms(1) [of g q w u] show ?case by (auto intro: Cons.IH)
qed simp

lemma serve_books_ok: "valid_request q \<Longrightarrow> books_ok (inv_db w) \<Longrightarrow> books_ok (inv_db (serve E pdf g u q w))"
  using serve_step [of q E pdf g u w] by (auto intro: inv_step_books_ok)

text \<open>
  C4: the books stay consistent.  Whatever requests are served and whatever calls fail on
  the way, in the committed tables every invoice's subtotal is the sum of its line items,
  its total is subtotal plus tax minus discount and not negative, the amount paid is the
  sum of its payments, its payment status and its status agree with these amounts, every
  line item and payment belongs to an invoice, and ids, numbers and idempotency keys are
  unique.
\<close>

theorem books_always_balance:
  assumes "books_ok (inv_db w)" and "list_all (\<lambda>(g, u, q). valid_request q) qs"
  shows "books_ok (inv_db (serve_all E pdf qs w))"
  using assms by (intro serve_all_induct [where P = books_ok and C = "\<lambda>_. True"] serve_books_ok) simp_all

definition sample_line :: line_item_create where
  "sample_line = \<lparr>lc_description = ''work'', lc_quantity = 5/2, lc_unit_price = 333\<rparr>"

definition sample_create :: invoice_create where
  "sample_create = \<lparr>ic_customer_email = ''c@x.co'', ic_customer_name = ''C'', ic_customer_company = None,
     ic_invoice_date = 20000, ic_due_date = None, ic_payment_terms = None,
     ic_line_items = [sample_line], ic_tax = 50, ic_discount = 0, ic_notes = None\<rparr>"

definition sample_payment :: payment_request where
  "sample_payment = \<lparr>pr_amount = 100, pr_payment_date = 20001, pr_method = ''card'', pr_reference = None,
     pr_notes = None, pr_idempotency_key = Some ''k1''\<rparr>"

text \<open>One invoice of organisation \<open>o1\<close>, sent and not yet paid.\<close>

definition sample_invoice :: invoice where
  "sample_invoice = \<lparr>iv_id = ''i1'', iv_org_id = ''o1'', iv_number = ''INV-2024-000001'', iv_status = IS_SENT,
     iv_customer_email = ''c@x.co'', iv_customer_name = ''C'', iv_customer_company = None,
     iv_invoice_date = 20000, iv_due_date = None, iv_payment_terms = None, iv_subtotal = 833,
     iv_tax = 50, iv_discount = 0, iv_total = 883, iv_paid = 0, iv_payment_status = PS_UNPAID,
     iv_currency = ''USD'', iv_notes = None, iv_pdf_s3_key = Some ''o1/f'', iv_is_deleted = False,
     iv_created_by = ''ann'', iv_created_at = 0, iv_updated_at = 0\<rparr>"

definition sample_tables :: inv_tables where
  "sample_tables = \<lparr>invoices = [sample_invoice],
     line_items = [\<lparr>li_id = ''l1'', li_org_id = ''o1'', li_invoice_id = ''i1'', li_description = ''work'',
        li_quantity = 5/2, li_unit_price = 333, li_amount = 833, li_created_at = 0\<rparr>],
     payments = []\<rparr>"

definition sample_world :: invoice_world where
  "sample_world = fresh_audit (bus_world_ext [] (settings_world_ext []
     (member_world_ext [membership_item ''o1'' ''ann'' OWNER 0]
     (storage_world_ext (\<lambda>_. None) [] empty_cache (secrets_world_ext (\<lambda>_. None) empty_cache
     (email_world_ext [] [] [] [] [] [] (invoice_world_ext sample_tables sample_tables ())))))))"

definition sample_pdf :: renderer where
  "sample_pdf _ _ _ = ''pdf''"

lemma sample_world_db [simp]: "inv_db sample_world = sample_tables" "inv_tx sample_world = sample_tables"
  by (simp_all add: sample_world_def fresh_audit_def)

lemma sample_books_ok: "books_ok sample_tables"
proof -
  have "inv_check sample_tables = None"
    by (simp add: inv_check_def sample_tables_def sample_invoice_def idempotency_keys_def invoice_fits_def
        item_fits_def fits64_def)
  moreover have "balanced sample_tables sample_invoice"
    by (simp add: balanced_def invoice_ok_def items_total_def payments_total_def items_of_def payments_of_def
        sample_tables_def sample_invoice_def next_payment_status_def)
  ultimately show ?thesis by (simp add: books_ok_def sample_tables_def sample_invoice_def)
qed

lemma samples_valid: "valid_create sample_create" "valid_payment sample_payment"
  by (simp_all add: sample_create_def valid_create_def sample_line_def valid_line_def
      sample_payment_def valid_payment_def)

theorem books_always_balance_witness:
  "books_ok (inv_db (serve_all sample_env sample_pdf
     [(''o1'', ''ann'', Create sample_create), (''o1'', ''ann'', Pay ''i1'' sample_payment)] sample_world))"
  by (rule books_always_balance) (simp_all add: sample_books_ok samples_valid)

lemmas step_cases = inv_step_cases [consumes 1, case_names created edited deleted sent paid voided]

section \<open>Organisations do not touch each other\<close>

definition org_view :: "string \<Rightarrow> inv_tables \<Rightarrow> invoice list \<times> line_item list \<times> payment list" where
  "org_view h t = (filter (\<lambda>iv. iv_org_id iv = h) (invoices t), filter (\<lambda>it. li_org_id it = h) (line_items t),
     filter (\<lambda>p. py_org_id p = h) (payments t))"

lemma filter_row_upd:
  assumes "\<And>r. r \<in> set rows \<Longrightarrow> iv_id r = k \<Longrightarrow> \<not> P r" and "\<not> P x"
  shows "filter P (row_upd iv_id k (\<lambda>_. x) rows) = filter P rows"
  using assms by (induction rows) (auto simp: row_upd_def)

lemma save_invoice_org_view:
  assumes "books_ok t" and "find_invoice g i t = Some iv" and "iv_id x = i" "iv_org_id x = g" "h \<noteq> g"
    and "invoices t1 = invoices t"
  shows "org_view h (save_invoice x t1) = org_view h t1"
proof -
  note iv = find_invoice_SomeD [OF assms(2)]
  have "distinct (map iv_id (invoices t))"
    using assms(1) inv_check_None by (auto simp: books_ok_def)
  then have "r = iv" if "r \<in> set (invoices t)" "iv_id r = i" for r
    using that iv by (auto simp: distinct_map inj_on_def)
  with iv assms(3-6) show ?thesis
    by (auto simp: org_view_def intro!: filter_row_upd)
qed

lemma org_view_items:
  assumes "h \<noteq> g" and "\<forall>it \<in> set its. li_org_id it = g"
  shows "org_view h (add_items its t) = org_view h t"
    and "distinct (map li_id (line_items t)) \<Longrightarrow> org_view h (drop_items (items_of g i t) t) = org_view h t"
proof -
  show "org_view h (add_items its t) = org_view h t"
    using assms by (auto simp: org_view_def add_items_def stored_item_def filter_empty_conv)
  assume "distinct (map li_id (line_items t))"
  then have "li_id x \<notin> li_id ` set (items_of g i t)" if "x \<in> set (line_items t)" "li_org_id x = h" for x
    using that assms(1) by (auto simp: set_items_of distinct_map inj_on_def)
  then show "org_view h (drop_items (items_of g i t) t) = org_view h t"
    by (auto simp: org_view_def drop_items_def intro!: filter_cong)
qed

lemma inv_step_isolated:
  assumes "inv_step g t t'" "books_ok t" "h \<noteq> g"
  shows "org_view h t' = org_view h t"
  using assms(1)
proof (cases rule: step_cases)
  case (created iv items)
  have "org_view h t' = org_view h (t\<lparr>invoices := invoices t @ [iv]\<rparr>)"
    unfolding created(1) using created assms(3) by (intro org_view_items) auto
  with created assms(3) show ?thesis by (simp add: org_view_def)
next
  case (edited i iv0 body items t1 iv1 now)
  note iv0 = find_invoice_SomeD [OF edited(2)]
  have dist: "distinct (map li_id (line_items t))"
    using assms(2) inv_check_None by (auto simp: books_ok_def)
  have same: "iv_id iv1 = i" "iv_org_id iv1 = g"
    using edited(6) iv0 by (auto dest: recompute_keeps split: if_splits)
  have t1: "invoices t1 = invoices t"
    using edited(5) by (auto split: option.splits)
  have "org_view h t1 = org_view h t"
  proof (cases "iu_line_items body")
    case (Some ls)
    with edited(5) have "t1 = add_items items (drop_items (items_of g i t) t)"
      "\<forall>it \<in> set items. li_org_id it = g" by auto
    with org_view_items [OF assms(3)] dist show ?thesis by simp
  qed (use edited(5) in simp)
  with save_invoice_org_view [OF assms(2) edited(2) _ _ assms(3) t1] same show ?thesis
    unfolding edited(1) by simp
next
  case (deleted i iv now)
  with save_invoice_org_view [OF assms(2) deleted(2) _ _ assms(3) refl] find_invoice_SomeD [OF deleted(2)]
  show ?thesis unfolding deleted(1) by simp
next
  case (sent i iv key now)
  with save_invoice_org_view [OF assms(2) sent(2) _ _ assms(3) refl] find_invoice_SomeD [OF sent(2)]
  show ?thesis unfolding sent(1) by simp
next
  case (voided i iv now)
  with save_invoice_org_view [OF assms(2) voided(2) _ _ assms(3) refl] find_invoice_SomeD [OF voided(2)]
  show ?thesis unfolding voided(1) by simp
next
  case (paid iv p now)
  have "org_view h t' = org_view h (t\<lparr>payments := payments t @ [p]\<rparr>)"
    unfolding paid(1)
    by (rule save_invoice_org_view [OF assms(2) paid(2) _ _ assms(3)])
      (use find_invoice_SomeD [OF paid(2)] in \<open>simp_all add: apply_payment_def Let_def\<close>)
  with paid assms(3) show ?thesis by (simp add: org_view_def)
qed



section \<open>The life of an invoice\<close>

fun may_become :: "InvoiceStatus \<Rightarrow> InvoiceStatus \<Rightarrow> bool" where
  "may_become IS_DRAFT _ \<longleftrightarrow> True"
| "may_become IS_VOID s \<longleftrightarrow> s = IS_VOID"
| "may_become _ s \<longleftrightarrow> s \<noteq> IS_DRAFT"

lemma may_become_refl [simp]: "may_become s s" by (cases s) simp_all
lemma may_become_trans: "may_become r s \<Longrightarrow> may_become s t \<Longrightarrow> may_become r t"
  by (cases r; cases s; cases t) simp_all

text \<open>What later versions of a row keep of earlier ones.\<close>

definition follows :: "invoice \<Rightarrow> invoice \<Rightarrow> bool" where
  "follows iv iv' \<longleftrightarrow> iv_id iv' = iv_id iv \<and> iv_org_id iv' = iv_org_id iv \<and> iv_number iv' = iv_number iv \<and>
     iv_currency iv' = iv_currency iv \<and> iv_created_by iv' = iv_created_by iv \<and>
     iv_created_at iv' = iv_created_at iv \<and> may_become (iv_status iv) (iv_status iv') \<and>
     iv_paid iv \<le> iv_paid iv' \<and> (iv_is_deleted iv \<longrightarrow> iv' = iv)"

lemma follows_refl [simp]: "follows iv iv" by (simp add: follows_def)

lemma follows_trans: "follows a b \<Longrightarrow> follows b c \<Longrightarrow> follows a c"
  unfolding follows_def by (metis may_become_trans order_trans)

definition succeeds :: "inv_tables \<Rightarrow> inv_tables \<Rightarrow> bool" where
  "succeeds t t' \<longleftrightarrow> (\<forall>iv \<in> set (invoices t). \<exists>iv' \<in> set (invoices t'). follows iv iv') \<and>
     (\<exists>new. payments t' = payments t @ new)"

lemma succeeds_save:
  assumes "distinct (map iv_id (invoices t))" and "find_invoice g i t = Some iv0" and "follows iv0 x"
    and "invoices t1 = invoices t" "payments t1 = payments t @ new"
  shows "succeeds t (save_invoice x t1)"
proof -
  note iv0 = find_invoice_SomeD [OF assms(2)]
  have "\<exists>iv' \<in> set (row_upd iv_id (iv_id x) (\<lambda>_. x) (invoices t)). follows iv iv'"
    if iv: "iv \<in> set (invoices t)" for iv
  proof (cases "iv_id iv = iv_id x")
    case True
    with iv iv0 assms(1,3) have "iv = iv0" by (auto simp: follows_def distinct_map inj_on_def)
    with True iv assms(3) show ?thesis by (auto simp: set_row_upd)
  next
    case False
    with iv show ?thesis by (auto simp: set_row_upd intro!: bexI [where x = iv])
  qed
  with assms(4,5) show ?thesis by (auto simp: succeeds_def)
qed

lemma next_invoice_status_becomes: "may_become s (next_invoice_status s p)"
  by (cases s) (auto simp: next_invoice_status_def)

lemma inv_step_succeeds:
  assumes "inv_step g t t'" "books_ok t"
  shows "succeeds t t'"
proof -
  have dist: "distinct (map iv_id (invoices t))"
    using assms(2) inv_check_None by (auto simp: books_ok_def)
  from assms(1) show ?thesis
  proof (cases rule: step_cases)
    case (created iv items)
    then show ?thesis by (auto simp: succeeds_def intro: follows_refl)
  next
    case (edited i iv0 body items t1 iv1 now)
    note iv0 = find_invoice_SomeD [OF edited(2)]
    have "follows iv0 (iv1\<lparr>iv_updated_at := now\<rparr>)"
      using edited(6) iv0
      by (auto simp: follows_def recompute_def bindS_Inr Let_def edit_header_def next_invoice_status_becomes
          split: if_splits)
    moreover have "invoices t1 = invoices t \<and> payments t1 = payments t @ []"
      using edited(5) by (auto split: option.splits)
    ultimately show ?thesis unfolding edited(1) using succeeds_save [OF dist edited(2)] by blast
  next
    case (deleted i iv now)
    with find_invoice_SomeD [OF deleted(2)] show ?thesis
      by (auto intro!: succeeds_save [OF dist deleted(2), where new = "[]"] simp: follows_def)
  next
    case (sent i iv key now)
    with find_invoice_SomeD [OF sent(2)] show ?thesis
      by (auto intro!: succeeds_save [OF dist sent(2), where new = "[]"] simp: follows_def)
  next
    case (voided i iv now)
    have "may_become s IS_VOID" for s by (cases s) simp_all
    with voided find_invoice_SomeD [OF voided(2)] show ?thesis
      by (auto intro!: succeeds_save [OF dist voided(2), where new = "[]"] simp: follows_def)
  next
    case (paid iv p now)
    with find_invoice_SomeD [OF paid(2)] show ?thesis
      by (auto intro!: succeeds_save [OF dist paid(2), where new = "[p]"]
          simp: follows_def apply_payment_def Let_def next_invoice_status_becomes)
  qed
qed

lemma succeeds_trans: "succeeds a b \<Longrightarrow> succeeds b c \<Longrightarrow> succeeds a c"
  unfolding succeeds_def by (metis append.assoc follows_trans)




section \<open>Who may do what\<close>

fun needs_role :: "inv_request \<Rightarrow> bool" where
  "needs_role (Get _) = False"
| "needs_role (List_by _ _ _) = False"
| "needs_role (Payments _) = False"
| "needs_role _ = True"

definition permitted :: "string \<Rightarrow> string \<Rightarrow> inv_request \<Rightarrow> 'z member_world_scheme \<Rightarrow> bool" where
  "permitted g u q w \<longleftrightarrow> (if needs_role q then editor.may_enter u g w else reader.may_enter u g w)"

lemma then_ret_refuses:
  "thenE m (ret ()) w = (r, w') \<Longrightarrow> (\<And>r. m w = (r, w') \<Longrightarrow> P \<and> (r = Inl e \<or> (\<exists>x. r = Inl (outage_exn x)))) \<Longrightarrow>
     P \<and> (r = Inl e \<or> (\<exists>x. r = Inl (outage_exn x)))"
  by (auto simp: thenE_app split: prod.splits sum.splits)

lemma mutation_refused:
  assumes "wf_members (member_tbl w)" and "\<not> editor.may_enter u g w" and "needs_role q"
    and "handle E pdf g u q w = (r, w')"
  shows "(\<exists>n. w' = w\<lparr>tick := n\<rparr>) \<and> (r = Inl (editor.refusal_of u g w) \<or> (\<exists>x. r = Inl (outage_exn x)))"
  using assms(3,4)
  by (cases q)
    (auto simp: create_invoice_def update_invoice_def soft_delete_invoice_def send_invoice_def
      record_payment_def void_invoice_def thenE_def bindE_assoc dest!: editor.guarded_refuses [OF assms(1,2)])

lemma read_refused:
  assumes "wf_members (member_tbl w)" and "\<not> reader.may_enter u g w" and "\<not> needs_role q"
    and "handle E pdf g u q w = (r, w')"
  shows "(\<exists>n. w' = w\<lparr>tick := n\<rparr>) \<and> (r = Inl (reader.refusal_of u g w) \<or> (\<exists>x. r = Inl (outage_exn x)))"
  using assms(3,4)
  by (cases q)
    (auto simp: get_invoice_def list_invoices_def list_payments_def thenE_def bindE_assoc
      dest!: reader.guarded_refuses [OF assms(1,2)])

text \<open>
  Access.  A request of a caller who is not a member of the organisation, or who is
  a member without an owner's or admin's role and asks for a change, has no effect at all:
  no row, file, mail, event or counter changes.  The caller learns \<open>not found\<close> or, as a
  member, \<open>forbidden\<close>, or of an outage of the membership table.
\<close>

theorem invoicing_access:
  assumes "wf_members (member_tbl w)" and "\<not> permitted g u q w"
    and "handle E pdf g u q w = (r, w')"
  shows "(\<exists>n. w' = w\<lparr>tick := n\<rparr>) \<and>
    (r = Inl (if member_of (member_tbl w) (u, g) = None then Exn (Core NotFoundError)
              else Exn (Inv InvoiceForbiddenError)) \<or> (\<exists>x. r = Inl (outage_exn x)))"
proof (cases "needs_role q")
  case True
  with assms mutation_refused [of w u g q E pdf r w'] show ?thesis
    by (simp add: permitted_def editor.refusal_of_def)
next
  case False
  with assms(2) have out: "\<not> reader.may_enter u g w" by (simp add: permitted_def)
  then have "member_of (member_tbl w) (u, g) = None"
    by (cases "member_of (member_tbl w) (u, g)") (auto simp: reader.may_enter_def)
  with read_refused [OF assms(1) out False assms(3)] show ?thesis
    by (simp add: reader.refusal_of_def)
qed

theorem invoicing_access_witness:
  "fst (handle sample_env sample_pdf ''o1'' ''eve'' (Void ''i1'' ''x'') sample_world) = Inl (Exn (Core NotFoundError)) \<or>
   (\<exists>x. fst (handle sample_env sample_pdf ''o1'' ''eve'' (Void ''i1'' ''x'') sample_world) = Inl (outage_exn x))"
proof -
  have tbl: "member_tbl sample_world = [membership_item ''o1'' ''ann'' OWNER 0]"
    by (simp add: sample_world_def fresh_audit_def)
  then have none: "member_of (member_tbl sample_world) (''eve'', ''o1'') = None"
    by (simp add: member_of_def row_get_def)
  then have "\<not> permitted ''o1'' ''eve'' (Void ''i1'' ''x'') sample_world"
    by (simp add: permitted_def editor.may_enter_def)
  moreover have "wf_members (member_tbl sample_world)"
    using wf_put [OF wf_members_Nil wf_item_membership] by (simp add: tbl row_put_def)
  ultimately show ?thesis
    using invoicing_access [OF _ _ prod.collapse [symmetric], of sample_world "''o1''" "''eve''" "Void ''i1'' ''x''"
      sample_env sample_pdf] none by simp
qed

section \<open>Payments are recorded once\<close>

lemma find_payment_Some:
  "find_payment g k t = Some p \<Longrightarrow> p \<in> set (payments t) \<and> py_org_id p = g \<and> py_idempotency_key p = Some k"
  by (auto simp: find_payment_def find_Some_iff)

lemma idempotency_keys_unique:
  assumes "distinct (idempotency_keys ps)"
  shows "length (filter (\<lambda>p. py_org_id p = g \<and> py_idempotency_key p = Some k) ps) \<le> 1"
proof -
  have "filter (\<lambda>x. x = (g, k)) (idempotency_keys ps) =
      map (\<lambda>p. (g, k)) (filter (\<lambda>p. py_org_id p = g \<and> py_idempotency_key p = Some k) ps)"
    by (induction ps) (auto simp: idempotency_keys_def split: option.split)
  then have "length (filter (\<lambda>p. py_org_id p = g \<and> py_idempotency_key p = Some k) ps) =
      length (filter (\<lambda>x. x = (g, k)) (idempotency_keys ps))"
    by simp
  also have "length (filter (\<lambda>x. x = y) xs) \<le> 1" if "distinct xs" for y and xs :: "(string \<times> string) list"
    using that by (induction xs) (auto simp: filter_empty_conv)
  then have "length (filter (\<lambda>x. x = (g, k)) (idempotency_keys ps)) \<le> 1" using assms .
  finally show ?thesis .
qed

lemma two_payments_rejected:
  assumes "find_payment g k t = Some p" and "py_org_id p' = g" "py_idempotency_key p' = Some k"
    and "payments t' = payments t @ [p']"
  shows "inv_check t' \<noteq> None"
proof
  assume "inv_check t' = None"
  with inv_check_None have "length (filter (\<lambda>p. py_org_id p = g \<and> py_idempotency_key p = Some k) (payments t')) \<le> 1"
    by (intro idempotency_keys_unique) blast
  with assms(2-4) find_payment_Some [OF assms(1)] show False
    by (auto simp: filter_empty_conv)
qed

lemma find_payment_append:
  "py_org_id p = g \<Longrightarrow> py_idempotency_key p = Some k \<Longrightarrow> payments t' = payments t @ [p] \<Longrightarrow>
     find_payment g k t' \<noteq> None"
  by (auto simp: find_payment_def find_None_iff)

text \<open>
  C11: a payment request with an idempotency key is safe to repeat, whatever failed.  Once a
  payment with the key is recorded in the organisation, a request with that key commits
  nothing and can only answer with the recorded payment; a request that answered has left
  a payment with its key; and no two payments of an organisation ever share a key.
\<close>

theorem payment_replay_safe:
  assumes "books_ok (inv_db w)" and "valid_payment b" and "pr_idempotency_key b = Some k" "k \<noteq> []"
    and "inv_session (record_payment E g i u b) w = (r, w')"
  shows "(\<forall>p. find_payment g k (inv_db w) = Some p \<longrightarrow>
        inv_db w' = inv_db w \<and> (\<forall>iv p'. r = Inr (iv, p') \<longrightarrow> p' = p)) \<and>
    (\<not> isl r \<longrightarrow> find_payment g k (inv_db w') \<noteq> None) \<and>
    length (filter (\<lambda>p. py_org_id p = g \<and> py_idempotency_key p = Some k) (payments (inv_db w'))) \<le> 1"
proof -
  let ?t = "inv_db w" and ?t' = "inv_db w'"
  have "inv_db w' = inv_db (serve E (\<lambda>_ _ _. []) g u (Pay i b) w)"
    using assms(5) by (auto simp: serve_def in_session_def thenE_app split: prod.splits sum.splits)
  with serve_books_ok [of "Pay i b" w E "\<lambda>_ _ _. []" g u] assms(1,2) have "books_ok ?t'" by simp
  then have "distinct (idempotency_keys (payments ?t'))"
    using inv_check_None by (auto simp: books_ok_def)
  from idempotency_keys_unique [OF this]
  have unique: "length (filter (\<lambda>p. py_org_id p = g \<and> py_idempotency_key p = Some k) (payments ?t')) \<le> 1" .
  from inv.ends_session [OF record_payment_outcome [where t = ?t] assms(5), OF _ _ assms(2)]
  consider (replay) iv p where "r = Inr (iv, p)" "?t' = ?t" "find_payment g k ?t = Some p"
    | (failed) "?t' = ?t" "isl r"
    | (recorded) p where "py_org_id p = g" "py_idempotency_key p = Some k"
        "payments ?t' = payments ?t @ [p]" "inv_check ?t' = None"
    using assms(3) by auto
  then show ?thesis
  proof cases
    case recorded
    then have "find_payment g k ?t = None"
      using two_payments_rejected [of g k ?t] by fastforce
    with find_payment_append [OF recorded(1-3)] unique show ?thesis by simp
  qed (use unique in auto)
qed

theorem payment_replay_safe_witness:
  "length (filter (\<lambda>p. py_org_id p = ''o1'' \<and> py_idempotency_key p = Some ''k1'')
     (payments (inv_db (snd (inv_session (record_payment sample_env ''o1'' ''i1'' ''ann'' sample_payment)
        (sample_world\<lparr>inv_db := sample_tables\<rparr>)))))) \<le> 1"
  using payment_replay_safe [of "sample_world\<lparr>inv_db := sample_tables\<rparr>" sample_payment "''k1''", OF _ _ _ _ prod.collapse [symmetric]]
  by (simp add: sample_books_ok samples_valid) (simp add: sample_payment_def)

end
