(* ===== verification/A2Z_OmniModels.thy ===== *)
theory A2Z_OmniModels
  imports A2Z_Invoicing
begin

text \<open>
  The data layer of the omni-channel service: the tables of
  \<open>app/services/omnichannel/models.py\<close> that the first version uses, with their
  constraints, the session of \<open>db.py\<close>, and the access checks of \<open>access.py\<close>.
  Times are microseconds.
\<close>

section \<open>Rows\<close>

datatype ChannelType = EMAIL | WHATSAPP | MESSENGER | INSTAGRAM | SMS

fun channel_value :: "ChannelType \<Rightarrow> string" where
  "channel_value EMAIL = ''email''"
| "channel_value WHATSAPP = ''whatsapp''"
| "channel_value MESSENGER = ''messenger''"
| "channel_value INSTAGRAM = ''instagram''"
| "channel_value SMS = ''sms''"

datatype MessageStatus = MS_RECEIVED | MS_QUEUED | MS_SENT | MS_DELIVERED | MS_READ | MS_FAILED

fun message_status_value :: "MessageStatus \<Rightarrow> string" where
  "message_status_value MS_RECEIVED = ''received''"
| "message_status_value MS_QUEUED = ''queued''"
| "message_status_value MS_SENT = ''sent''"
| "message_status_value MS_DELIVERED = ''delivered''"
| "message_status_value MS_READ = ''read''"
| "message_status_value MS_FAILED = ''failed''"

record channel_connection =
  cn_id :: string
  cn_org_id :: string
  cn_channel_type :: string
  cn_display_name :: string
  cn_provider_account_id :: string
  cn_credentials_secret_key :: string
  cn_status :: string
  cn_created_at :: int
  cn_updated_at :: int

record channel_identity =
  ci_id :: string
  ci_org_id :: string
  ci_channel_type :: string
  ci_external_id :: string
  ci_display_name :: "string option"
  ci_created_at :: int

record conversation =
  cv_id :: string
  cv_org_id :: string
  cv_identity_id :: string
  cv_status :: string
  cv_assigned_user_id :: "string option"
  cv_last_message_at :: "int option"
  cv_last_message_preview :: "string option"
  cv_unread_count :: int
  cv_created_at :: int

record message =
  mg_id :: string
  mg_org_id :: string
  mg_conversation_id :: string
  mg_direction :: string
  mg_channel_type :: string
  mg_external_id :: string
  mg_body_text :: "string option"
  mg_subject :: "string option"
  mg_content_type :: string
  mg_status :: string
  mg_sent_by :: "string option"
  mg_dedup_key :: "string option"
  mg_created_at :: int

record message_attachment =
  ma_id :: string
  ma_message_id :: string
  ma_org_id :: string
  ma_s3_key :: string
  ma_content_type :: string
  ma_size_bytes :: int

record assignment =
  as_id :: string
  as_org_id :: string
  as_conversation_id :: string
  as_assigned_user_id :: string
  as_assigned_by :: string
  as_reason :: string
  as_created_at :: int

record omni_tables =
  connections :: "channel_connection list"
  identities :: "channel_identity list"
  conversations :: "conversation list"
  messages :: "message list"
  msg_attachments :: "message_attachment list"
  assignments :: "assignment list"

section \<open>Constraints\<close>

definition fits32 :: "int \<Rightarrow> bool" where
  "fits32 n \<longleftrightarrow> - (2 ^ 31) \<le> n \<and> n < 2 ^ 31"

definition identity_key :: "channel_identity \<Rightarrow> string \<times> string \<times> string" where
  "identity_key i = (ci_org_id i, ci_channel_type i, ci_external_id i)"

definition message_key :: "message \<Rightarrow> string \<times> string" where
  "message_key m = (mg_channel_type m, mg_external_id m)"

text \<open>The partial index \<open>uq_message_client_dedup\<close> covers the rows that have a key.\<close>

definition dedup_keys :: "message list \<Rightarrow> (string \<times> string \<times> string) list" where
  "dedup_keys ms = concat (map (\<lambda>m. case mg_dedup_key m of
     None \<Rightarrow> [] | Some k \<Rightarrow> [(mg_org_id m, mg_conversation_id m, k)]) ms)"

definition omni_unique :: "omni_tables \<Rightarrow> bool" where
  "omni_unique t \<longleftrightarrow>
     distinct (map cn_id (connections t)) \<and> distinct (map ci_id (identities t)) \<and>
     distinct (map cv_id (conversations t)) \<and> distinct (map mg_id (messages t)) \<and>
     distinct (map ma_id (msg_attachments t)) \<and> distinct (map as_id (assignments t)) \<and>
     distinct (map identity_key (identities t)) \<and> distinct (map message_key (messages t)) \<and>
     distinct (dedup_keys (messages t))"

definition omni_references :: "omni_tables \<Rightarrow> bool" where
  "omni_references t \<longleftrightarrow>
     list_all (\<lambda>c. cv_identity_id c \<in> set (map ci_id (identities t))) (conversations t) \<and>
     list_all (\<lambda>m. mg_conversation_id m \<in> set (map cv_id (conversations t))) (messages t) \<and>
     list_all (\<lambda>a. ma_message_id a \<in> set (map mg_id (messages t))) (msg_attachments t) \<and>
     list_all (\<lambda>a. as_conversation_id a \<in> set (map cv_id (conversations t))) (assignments t)"

definition omni_check :: "omni_tables \<Rightarrow> exn option" where
  "omni_check t =
     (if \<not> (list_all (\<lambda>c. fits32 (cv_unread_count c)) (conversations t) \<and>
            list_all (\<lambda>a. fits32 (ma_size_bytes a)) (msg_attachments t))
      then Some (Exn (Py DataError))
      else if \<not> (omni_unique t \<and> omni_references t) then Some (Exn (Py IntegrityError))
      else None)"

lemma omni_check_None: "omni_check t = None \<Longrightarrow> omni_unique t \<and> omni_references t"
  by (simp add: omni_check_def split: if_splits)

section \<open>State\<close>

text \<open>
  An SQS queue: entries that can be received, entries handed out and not yet deleted, and
  the dead-letter queue.
\<close>

record sqs_entry =
  q_id :: string
  q_body :: "(string \<times> json) list"
  q_attributes :: "(string \<times> string) list"
  q_receive_count :: nat

record sqs_queue =
  q_visible :: "sqs_entry list"
  q_in_flight :: "sqs_entry list"
  q_dead :: "sqs_entry list"

record omni_world = invoice_world +
  om_db :: omni_tables
  om_tx :: omni_tables
  inbound_q :: sqs_queue
  outbound_q :: sqs_queue
  queue_urls :: "string list"                    \<comment> \<open>\<open>_queue_url_cache\<close>: the names resolved\<close>
  graph_calls :: "(string \<times> json) list"          \<comment> \<open>the POSTs the Graph API accepted\<close>
  sms_sent :: "(string \<times> string) list"           \<comment> \<open>the messages SNS accepted\<close>

interpretation om: session om_db om_tx om_db_update om_tx_update omni_check
  by unfold_locales simp_all

abbreviation select_om :: "env \<Rightarrow> (omni_tables \<Rightarrow> 'a) \<Rightarrow> ('z omni_world_scheme, 'a) op" where
  "select_om \<equiv> pg_select om_tx"

abbreviation modify_om :: "(omni_tables \<Rightarrow> omni_tables) \<Rightarrow> ('z omni_world_scheme, unit) op" where
  "modify_om \<equiv> pg_modify om_tx_update"

abbreviation flush_om :: "env \<Rightarrow> ('z omni_world_scheme, unit) op" where
  "flush_om \<equiv> pg_flush om_tx omni_check"

abbreviation commit_om :: "env \<Rightarrow> ('z omni_world_scheme, unit) op" where
  "commit_om \<equiv> pg_commit om_tx om_db_update omni_check"

abbreviation rollback_om :: "('z omni_world_scheme, unit) op" where
  "rollback_om \<equiv> pg_rollback om_db om_tx_update"

abbreviation omni_session :: "('z omni_world_scheme, 'a) op \<Rightarrow> ('z omni_world_scheme, 'a) op" where
  "omni_session \<equiv> in_session om_db om_tx_update"

definition save_conversation :: "conversation \<Rightarrow> omni_tables \<Rightarrow> omni_tables" where
  "save_conversation c t = t\<lparr>conversations := row_upd cv_id (cv_id c) (\<lambda>_. c) (conversations t)\<rparr>"

definition save_message :: "message \<Rightarrow> omni_tables \<Rightarrow> omni_tables" where
  "save_message m t = t\<lparr>messages := row_upd mg_id (mg_id m) (\<lambda>_. m) (messages t)\<rparr>"

section \<open>Access\<close>

text \<open>The product's Agent is Core's \<open>MEMBER\<close>, its Viewer \<open>GUEST\<close>.\<close>

definition NON_VIEWER_ROLES :: "Role list" where
  "NON_VIEWER_ROLES = [OWNER, ADMIN, MEMBER]"

definition ADMIN_ROLES :: "Role list" where
  "ADMIN_ROLES = [OWNER, ADMIN]"

definition require_membership_omni :: "env \<Rightarrow> string \<Rightarrow> string \<Rightarrow> ('z member_world_scheme, membership) op" where
  "require_membership_omni E user_id org_id = bindE (get_membership E user_id org_id) (\<lambda>m.
     case m of None \<Rightarrow> raise (Exn (Core NotFoundError)) | Some m \<Rightarrow> ret m)"

definition require_role :: "Role list \<Rightarrow> env \<Rightarrow> string \<Rightarrow> string \<Rightarrow> ('z member_world_scheme, membership) op" where
  "require_role roles E user_id org_id = bindE (require_membership_omni E user_id org_id) (\<lambda>m.
     if mb_role m \<notin> set roles then raise (Exn (Omni ForbiddenError)) else ret m)"

definition load_conversation :: "env \<Rightarrow> string \<Rightarrow> string \<Rightarrow> ('z omni_world_scheme, conversation) op" where
  "load_conversation E org_id conversation_id =
     bindE (select_om E (\<lambda>t. row_get cv_id conversation_id (conversations t))) (\<lambda>c.
     case c of
       None \<Rightarrow> raise (Exn (Omni ConversationNotFoundError))
     | Some c \<Rightarrow> if cv_org_id c \<noteq> org_id then raise (Exn (Omni ConversationNotFoundError)) else ret c)"

lemma require_role_gate:
  "require_role roles = role_gate (\<lambda>r. r \<in> set roles) (Exn (Omni ForbiddenError))"
  unfolding require_role_def require_membership_omni_def role_gate_def bindE_assoc
  by (intro ext arg_cong2 [where f = bindE, THEN fun_cong] refl)
    (auto simp: bindE_ret bindE_app fun_eq_iff split: option.split)

lemma require_membership_omni_gate:
  "require_membership_omni = role_gate (\<lambda>_. True) (Exn (Core NotFoundError))"
  by (simp add: require_membership_omni_def role_gate_def fun_eq_iff cong: option.case_cong)

interpretation om_role: access_gate "require_role roles" "\<lambda>r. r \<in> set roles" "Exn (Omni ForbiddenError)"
  for roles unfolding require_role_gate by (rule role_gate_access)

interpretation om_reader: access_gate require_membership_omni "\<lambda>_. True" "Exn (Core NotFoundError)"
  unfolding require_membership_omni_gate by (rule role_gate_access)

lemma om_gates_leave [frames]:
  assumes "\<And>w g. f (tick_update g w) = f w"
  shows "leaves f (require_membership_omni E u g)" "leaves f (require_role roles E u g)"
  unfolding require_role_def require_membership_omni_def by (intro frames; simp add: assms)+

lemma load_conversation_leaves [frames]:
  "(\<And>w g. f (tick_update g w) = f w) \<Longrightarrow> leaves f (load_conversation E g i)"
  unfolding load_conversation_def by (intro frames)

end
