(* ===== verification/A2Z_Channels.thy ===== *)
theory A2Z_Channels
  imports A2Z_OmniModels
begin

text \<open>
  The channel adapters of \<open>app/services/omnichannel/adapters/\<close>: what each channel makes of
  a webhook payload, how it signs, and how it sends.  Payloads are decoded JSON of any
  shape; attribute access, subscripts, iteration and pydantic's validation are those of
  Python on such values, so a malformed payload is an error and not undefined.
\<close>

section \<open>Python on decoded JSON\<close>

text \<open>\<open>v.get(k)\<close>, \<open>v.get(k, default)\<close>, \<open>v[k]\<close> and \<open>for x in v\<close>.\<close>

fun py_get :: "json \<Rightarrow> string \<Rightarrow> exn + json" where
  "py_get (JObj d) k = Inr (field d k)"
| "py_get _ k = Inl (Exn (Py AttributeErrorPy))"

fun py_get_or :: "json \<Rightarrow> string \<Rightarrow> json \<Rightarrow> exn + json" where
  "py_get_or (JObj d) k v = Inr (case map_of d k of None \<Rightarrow> v | Some x \<Rightarrow> x)"
| "py_get_or _ k v = Inl (Exn (Py AttributeErrorPy))"

fun py_item :: "json \<Rightarrow> string \<Rightarrow> exn + json" where
  "py_item (JObj d) k = (case map_of d k of None \<Rightarrow> Inl (Exn (Py KeyErrorPy)) | Some x \<Rightarrow> Inr x)"
| "py_item _ k = Inl (Exn (Py TypeErrorPy))"

fun py_index :: "json \<Rightarrow> nat \<Rightarrow> exn + json" where
  "py_index (JArr xs) n = (if n < length xs then Inr (xs ! n) else Inl (Exn (Py IndexErrorPy)))"
| "py_index (JStr s) n = (if n < length s then Inr (JStr [s ! n]) else Inl (Exn (Py IndexErrorPy)))"
| "py_index (JObj d) n = Inl (Exn (Py KeyErrorPy))"
| "py_index _ n = Inl (Exn (Py TypeErrorPy))"

fun py_iter :: "json \<Rightarrow> exn + json list" where
  "py_iter (JArr xs) = Inr xs"
| "py_iter (JObj d) = Inr (map (\<lambda>(k, _). JStr k) d)"
| "py_iter (JStr s) = Inr (map (\<lambda>c. JStr [c]) s)"
| "py_iter _ = Inl (Exn (Py TypeErrorPy))"

fun py_str :: "env \<Rightarrow> json \<Rightarrow> string" where
  "py_str E JNull = ''None''"
| "py_str E (JBool b) = (if b then ''True'' else ''False'')"
| "py_str E (JNum n) = show_int n"
| "py_str E (JStr s) = s"
| "py_str E v = repr_of E v"

fun hashable :: "json \<Rightarrow> exn + json" where
  "hashable (JArr _) = Inl (Exn (Py TypeErrorPy))"
| "hashable (JObj _) = Inl (Exn (Py TypeErrorPy))"
| "hashable v = Inr v"

fun as_opt_text :: "json \<Rightarrow> exn + string option" where
  "as_opt_text JNull = Inr None"
| "as_opt_text (JStr s) = Inr (Some s)"
| "as_opt_text _ = Inl (Exn (Py ValidationErrorPy))"

text \<open>The body of a loop \<open>for x in v\<close> that collects results.\<close>

definition gather :: "json \<Rightarrow> (json \<Rightarrow> exn + 'a list) \<Rightarrow> exn + 'a list" where
  "gather v f = bindS (py_iter v) (\<lambda>xs. bindS (mapS f xs) (\<lambda>yss. Inr (concat yss)))"

text \<open>\<open>for x in v.get(k, [])\<close>\<close>

definition gather_key :: "json \<Rightarrow> string \<Rightarrow> (json \<Rightarrow> exn + 'a list) \<Rightarrow> exn + 'a list" where
  "gather_key v k f = bindS (py_get_or v k (JArr [])) (\<lambda>xs. gather xs f)"

section \<open>Types\<close>

record supported_features =
  sf_templates :: bool
  sf_rich_media :: bool
  sf_typing_indicators :: bool
  sf_read_receipts :: bool
  sf_requires_credentials :: bool

record inbound_attachment =
  ia_filename :: string
  ia_content_type :: string
  ia_content :: string

record inbound_message =
  in_external_id :: string
  in_external_message_id :: string
  in_display_name :: "string option"
  in_body_text :: "string option"
  in_content_type :: string
  in_attachments :: "inbound_attachment list"

record delivery_update =
  du_external_message_id :: string
  du_status :: string

record outbound_content =
  oc_subject :: "string option"
  oc_body_text :: "string option"

record send_result =
  sr_external_message_id :: string
  sr_status :: string

definition adapter_error :: exn where
  "adapter_error = Exn (Omni ChannelAdapterError)"

section \<open>What the Meta channels share\<close>

definition get_header :: "(string \<times> string) list \<Rightarrow> string \<Rightarrow> string option" where
  "get_header headers name =
     map_option snd (find (\<lambda>(k, _). map lower k = map lower name) headers)"

definition compute_signature :: "env \<Rightarrow> string \<Rightarrow> string \<Rightarrow> string" where
  "compute_signature E raw_body secret = ''sha256='' @ hmac_hex E secret raw_body"

text \<open>\<open>hmac.compare_digest\<close> of two strings accepts ASCII only.\<close>

definition is_ascii :: "string \<Rightarrow> bool" where
  "is_ascii s \<longleftrightarrow> list_all (\<lambda>c. of_char c < (128 :: nat)) s"

definition meta_verify_signature ::
  "env \<Rightarrow> string \<Rightarrow> (string \<times> string) list \<Rightarrow> json \<Rightarrow> exn + bool" where
  "meta_verify_signature E raw_body headers secret =
     (case get_header headers ''X-Hub-Signature-256'' of
        None \<Rightarrow> Inr False
      | Some received \<Rightarrow>
          if received = [] then Inr False
          else (case secret of
                  JStr s \<Rightarrow> if is_ascii received then Inr (received = compute_signature E raw_body s)
                           else Inl (Exn (Py TypeErrorPy))
                | _ \<Rightarrow> Inl (Exn (Py AttributeErrorPy))))"

definition meta_verify_subscription ::
  "(string \<times> string) list \<Rightarrow> (string \<times> json) list \<Rightarrow> exn + string" where
  "meta_verify_subscription params credentials =
     (let expected_token = field credentials ''verify_token'' in
      case map_of params ''hub.challenge'' of
        None \<Rightarrow> Inl adapter_error
      | Some challenge \<Rightarrow>
          if map_of params ''hub.mode'' \<noteq> Some ''subscribe'' \<or> \<not> truthy expected_token \<or>
             map_option JStr (map_of params ''hub.verify_token'') \<noteq> Some expected_token \<or> challenge = []
          then Inl adapter_error
          else Inr challenge)"

definition GRAPH_API_BASE :: string where
  "GRAPH_API_BASE = ''https://graph.facebook.com/v20.0''"

text \<open>A POST and \<open>extract_send_id\<close>; every failure but a non-JSON reply is an adapter error.\<close>

datatype path_step = Key string | Index nat

fun walk :: "json \<Rightarrow> path_step list \<Rightarrow> exn + json" where
  "walk v [] = Inr v"
| "walk v (Key k # p) = bindS (py_item v k) (\<lambda>x. walk x p)"
| "walk v (Index n # p) = bindS (py_index v n) (\<lambda>x. walk x p)"

definition extract_send_id :: "json \<Rightarrow> path_step list \<Rightarrow> exn + string" where
  "extract_send_id data path = (case walk data path of Inr (JStr s) \<Rightarrow> Inr s | _ \<Rightarrow> Inl adapter_error)"

definition post_graph_api :: "env \<Rightarrow> string \<Rightarrow> json \<Rightarrow> ('z omni_world_scheme, json) op" where
  "post_graph_api E url payload = bindE next_tick (\<lambda>n.
     case graph_api E url payload n of (accepted, reply) \<Rightarrow>
     thenE (whenE accepted (modifyE (\<lambda>w. w\<lparr>graph_calls := graph_calls w @ [(url, payload)]\<rparr>)))
     (case reply of
        Http_error \<Rightarrow> raise (Exn (Py HttpErrorPy))
      | No_json \<Rightarrow> raise (Exn (Py ValueErrorPy))
      | Reply data \<Rightarrow> ret data))"

definition graph_send :: "env \<Rightarrow> string \<Rightarrow> json \<Rightarrow> path_step list \<Rightarrow> ('z omni_world_scheme, send_result) op" where
  "graph_send E url payload path =
     bindE (catchE (post_graph_api E url payload)
       (\<lambda>e. if e = Exn (Py HttpErrorPy) then raise adapter_error else raise e)) (\<lambda>data.
     bindE (liftS (extract_send_id data path)) (\<lambda>message_id.
     ret \<lparr>sr_external_message_id = message_id, sr_status = ''sent''\<rparr>))"

section \<open>WhatsApp\<close>

definition whatsapp_message :: "env \<Rightarrow> (json \<times> json) list \<Rightarrow> json \<Rightarrow> exn + inbound_message" where
  "whatsapp_message E contacts msg =
     bindS (py_item msg ''from'') (\<lambda>from_number.
     bindS (py_item msg ''id'') (\<lambda>external_message_id.
     bindS (py_get_or msg ''type'' (JStr ''unknown'')) (\<lambda>msg_type.
     bindS (if msg_type = JStr ''text''
            then bindS (py_get_or msg ''text'' (JObj [])) (\<lambda>t. py_get t ''body'')
            else Inr (JStr (''[unsupported message type: '' @ py_str E msg_type @ '']''))) (\<lambda>body_text.
     bindS (hashable from_number) (\<lambda>k.
     bindS (as_str from_number) (\<lambda>external_id.
     bindS (as_str external_message_id) (\<lambda>mid.
     bindS (as_opt_text (case map_of contacts k of None \<Rightarrow> JNull | Some v \<Rightarrow> v)) (\<lambda>display_name.
     bindS (as_opt_text body_text) (\<lambda>body.
     Inr \<lparr>in_external_id = external_id, in_external_message_id = mid, in_display_name = display_name,
          in_body_text = body, in_content_type = ''text/plain'', in_attachments = []\<rparr>)))))))))"

text \<open>The dict comprehension over the contacts; a later contact replaces an earlier one.\<close>

definition whatsapp_contacts :: "json \<Rightarrow> exn + (json \<times> json) list" where
  "whatsapp_contacts value = bindS (gather_key value ''contacts'' (\<lambda>contact.
     bindS (py_item contact ''wa_id'') (\<lambda>wa_id.
     bindS (bindS (py_get_or contact ''profile'' (JObj [])) (\<lambda>p. py_get p ''name'')) (\<lambda>name.
     bindS (hashable wa_id) (\<lambda>k. Inr [(k, name)]))))) (\<lambda>cs. Inr (rev cs))"

definition whatsapp_normalize :: "env \<Rightarrow> json \<Rightarrow> exn + inbound_message list" where
  "whatsapp_normalize E raw_payload =
     gather_key raw_payload ''entry'' (\<lambda>entry. gather_key entry ''changes'' (\<lambda>change.
       bindS (py_get_or change ''value'' (JObj [])) (\<lambda>value.
       bindS (whatsapp_contacts value) (\<lambda>contacts.
       gather_key value ''messages'' (\<lambda>msg. bindS (whatsapp_message E contacts msg) (\<lambda>m. Inr [m]))))))"

definition whatsapp_delivery :: "json \<Rightarrow> exn + delivery_update list" where
  "whatsapp_delivery raw_payload =
     gather_key raw_payload ''entry'' (\<lambda>entry. gather_key entry ''changes'' (\<lambda>change.
       bindS (py_get_or change ''value'' (JObj [])) (\<lambda>value.
       gather_key value ''statuses'' (\<lambda>status.
         bindS (py_item status ''id'') (\<lambda>i. bindS (py_item status ''status'') (\<lambda>s.
         bindS (as_str i) (\<lambda>i. bindS (as_str s) (\<lambda>s.
         Inr [\<lparr>du_external_message_id = i, du_status = s\<rparr>]))))))))"

definition whatsapp_send ::
  "env \<Rightarrow> string \<Rightarrow> outbound_content \<Rightarrow> (string \<times> json) list \<Rightarrow> ('z omni_world_scheme, send_result) op" where
  "whatsapp_send E to content credentials =
     (if \<not> truthy (field credentials ''org_id'') \<or> \<not> truthy (field credentials ''access_token'') \<or>
         \<not> truthy (field credentials ''phone_number_id'')
      then raise adapter_error
      else (case oc_body_text content of
              None \<Rightarrow> raise adapter_error
            | Some body \<Rightarrow>
                if body = [] then raise adapter_error
                else graph_send E
                  (GRAPH_API_BASE @ ''/'' @ py_str E (field credentials ''phone_number_id'') @ ''/messages'')
                  (JObj [(''messaging_product'', JStr ''whatsapp''), (''to'', JStr to), (''type'', JStr ''text''),
                         (''text'', JObj [(''body'', JStr body)])])
                  [Key ''messages'', Index 0, Key ''id'']))"

section \<open>Messenger and Instagram\<close>

definition messenger_event :: "json \<Rightarrow> exn + inbound_message list" where
  "messenger_event event =
     bindS (py_get event ''message'') (\<lambda>message.
     if \<not> truthy message then Inr []
     else bindS (py_get message ''is_echo'') (\<lambda>echo.
     if truthy echo then Inr []
     else
     bindS (py_get_or event ''sender'' (JObj [])) (\<lambda>sender.
     bindS (py_get sender ''id'') (\<lambda>external_id.
     bindS (py_get message ''mid'') (\<lambda>external_message_id.
     if \<not> truthy external_id \<or> \<not> truthy external_message_id then Inr []
     else
     bindS (py_get message ''text'') (\<lambda>text.
     bindS (as_str external_id) (\<lambda>eid.
     bindS (as_str external_message_id) (\<lambda>mid.
     bindS (as_opt_text (if truthy text then text else JStr ''[unsupported message type: attachment]'')) (\<lambda>body.
     Inr [\<lparr>in_external_id = eid, in_external_message_id = mid, in_display_name = None,
           in_body_text = body, in_content_type = ''text/plain'', in_attachments = []\<rparr>])))))))))"

definition messenger_normalize :: "json \<Rightarrow> exn + inbound_message list" where
  "messenger_normalize raw_payload =
     gather_key raw_payload ''entry'' (\<lambda>entry. gather_key entry ''messaging'' messenger_event)"

definition messenger_delivery :: "json \<Rightarrow> exn + delivery_update list" where
  "messenger_delivery raw_payload =
     gather_key raw_payload ''entry'' (\<lambda>entry. gather_key entry ''messaging'' (\<lambda>event.
       bindS (py_get event ''delivery'') (\<lambda>delivery.
       if \<not> truthy delivery then Inr []
       else gather_key delivery ''mids'' (\<lambda>mid. bindS (as_str mid) (\<lambda>mid.
         Inr [\<lparr>du_external_message_id = mid, du_status = ''delivered''\<rparr>])))))"

definition messenger_send ::
  "string \<Rightarrow> env \<Rightarrow> string \<Rightarrow> outbound_content \<Rightarrow> (string \<times> json) list
    \<Rightarrow> ('z omni_world_scheme, send_result) op" where
  "messenger_send account_id_key E to content credentials =
     (if \<not> truthy (field credentials ''org_id'') \<or> \<not> truthy (field credentials ''page_access_token'') \<or>
         \<not> truthy (field credentials account_id_key)
      then raise adapter_error
      else (case oc_body_text content of
              None \<Rightarrow> raise adapter_error
            | Some body \<Rightarrow>
                if body = [] then raise adapter_error
                else graph_send E
                  (GRAPH_API_BASE @ ''/'' @ py_str E (field credentials account_id_key) @ ''/messages'')
                  (JObj [(''messaging_type'', JStr ''RESPONSE''), (''recipient'', JObj [(''id'', JStr to)]),
                         (''message'', JObj [(''text'', JStr body)])])
                  [Key ''message_id'']))"

section \<open>Email\<close>

definition email_delivery :: "json \<Rightarrow> exn + delivery_update list" where
  "email_delivery raw_payload =
     bindS (py_get raw_payload ''message_id'') (\<lambda>message_id.
     bindS (py_get raw_payload ''status'') (\<lambda>raw_status.
     case (message_id, raw_status) of
       (JStr mid, JStr st) \<Rightarrow>
         Inr [\<lparr>du_external_message_id = mid,
               du_status = (if st = ''delivered'' then ''delivered'' else ''failed'')\<rparr>]
     | _ \<Rightarrow> Inr []))"

definition resolve_raw_mime :: "env \<Rightarrow> json \<Rightarrow> ('z omni_world_scheme, string) op" where
  "resolve_raw_mime E raw_payload = (case raw_payload of
     JObj d \<Rightarrow>
       (case map_of d ''raw_mime'' of
          Some (JStr s) \<Rightarrow>
            (case b64decode E s of None \<Rightarrow> raise (Exn (Py ValueErrorPy)) | Some bytes \<Rightarrow> ret bytes)
        | Some _ \<Rightarrow> raise (Exn (Py AttributeErrorPy))
        | None \<Rightarrow>
            let s3_key = field d ''s3_key''; org_id = field d ''org_id'' in
            if \<not> truthy s3_key \<or> \<not> truthy org_id then raise adapter_error
            else (case s3_key of
                    JStr key \<Rightarrow> download_file E (py_str E org_id) key
                  | _ \<Rightarrow> raise (Exn (Py AttributeErrorPy))))
   | _ \<Rightarrow> raise (Exn (Py AttributeErrorPy)))"

fun leaves_of :: "mime \<Rightarrow> mime_part list" where
  "leaves_of (Leaf p) = [p]"
| "leaves_of (Multipart ms) = concat (map leaves_of ms)"

text \<open>\<open>"attachment" in disposition\<close>\<close>

definition is_attachment :: "mime_part \<Rightarrow> bool" where
  "is_attachment p \<longleftrightarrow> (\<exists>n \<in> set [0..<Suc (length (mp_disposition p))].
     startswith (drop n (mp_disposition p)) ''attachment'')"

definition part_attachments :: "mime_part \<Rightarrow> inbound_attachment list" where
  "part_attachments p = (case mp_payload p of
     None \<Rightarrow> []
   | Some bytes \<Rightarrow>
       [\<lparr>ia_filename = or_default (case mp_filename p of None \<Rightarrow> [] | Some f \<Rightarrow> f) ''attachment'',
         ia_content_type = mp_type p, ia_content = bytes\<rparr>])"

definition extract_body :: "mime \<Rightarrow> string option \<times> string \<times> inbound_attachment list" where
  "extract_body m = (case m of
     Leaf p \<Rightarrow> (case mp_payload p of
         None \<Rightarrow> (None, ''text/plain'', [])
       | Some _ \<Rightarrow> (Some (mp_text p), mp_type p, []))
   | Multipart _ \<Rightarrow>
       let parts = leaves_of m;
           bodies = filter (\<lambda>p. \<not> is_attachment p \<and> mp_type p \<in> {''text/plain'', ''text/html''} \<and>
                      mp_payload p \<noteq> None) parts;
           atts = concat (map part_attachments (filter is_attachment parts))
       in (case bodies of
             [] \<Rightarrow> (None, ''text/plain'', atts)
           | p # _ \<Rightarrow> (Some (mp_text p), mp_type p, atts)))"

definition email_normalize :: "env \<Rightarrow> json \<Rightarrow> ('z omni_world_scheme, inbound_message list) op" where
  "email_normalize E raw_payload =
     bindE (liftS (py_item raw_payload ''external_message_id'')) (\<lambda>external_message_id.
     bindE (resolve_raw_mime E raw_payload) (\<lambda>raw_mime.
     case mime_parse E raw_mime of (from_addr, m) \<Rightarrow>
     case extract_body m of (body_text, content_type, atts) \<Rightarrow>
     bindE (liftS (as_str external_message_id)) (\<lambda>mid.
     ret [\<lparr>in_external_id = from_addr, in_external_message_id = mid, in_display_name = Some from_addr,
           in_body_text = body_text, in_content_type = content_type, in_attachments = atts\<rparr>])))"

definition email_send ::
  "env \<Rightarrow> string \<Rightarrow> outbound_content \<Rightarrow> (string \<times> json) list \<Rightarrow> ('z omni_world_scheme, send_result) op" where
  "email_send E to content credentials =
     (if \<not> truthy (field credentials ''org_id'') then raise adapter_error
      else
      bindE (catchE
        (send_email E (py_str E (field credentials ''org_id'')) OMNICHANNEL to
          (case oc_subject content of None \<Rightarrow> [] | Some s \<Rightarrow> s)
          (case oc_body_text content of None \<Rightarrow> [] | Some b \<Rightarrow> b) (oc_body_text content) [] None [])
        (\<lambda>e. if isinstance e (Core CoreError) then raise adapter_error else raise e)) (\<lambda>result.
      ret \<lparr>sr_external_message_id = er_message_id result, sr_status = ''sent''\<rparr>))"

section \<open>SMS, an adapter that is not registered\<close>

definition sms_normalize :: "env \<Rightarrow> json \<Rightarrow> exn + inbound_message list" where
  "sms_normalize E raw_payload =
     bindS (py_get_or raw_payload ''originationNumber'' (JStr [])) (\<lambda>from_number.
     bindS (py_get_or raw_payload ''inboundMessageId'' (JStr [])) (\<lambda>mid.
     bindS (py_get raw_payload ''messageBody'') (\<lambda>body.
     bindS (as_opt_text body) (\<lambda>body_text.
     Inr [\<lparr>in_external_id = py_str E from_number, in_external_message_id = py_str E mid,
           in_display_name = None, in_body_text = body_text, in_content_type = ''text/plain'',
           in_attachments = []\<rparr>]))))"

definition sms_delivery :: "env \<Rightarrow> json \<Rightarrow> exn + delivery_update list" where
  "sms_delivery E raw_payload =
     bindS (py_get raw_payload ''status'') (\<lambda>status.
     bindS (py_get_or raw_payload ''notification'' (JObj [])) (\<lambda>notification.
     bindS (py_get_or notification ''messageId'' (JStr [])) (\<lambda>mid.
     if status = JStr ''SUCCESS'' then Inr [\<lparr>du_external_message_id = py_str E mid, du_status = ''delivered''\<rparr>]
     else if status = JStr ''FAILURE'' then
       bindS (py_get_or raw_payload ''delivery'' (JObj [])) (\<lambda>delivery.
       bindS (py_get delivery ''providerResponse'') (\<lambda>error. bindS (as_opt_text error) (\<lambda>_.
       Inr [\<lparr>du_external_message_id = py_str E mid, du_status = ''failed''\<rparr>])))
     else Inr [])))"

definition sms_send ::
  "env \<Rightarrow> string \<Rightarrow> outbound_content \<Rightarrow> (string \<times> json) list \<Rightarrow> ('z omni_world_scheme, send_result) op" where
  "sms_send E to content credentials =
     catchE
       (bindE (run_aws E (thenE
           (modifyE (\<lambda>w. w\<lparr>sms_sent := sms_sent w @
              [(to, case oc_body_text content of None \<Rightarrow> [] | Some b \<Rightarrow> b)]\<rparr>))
           (new_service_id E))) (\<lambda>mid.
        ret \<lparr>sr_external_message_id = mid, sr_status = ''sent''\<rparr>))
       (\<lambda>e. case e of AwsError _ \<Rightarrow> ret \<lparr>sr_external_message_id = [], sr_status = ''failed''\<rparr> | _ \<Rightarrow> raise e)"

section \<open>The registry\<close>

record 'z adapter =
  ad_features :: supported_features
  ad_signing_key :: string
  ad_verify :: "env \<Rightarrow> string \<Rightarrow> (string \<times> string) list \<Rightarrow> json \<Rightarrow> exn + bool"
  ad_subscription :: "(string \<times> string) list \<Rightarrow> (string \<times> json) list \<Rightarrow> exn + string"
  ad_normalize :: "env \<Rightarrow> json \<Rightarrow> ('z omni_world_scheme, inbound_message list) op"
  ad_send :: "env \<Rightarrow> string \<Rightarrow> outbound_content \<Rightarrow> (string \<times> json) list \<Rightarrow> ('z omni_world_scheme, send_result) op"
  ad_delivery :: "json \<Rightarrow> exn + delivery_update list"

definition features :: "bool \<Rightarrow> bool \<Rightarrow> bool \<Rightarrow> supported_features" where
  "features rich receipts credentials = \<lparr>sf_templates = False, sf_rich_media = rich,
     sf_typing_indicators = False, sf_read_receipts = receipts, sf_requires_credentials = credentials\<rparr>"

definition whatsapp_adapter :: "'z adapter" where
  "whatsapp_adapter = \<lparr>ad_features = features False True True, ad_signing_key = ''app_secret'',
     ad_verify = meta_verify_signature, ad_subscription = meta_verify_subscription,
     ad_normalize = (\<lambda>E p. liftS (whatsapp_normalize E p)), ad_send = whatsapp_send,
     ad_delivery = whatsapp_delivery\<rparr>"

definition messenger_platform :: "string \<Rightarrow> 'z adapter" where
  "messenger_platform account_id_key = \<lparr>ad_features = features False False True,
     ad_signing_key = ''app_secret'',
     ad_verify = meta_verify_signature, ad_subscription = meta_verify_subscription,
     ad_normalize = (\<lambda>E p. liftS (messenger_normalize p)), ad_send = messenger_send account_id_key,
     ad_delivery = messenger_delivery\<rparr>"

definition messenger_adapter :: "'z adapter" where
  "messenger_adapter = messenger_platform ''page_id''"

definition instagram_adapter :: "'z adapter" where
  "instagram_adapter = messenger_platform ''ig_id''"

definition email_adapter :: "'z adapter" where
  "email_adapter = \<lparr>ad_features = features True False False, ad_signing_key = [],
     ad_verify = (\<lambda>_ _ _ _. Inr True), ad_subscription = (\<lambda>_ _. Inl adapter_error),
     ad_normalize = email_normalize, ad_send = email_send, ad_delivery = email_delivery\<rparr>"

definition sms_adapter :: "env \<Rightarrow> 'z adapter" where
  "sms_adapter E = \<lparr>ad_features = features False False True, ad_signing_key = [],
     ad_verify = (\<lambda>_ _ _ _. Inr True), ad_subscription = (\<lambda>_ _. Inl adapter_error),
     ad_normalize = (\<lambda>E p. liftS (sms_normalize E p)), ad_send = sms_send, ad_delivery = sms_delivery E\<rparr>"

definition get_adapter :: "string \<Rightarrow> exn + 'z adapter" where
  "get_adapter channel_type =
     (if channel_type = ''email'' then Inr email_adapter
      else if channel_type = ''whatsapp'' then Inr whatsapp_adapter
      else if channel_type = ''messenger'' then Inr messenger_adapter
      else if channel_type = ''instagram'' then Inr instagram_adapter
      else Inl adapter_error)"

end
