(* ===== verification/A2Z_Queues.thy ===== *)
theory A2Z_Queues
  imports A2Z_Channels
begin

text \<open>
  The queues between the webhooks, the API and the worker
  (\<open>app/services/omnichannel/queues.py\<close>).  SQS is a service: what the code relies on is
  that a sent message stays in its queue until it is deleted or redriven, that a receive
  hides what it returns and counts how often it returned it, and that a message received
  \<open>SQS_MAX_RECEIVE_COUNT\<close> times without being deleted goes to the dead-letter queue.
\<close>

section \<open>SQS\<close>

definition SQS_MAX_RECEIVE_COUNT :: nat where
  "SQS_MAX_RECEIVE_COUNT = 5"

definition sqs_add :: "sqs_entry \<Rightarrow> sqs_queue \<Rightarrow> sqs_queue" where
  "sqs_add x q = q\<lparr>q_visible := q_visible q @ [x]\<rparr>"

definition received :: "sqs_entry \<Rightarrow> sqs_entry" where
  "received x = x\<lparr>q_receive_count := Suc (q_receive_count x)\<rparr>"

definition exhausted :: "sqs_entry \<Rightarrow> bool" where
  "exhausted x \<longleftrightarrow> SQS_MAX_RECEIVE_COUNT \<le> q_receive_count x"

definition sqs_receive :: "nat \<Rightarrow> sqs_queue \<Rightarrow> sqs_entry list \<times> sqs_queue" where
  "sqs_receive n q =
     (let alive = filter (\<lambda>x. \<not> exhausted x) (q_visible q);
          got = map received (take n alive)
      in (got, q\<lparr>q_visible := drop n alive, q_in_flight := q_in_flight q @ got,
                q_dead := q_dead q @ filter exhausted (q_visible q)\<rparr>))"

definition sqs_delete :: "string \<Rightarrow> sqs_queue \<Rightarrow> sqs_queue" where
  "sqs_delete receipt q = q\<lparr>q_in_flight := filter (\<lambda>x. q_id x \<noteq> receipt) (q_in_flight q)\<rparr>"

text \<open>The visibility timeout of everything that was handed out.\<close>

definition sqs_timeout :: "sqs_queue \<Rightarrow> sqs_queue" where
  "sqs_timeout q = q\<lparr>q_visible := q_visible q @ q_in_flight q, q_in_flight := []\<rparr>"

definition sqs_entries :: "sqs_queue \<Rightarrow> sqs_entry list" where
  "sqs_entries q = q_visible q @ q_in_flight q @ q_dead q"

section \<open>The code\<close>

datatype queue_name = Inbound | Outbound

fun physical_name :: "queue_name \<Rightarrow> string" where
  "physical_name Inbound = ''a2z-omnichannel-inbound''"
| "physical_name Outbound = ''a2z-omnichannel-outbound''"

fun queue_of :: "queue_name \<Rightarrow> 'z omni_world_scheme \<Rightarrow> sqs_queue" where
  "queue_of Inbound w = inbound_q w"
| "queue_of Outbound w = outbound_q w"

fun queue_update :: "queue_name \<Rightarrow> (sqs_queue \<Rightarrow> sqs_queue) \<Rightarrow> 'z omni_world_scheme \<Rightarrow> 'z omni_world_scheme" where
  "queue_update Inbound f w = w\<lparr>inbound_q := f (inbound_q w)\<rparr>"
| "queue_update Outbound f w = w\<lparr>outbound_q := f (outbound_q w)\<rparr>"

definition queue_url :: "env \<Rightarrow> queue_name \<Rightarrow> ('z omni_world_scheme, unit) op" where
  "queue_url E q = bindE (getsE queue_urls) (\<lambda>known.
     if physical_name q \<in> set known then ret ()
     else thenE (run_aws E (ret ())) (modifyE (\<lambda>w. w\<lparr>queue_urls := physical_name q # queue_urls w\<rparr>)))"

definition queue_send ::
  "env \<Rightarrow> queue_name \<Rightarrow> (string \<times> json) list \<Rightarrow> (string \<times> string) list \<Rightarrow> ('z omni_world_scheme, string) op" where
  "queue_send E q body attributes = thenE (queue_url E q)
     (run_aws E (bindE (new_service_id E) (\<lambda>i.
        thenE (modifyE (queue_update q (sqs_add
          \<lparr>q_id = i, q_body = body, q_attributes = attributes, q_receive_count = 0\<rparr>)))
        (ret i))))"

definition queue_receive :: "env \<Rightarrow> queue_name \<Rightarrow> nat \<Rightarrow> ('z omni_world_scheme, sqs_entry list) op" where
  "queue_receive E q max_messages = thenE (queue_url E q)
     (run_aws E (\<lambda>w. let (got, q') = sqs_receive max_messages (queue_of q w) in
        (Inr got, queue_update q (\<lambda>_. q') w)))"

definition queue_delete :: "env \<Rightarrow> queue_name \<Rightarrow> string \<Rightarrow> ('z omni_world_scheme, unit) op" where
  "queue_delete E q receipt_handle = thenE (queue_url E q)
     (run_aws E (modifyE (queue_update q (sqs_delete receipt_handle))))"

definition enqueue_inbound ::
  "env \<Rightarrow> string \<Rightarrow> string \<Rightarrow> string \<Rightarrow> json \<Rightarrow> ('z omni_world_scheme, string) op" where
  "enqueue_inbound E org_id channel_type connection_id raw_payload =
     queue_send E Inbound [(''raw_payload'', raw_payload)]
       [(''channel_type'', channel_type), (''org_id'', org_id), (''connection_id'', connection_id)]"

definition enqueue_outbound :: "env \<Rightarrow> string \<Rightarrow> string \<Rightarrow> ('z omni_world_scheme, string) op" where
  "enqueue_outbound E org_id message_id =
     queue_send E Outbound [(''message_id'', JStr message_id)] [(''org_id'', org_id)]"

abbreviation receive_inbound :: "env \<Rightarrow> nat \<Rightarrow> ('z omni_world_scheme, sqs_entry list) op" where
  "receive_inbound E \<equiv> queue_receive E Inbound"

abbreviation receive_outbound :: "env \<Rightarrow> nat \<Rightarrow> ('z omni_world_scheme, sqs_entry list) op" where
  "receive_outbound E \<equiv> queue_receive E Outbound"

abbreviation delete_inbound :: "env \<Rightarrow> string \<Rightarrow> ('z omni_world_scheme, unit) op" where
  "delete_inbound E \<equiv> queue_delete E Inbound"

abbreviation delete_outbound :: "env \<Rightarrow> string \<Rightarrow> ('z omni_world_scheme, unit) op" where
  "delete_outbound E \<equiv> queue_delete E Outbound"

section \<open>Lemmas\<close>

lemma queue_ops_leave [frames]:
  assumes "\<And>w g. f (tick_update g w) = f w" "\<And>w g. f (queue_urls_update g w) = f w"
    and "\<And>w g. f (queue_update q g w) = f w"
  shows "leaves f (queue_send E q body attributes)" "leaves f (queue_receive E q n)"
    "leaves f (queue_delete E q receipt)"
proof -
  have url: "leaves f (queue_url E q)"
    unfolding queue_url_def by (intro frames) (simp_all add: assms)
  show "leaves f (queue_send E q body attributes)" "leaves f (queue_delete E q receipt)"
    unfolding queue_send_def queue_delete_def by (intro frames url; simp add: assms)+
  have "leaves f (\<lambda>w. let (got, q') = sqs_receive n (queue_of q w) in (Inr got, queue_update q (\<lambda>_. q') w))"
    by (auto simp: leaves_def assms split: prod.splits)
  then show "leaves f (queue_receive E q n)"
    unfolding queue_receive_def by (intro frames url) (simp_all add: assms)
qed

lemma enqueue_leaves [frames]:
  assumes "\<And>w g. f (tick_update g w) = f w" "\<And>w g. f (queue_urls_update g w) = f w"
  shows "(\<And>w g. f (inbound_q_update g w) = f w) \<Longrightarrow> leaves f (enqueue_inbound E g c i p)"
    and "(\<And>w g. f (outbound_q_update g w) = f w) \<Longrightarrow> leaves f (enqueue_outbound E g i)"
  unfolding enqueue_inbound_def enqueue_outbound_def by (intro frames; simp add: assms)+

text \<open>Receiving, timing out and deleting lose nothing but what is deleted.\<close>

lemma sqs_receive_entries:
  assumes "sqs_receive n q = (got, q')"
  shows "set (map q_id (sqs_entries q')) = set (map q_id (sqs_entries q))"
proof -
  define alive where "alive = filter (\<lambda>x. \<not> exhausted x) (q_visible q)"
  define dead where "dead = filter exhausted (q_visible q)"
  have "set (take n alive) \<union> set (drop n alive) = set alive"
    by (metis append_take_drop_id set_append)
  then have alive: "q_id ` set (take n alive) \<union> q_id ` set (drop n alive) = q_id ` set alive"
    by (metis image_Un)
  have "set (q_visible q) = set alive \<union> set dead" by (auto simp: alive_def dead_def)
  then have vis: "q_id ` set (q_visible q) = q_id ` set alive \<union> q_id ` set dead" by (simp add: image_Un)
  have ids: "q_id (received x) = q_id x" for x by (simp add: received_def)
  have q': "q' = q\<lparr>q_visible := drop n alive, q_in_flight := q_in_flight q @ map received (take n alive),
      q_dead := q_dead q @ dead\<rparr>"
    using assms by (auto simp: sqs_receive_def Let_def alive_def dead_def)
  show ?thesis
    unfolding q' sqs_entries_def by (simp add: image_Un image_image ids vis alive [symmetric] Un_ac)
qed

lemma sqs_receive_counts:
  "sqs_receive n q = (got, q') \<Longrightarrow> x \<in> set got \<Longrightarrow>
     1 \<le> q_receive_count x \<and> q_receive_count x \<le> SQS_MAX_RECEIVE_COUNT"
  by (auto simp: sqs_receive_def Let_def received_def exhausted_def dest!: in_set_takeD)

end
