(* ===== verification/A2Z_Routing.thy ===== *)
theory A2Z_Routing
  imports A2Z_Queues
begin

text \<open>
  Assignment of conversations, \<open>app/services/omnichannel/routing.py\<close>: claim, reassign, the
  automatic single-assignee strategy and its configuration.  Every change of the assignee
  adds a row to the append-only history.
\<close>

section \<open>Operations\<close>

definition org_channel :: "string \<Rightarrow> string" where
  "org_channel org_id = ''org:'' @ org_id @ '':conversations''"

definition user_channel :: "string \<Rightarrow> string" where
  "user_channel user_id = ''user:'' @ user_id @ '':notifications''"

definition record_assignment ::
  "env \<Rightarrow> conversation \<Rightarrow> string \<Rightarrow> string \<Rightarrow> string \<Rightarrow> ('z omni_world_scheme, conversation) op" where
  "record_assignment E c assigned_user_id assigned_by reason =
     (let c' = c\<lparr>cv_assigned_user_id := Some assigned_user_id\<rparr>;
          update = [(''type'', JStr ''conversation.assigned''), (''conversation_id'', JStr (cv_id c)),
                    (''assigned_user_id'', JStr assigned_user_id)]
      in
      bindE (new_uuid E) (\<lambda>row_id.
      bindE (now_utc E) (\<lambda>now.
      thenE (modify_om (\<lambda>t. (save_conversation c' t)\<lparr>assignments := assignments t @
        [\<lparr>as_id = row_id, as_org_id = cv_org_id c, as_conversation_id = cv_id c,
          as_assigned_user_id = assigned_user_id, as_assigned_by = assigned_by,
          as_reason = reason, as_created_at = now\<rparr>]\<rparr>))
      (thenE (commit_om E)
      (thenE (log_audit E (cv_org_id c) assigned_by (ActStr ''conversation.assigned'') ''conversation'' (cv_id c)
         [(''assigned_user_id'', JStr assigned_user_id), (''reason'', JStr reason)])
      (thenE (publish_event E (cv_org_id c) ''conversation.assigned''
         [(''conversation_id'', JStr (cv_id c)), (''assigned_user_id'', JStr assigned_user_id),
          (''assigned_by'', JStr assigned_by), (''reason'', JStr reason)] ''a2z.omnichannel'')
      (thenE (publish_update (cv_org_id c) (org_channel (cv_org_id c)) update)
      (thenE (publish_update (cv_org_id c) (user_channel assigned_user_id) update)
      (ret c')))))))))"

definition claim :: "env \<Rightarrow> string \<Rightarrow> string \<Rightarrow> string \<Rightarrow> ('z omni_world_scheme, conversation) op" where
  "claim E org_id conversation_id user_id =
     thenE (require_role NON_VIEWER_ROLES E user_id org_id)
     (bindE (load_conversation E org_id conversation_id) (\<lambda>c.
     if cv_assigned_user_id c = Some user_id then ret c
     else if cv_assigned_user_id c \<noteq> None then raise (Exn (Omni ConversationAlreadyAssignedError))
     else record_assignment E c user_id user_id ''claim''))"

definition reassign ::
  "env \<Rightarrow> string \<Rightarrow> string \<Rightarrow> string \<Rightarrow> string \<Rightarrow> ('z omni_world_scheme, conversation) op" where
  "reassign E org_id conversation_id actor_user_id assignee_user_id =
     thenE (require_role ADMIN_ROLES E actor_user_id org_id)
     (thenE (require_membership_omni E assignee_user_id org_id)
     (bindE (load_conversation E org_id conversation_id) (\<lambda>c.
     record_assignment E c assignee_user_id actor_user_id ''reassign'')))"

text \<open>
  \<open>config = metadata.get("omnichannel", {})\<close> and its two fields.  The designated user is a
  string whenever the configuration was stored by \<open>set_routing_config\<close>; another type
  fails when it is bound to a text column.
\<close>

definition routing_config :: "org_settings \<Rightarrow> exn + string option" where
  "routing_config s = (case map_of (os_metadata s) ''omnichannel'' of
     None \<Rightarrow> Inr None
   | Some (JObj config) \<Rightarrow>
       if field config ''routing_strategy'' \<noteq> JStr ''single_assignee'' then Inr None
       else (case field config ''single_assignee_user_id'' of
               JStr u \<Rightarrow> Inr (if u = [] then None else Some u)
             | v \<Rightarrow> if truthy v then Inl (Exn (Py DBAPIError)) else Inr None)
   | Some _ \<Rightarrow> Inl (Exn (Py AttributeErrorPy)))"

definition apply_single_assignee_if_configured ::
  "env \<Rightarrow> conversation \<Rightarrow> ('z omni_world_scheme, conversation) op" where
  "apply_single_assignee_if_configured E c =
     bindE (get_org_settings E (cv_org_id c)) (\<lambda>s.
     bindE (liftS (routing_config s)) (\<lambda>designated.
     case designated of
       None \<Rightarrow> ret c
     | Some u \<Rightarrow> record_assignment E c u ''routing:single_assignee'' ''single_assignee''))"

definition SUPPORTED_STRATEGIES :: "string list" where
  "SUPPORTED_STRATEGIES = [''manual'', ''single_assignee'']"

fun opt_json :: "string option \<Rightarrow> json" where
  "opt_json None = JNull"
| "opt_json (Some s) = JStr s"

definition set_routing_config ::
  "env \<Rightarrow> string \<Rightarrow> string \<Rightarrow> string \<Rightarrow> string option \<Rightarrow> ('z omni_world_scheme, (string \<times> json) list) op" where
  "set_routing_config E org_id actor_user_id strategy single_assignee_user_id =
     thenE (require_role ADMIN_ROLES E actor_user_id org_id)
     (if strategy \<notin> set SUPPORTED_STRATEGIES then raise (Exn (Omni RoutingError))
      else
      thenE (if strategy = ''single_assignee'' then
               (case single_assignee_user_id of
                  None \<Rightarrow> raise (Exn (Omni RoutingError))
                | Some u \<Rightarrow> if u = [] then raise (Exn (Omni RoutingError))
                           else thenE (require_membership_omni E u org_id) (ret ()))
             else ret ())
      (bindE (get_org_settings E org_id) (\<lambda>s.
      let config = [(''routing_strategy'', JStr strategy),
                    (''single_assignee_user_id'', opt_json single_assignee_user_id)];
          metadata = dict_set ''omnichannel'' (JObj config) (os_metadata s)
      in
      thenE (set_org_settings E org_id [(''metadata'', JObj metadata)] actor_user_id)
      (ret config))))"

end
