(* ===== verification/A2Z_Worker.thy ===== *)
theory A2Z_Worker
  imports A2Z_Routing
begin

text \<open>
  The queue worker, \<open>app/services/omnichannel/worker.py\<close>: inbound payloads become
  identities, conversations and messages, delivery statuses advance messages, queued
  replies are sent through their channel.  Each batch runs in a session of its own, and
  \<open>run_iteration\<close> swallows whatever a batch raises.
\<close>

section \<open>Inbound\<close>

text \<open>\<open>scalar_one_or_none\<close>\<close>

definition one_or_none :: "'a list \<Rightarrow> exn + 'a option" where
  "one_or_none xs = (case xs of [] \<Rightarrow> Inr None | [x] \<Rightarrow> Inr (Some x) | _ \<Rightarrow> Inl (Exn (Py MultipleResultsFound)))"

definition find_or_create_identity ::
  "env \<Rightarrow> string \<Rightarrow> string \<Rightarrow> string \<Rightarrow> string option \<Rightarrow> ('z omni_world_scheme, channel_identity) op" where
  "find_or_create_identity E org_id channel_type external_id display_name =
     bindE (select_om E (\<lambda>t. filter (\<lambda>i. ci_org_id i = org_id \<and> ci_channel_type i = channel_type \<and>
        ci_external_id i = external_id) (identities t))) (\<lambda>rows.
     bindE (liftS (one_or_none rows)) (\<lambda>found.
     case found of
       Some i \<Rightarrow> ret i
     | None \<Rightarrow>
         bindE (new_uuid E) (\<lambda>row_id. bindE (now_utc E) (\<lambda>now.
         let i = \<lparr>ci_id = row_id, ci_org_id = org_id, ci_channel_type = channel_type,
                  ci_external_id = external_id, ci_display_name = display_name, ci_created_at = now\<rparr>
         in thenE (modify_om (\<lambda>t. t\<lparr>identities := identities t @ [i]\<rparr>))
            (thenE (flush_om E) (ret i))))))"

definition find_or_create_conversation ::
  "env \<Rightarrow> string \<Rightarrow> string \<Rightarrow> ('z omni_world_scheme, conversation \<times> bool) op" where
  "find_or_create_conversation E org_id customer_identity_id =
     bindE (select_om E (\<lambda>t. filter (\<lambda>c. cv_org_id c = org_id \<and> cv_identity_id c = customer_identity_id)
        (conversations t))) (\<lambda>rows.
     bindE (liftS (one_or_none rows)) (\<lambda>found.
     case found of
       Some c \<Rightarrow> ret (c, False)
     | None \<Rightarrow>
         bindE (new_uuid E) (\<lambda>row_id. bindE (now_utc E) (\<lambda>now.
         let c = \<lparr>cv_id = row_id, cv_org_id = org_id, cv_identity_id = customer_identity_id,
                  cv_status = ''open'', cv_assigned_user_id = None, cv_last_message_at = None,
                  cv_last_message_preview = None, cv_unread_count = 0, cv_created_at = now\<rparr>
         in thenE (modify_om (\<lambda>t. t\<lparr>conversations := conversations t @ [c]\<rparr>))
            (thenE (flush_om E) (ret (c, True)))))))"

definition new_inbound_message ::
  "env \<Rightarrow> string \<Rightarrow> string \<Rightarrow> string \<Rightarrow> inbound_message \<Rightarrow> ('z omni_world_scheme, message) op" where
  "new_inbound_message E org_id channel_type conversation_id item =
     bindE (new_uuid E) (\<lambda>row_id. bindE (now_utc E) (\<lambda>now.
     ret \<lparr>mg_id = row_id, mg_org_id = org_id, mg_conversation_id = conversation_id,
          mg_direction = ''inbound'', mg_channel_type = channel_type,
          mg_external_id = in_external_message_id item, mg_body_text = in_body_text item,
          mg_subject = None, mg_content_type = in_content_type item, mg_status = ''received'',
          mg_sent_by = None, mg_dedup_key = None, mg_created_at = now\<rparr>))"

text \<open>
  The flush in a savepoint: a violated constraint discards, with \<open>session.rollback()\<close>, all
  that the session has not committed, and means that the message is a duplicate.
\<close>

definition flush_or_duplicate :: "env \<Rightarrow> ('z omni_world_scheme, bool) op" where
  "flush_or_duplicate E = catchE (thenE (flush_om E) (ret True))
     (\<lambda>e. if e = Exn (Py IntegrityError) then thenE rollback_om (ret False) else raise e)"

definition store_attachment ::
  "env \<Rightarrow> string \<Rightarrow> string \<Rightarrow> inbound_attachment \<Rightarrow> ('z omni_world_scheme, unit) op" where
  "store_attachment E org_id message_id att =
     bindE (upload_file E org_id ''omnichannel'' (ia_filename att) (ia_content att) (ia_content_type att)
        ''system'' None) (\<lambda>stored.
     bindE (new_uuid E) (\<lambda>row_id.
     modify_om (\<lambda>t. t\<lparr>msg_attachments := msg_attachments t @
       [\<lparr>ma_id = row_id, ma_message_id = message_id, ma_org_id = org_id, ma_s3_key = sf_key stored,
         ma_content_type = ia_content_type att, ma_size_bytes = int (length (ia_content att))\<rparr>]\<rparr>)))"

definition note_message :: "int \<Rightarrow> inbound_message \<Rightarrow> conversation \<Rightarrow> conversation" where
  "note_message now item c = c\<lparr>cv_last_message_at := Some now,
     cv_last_message_preview := Some (take 200 (case in_body_text item of None \<Rightarrow> [] | Some b \<Rightarrow> b)),
     cv_unread_count := cv_unread_count c + 1\<rparr>"

definition announce_message ::
  "env \<Rightarrow> string \<Rightarrow> string \<Rightarrow> conversation \<Rightarrow> string \<Rightarrow> ('z omni_world_scheme, unit) op" where
  "announce_message E org_id channel_type c message_id =
     (let update = [(''type'', JStr ''message.received''), (''conversation_id'', JStr (cv_id c)),
                    (''message_id'', JStr message_id)]
      in
      thenE (publish_event E org_id ''message.received''
        [(''conversation_id'', JStr (cv_id c)), (''message_id'', JStr message_id),
         (''channel_type'', JStr channel_type)] ''a2z.omnichannel'')
      (thenE (publish_update org_id (org_channel org_id) update)
      (case cv_assigned_user_id c of
         None \<Rightarrow> ret ()
       | Some u \<Rightarrow> if u = [] then ret () else publish_update org_id (user_channel u) update)))"

definition process_item ::
  "env \<Rightarrow> string \<Rightarrow> string \<Rightarrow> inbound_message \<Rightarrow> ('z omni_world_scheme, unit) op" where
  "process_item E org_id channel_type item =
     bindE (find_or_create_identity E org_id channel_type (in_external_id item) (in_display_name item)) (\<lambda>i.
     bindE (find_or_create_conversation E org_id (ci_id i)) (\<lambda>(c, is_new).
     bindE (new_inbound_message E org_id channel_type (cv_id c) item) (\<lambda>m.
     thenE (modify_om (\<lambda>t. t\<lparr>messages := messages t @ [m]\<rparr>))
     (bindE (flush_or_duplicate E) (\<lambda>fresh.
     if \<not> fresh then ret ()
     else
     thenE (forE (store_attachment E org_id (mg_id m)) (in_attachments item))
     (bindE (now_utc E) (\<lambda>now.
     let c1 = note_message now item c in
     thenE (modify_om (save_conversation c1))
     (thenE (commit_om E)
     (bindE (if is_new then apply_single_assignee_if_configured E c1 else ret c1) (\<lambda>c2.
     announce_message E org_id channel_type c2 (mg_id m)))))))))))"

definition STATUS_RANK :: "(string \<times> int) list" where
  "STATUS_RANK = [(''queued'', 0), (''sent'', 1), (''delivered'', 2), (''read'', 3)]"

definition status_rank :: "string \<Rightarrow> int" where
  "status_rank s = (case map_of STATUS_RANK s of None \<Rightarrow> -1 | Some r \<Rightarrow> r)"

definition advances_status :: "string \<Rightarrow> string \<Rightarrow> bool" where
  "advances_status old new \<longleftrightarrow> new = ''failed'' \<or> status_rank old < status_rank new"

definition apply_delivery_status ::
  "env \<Rightarrow> string \<Rightarrow> string \<Rightarrow> delivery_update \<Rightarrow> ('z omni_world_scheme, unit) op" where
  "apply_delivery_status E org_id channel_type u =
     bindE (select_om E (\<lambda>t. filter (\<lambda>m. mg_org_id m = org_id \<and> mg_channel_type m = channel_type \<and>
        mg_external_id m = du_external_message_id u) (messages t))) (\<lambda>rows.
     bindE (liftS (one_or_none rows)) (\<lambda>found.
     case found of
       None \<Rightarrow> ret ()
     | Some m \<Rightarrow>
         if \<not> advances_status (mg_status m) (du_status u) then ret ()
         else
         thenE (modify_om (save_message (m\<lparr>mg_status := du_status u\<rparr>)))
         (thenE (commit_om E)
         (publish_update org_id (org_channel org_id)
           [(''type'', JStr ''message.status''), (''conversation_id'', JStr (mg_conversation_id m)),
            (''message_id'', JStr (mg_id m)), (''status'', JStr (du_status u))]))))"

definition process_inbound_message :: "env \<Rightarrow> sqs_entry \<Rightarrow> ('z omni_world_scheme, unit) op" where
  "process_inbound_message E msg =
     (case (map_of (q_attributes msg) ''org_id'', map_of (q_attributes msg) ''channel_type'') of
        (Some org_id, Some channel_type) \<Rightarrow>
          bindE (liftS (get_adapter channel_type)) (\<lambda>ad.
          bindE (liftS (py_item (JObj (q_body msg)) ''raw_payload'')) (\<lambda>raw_payload.
          bindE (ad_normalize ad E raw_payload) (\<lambda>items.
          thenE (forE (process_item E org_id channel_type) items)
          (bindE (liftS (ad_delivery ad raw_payload)) (\<lambda>updates.
          forE (apply_delivery_status E org_id channel_type) updates)))))
      | _ \<Rightarrow> raise (Exn (Py KeyErrorPy)))"

definition process_inbound_batch :: "env \<Rightarrow> nat \<Rightarrow> ('z omni_world_scheme, nat) op" where
  "process_inbound_batch E max_messages =
     bindE (receive_inbound E max_messages) (\<lambda>msgs.
     thenE (forE (\<lambda>msg. thenE (process_inbound_message E msg) (delete_inbound E (q_id msg))) msgs)
     (ret (length msgs)))"

section \<open>Outbound\<close>

definition find_connection :: "string \<Rightarrow> string \<Rightarrow> omni_tables \<Rightarrow> channel_connection option" where
  "find_connection org_id channel_type t =
     (case sort_key cn_created_at (filter (\<lambda>c. cn_org_id c = org_id \<and> cn_channel_type c = channel_type \<and>
        cn_status c = ''active'') (connections t)) of
        [] \<Rightarrow> None | c # _ \<Rightarrow> Some c)"

definition outbound_context ::
  "env \<Rightarrow> message \<Rightarrow> ('z omni_world_scheme, (channel_identity \<times> channel_connection) option) op" where
  "outbound_context E m =
     bindE (select_om E (\<lambda>t. row_get cv_id (mg_conversation_id m) (conversations t))) (\<lambda>c.
     bindE (case c of None \<Rightarrow> ret None
            | Some c \<Rightarrow> select_om E (\<lambda>t. row_get ci_id (cv_identity_id c) (identities t))) (\<lambda>i.
     bindE (select_om E (find_connection (mg_org_id m) (mg_channel_type m))) (\<lambda>cn.
     ret (case (i, cn) of (Some i, Some cn) \<Rightarrow> Some (i, cn) | _ \<Rightarrow> None))))"

definition outbound_credentials ::
  "env \<Rightarrow> message \<Rightarrow> channel_connection \<Rightarrow> bool \<Rightarrow> ('z omni_world_scheme, (string \<times> json) list) op" where
  "outbound_credentials E m cn needed =
     (if needed then
        bindE (get_secret E (mg_org_id m) ''omnichannel'' (cn_credentials_secret_key cn)) (\<lambda>bundle.
        ret (dict_merge [(''org_id'', JStr (mg_org_id m))] bundle))
      else ret [(''org_id'', JStr (mg_org_id m))])"

text \<open>\<open>except ChannelAdapterError\<close>: \<open>None\<close> stands for the failed send.\<close>

definition try_send ::
  "('z omni_world_scheme, send_result) op \<Rightarrow> ('z omni_world_scheme, send_result option) op" where
  "try_send m = catchE (bindE m (\<lambda>r. ret (Some r)))
     (\<lambda>e. if isinstance e (Omni ChannelAdapterError) then ret None else raise e)"

definition process_outbound_message :: "env \<Rightarrow> sqs_entry \<Rightarrow> ('z omni_world_scheme, bool) op" where
  "process_outbound_message E msg =
     bindE (liftS (bindS (py_item (JObj (q_body msg)) ''message_id'') as_str)) (\<lambda>message_id.
     bindE (select_om E (\<lambda>t. row_get mg_id message_id (messages t))) (\<lambda>found.
     case found of
       None \<Rightarrow> ret True
     | Some m \<Rightarrow>
     bindE (outbound_context E m) (\<lambda>ctx.
     case ctx of
       None \<Rightarrow> ret True
     | Some (i, cn) \<Rightarrow>
     bindE (liftS (get_adapter (mg_channel_type m))) (\<lambda>ad.
     bindE (outbound_credentials E m cn (sf_requires_credentials (ad_features ad))) (\<lambda>credentials.
     bindE (try_send (ad_send ad E (ci_external_id i)
        \<lparr>oc_subject = mg_subject m, oc_body_text = mg_body_text m\<rparr> credentials)) (\<lambda>result.
     case result of
       None \<Rightarrow>
         if SQS_MAX_RECEIVE_COUNT \<le> q_receive_count msg then
           thenE (modify_om (save_message (m\<lparr>mg_status := ''failed''\<rparr>))) (thenE (commit_om E) (ret False))
         else ret False
     | Some r \<Rightarrow>
         thenE (modify_om (save_message
            (m\<lparr>mg_external_id := sr_external_message_id r, mg_status := ''sent''\<rparr>)))
         (thenE (commit_om E)
         (thenE (publish_event E (mg_org_id m) ''message.sent''
            [(''conversation_id'', JStr (mg_conversation_id m)), (''message_id'', JStr (mg_id m))]
            ''a2z.omnichannel'')
         (thenE (publish_update (mg_org_id m) (org_channel (mg_org_id m))
            [(''type'', JStr ''message.sent''), (''conversation_id'', JStr (mg_conversation_id m)),
             (''message_id'', JStr (mg_id m))])
         (ret True))))))))))"

fun outbound_loop :: "env \<Rightarrow> sqs_entry list \<Rightarrow> nat \<Rightarrow> ('z omni_world_scheme, nat) op" where
  "outbound_loop E [] processed = ret processed"
| "outbound_loop E (msg # msgs) processed =
     bindE (process_outbound_message E msg) (\<lambda>resolved.
     if resolved then thenE (delete_outbound E (q_id msg)) (outbound_loop E msgs (Suc processed))
     else outbound_loop E msgs processed)"

definition process_outbound_batch :: "env \<Rightarrow> nat \<Rightarrow> ('z omni_world_scheme, nat) op" where
  "process_outbound_batch E max_messages =
     bindE (receive_outbound E max_messages) (\<lambda>msgs. outbound_loop E msgs 0)"

section \<open>The loop\<close>

text \<open>\<open>except Exception\<close>: an iteration that fails counts as idle.\<close>

definition run_iteration :: "('z omni_world_scheme, nat) op \<Rightarrow> ('z omni_world_scheme, nat) op" where
  "run_iteration batch = catchE (omni_session batch) (\<lambda>_. ret 0)"

text \<open>
  \<open>run_forever\<close>, for a number of rounds; the sleep after an idle round changes nothing.
  The argument of a round is what the queues' clocks do in between: expired visibility
  timeouts.
\<close>

fun run_rounds :: "env \<Rightarrow> bool list \<Rightarrow> ('z omni_world_scheme, unit) op" where
  "run_rounds E [] = ret ()"
| "run_rounds E (expire # rounds) =
     thenE (whenE expire (modifyE (\<lambda>w. queue_update Outbound sqs_timeout (queue_update Inbound sqs_timeout w))))
     (thenE (run_iteration (process_inbound_batch E 10))
     (thenE (run_iteration (process_outbound_batch E 10))
     (run_rounds E rounds)))"

end
