(* ===== verification/A2Z_Replies.thy ===== *)
theory A2Z_Replies
  imports A2Z_Worker
begin

text \<open>
  Outbound replies as the API takes them, \<open>app/services/omnichannel/handlers.py\<close>: checks,
  rate limit, the message stored as queued, and its id put on the outbound queue.
\<close>

definition rate_limit_action :: "string \<Rightarrow> string" where
  "rate_limit_action channel_type = ''omnichannel.'' @ channel_type @ ''.send''"

definition find_by_dedup_key ::
  "env \<Rightarrow> string \<Rightarrow> string \<Rightarrow> string \<Rightarrow> ('z omni_world_scheme, message option) op" where
  "find_by_dedup_key E org_id conversation_id key =
     bindE (select_om E (\<lambda>t. filter (\<lambda>m. mg_org_id m = org_id \<and> mg_conversation_id m = conversation_id \<and>
        mg_dedup_key m = Some key) (messages t))) (\<lambda>rows.
     liftS (one_or_none rows))"

definition lookup_dedup ::
  "env \<Rightarrow> string \<Rightarrow> string \<Rightarrow> string option \<Rightarrow> ('z omni_world_scheme, message option) op" where
  "lookup_dedup E org_id conversation_id key = (case key of
     None \<Rightarrow> ret None | Some k \<Rightarrow> find_by_dedup_key E org_id conversation_id k)"

definition check_channel_rate :: "env \<Rightarrow> string \<Rightarrow> string \<Rightarrow> ('z limiter_world_scheme, unit) op" where
  "check_channel_rate E org_id channel_type =
     (case map_of RATE_LIMITS (rate_limit_action channel_type) of
        None \<Rightarrow> ret ()
      | Some (limit, window) \<Rightarrow>
          check_and_increment E org_id (rate_limit_action channel_type) limit window)"

definition new_reply ::
  "env \<Rightarrow> string \<Rightarrow> string \<Rightarrow> string \<Rightarrow> string \<Rightarrow> string \<Rightarrow> string option \<Rightarrow> string option
    \<Rightarrow> ('z omni_world_scheme, message) op" where
  "new_reply E org_id conversation_id user_id channel_type body_text key subject =
     bindE (new_uuid E) (\<lambda>pending. bindE (new_uuid E) (\<lambda>row_id. bindE (now_utc E) (\<lambda>now.
     ret \<lparr>mg_id = row_id, mg_org_id = org_id, mg_conversation_id = conversation_id,
          mg_direction = ''outbound'', mg_channel_type = channel_type,
          mg_external_id = ''pending:'' @ pending, mg_body_text = Some body_text, mg_subject = subject,
          mg_content_type = ''text/plain'', mg_status = ''queued'', mg_sent_by = Some user_id,
          mg_dedup_key = key, mg_created_at = now\<rparr>)))"

text \<open>\<open>None\<close> when the commit went through, the message of a concurrent twin otherwise.\<close>

definition commit_or_twin ::
  "env \<Rightarrow> string \<Rightarrow> string \<Rightarrow> string option \<Rightarrow> ('z omni_world_scheme, message option) op" where
  "commit_or_twin E org_id conversation_id key =
     catchE (thenE (commit_om E) (ret None))
       (\<lambda>e. if e \<noteq> Exn (Py IntegrityError) then raise e
            else thenE rollback_om
              (case key of
                 None \<Rightarrow> raise e
               | Some k \<Rightarrow> bindE (find_by_dedup_key E org_id conversation_id k) (\<lambda>existing.
                   case existing of None \<Rightarrow> raise e | Some m \<Rightarrow> ret (Some m))))"

definition send_reply ::
  "env \<Rightarrow> string \<Rightarrow> string \<Rightarrow> string \<Rightarrow> string \<Rightarrow> string option \<Rightarrow> string option
    \<Rightarrow> ('z omni_world_scheme, message \<times> bool) op" where
  "send_reply E org_id conversation_id user_id body_text client_dedup_key subject =
     thenE (require_role NON_VIEWER_ROLES E user_id org_id)
     (bindE (load_conversation E org_id conversation_id) (\<lambda>c.
     bindE (select_om E (\<lambda>t. row_get ci_id (cv_identity_id c) (identities t))) (\<lambda>i.
     case i of
       None \<Rightarrow> raise (Exn (Omni ConversationNotFoundError))
     | Some i \<Rightarrow>
     bindE (lookup_dedup E org_id conversation_id client_dedup_key) (\<lambda>existing.
     case existing of
       Some m \<Rightarrow> ret (m, False)
     | None \<Rightarrow>
     thenE (check_channel_rate E org_id (ci_channel_type i))
     (bindE (new_reply E org_id conversation_id user_id (ci_channel_type i) body_text client_dedup_key subject) (\<lambda>m.
     thenE (modify_om (\<lambda>t. t\<lparr>messages := messages t @ [m]\<rparr>))
     (bindE (commit_or_twin E org_id conversation_id client_dedup_key) (\<lambda>twin.
     case twin of
       Some m' \<Rightarrow> ret (m', False)
     | None \<Rightarrow> thenE (enqueue_outbound E org_id (mg_id m)) (ret (m, True))))))))))"

end
