(* ===== verification/A2Z_Webhooks.thy ===== *)
theory A2Z_Webhooks
  imports A2Z_Replies
begin

text \<open>
  Channel connections (\<open>connections.py\<close>) and the webhooks that arrive on them
  (\<open>webhooks.py\<close>) of \<open>app/services/omnichannel/\<close>.
\<close>

section \<open>Connections\<close>

definition load_own_connection :: "env \<Rightarrow> string \<Rightarrow> string \<Rightarrow> ('z omni_world_scheme, channel_connection) op" where
  "load_own_connection E org_id connection_id =
     bindE (select_om E (\<lambda>t. row_get cn_id connection_id (connections t))) (\<lambda>cn.
     case cn of
       None \<Rightarrow> raise (Exn (Omni ConnectionNotFoundError))
     | Some cn \<Rightarrow> if cn_org_id cn \<noteq> org_id then raise (Exn (Omni ConnectionNotFoundError)) else ret cn)"

text \<open>\<open>s.rsplit("@", 1)[1]\<close> of a string that contains an \<open>@\<close>.\<close>

definition domain_of :: "string \<Rightarrow> string" where
  "domain_of s = after_last CHR ''@'' s"

definition connection_secret ::
  "env \<Rightarrow> string \<Rightarrow> string \<Rightarrow> string \<Rightarrow> string \<Rightarrow> string \<Rightarrow> bool
    \<Rightarrow> (string \<times> json) list option \<Rightarrow> string option
    \<Rightarrow> ('z omni_world_scheme, string \<times> domain_records option) op" where
  "connection_secret E org_id actor_user_id connection_id channel_type provider_account_id needed
     credentials credentials_secret_key =
     (if needed then
        (case (credentials, credentials_secret_key) of
           (Some c, _) \<Rightarrow> thenE (put_secret E org_id ''omnichannel'' connection_id c) (ret (connection_id, None))
         | (None, Some k) \<Rightarrow> thenE (get_secret E org_id ''omnichannel'' k) (ret (k, None))
         | (None, None) \<Rightarrow> raise (Exn (Omni ConnectionValidationError)))
      else if channel_type = ''email'' then
        (if CHR ''@'' \<notin> set provider_account_id then raise (Exn (Omni ConnectionValidationError))
         else bindE (start_domain_verification E org_id (domain_of provider_account_id) actor_user_id) (\<lambda>dns.
           ret ([], Some dns)))
      else ret ([], None))"

definition create_connection ::
  "env \<Rightarrow> string \<Rightarrow> string \<Rightarrow> string \<Rightarrow> string \<Rightarrow> string \<Rightarrow> (string \<times> json) list option \<Rightarrow> string option
    \<Rightarrow> ('z omni_world_scheme, channel_connection \<times> domain_records option) op" where
  "create_connection E org_id actor_user_id channel_type display_name provider_account_id
     credentials credentials_secret_key =
     thenE (require_role ADMIN_ROLES E actor_user_id org_id)
     (bindE (liftS (case (get_adapter channel_type :: exn + 'z adapter) of
          Inl _ \<Rightarrow> Inl (Exn (Omni ConnectionValidationError))
        | Inr ad \<Rightarrow> Inr (sf_requires_credentials (ad_features ad)))) (\<lambda>needed.
     if credentials \<noteq> None \<and> credentials_secret_key \<noteq> None
     then raise (Exn (Omni ConnectionValidationError))
     else
     bindE (new_uuid E) (\<lambda>connection_id.
     bindE (connection_secret E org_id actor_user_id connection_id channel_type provider_account_id
        needed credentials credentials_secret_key) (\<lambda>(secret_key, dns_records).
     bindE (now_utc E) (\<lambda>now.
     let cn = \<lparr>cn_id = connection_id, cn_org_id = org_id, cn_channel_type = channel_type,
               cn_display_name = display_name, cn_provider_account_id = provider_account_id,
               cn_credentials_secret_key = secret_key, cn_status = ''active'',
               cn_created_at = now, cn_updated_at = now\<rparr>
     in
     thenE (modify_om (\<lambda>t. t\<lparr>connections := connections t @ [cn]\<rparr>))
     (thenE (commit_om E)
     (thenE (log_audit E org_id actor_user_id (ActStr ''connection.created'') ''channel_connection'' connection_id
        [(''channel_type'', JStr channel_type), (''display_name'', JStr display_name)])
     (thenE (publish_event E org_id ''connection.created''
        [(''connection_id'', JStr connection_id), (''channel_type'', JStr channel_type)] ''a2z.omnichannel'')
     (ret (cn, dns_records))))))))))"

definition list_connections :: "env \<Rightarrow> string \<Rightarrow> string \<Rightarrow> ('z omni_world_scheme, channel_connection list) op" where
  "list_connections E org_id actor_user_id =
     thenE (require_role ADMIN_ROLES E actor_user_id org_id)
     (select_om E (\<lambda>t. sort_key cn_created_at (filter (\<lambda>c. cn_org_id c = org_id) (connections t))))"

definition get_connection ::
  "env \<Rightarrow> string \<Rightarrow> string \<Rightarrow> string \<Rightarrow> ('z omni_world_scheme, channel_connection) op" where
  "get_connection E org_id actor_user_id connection_id =
     thenE (require_role ADMIN_ROLES E actor_user_id org_id)
     (load_own_connection E org_id connection_id)"

definition disable_connection ::
  "env \<Rightarrow> string \<Rightarrow> string \<Rightarrow> string \<Rightarrow> ('z omni_world_scheme, channel_connection) op" where
  "disable_connection E org_id actor_user_id connection_id =
     thenE (require_role ADMIN_ROLES E actor_user_id org_id)
     (bindE (load_own_connection E org_id connection_id) (\<lambda>cn.
     bindE (now_utc E) (\<lambda>now.
     let cn' = cn\<lparr>cn_status := ''disabled'',
                  cn_updated_at := (if cn_status cn = ''disabled'' then cn_updated_at cn else now)\<rparr> in
     thenE (modify_om (\<lambda>t. t\<lparr>connections := row_upd cn_id (cn_id cn) (\<lambda>_. cn') (connections t)\<rparr>))
     (thenE (commit_om E)
     (thenE (log_audit E org_id actor_user_id (ActStr ''connection.disabled'') ''channel_connection'' (cn_id cn)
        [(''channel_type'', JStr (cn_channel_type cn))])
     (thenE (publish_event E org_id ''connection.disabled''
        [(''connection_id'', JStr (cn_id cn)), (''channel_type'', JStr (cn_channel_type cn))] ''a2z.omnichannel'')
     (ret cn')))))))"

definition resolve_org_by_provider_account ::
  "env \<Rightarrow> ChannelType \<Rightarrow> string \<Rightarrow> ('z omni_world_scheme, string option) op" where
  "resolve_org_by_provider_account E channel_type provider_account_id =
     omni_session (bindE (select_om E (\<lambda>t. map cn_org_id (filter (\<lambda>c.
        cn_channel_type c = channel_value channel_type \<and> cn_provider_account_id c = provider_account_id)
        (connections t)))) (\<lambda>rows. liftS (one_or_none rows)))"

section \<open>Webhooks\<close>

definition load_connection :: "env \<Rightarrow> string \<Rightarrow> ('z omni_world_scheme, channel_connection) op" where
  "load_connection E connection_id =
     bindE (select_om E (\<lambda>t. row_get cn_id connection_id (connections t))) (\<lambda>cn.
     case cn of
       None \<Rightarrow> raise (Exn (Omni ConnectionNotFoundError))
     | Some cn \<Rightarrow> if cn_status cn \<noteq> ''active'' then raise (Exn (Omni ConnectionNotFoundError)) else ret cn)"

definition resolve_connection ::
  "env \<Rightarrow> string \<Rightarrow> string \<Rightarrow> ('z omni_world_scheme, channel_connection) op" where
  "resolve_connection E channel_type connection_id =
     bindE (load_connection E connection_id) (\<lambda>cn.
     if cn_channel_type cn \<noteq> channel_type then raise (Exn (Omni ConnectionNotFoundError)) else ret cn)"

definition handle_webhook ::
  "env \<Rightarrow> string \<Rightarrow> string \<Rightarrow> string \<Rightarrow> (string \<times> string) list \<Rightarrow> ('z omni_world_scheme, unit) op" where
  "handle_webhook E channel_type connection_id raw_body headers =
     bindE (resolve_connection E channel_type connection_id) (\<lambda>cn.
     bindE (liftS (get_adapter channel_type :: exn + 'z adapter)) (\<lambda>ad.
     bindE (get_secret E (cn_org_id cn) ''omnichannel'' (cn_credentials_secret_key cn)) (\<lambda>bundle.
     bindE (liftS (ad_verify ad E raw_body headers
        (case map_of bundle (ad_signing_key ad) of None \<Rightarrow> JStr [] | Some v \<Rightarrow> v))) (\<lambda>verified.
     if \<not> verified then raise (Exn (Omni WebhookSignatureError))
     else (case json_loads E raw_body of
             None \<Rightarrow> raise (Exn (Py ValueErrorPy))
           | Some raw_payload \<Rightarrow>
               thenE (enqueue_inbound E (cn_org_id cn) channel_type (cn_id cn) raw_payload) (ret ()))))))"

definition verify_subscription ::
  "env \<Rightarrow> string \<Rightarrow> string \<Rightarrow> (string \<times> string) list \<Rightarrow> ('z omni_world_scheme, string) op" where
  "verify_subscription E channel_type connection_id params =
     bindE (resolve_connection E channel_type connection_id) (\<lambda>cn.
     bindE (liftS (get_adapter channel_type :: exn + 'z adapter)) (\<lambda>ad.
     bindE (get_secret E (cn_org_id cn) ''omnichannel'' (cn_credentials_secret_key cn)) (\<lambda>bundle.
     liftS (ad_subscription ad params bundle))))"

end
