(* ===== verification/A2Z_Inbox.thy ===== *)
theory A2Z_Inbox
  imports A2Z_Webhooks
begin

text \<open>
  Reading the inbox, \<open>app/services/omnichannel/inbox.py\<close>: conversations and threads page
  by page, with keyset cursors, and the unread counter.  A cursor is what its text decodes
  to; the texts that do not decode are one value.
\<close>

section \<open>Views\<close>

record attachment_view =
  av_id :: string
  av_filename :: string
  av_content_type :: string
  av_size_bytes :: int
  av_url :: string

record message_view =
  mv_id :: string
  mv_direction :: string
  mv_channel_type :: string
  mv_body_text :: "string option"
  mv_content_type :: string
  mv_status :: string
  mv_sent_by :: "string option"
  mv_external_id :: string
  mv_created_at :: int
  mv_attachments :: "attachment_view list"

record conversation_summary =
  cs_id :: string
  cs_status :: string
  cs_assigned_user_id :: "string option"
  cs_last_message_at :: "int option"
  cs_last_message_preview :: "string option"
  cs_unread_count :: int
  cs_channel_type :: string
  cs_customer_external_id :: string
  cs_customer_display_name :: "string option"

definition summary :: "conversation \<Rightarrow> channel_identity \<Rightarrow> conversation_summary" where
  "summary c i = \<lparr>cs_id = cv_id c, cs_status = cv_status c, cs_assigned_user_id = cv_assigned_user_id c,
     cs_last_message_at = cv_last_message_at c, cs_last_message_preview = cv_last_message_preview c,
     cs_unread_count = cv_unread_count c, cs_channel_type = ci_channel_type i,
     cs_customer_external_id = ci_external_id i, cs_customer_display_name = ci_display_name i\<rparr>"

definition message_view_of :: "message \<Rightarrow> attachment_view list \<Rightarrow> message_view" where
  "message_view_of m atts = \<lparr>mv_id = mg_id m, mv_direction = mg_direction m,
     mv_channel_type = mg_channel_type m, mv_body_text = mg_body_text m, mv_content_type = mg_content_type m,
     mv_status = mg_status m, mv_sent_by = mg_sent_by m, mv_external_id = mg_external_id m,
     mv_created_at = mg_created_at m, mv_attachments = atts\<rparr>"

definition filename_from_key :: "string \<Rightarrow> string" where
  "filename_from_key s3_key =
     (let basename = after_last CHR ''/'' s3_key in
      case partition_at CHR ''_'' basename of
        None \<Rightarrow> basename
      | Some (_, tail) \<Rightarrow> if tail = [] then basename else tail)"

section \<open>Cursors\<close>

definition MAX_LIMIT :: int where "MAX_LIMIT = 100"
definition DEFAULT_CONVERSATION_LIMIT :: int where "DEFAULT_CONVERSATION_LIMIT = 50"
definition DEFAULT_MESSAGE_LIMIT :: int where "DEFAULT_MESSAGE_LIMIT = 50"

definition clamp :: "int \<Rightarrow> int \<Rightarrow> nat" where
  "clamp limit dflt = nat (if limit \<le> 0 then dflt else min limit MAX_LIMIT)"

type_synonym position = "int option \<times> string"

datatype cursor = Cursor position | Malformed

definition decode_cursor :: "cursor \<Rightarrow> exn + position" where
  "decode_cursor c = (case c of Cursor p \<Rightarrow> Inr p | Malformed \<Rightarrow> Inl (Exn (Omni InvalidQueryError)))"

text \<open>
  \<open>_cursor_predicate\<close>: the rows that come after a position; comparisons with \<open>NULL\<close> do not
  hold, and \<open>NULL\<close> sorts last in both directions.
\<close>

fun after_position :: "bool \<Rightarrow> position \<Rightarrow> position \<Rightarrow> bool" where
  "after_position True (Some t, i) (Some u, j) \<longleftrightarrow> u < t \<or> (u = t \<and> j < i)"
| "after_position True (Some t, i) (None, j) \<longleftrightarrow> True"
| "after_position True (None, i) (u, j) \<longleftrightarrow> u = None \<and> j < i"
| "after_position False (Some t, i) (Some u, j) \<longleftrightarrow> t < u \<or> (u = t \<and> i < j)"
| "after_position False (Some t, i) (None, j) \<longleftrightarrow> False"
| "after_position False (None, i) (u, j) \<longleftrightarrow> u = None \<and> i < j"

definition position_of :: "conversation \<Rightarrow> position" where
  "position_of c = (cv_last_message_at c, cv_id c)"

text \<open>\<open>ORDER BY last_message_at NULLS LAST, id\<close>, both in the same direction.\<close>

definition time_rank :: "bool \<Rightarrow> int option \<Rightarrow> int \<times> int" where
  "time_rank sort_desc t = (case t of None \<Rightarrow> (1, 0) | Some t \<Rightarrow> (0, if sort_desc then - t else t))"

definition in_order :: "bool \<Rightarrow> ('r \<Rightarrow> position) \<Rightarrow> 'r list \<Rightarrow> 'r list" where
  "in_order sort_desc pos rows =
     (let by_id = sort_key (\<lambda>r. snd (pos r)) rows in
      sort_key (\<lambda>r. case time_rank sort_desc (fst (pos r)) of (a, b) \<Rightarrow> [a, b])
        (if sort_desc then rev by_id else by_id))"

text \<open>A page: at most \<open>n\<close> rows, and whether more follow.\<close>

definition page :: "nat \<Rightarrow> 'r list \<Rightarrow> 'r list \<times> bool" where
  "page n rows = (let fetched = take (n + 1) rows in (take n fetched, length fetched > n))"

section \<open>Conversations\<close>

record conversation_query =
  cq_status :: "string option"
  cq_assigned :: "string option"
  cq_text :: "string option"
  cq_sort :: string
  cq_limit :: int

definition text_matches :: "env \<Rightarrow> string \<Rightarrow> omni_tables \<Rightarrow> string \<Rightarrow> conversation \<Rightarrow> channel_identity \<Rightarrow> bool" where
  "text_matches E org_id t q c i \<longleftrightarrow>
     (\<exists>m \<in> set (messages t). mg_org_id m = org_id \<and> mg_conversation_id m = cv_id c \<and>
        search_match E q (case mg_body_text m of None \<Rightarrow> [] | Some b \<Rightarrow> b)) \<or>
     (case ci_display_name i of None \<Rightarrow> False | Some n \<Rightarrow> ilike E q n)"

text \<open>The join with the identities, and the \<open>WHERE\<close> clause without the cursor.\<close>

definition joined :: "omni_tables \<Rightarrow> (conversation \<times> channel_identity) list" where
  "joined t = concat (map (\<lambda>c. map (Pair c)
     (filter (\<lambda>i. ci_id i = cv_identity_id c) (identities t))) (conversations t))"

definition matching :: "env \<Rightarrow> string \<Rightarrow> conversation_query \<Rightarrow> omni_tables \<Rightarrow> (conversation \<times> channel_identity) list" where
  "matching E org_id cq t = filter (\<lambda>(c, i).
     cv_org_id c = org_id \<and>
     (case cq_status cq of None \<Rightarrow> True | Some s \<Rightarrow> cv_status c = s) \<and>
     (case cq_assigned cq of None \<Rightarrow> True | Some u \<Rightarrow> cv_assigned_user_id c = Some u) \<and>
     (case cq_text cq of None \<Rightarrow> True | Some q \<Rightarrow> q = [] \<or> text_matches E org_id t q c i)) (joined t)"

definition conversation_page ::
  "env \<Rightarrow> string \<Rightarrow> conversation_query \<Rightarrow> position option \<Rightarrow> omni_tables
    \<Rightarrow> (conversation \<times> channel_identity) list \<times> position option" where
  "conversation_page E org_id cq after_pos t =
     (let sort_desc = (cq_sort cq = ''-last_message_at'');
          rows = filter (\<lambda>(c, i). case after_pos of None \<Rightarrow> True
                   | Some p \<Rightarrow> after_position sort_desc p (position_of c)) (matching E org_id cq t);
          (items, more) = page (clamp (cq_limit cq) DEFAULT_CONVERSATION_LIMIT)
                            (in_order sort_desc (\<lambda>(c, i). position_of c) rows)
      in (items, if more \<and> items \<noteq> [] then Some (position_of (fst (last items))) else None))"

definition list_conversations ::
  "env \<Rightarrow> string \<Rightarrow> string \<Rightarrow> conversation_query \<Rightarrow> cursor option
    \<Rightarrow> ('z omni_world_scheme, conversation_summary list \<times> cursor option) op" where
  "list_conversations E org_id user_id cq cursor =
     thenE (require_membership_omni E user_id org_id)
     (if cq_sort cq \<notin> {''-last_message_at'', ''last_message_at''} then raise (Exn (Omni InvalidQueryError))
      else
      bindE (liftS (case cursor of None \<Rightarrow> Inr None
                    | Some c \<Rightarrow> bindS (decode_cursor c) (\<lambda>p. Inr (Some p)))) (\<lambda>after_pos.
      bindE (select_om E (conversation_page E org_id cq after_pos)) (\<lambda>(rows, next_pos).
      ret (map (\<lambda>(c, i). summary c i) rows, map_option Cursor next_pos))))"

section \<open>Threads\<close>

definition message_position :: "message \<Rightarrow> position" where
  "message_position m = (Some (mg_created_at m), mg_id m)"

definition thread_page ::
  "string \<Rightarrow> string \<Rightarrow> int \<Rightarrow> (int \<times> string) option \<Rightarrow> omni_tables \<Rightarrow> message list \<times> position option" where
  "thread_page org_id conversation_id limit before t =
     (let rows = filter (\<lambda>m. mg_org_id m = org_id \<and> mg_conversation_id m = conversation_id \<and>
                   (case before of None \<Rightarrow> True
                    | Some (u, j) \<Rightarrow> mg_created_at m < u \<or> (mg_created_at m = u \<and> mg_id m < j))) (messages t);
          (newest_first, more) = page (clamp limit DEFAULT_MESSAGE_LIMIT) (in_order True message_position rows)
      in (rev newest_first,
          if more \<and> newest_first \<noteq> [] then Some (message_position (last newest_first)) else None))"

definition attachments_for ::
  "env \<Rightarrow> string \<Rightarrow> string list \<Rightarrow> ('z omni_world_scheme, (string \<times> attachment_view) list) op" where
  "attachments_for E org_id message_ids =
     (if message_ids = [] then ret []
      else
      bindE (select_om E (\<lambda>t. filter (\<lambda>a. ma_org_id a = org_id \<and> ma_message_id a \<in> set message_ids)
         (msg_attachments t))) (\<lambda>rows.
      mapE (\<lambda>a. bindE (signed_url_for_attachment E org_id (ma_s3_key a)) (\<lambda>url.
        ret (ma_message_id a,
             \<lparr>av_id = ma_id a, av_filename = filename_from_key (ma_s3_key a),
              av_content_type = ma_content_type a, av_size_bytes = ma_size_bytes a, av_url = url\<rparr>))) rows))"

text \<open>
  A cursor without a time, which the conversation list gives out, is refused by SQLAlchemy
  when the thread compares it with \<open><\<close>.
\<close>

definition decode_before :: "cursor option \<Rightarrow> exn + (int \<times> string) option" where
  "decode_before before = (case before of
     None \<Rightarrow> Inr None
   | Some c \<Rightarrow> bindS (decode_cursor c) (\<lambda>(t, i).
       case t of None \<Rightarrow> Inl (Exn (Py SqlArgumentError)) | Some u \<Rightarrow> Inr (Some (u, i))))"

definition get_conversation ::
  "env \<Rightarrow> string \<Rightarrow> string \<Rightarrow> string \<Rightarrow> int \<Rightarrow> cursor option
    \<Rightarrow> ('z omni_world_scheme, conversation_summary \<times> message_view list \<times> cursor option) op" where
  "get_conversation E org_id conversation_id user_id limit before =
     thenE (require_membership_omni E user_id org_id)
     (bindE (load_conversation E org_id conversation_id) (\<lambda>c.
     bindE (select_om E (\<lambda>t. row_get ci_id (cv_identity_id c) (identities t))) (\<lambda>i.
     case i of
       None \<Rightarrow> raise (Exn (Omni ConversationNotFoundError))
     | Some i \<Rightarrow>
     bindE (liftS (decode_before before)) (\<lambda>b.
     bindE (select_om E (thread_page org_id conversation_id limit b)) (\<lambda>(msgs, next_pos).
     bindE (attachments_for E org_id (map mg_id msgs)) (\<lambda>atts.
     ret (summary c i,
          map (\<lambda>m. message_view_of m (map snd (filter (\<lambda>a. fst a = mg_id m) atts))) msgs,
          map_option Cursor next_pos)))))))"

definition mark_read :: "env \<Rightarrow> string \<Rightarrow> string \<Rightarrow> string \<Rightarrow> ('z omni_world_scheme, conversation) op" where
  "mark_read E org_id conversation_id user_id =
     thenE (require_membership_omni E user_id org_id)
     (bindE (load_conversation E org_id conversation_id) (\<lambda>c.
     let c' = c\<lparr>cv_unread_count := 0\<rparr> in
     thenE (modify_om (save_conversation c'))
     (thenE (commit_om E) (ret c'))))"

end
