(* ===== verification/A2Z_Keyset.thy ===== *)
theory A2Z_Keyset
  imports A2Z_Inbox "HOL-Library.Multiset"
begin

text \<open>
  Keyset pagination: a client that follows the cursors of a listing gets every row of it,
  once and in order.  The contract of a listing is a locale, proved once and interpreted on
  the orders of \<open>inbox.py\<close>.
\<close>

section \<open>Sorting in passes\<close>

lemma insort_key_sorted_wrt:
  assumes "sorted_wrt (\<lambda>x y. f x < f y \<or> f x = f y \<and> R x y) ys" and "\<forall>y \<in> set ys. R x y"
  shows "sorted_wrt (\<lambda>x y. f x < f y \<or> f x = f y \<and> R x y) (insort_key f x ys)"
  using assms by (induction ys) (auto simp: set_insort_key)

lemma sort_key_sorted_wrt:
  "sorted_wrt R xs \<Longrightarrow> sorted_wrt (\<lambda>x y. f x < f y \<or> f x = f y \<and> R x y) (sort_key f xs)"
  by (induction xs) (auto simp: insort_key_sorted_wrt)

lemma sort_key_distinct_strict:
  "distinct (map f xs) \<Longrightarrow> sorted_wrt (\<lambda>x y. f x < f y) (sort_key f xs)"
  using strict_sorted_iff [of "map f (sort_key f xs)"] sorted_sort_key [of f xs]
  by (simp add: sorted_wrt_map distinct_map)

text \<open>A strict order leaves one way to list a set.\<close>

lemma sorted_wrt_unique:
  assumes "asymp_on (set xs) R"
  shows "sorted_wrt R xs \<Longrightarrow> sorted_wrt R ys \<Longrightarrow> set xs = set ys \<Longrightarrow> xs = ys"
  using assms
proof (induction xs arbitrary: ys)
  case (Cons x xs)
  then obtain y ys' where ys: "ys = y # ys'" by (cases ys) auto
  have irr: "\<not> R z z" if "z \<in> set (x # xs)" for z
    using Cons.prems(4) that by (auto dest: asymp_onD)
  have "x = y"
  proof (rule ccontr)
    assume "x \<noteq> y"
    then have "x \<in> set ys'" "y \<in> set xs" using Cons.prems(3) ys by auto
    then have "R y x" "R x y" using Cons.prems(1,2) ys by auto
    then show False using Cons.prems(4) \<open>y \<in> set xs\<close> by (auto dest: asymp_onD)
  qed
  moreover have "x \<notin> set xs" "x \<notin> set ys'"
    using Cons.prems(1,2) ys irr \<open>x = y\<close> by auto
  then have "set xs = set ys'" using Cons.prems(3) ys \<open>x = y\<close> by auto
  moreover have "asymp_on (set xs) R" using Cons.prems(4) by (rule asymp_on_subset) auto
  ultimately show ?case using Cons.IH [of ys'] Cons.prems(1,2) ys by simp
qed simp

section \<open>Following cursors\<close>

fun walk :: "nat \<Rightarrow> ('p option \<Rightarrow> 'r list \<times> 'p option) \<Rightarrow> 'p option \<Rightarrow> 'r list list option" where
  "walk 0 fetch c = None"
| "walk (Suc k) fetch c = (case fetch c of
     (items, None) \<Rightarrow> Some [items]
   | (items, Some p) \<Rightarrow> map_option (Cons items) (walk k fetch (Some p)))"

definition keyset_page ::
  "('p \<Rightarrow> 'p \<Rightarrow> bool) \<Rightarrow> ('r list \<Rightarrow> 'r list) \<Rightarrow> ('r \<Rightarrow> 'p) \<Rightarrow> nat \<Rightarrow> 'r list \<Rightarrow> 'p option
    \<Rightarrow> 'r list \<times> 'p option" where
  "keyset_page beyond arrange pos n rows c =
     (let (items, more) = page n (arrange (filter (\<lambda>r. case c of None \<Rightarrow> True | Some p \<Rightarrow> beyond p (pos r)) rows))
      in (items, if more \<and> items \<noteq> [] then Some (pos (last items)) else None))"

lemma page_conv: "page n xs = (take n xs, n < length xs)"
  by (auto simp: page_def Let_def)

locale keyset =
  fixes beyond :: "'q \<times> 'i \<Rightarrow> 'q \<times> 'i \<Rightarrow> bool" and arrange :: "'r list \<Rightarrow> 'r list"
    and pos :: "'r \<Rightarrow> 'q \<times> 'i" and fit :: "'q \<times> 'i \<Rightarrow> bool"
  assumes after_asym: "fit p \<Longrightarrow> fit q \<Longrightarrow> beyond p q \<Longrightarrow> \<not> beyond q p"
    and after_trans: "fit p \<Longrightarrow> fit q \<Longrightarrow> fit r \<Longrightarrow> beyond p q \<Longrightarrow> beyond q r \<Longrightarrow> beyond p r"
    and arrange_mset: "mset (arrange rows) = mset rows"
    and arrange_sorted: "distinct (map (\<lambda>r. snd (pos r)) rows) \<Longrightarrow> \<forall>r \<in> set rows. fit (pos r) \<Longrightarrow>
      sorted_wrt (\<lambda>r s. beyond (pos r) (pos s)) (arrange rows)"
begin

definition listable :: "'r list \<Rightarrow> bool" where
  "listable rows \<longleftrightarrow> distinct (map (\<lambda>r. snd (pos r)) rows) \<and> (\<forall>r \<in> set rows. fit (pos r))"

lemma arrange_set: "set (arrange rows) = set rows" "length (arrange rows) = length rows"
  using arrange_mset [of rows] by (metis mset_eq_setD, metis mset_eq_length)

lemma listable_filter: "listable rows \<Longrightarrow> listable (filter P rows)"
  by (auto simp: listable_def distinct_map_filter)

lemma arrange_unique:
  assumes "listable rows" "set ys = set rows" "sorted_wrt (\<lambda>r s. beyond (pos r) (pos s)) ys"
  shows "arrange rows = ys"
proof (rule sorted_wrt_unique [OF _ arrange_sorted assms(3)])
  show "asymp_on (set (arrange rows)) (\<lambda>r s. beyond (pos r) (pos s))"
    using assms(1) after_asym by (auto simp: asymp_on_def arrange_set listable_def)
qed (use assms in \<open>auto simp: listable_def arrange_set\<close>)

text \<open>The rows after the last row of a page are the rest of the listing.\<close>

lemma arrange_after:
  assumes "listable rows" and "arrange rows = xs @ y # ys"
  shows "arrange (filter (\<lambda>r. beyond (pos y) (pos r)) rows) = ys"
proof (rule arrange_unique)
  have sorted: "sorted_wrt (\<lambda>r s. beyond (pos r) (pos s)) (xs @ y # ys)"
    using arrange_sorted [of rows] assms by (simp add: listable_def)
  then show "sorted_wrt (\<lambda>r s. beyond (pos r) (pos s)) ys" by (simp add: sorted_wrt_append)
  have rows: "set rows = set xs \<union> {y} \<union> set ys" using arrange_set(1) [of rows] assms(2) by auto
  have fit: "fit (pos r)" if "r \<in> set rows" for r using assms(1) that by (auto simp: listable_def)
  have "\<not> beyond (pos y) (pos x)" if "x \<in> set xs \<union> {y}" for x
    using sorted that after_asym [of "pos y" "pos x"] after_asym [of "pos y" "pos y"] fit rows
    by (auto simp: sorted_wrt_append)
  then show "set ys = set (filter (\<lambda>r. beyond (pos y) (pos r)) rows)"
    using sorted rows by (auto simp: sorted_wrt_append)
qed (use assms(1) in \<open>rule listable_filter\<close>)

definition rest_of :: "'r list \<Rightarrow> ('q \<times> 'i) option \<Rightarrow> 'r list" where
  "rest_of rows c = filter (\<lambda>r. case c of None \<Rightarrow> True | Some p \<Rightarrow> beyond p (pos r)) rows"

lemma rest_of_last:
  assumes "listable rows" "case c of None \<Rightarrow> True | Some p \<Rightarrow> fit p"
    and "arrange (rest_of rows c) = xs @ y # ys"
  shows "arrange (rest_of rows (Some (pos y))) = ys" and "fit (pos y)"
proof -
  have y: "y \<in> set (rest_of rows c)" using arrange_set(1) [of "rest_of rows c"] assms(3) by auto
  then show "fit (pos y)" using assms(1) by (auto simp: listable_def rest_of_def)
  have "case c of None \<Rightarrow> True | Some p \<Rightarrow> beyond p (pos r)" if "r \<in> set rows" "beyond (pos y) (pos r)" for r
    using assms(1,2) y that after_trans [of _ "pos y" "pos r"]
    by (auto simp: rest_of_def listable_def split: option.splits)
  then have "filter (\<lambda>r. beyond (pos y) (pos r)) (rest_of rows c) = rest_of rows (Some (pos y))"
    by (auto simp: rest_of_def intro!: filter_cong)
  with arrange_after [OF listable_filter [OF assms(1)] assms(3) [unfolded rest_of_def]]
  show "arrange (rest_of rows (Some (pos y))) = ys" by (simp add: rest_of_def)
qed

lemma walk_complete:
  assumes "listable rows" "0 < n" "case c of None \<Rightarrow> True | Some p \<Rightarrow> fit p"
    and "length (rest_of rows c) < k"
  shows "\<exists>pages. walk k (keyset_page beyond arrange pos n rows) c = Some pages \<and>
    concat pages = arrange (rest_of rows c) \<and> (\<forall>p \<in> set pages. length p \<le> n)"
  using assms(3,4)
proof (induction k arbitrary: c)
  case (Suc k)
  define xs where "xs = arrange (rest_of rows c)"
  have fetch: "keyset_page beyond arrange pos n rows c =
      (take n xs, if n < length xs then Some (pos (last (take n xs))) else None)"
    using assms(2) by (auto simp: keyset_page_def page_conv rest_of_def [symmetric] xs_def)
  show ?case
  proof (cases "n < length xs")
    case True
    define y where "y = last (take n xs)"
    have "butlast (take n xs) @ [y] = take n xs"
      using assms(2) True unfolding y_def by (intro append_butlast_last_id) auto
    then have "xs = (butlast (take n xs) @ [y]) @ drop n xs" by simp
    then have split: "arrange (rest_of rows c) = butlast (take n xs) @ y # drop n xs"
      unfolding xs_def by simp
    note next_page = rest_of_last [OF assms(1) Suc.prems(1) split]
    have "length (rest_of rows (Some (pos y))) < k"
      using arrange_set(2) [of "rest_of rows (Some (pos y))"] arrange_set(2) [of "rest_of rows c"]
        next_page(1) Suc.prems(2) True assms(2) by (simp add: xs_def)
    from Suc.IH [OF _ this] next_page obtain pages
      where "walk k (keyset_page beyond arrange pos n rows) (Some (pos y)) = Some pages"
        "concat pages = drop n xs" "\<forall>p \<in> set pages. length p \<le> n" by auto
    with fetch True show ?thesis by (auto simp: y_def xs_def)
  qed (use fetch in \<open>simp add: xs_def\<close>)
qed simp

corollary walk_all:
  assumes "listable rows" "0 < n" "length rows < k"
  obtains pages where "walk k (keyset_page beyond arrange pos n rows) None = Some pages"
    "concat pages = arrange rows" "\<forall>p \<in> set pages. length p \<le> n"
  using walk_complete [of rows n None k] assms by (auto simp: rest_of_def)

end

section \<open>The orders of the inbox\<close>

lemma in_order_mset: "mset (in_order d pos rows) = mset rows"
  by (simp add: in_order_def Let_def)

lemma set_in_order [simp]: "set (in_order d pos rows) = set rows"
  by (rule mset_eq_setD [OF in_order_mset])

lemma length_in_order [simp]: "length (in_order d pos rows) = length rows"
  by (rule mset_eq_length [OF in_order_mset])

text \<open>The order of the \<open>ORDER BY\<close> clause on positions.\<close>

definition precedes :: "bool \<Rightarrow> position \<Rightarrow> position \<Rightarrow> bool" where
  "precedes d p q \<longleftrightarrow> (case time_rank d (fst p) of (a, b) \<Rightarrow> case time_rank d (fst q) of (a', b') \<Rightarrow>
     [a, b] < [a', b'] \<or> [a, b] = [a', b'] \<and> (if d then snd q < snd p else snd p < snd q))"

lemma in_order_sorted:
  assumes "distinct (map (\<lambda>r. snd (pos r)) rows)"
  shows "sorted_wrt (\<lambda>r s. precedes d (pos r) (pos s)) (in_order d pos rows)"
proof -
  let ?R = "\<lambda>r s. if d then snd (pos s) < snd (pos r) else snd (pos r) < snd (pos s)"
  have "sorted_wrt ?R (if d then rev (sort_key (\<lambda>r. snd (pos r)) rows) else sort_key (\<lambda>r. snd (pos r)) rows)"
    using sort_key_distinct_strict [OF assms] by (simp add: sorted_wrt_rev)
  from sort_key_sorted_wrt [OF this, where f = "\<lambda>r. case time_rank d (fst (pos r)) of (a, b) \<Rightarrow> [a, b]"]
  show ?thesis
    unfolding in_order_def Let_def precedes_def
    by (rule sorted_wrt_mono_rel [rotated]) (auto split: prod.splits)
qed

lemma precedes_after:
  "precedes True p q \<longleftrightarrow> after_position True p q"
  "fst q \<noteq> None \<Longrightarrow> precedes False p q \<longleftrightarrow> after_position False p q"
  by (cases p; cases q; cases "fst p"; cases "fst q"; auto simp: precedes_def time_rank_def)+

lemma precedes_asym: "precedes d p q \<Longrightarrow> \<not> precedes d q p"
  and precedes_trans: "precedes d p q \<Longrightarrow> precedes d q r \<Longrightarrow> precedes d p r"
  by (auto simp: precedes_def split: prod.splits if_splits)

lemma newest_keyset: "keyset (after_position True) (in_order True pos) pos (\<lambda>_. True)"
proof (rule keyset.intro)
  show "after_position True p q \<Longrightarrow> \<not> after_position True q p" for p q
    unfolding precedes_after(1) [symmetric] by (rule precedes_asym)
  show "after_position True p q \<Longrightarrow> after_position True q r \<Longrightarrow> after_position True p r" for p q r
    unfolding precedes_after(1) [symmetric] by (rule precedes_trans)
  show "distinct (map (\<lambda>r. snd (pos r)) rows) \<Longrightarrow>
      sorted_wrt (\<lambda>r s. after_position True (pos r) (pos s)) (in_order True pos rows)" for rows
    unfolding precedes_after(1) [symmetric] by (rule in_order_sorted)
qed (rule in_order_mset)

lemma oldest_keyset: "keyset (after_position False) (in_order False pos) pos (\<lambda>p. fst p \<noteq> None)"
proof (rule keyset.intro)
  fix rows
  assume fit: "\<forall>r \<in> set rows. fst (pos r) \<noteq> None" and "distinct (map (\<lambda>r. snd (pos r)) rows)"
  from in_order_sorted [OF this(2), of False]
  show "sorted_wrt (\<lambda>r s. after_position False (pos r) (pos s)) (in_order False pos rows)"
  proof (rule sorted_wrt_mono_rel [rotated])
    fix x y
    assume "y \<in> set (in_order False pos rows)" "precedes False (pos x) (pos y)"
    then show "after_position False (pos x) (pos y)"
      using fit precedes_after(2) [of "pos y" "pos x"] by simp
  qed
next
  fix p q r :: position
  assume "fst p \<noteq> None" "fst q \<noteq> None"
  note after = precedes_after(2) [OF this(1)] precedes_after(2) [OF this(2)]
  show "after_position False p q \<Longrightarrow> \<not> after_position False q p"
    unfolding after [symmetric] by (rule precedes_asym)
  assume r: "fst r \<noteq> None"
  show "after_position False p q \<Longrightarrow> after_position False q r \<Longrightarrow> after_position False p r"
    unfolding after [symmetric] precedes_after(2) [OF r, symmetric] by (rule precedes_trans)
qed (simp add: in_order_mset)

end
