(* ===== verification/A2Z_OmniRules.thy ===== *)
theory A2Z_OmniRules
  imports A2Z_Inbox
begin

text \<open>
  What holds of the omni-channel tables, and how they may change: the references stay
  within an organisation, a conversation is assigned to the user of its last assignment,
  a customer has one conversation; rows are appended or updated in place, never removed.
\<close>

section \<open>Tables that only grow\<close>

text \<open>Every old row, in its place, has become a row it is related to; new rows follow.\<close>

definition grown :: "('r \<Rightarrow> 'r \<Rightarrow> bool) \<Rightarrow> ('r \<Rightarrow> bool) \<Rightarrow> 'r list \<Rightarrow> 'r list \<Rightarrow> bool" where
  "grown R N xs ys \<longleftrightarrow> (\<exists>us vs. ys = us @ vs \<and> list_all2 R xs us \<and> list_all N vs)"

lemma grownI: "ys = us @ vs \<Longrightarrow> list_all2 R xs us \<Longrightarrow> list_all N vs \<Longrightarrow> grown R N xs ys"
  by (auto simp: grown_def)

lemma grown_refl: "(\<And>x. R x x) \<Longrightarrow> grown R N xs xs"
  by (rule grownI [where us = xs and vs = "[]"]) (simp_all add: list_all2_refl)

lemma grown_append: "(\<And>x. R x x) \<Longrightarrow> list_all N vs \<Longrightarrow> grown R N xs (xs @ vs)"
  by (rule grownI [where us = xs and vs = vs]) (simp_all add: list_all2_refl)

lemma grown_upd:
  assumes "\<And>x. x \<in> set xs \<Longrightarrow> key x = k \<Longrightarrow> R x y" and "\<And>x. R x x"
  shows "grown R N xs (row_upd key k (\<lambda>_. y) xs)"
proof -
  have "list_all2 R xs (row_upd key k (\<lambda>_. y) xs)"
    using assms by (auto simp: row_upd_def list_all2_conv_all_nth)
  then show ?thesis by (rule grownI [rotated, where vs = "[]"]) simp_all
qed

lemma grown_trans:
  assumes "\<And>x y z. R x y \<Longrightarrow> R y z \<Longrightarrow> R x z" and "\<And>x y. N x \<Longrightarrow> R x y \<Longrightarrow> N y"
    and "grown R N xs ys" "grown R N ys zs"
  shows "grown R N xs zs"
proof -
  from assms(3) obtain us vs where ys: "ys = us @ vs" "list_all2 R xs us" "list_all N vs"
    by (auto simp: grown_def)
  from assms(4) ys(1) obtain us' vs' ws where
    zs: "zs = us' @ vs' @ ws" "list_all2 R us us'" "list_all2 R vs vs'" "list_all N ws"
    by (auto simp: grown_def list_all2_append1)
  have "list_all2 R xs us'" using list_all2_trans [OF _ ys(2) zs(2)] assms(1) by blast
  moreover have "list_all N vs'"
    using ys(3) zs(3) assms(2) by (auto simp: list_all2_conv_all_nth list_all_length)
  ultimately show ?thesis
    using zs(1,4) by (intro grownI [where us = us' and vs = "vs' @ ws"]) simp_all
qed

lemma grown_mono: "grown R N xs ys \<Longrightarrow> (\<And>x y. R x y \<Longrightarrow> R' x y) \<Longrightarrow> (\<And>x. N x \<Longrightarrow> N' x) \<Longrightarrow> grown R' N' xs ys"
  unfolding grown_def by (metis list_all2_mono list.pred_mono_strong)

lemma grown_old:
  assumes "grown R N xs ys" and "x \<in> set xs"
  shows "\<exists>y \<in> set ys. R x y"
  using assms by (auto simp: grown_def list_all2_conv_all_nth in_set_conv_nth) (metis nth_mem Un_iff)

section \<open>Evolution\<close>

text \<open>What later versions of a row keep, when the organisations in \<open>S\<close> act.\<close>

definition cn_follows :: "string set \<Rightarrow> channel_connection \<Rightarrow> channel_connection \<Rightarrow> bool" where
  "cn_follows S c c' \<longleftrightarrow> cn_id c' = cn_id c \<and> cn_org_id c' = cn_org_id c \<and>
     cn_channel_type c' = cn_channel_type c \<and> cn_provider_account_id c' = cn_provider_account_id c \<and>
     cn_credentials_secret_key c' = cn_credentials_secret_key c \<and> cn_created_at c' = cn_created_at c \<and>
     (cn_status c = ''disabled'' \<longrightarrow> cn_status c' = ''disabled'') \<and> (cn_org_id c \<notin> S \<longrightarrow> c' = c)"

definition cv_follows :: "string set \<Rightarrow> conversation \<Rightarrow> conversation \<Rightarrow> bool" where
  "cv_follows S c c' \<longleftrightarrow> cv_id c' = cv_id c \<and> cv_org_id c' = cv_org_id c \<and>
     cv_identity_id c' = cv_identity_id c \<and> cv_created_at c' = cv_created_at c \<and> cv_status c' = cv_status c \<and>
     (cv_assigned_user_id c \<noteq> None \<longrightarrow> cv_assigned_user_id c' \<noteq> None) \<and>
     (cv_last_message_at c \<noteq> None \<longrightarrow> cv_last_message_at c' \<noteq> None) \<and> (cv_org_id c \<notin> S \<longrightarrow> c' = c)"

definition mg_follows :: "string set \<Rightarrow> message \<Rightarrow> message \<Rightarrow> bool" where
  "mg_follows S m m' \<longleftrightarrow> m' = m\<lparr>mg_external_id := mg_external_id m', mg_status := mg_status m'\<rparr> \<and>
     (mg_org_id m \<notin> S \<longrightarrow> m' = m)"

definition evolves :: "string set \<Rightarrow> omni_tables \<Rightarrow> omni_tables \<Rightarrow> bool" where
  "evolves S t t' \<longleftrightarrow>
     grown (cn_follows S) (\<lambda>c. cn_org_id c \<in> S) (connections t) (connections t') \<and>
     grown (=) (\<lambda>i. ci_org_id i \<in> S) (identities t) (identities t') \<and>
     grown (cv_follows S) (\<lambda>c. cv_org_id c \<in> S) (conversations t) (conversations t') \<and>
     grown (mg_follows S) (\<lambda>m. mg_org_id m \<in> S) (messages t) (messages t') \<and>
     grown (=) (\<lambda>a. ma_org_id a \<in> S) (msg_attachments t) (msg_attachments t') \<and>
     grown (=) (\<lambda>a. as_org_id a \<in> S) (assignments t) (assignments t')"

lemma follows_refls [simp]: "cn_follows S c c" "cv_follows S v v" "mg_follows S m m"
  by (simp_all add: cn_follows_def cv_follows_def mg_follows_def)

lemma cn_follows_trans: "cn_follows S x y \<Longrightarrow> cn_follows S y z \<Longrightarrow> cn_follows S x z"
  and cv_follows_trans: "cv_follows S a b \<Longrightarrow> cv_follows S b c \<Longrightarrow> cv_follows S a c"
  by (auto simp: cn_follows_def cv_follows_def)

lemma mg_follows_keeps:
  "mg_follows S m m' \<Longrightarrow> mg_id m' = mg_id m \<and> mg_org_id m' = mg_org_id m \<and>
     mg_conversation_id m' = mg_conversation_id m \<and> mg_channel_type m' = mg_channel_type m"
  by (cases m; cases m') (simp add: mg_follows_def)

lemma mg_follows_other: "mg_follows S m m' \<Longrightarrow> mg_org_id m \<notin> S \<Longrightarrow> m' = m"
  by (simp add: mg_follows_def)

lemma mg_follows_trans: "mg_follows S x y \<Longrightarrow> mg_follows S y z \<Longrightarrow> mg_follows S x z"
  by (cases x; cases y; cases z) (auto simp: mg_follows_def)

lemma evolves_refl [simp]: "evolves S t t"
  by (simp add: evolves_def grown_refl)

lemma evolves_trans:
  assumes "evolves S a b" and "evolves S b c"
  shows "evolves S a c"
proof -
  note cn = grown_trans [where R = "cn_follows S" and N = "\<lambda>c. cn_org_id c \<in> S", OF cn_follows_trans]
  note cv = grown_trans [where R = "cv_follows S" and N = "\<lambda>c. cv_org_id c \<in> S", OF cv_follows_trans]
  note mg = grown_trans [where R = "mg_follows S" and N = "\<lambda>m. mg_org_id m \<in> S", OF mg_follows_trans]
  note eq = grown_trans [where R = "(=)"]
  from assms show ?thesis
    unfolding evolves_def
    by (elim conjE, intro conjI)
      (rule cn cv mg eq; assumption?; simp add: cn_follows_def cv_follows_def mg_follows_keeps)+
qed


text \<open>What an organisation sees of the tables.\<close>

definition org_part :: "string \<Rightarrow> omni_tables \<Rightarrow> omni_tables" where
  "org_part g t = \<lparr>connections = filter (\<lambda>c. cn_org_id c = g) (connections t),
     identities = filter (\<lambda>i. ci_org_id i = g) (identities t),
     conversations = filter (\<lambda>c. cv_org_id c = g) (conversations t),
     messages = filter (\<lambda>m. mg_org_id m = g) (messages t),
     msg_attachments = filter (\<lambda>a. ma_org_id a = g) (msg_attachments t),
     assignments = filter (\<lambda>a. as_org_id a = g) (assignments t)\<rparr>"

lemma grown_filter:
  assumes "grown R N xs ys" and "\<And>x y. R x y \<Longrightarrow> P y = P x \<and> (P x \<longrightarrow> y = x)" and "\<And>y. N y \<Longrightarrow> \<not> P y"
  shows "filter P ys = filter P xs"
proof -
  from assms(1) obtain us vs where ys: "ys = us @ vs" "list_all2 R xs us" "list_all N vs"
    by (auto simp: grown_def)
  from ys(2) have "filter P us = filter P xs"
    by (induction rule: list_all2_induct) (use assms(2) in auto)
  moreover have "filter P vs = []"
    using ys(3) assms(3) by (auto simp: filter_empty_conv list_all_iff)
  ultimately show ?thesis using ys(1) by simp
qed

lemma evolves_isolated: "evolves S t t' \<Longrightarrow> g \<notin> S \<Longrightarrow> org_part g t' = org_part g t"
  unfolding evolves_def org_part_def
  by (elim conjE, intro omni_tables.equality; simp)
    (erule grown_filter; auto simp: cn_follows_def cv_follows_def dest: mg_follows_keeps mg_follows_other)+

section \<open>References and assignments\<close>

definition last_assignee :: "string \<Rightarrow> assignment list \<Rightarrow> string option" where
  "last_assignee i xs = fold (\<lambda>a u. if as_conversation_id a = i then Some (as_assigned_user_id a) else u) xs None"

definition conversation_linked :: "omni_tables \<Rightarrow> conversation \<Rightarrow> bool" where
  "conversation_linked t c \<longleftrightarrow>
     (\<exists>i \<in> set (identities t). ci_id i = cv_identity_id c \<and> ci_org_id i = cv_org_id c) \<and>
     cv_assigned_user_id c = last_assignee (cv_id c) (assignments t)"

definition message_linked :: "omni_tables \<Rightarrow> message \<Rightarrow> bool" where
  "message_linked t m \<longleftrightarrow> (\<exists>c \<in> set (conversations t). \<exists>i \<in> set (identities t).
     cv_id c = mg_conversation_id m \<and> cv_org_id c = mg_org_id m \<and>
     ci_id i = cv_identity_id c \<and> ci_channel_type i = mg_channel_type m)"

definition attachment_linked :: "omni_tables \<Rightarrow> message_attachment \<Rightarrow> bool" where
  "attachment_linked t a \<longleftrightarrow> (\<exists>m \<in> set (messages t). mg_id m = ma_message_id a \<and> mg_org_id m = ma_org_id a)"

definition assignment_linked :: "omni_tables \<Rightarrow> assignment \<Rightarrow> bool" where
  "assignment_linked t a \<longleftrightarrow>
     (\<exists>c \<in> set (conversations t). cv_id c = as_conversation_id a \<and> cv_org_id c = as_org_id a)"

definition linked :: "omni_tables \<Rightarrow> bool" where
  "linked t \<longleftrightarrow> list_all (conversation_linked t) (conversations t) \<and>
     list_all (message_linked t) (messages t) \<and> list_all (attachment_linked t) (msg_attachments t) \<and>
     list_all (assignment_linked t) (assignments t) \<and> distinct (map cv_identity_id (conversations t))"

definition good :: "omni_tables \<Rightarrow> bool" where
  "good t \<longleftrightarrow> omni_check t = None \<and> linked t"

lemma good_distinct:
  "good t \<Longrightarrow> distinct (map cn_id (connections t)) \<and> distinct (map ci_id (identities t)) \<and>
     distinct (map cv_id (conversations t)) \<and> distinct (map mg_id (messages t))"
  using omni_check_None by (auto simp: good_def omni_unique_def)

lemma links_mono:
  assumes "set (identities d) \<subseteq> set (identities d')"
  shows "conversation_linked d c \<Longrightarrow> assignments d' = assignments d \<Longrightarrow> conversation_linked d' c"
    and "message_linked d m \<Longrightarrow> set (conversations d) \<subseteq> set (conversations d') \<Longrightarrow> message_linked d' m"
    and "attachment_linked d a \<Longrightarrow> set (messages d) \<subseteq> set (messages d') \<Longrightarrow> attachment_linked d' a"
    and "assignment_linked d s \<Longrightarrow> set (conversations d) \<subseteq> set (conversations d') \<Longrightarrow> assignment_linked d' s"
  using assms
  unfolding conversation_linked_def message_linked_def attachment_linked_def assignment_linked_def
  by (auto; blast)+

section \<open>The changes the code makes\<close>

text \<open>The working copy of a request, on the way from the tables \<open>t\<close>.\<close>

definition draft :: "string set \<Rightarrow> omni_tables \<Rightarrow> omni_tables \<Rightarrow> bool" where
  "draft S t d \<longleftrightarrow> evolves S t d \<and> linked d"

lemma draft_refl: "good t \<Longrightarrow> draft S t t"
  by (simp add: draft_def good_def)

lemmas linked_defs = linked_def conversation_linked_def message_linked_def attachment_linked_def assignment_linked_def

lemma draft_connection:
  assumes "draft S t d" and "cn_org_id c \<in> S"
  shows "draft S t (d\<lparr>connections := connections d @ [c]\<rparr>)"
proof -
  have "evolves S d (d\<lparr>connections := connections d @ [c]\<rparr>)"
    using assms(2) by (simp add: evolves_def grown_refl grown_append)
  moreover have "linked (d\<lparr>connections := connections d @ [c]\<rparr>)"
    using assms(1) by (simp add: draft_def linked_defs list_all_iff)
  ultimately show ?thesis using assms(1) evolves_trans by (auto simp: draft_def)
qed

lemma draft_connection_upd:
  assumes "draft S t d" and "\<And>x. x \<in> set (connections d) \<Longrightarrow> cn_id x = k \<Longrightarrow> cn_follows S x c"
  shows "draft S t (d\<lparr>connections := row_upd cn_id k (\<lambda>_. c) (connections d)\<rparr>)"
proof -
  have "evolves S d (d\<lparr>connections := row_upd cn_id k (\<lambda>_. c) (connections d)\<rparr>)"
    using assms(2) by (simp add: evolves_def grown_refl grown_upd)
  moreover have "linked (d\<lparr>connections := row_upd cn_id k (\<lambda>_. c) (connections d)\<rparr>)"
    using assms(1) by (simp add: draft_def linked_defs list_all_iff)
  ultimately show ?thesis using assms(1) evolves_trans by (auto simp: draft_def)
qed

lemma draft_identity:
  assumes "draft S t d" and "ci_org_id i \<in> S"
  shows "draft S t (d\<lparr>identities := identities d @ [i]\<rparr>)"
proof -
  have "evolves S d (d\<lparr>identities := identities d @ [i]\<rparr>)"
    using assms(2) by (simp add: evolves_def grown_refl grown_append)
  moreover have "linked (d\<lparr>identities := identities d @ [i]\<rparr>)"
    using assms(1) by (auto simp: draft_def linked_def list_all_iff intro: links_mono)
  ultimately show ?thesis using assms(1) evolves_trans by (auto simp: draft_def)
qed


lemma last_assignee_simps [simp]:
  "last_assignee i [] = None"
  "last_assignee i (xs @ [a]) = (if as_conversation_id a = i then Some (as_assigned_user_id a) else last_assignee i xs)"
  by (simp_all add: last_assignee_def)

lemma last_assignee_None: "(\<And>a. a \<in> set xs \<Longrightarrow> as_conversation_id a \<noteq> i) \<Longrightarrow> last_assignee i xs = None"
  by (induction xs rule: rev_induct) auto

lemma draft_conversation:
  assumes d: "draft S t d" and c: "cv_org_id c \<in> S" "cv_assigned_user_id c = None"
    and i: "i \<in> set (identities d)" "ci_id i = cv_identity_id c" "ci_org_id i = cv_org_id c"
    and ids: "distinct (map ci_id (identities d))"
    and none: "filter (\<lambda>x. cv_org_id x = cv_org_id c \<and> cv_identity_id x = cv_identity_id c) (conversations d) = []"
    and fresh: "cv_id c \<notin> cv_id ` set (conversations d)"
  shows "draft S t (d\<lparr>conversations := conversations d @ [c]\<rparr>)" (is "draft S t ?d")
proof -
  from d have l: "linked d" by (simp add: draft_def)
  have "evolves S d ?d" using c by (simp add: evolves_def grown_refl grown_append)
  moreover have "linked ?d"
    unfolding linked_def
  proof (intro conjI)
    have "last_assignee (cv_id c) (assignments d) = None"
    proof (rule last_assignee_None)
      fix a
      assume "a \<in> set (assignments d)"
      with l have "assignment_linked d a" by (simp add: linked_def list_all_iff)
      then obtain x where "x \<in> set (conversations d)" "cv_id x = as_conversation_id a"
        by (auto simp: assignment_linked_def)
      with fresh show "as_conversation_id a \<noteq> cv_id c" by (auto simp: image_iff)
    qed
    with c i have "conversation_linked ?d c" by (auto simp: conversation_linked_def)
    moreover have "conversation_linked ?d x" if "conversation_linked d x" for x
      using links_mono(1) [OF _ that] by simp
    ultimately show "list_all (conversation_linked ?d) (conversations ?d)"
      using l by (simp add: linked_def list_all_iff)
    have new: "cv_identity_id c \<noteq> cv_identity_id x" if x: "x \<in> set (conversations d)" for x
    proof
      assume "cv_identity_id c = cv_identity_id x"
      then have eq: "cv_identity_id x = cv_identity_id c" ..
      from l x obtain j where j: "j \<in> set (identities d)" "ci_id j = cv_identity_id x" "ci_org_id j = cv_org_id x"
        by (auto simp: linked_def list_all_iff conversation_linked_def)
      with i eq ids have "j = i" by (auto simp: distinct_map inj_on_def)
      with i j eq x none show False by (auto simp: filter_empty_conv)
    qed
    with l show "distinct (map cv_identity_id (conversations ?d))"
      by (auto simp: linked_def dest: new)
  qed (use l in \<open>auto simp: linked_def list_all_iff intro: links_mono\<close>)
  ultimately show ?thesis using d evolves_trans by (auto simp: draft_def)
qed

lemma draft_message:
  assumes d: "draft S t d" and m: "mg_org_id m \<in> S" "message_linked d m"
  shows "draft S t (d\<lparr>messages := messages d @ [m]\<rparr>)" (is "draft S t ?d")
proof -
  have "evolves S d ?d" using m by (simp add: evolves_def grown_refl grown_append)
  moreover have "message_linked ?d x" if "message_linked d x" for x
    using links_mono(2) [OF _ that] by simp
  then have "linked ?d"
    using d m by (auto simp: draft_def linked_def list_all_iff intro: links_mono)
  ultimately show ?thesis using d evolves_trans by (auto simp: draft_def)
qed

lemma draft_attachment:
  assumes d: "draft S t d" and a: "ma_org_id a \<in> S" "attachment_linked d a"
  shows "draft S t (d\<lparr>msg_attachments := msg_attachments d @ [a]\<rparr>)" (is "draft S t ?d")
proof -
  have "evolves S d ?d" using a by (simp add: evolves_def grown_refl grown_append)
  moreover have "attachment_linked ?d x" if "attachment_linked d x" for x
    using links_mono(3) [OF _ that] by simp
  then have "linked ?d"
    using d a by (auto simp: draft_def linked_def list_all_iff intro: links_mono)
  ultimately show ?thesis using d evolves_trans by (auto simp: draft_def)
qed

lemma map_row_upd_same:
  "(\<And>x. x \<in> set xs \<Longrightarrow> key x = k \<Longrightarrow> f y = f x) \<Longrightarrow> map f (row_upd key k (\<lambda>_. y) xs) = map f xs"
  by (auto simp: row_upd_def)

text \<open>Saving a conversation whose id, organisation and customer are those of a stored one.\<close>

lemma saved_conversations:
  assumes "distinct (map cv_id (conversations d))" and "c \<in> set (conversations d)" and "cv_follows S c c'"
  shows "\<And>x. x \<in> set (conversations d) \<Longrightarrow> cv_id x = cv_id c' \<Longrightarrow> x = c"
    and "grown (cv_follows S) N (conversations d) (row_upd cv_id (cv_id c') (\<lambda>_. c') (conversations d))"
    and "map cv_identity_id (row_upd cv_id (cv_id c') (\<lambda>_. c') (conversations d)) = map cv_identity_id (conversations d)"
proof -
  show same: "x = c" if "x \<in> set (conversations d)" "cv_id x = cv_id c'" for x
    using assms that by (auto simp: cv_follows_def distinct_map inj_on_def)
  with assms(3) show "grown (cv_follows S) N (conversations d) (row_upd cv_id (cv_id c') (\<lambda>_. c') (conversations d))"
    by (intro grown_upd) auto
  from same assms(3)
  show "map cv_identity_id (row_upd cv_id (cv_id c') (\<lambda>_. c') (conversations d)) = map cv_identity_id (conversations d)"
    by (intro map_row_upd_same) (auto simp: cv_follows_def)
qed

lemma saved_conversation_links:
  assumes "distinct (map cv_id (conversations d))" and "c \<in> set (conversations d)" and "cv_follows S c c'"
  shows "message_linked d m \<Longrightarrow> message_linked (save_conversation c' d) m"
    and "assignment_linked d a \<Longrightarrow> assignment_linked (save_conversation c' d) a"
proof -
  let ?cs = "row_upd cv_id (cv_id c') (\<lambda>_. c') (conversations d)"
  have old: "\<exists>y \<in> set ?cs. cv_follows S x y" if "x \<in> set (conversations d)" for x
    using grown_old [OF saved_conversations(2) [OF assms]] that by blast
  show "message_linked (save_conversation c' d) m" if m: "message_linked d m"
  proof -
    from m obtain x i where x: "x \<in> set (conversations d)" "cv_id x = mg_conversation_id m"
        "cv_org_id x = mg_org_id m" and i: "i \<in> set (identities d)" "ci_id i = cv_identity_id x"
        "ci_channel_type i = mg_channel_type m"
      by (auto simp: message_linked_def)
    from old [OF x(1)] obtain y where "y \<in> set ?cs" "cv_follows S x y" by blast
    with x i show ?thesis
      unfolding message_linked_def
      by (intro bexI [where x = y] bexI [where x = i]) (auto simp: save_conversation_def cv_follows_def)
  qed
  show "assignment_linked (save_conversation c' d) a" if a: "assignment_linked d a"
  proof -
    from a obtain x where x: "x \<in> set (conversations d)" "cv_id x = as_conversation_id a"
        "cv_org_id x = as_org_id a" by (auto simp: assignment_linked_def)
    from old [OF x(1)] obtain y where "y \<in> set ?cs" "cv_follows S x y" by blast
    with x show ?thesis
      unfolding assignment_linked_def
      by (intro bexI [where x = y]) (auto simp: save_conversation_def cv_follows_def)
  qed
qed


lemma draft_save_conversation:
  assumes d: "draft S t d" and c: "distinct (map cv_id (conversations d))" "c \<in> set (conversations d)"
      "cv_follows S c c'" and u: "cv_assigned_user_id c' = cv_assigned_user_id c"
  shows "draft S t (save_conversation c' d)" (is "draft S t ?d")
proof -
  note saved = saved_conversations [OF c] saved_conversation_links [OF c]
  have "evolves S d ?d"
    using saved(2) by (simp add: evolves_def save_conversation_def grown_refl)
  moreover have "linked ?d"
    unfolding linked_def
  proof (intro conjI)
    from d have l: "linked d" by (simp add: draft_def)
    have "conversation_linked ?d x" if "x \<in> set (conversations ?d)" for x
    proof -
      have new: "conversation_linked ?d y" if "conversation_linked d y" for y
        using that by (simp add: conversation_linked_def save_conversation_def)
      from l c have "conversation_linked d c" by (simp add: linked_def list_all_iff)
      with c(3) u have "conversation_linked d c'" by (simp add: conversation_linked_def cv_follows_def)
      moreover from that have "x = c' \<or> x \<in> set (conversations d)"
        by (auto simp: save_conversation_def row_upd_def)
      ultimately show ?thesis using l new by (auto simp: linked_def list_all_iff)
    qed
    then show "list_all (conversation_linked ?d) (conversations ?d)" by (simp add: list_all_iff)
    show "distinct (map cv_identity_id (conversations ?d))"
      using l saved(3) by (simp add: linked_def save_conversation_def)
    have same: "messages ?d = messages d" "msg_attachments ?d = msg_attachments d"
      "assignments ?d = assignments d" by (simp_all add: save_conversation_def)
    show "list_all (message_linked ?d) (messages ?d)" "list_all (assignment_linked ?d) (assignments ?d)"
      "list_all (attachment_linked ?d) (msg_attachments ?d)"
      using l saved(4,5) by (auto simp: linked_def list_all_iff same attachment_linked_def)
  qed
  ultimately show ?thesis using d evolves_trans by (auto simp: draft_def)
qed

text \<open>A new assignee, together with its row in the history.\<close>

lemma draft_assign:
  assumes d: "draft S t d" and c: "distinct (map cv_id (conversations d))" "c \<in> set (conversations d)"
      and S: "cv_org_id c \<in> S"
      and a: "as_conversation_id a = cv_id c" "as_org_id a = cv_org_id c" "as_assigned_user_id a = u"
  shows "draft S t ((save_conversation (c\<lparr>cv_assigned_user_id := Some u\<rparr>) d)\<lparr>assignments := assignments d @ [a]\<rparr>)"
    (is "draft S t ?d")
proof -
  let ?c = "c\<lparr>cv_assigned_user_id := Some u\<rparr>"
  have f: "cv_follows S c ?c" using S by (simp add: cv_follows_def)
  note saved = saved_conversations [OF c f] saved_conversation_links [OF c f]
  have "evolves S d ?d"
    using saved(2) S a by (simp add: evolves_def save_conversation_def grown_refl grown_append)
  moreover have "linked ?d"
    unfolding linked_def
  proof (intro conjI)
    from d have l: "linked d" by (simp add: draft_def)
    have "conversation_linked ?d x" if "x \<in> set (conversations ?d)" for x
    proof (cases "x = ?c")
      case True
      from l c have "conversation_linked d c" by (simp add: linked_def list_all_iff)
      with True a show ?thesis by (auto simp: conversation_linked_def save_conversation_def)
    next
      case False
      with that have x: "x \<in> set (conversations d)" "cv_id x \<noteq> cv_id c"
        by (auto simp: save_conversation_def row_upd_def split: if_splits)
      with l have "conversation_linked d x" by (simp add: linked_def list_all_iff)
      with x a show ?thesis by (simp add: conversation_linked_def save_conversation_def)
    qed
    then show "list_all (conversation_linked ?d) (conversations ?d)" by (simp add: list_all_iff)
    show "distinct (map cv_identity_id (conversations ?d))"
      using l saved(3) by (simp add: linked_def save_conversation_def)
    have more: "message_linked ?d m = message_linked (save_conversation ?c d) m"
      "assignment_linked ?d s = assignment_linked (save_conversation ?c d) s"
      "attachment_linked ?d e = attachment_linked d e" for m s e
      by (simp_all add: message_linked_def assignment_linked_def attachment_linked_def save_conversation_def)
    have same: "messages ?d = messages d" "msg_attachments ?d = msg_attachments d"
      "assignments ?d = assignments d @ [a]" by (simp_all add: save_conversation_def)
    have "assignment_linked d a" using c a by (auto simp: assignment_linked_def)
    then show "list_all (message_linked ?d) (messages ?d)" "list_all (assignment_linked ?d) (assignments ?d)"
      "list_all (attachment_linked ?d) (msg_attachments ?d)"
      using l saved(4,5) by (auto simp: linked_def list_all_iff same more)
  qed
  ultimately show ?thesis using d evolves_trans by (auto simp: draft_def)
qed

lemma draft_save_message:
  assumes d: "draft S t d" and m: "distinct (map mg_id (messages d))" "m \<in> set (messages d)" "mg_org_id m \<in> S"
    and m': "m' = m\<lparr>mg_external_id := e, mg_status := s\<rparr>"
  shows "draft S t (save_message m' d)" (is "draft S t ?d")
proof -
  let ?ms = "row_upd mg_id (mg_id m') (\<lambda>_. m') (messages d)"
  have f: "mg_follows S m m'" using m m' by (simp add: mg_follows_def)
  have same: "x = m" if "x \<in> set (messages d)" "mg_id x = mg_id m'" for x
    using m m' that by (auto simp: distinct_map inj_on_def)
  have g: "grown (mg_follows S) N (messages d) ?ms" for N
    using same f by (intro grown_upd) auto
  then have "evolves S d ?d" by (simp add: evolves_def save_message_def grown_refl)
  moreover have "linked ?d"
    unfolding linked_def
  proof (intro conjI)
    from d have l: "linked d" by (simp add: draft_def)
    have tabs: "conversations ?d = conversations d" "assignments ?d = assignments d"
      "msg_attachments ?d = msg_attachments d" by (simp_all add: save_message_def)
    have same_links: "conversation_linked ?d = conversation_linked d" "message_linked ?d = message_linked d"
      "assignment_linked ?d = assignment_linked d"
      by (simp_all add: conversation_linked_def message_linked_def assignment_linked_def save_message_def fun_eq_iff)
    show "list_all (conversation_linked ?d) (conversations ?d)" "list_all (assignment_linked ?d) (assignments ?d)"
      "distinct (map cv_identity_id (conversations ?d))"
      using l by (auto simp: linked_def tabs same_links)
    from l m have "message_linked d m" by (simp add: linked_def list_all_iff)
    then have "message_linked d m'" by (simp add: m' message_linked_def)
    with l show "list_all (message_linked ?d) (messages ?d)"
      unfolding same_links by (auto simp: linked_def list_all_iff save_message_def row_upd_def)
    have "attachment_linked ?d a" if a: "attachment_linked d a" for a
    proof -
      from a obtain x where x: "x \<in> set (messages d)" "mg_id x = ma_message_id a" "mg_org_id x = ma_org_id a"
        by (auto simp: attachment_linked_def)
      from grown_old [OF g x(1)] obtain y where "y \<in> set ?ms" "mg_follows S x y" by blast
      with x mg_follows_keeps show ?thesis
        unfolding attachment_linked_def by (intro bexI [where x = y]) (auto simp: save_message_def)
    qed
    with l show "list_all (attachment_linked ?d) (msg_attachments ?d)"
      by (auto simp: linked_def list_all_iff tabs)
  qed
  ultimately show ?thesis using d evolves_trans by (auto simp: draft_def)
qed

end
