(* ===== verification/A2Z_OmniRuns.thy ===== *)
theory A2Z_OmniRuns
  imports A2Z_OmniRules
begin

text \<open>
  The omni-channel operations as transactions: whatever a request or a delivery returns,
  and whatever failed on the way, what its session committed evolves the tables of one
  organisation and leaves them consistent.
\<close>

section \<open>What the calls to Core leave alone\<close>

lemma leaves_case_exn [frames]:
  "(\<And>c. leaves f (m c)) \<Longrightarrow> (\<And>x. leaves f (n x)) \<Longrightarrow> (\<And>x. leaves f (r x)) \<Longrightarrow>
     leaves f (case e of AwsError c \<Rightarrow> m c | Exn x \<Rightarrow> n x | RateLimited x \<Rightarrow> r x)"
  by (cases e) auto

lemma caches_leave [frames]:
  assumes "\<And>w g. f (tick_update g w) = f w"
  shows "(\<And>w g. f (secret_cache_update g w) = f w) \<Longrightarrow> leaves f (secret_get E k)"
    and "(\<And>w g. f (secret_cache_update g w) = f w) \<Longrightarrow> leaves f (secret_set E k raw)"
    and "(\<And>w g. f (media_cache_update g w) = f w) \<Longrightarrow> leaves f (media_get E k)"
    and "(\<And>w g. f (media_cache_update g w) = f w) \<Longrightarrow> leaves f (media_set E k url ttl)"
proof -
  assume c: "\<And>w g. f (secret_cache_update g w) = f w"
  have "leaves f (\<lambda>w. let (v, st) = cache_get (secret_cache w) now k in (Inr v, w\<lparr>secret_cache := st\<rparr>))" for now
    using c by (auto simp: leaves_def split: prod.split)
  then show "leaves f (secret_get E k)"
    unfolding secret_get_def by (intro leaves_bindE frames) (simp_all add: assms)
  show "leaves f (secret_set E k raw)"
    unfolding secret_set_def by (intro frames) (simp_all add: assms c)
next
  assume c: "\<And>w g. f (media_cache_update g w) = f w"
  have "leaves f (\<lambda>w. let (v, st) = cache_get (media_cache w) now k in (Inr v, w\<lparr>media_cache := st\<rparr>))" for now
    using c by (auto simp: leaves_def split: prod.split)
  then show "leaves f (media_get E k)"
    unfolding media_get_def by (intro leaves_bindE frames) (simp_all add: assms)
  show "leaves f (media_set E k url ttl)"
    unfolding media_set_def by (intro frames) (simp_all add: assms c)
qed

lemma core_ops_leave [frames]:
  assumes "\<And>w g. f (tick_update g w) = f w"
  shows "(\<And>w g. f (audit_tbl_update g w) = f w) \<Longrightarrow> (\<And>w g. f (bus_update g w) = f w) \<Longrightarrow>
      (\<And>w g. f (settings_tbl_update g w) = f w) \<Longrightarrow> leaves f (set_org_settings E g changes u)"
    and "(\<And>w g. f (secret_cache_update g w) = f w) \<Longrightarrow> leaves f (get_secret E g svc k)"
    and "(\<And>w g. f (secret_store_update g w) = f w) \<Longrightarrow> (\<And>w g. f (secret_cache_update g w) = f w) \<Longrightarrow>
      leaves f (put_secret E g svc k v)"
    and "leaves f (download_file E g k)"
    and "(\<And>w g. f (media_cache_update g w) = f w) \<Longrightarrow> leaves f (signed_url_for_attachment E g k)"
  unfolding set_org_settings_def get_secret_def put_secret_def download_file_def
    signed_url_for_attachment_def put_secret_value_def create_secret_def get_secret_value_def
    assert_org_scope_def Let_def
  by (intro frames; simp add: assms)+

lemma start_domain_verification_leaves [frames]:
  assumes "\<And>w g. f (tick_update g w) = f w" "\<And>w g. f (audit_tbl_update g w) = f w"
    "\<And>w g. f (bus_update g w) = f w" "\<And>w g. f (settings_tbl_update g w) = f w"
  shows "leaves f (start_domain_verification E g domain u)"
  unfolding start_domain_verification_def by (intro frames; simp add: assms)


section \<open>Transactions that keep the tables consistent\<close>

text \<open>
  At rest: the session has no uncommitted changes, and the tables are consistent and evolved
  from \<open>t\<close>.  Settled: so they are when the body ends, also by an exception, after which the
  session is closed.
\<close>

definition at_rest :: "string set \<Rightarrow> omni_tables \<Rightarrow> 'z omni_world_scheme \<Rightarrow> bool" where
  "at_rest S t w \<longleftrightarrow> good (om_db w) \<and> evolves S t (om_db w) \<and> om_tx w = om_db w"

definition settled :: "string set \<Rightarrow> omni_tables \<Rightarrow> exn + 'a \<Rightarrow> omni_tables \<Rightarrow> omni_tables \<Rightarrow> bool" where
  "settled S t r d x \<longleftrightarrow> good d \<and> evolves S t d \<and> (\<not> isl r \<longrightarrow> x = d)"

abbreviation settles :: "string set \<Rightarrow> omni_tables \<Rightarrow> ('z omni_world_scheme, 'a) op \<Rightarrow> 'z omni_world_scheme \<Rightarrow> bool" where
  "settles S t \<equiv> om.runs (settled S t)"

lemma settled_Inl [simp]: "settled S t (Inl e) d x \<longleftrightarrow> good d \<and> evolves S t d"
  by (simp add: settled_def)

lemma at_restD: "at_rest S t w \<Longrightarrow> good (om_db w) \<and> evolves S t (om_db w) \<and> om_tx w = om_db w"
  by (simp add: at_rest_def)

lemma at_rest_draft: "at_rest S t w \<Longrightarrow> draft S t (om_tx w)"
  by (simp add: at_rest_def draft_def good_def)

lemma settles_rest:
  assumes "at_rest S t w" and "leaves (\<lambda>w. (om_db w, om_tx w)) m"
  shows "settles S t m w"
  using leavesD [OF assms(2)] assms(1) by (auto intro!: om.runsI simp: settled_def at_rest_def)

lemma settles_bind:
  assumes "settles S t m w" and "\<And>x w1. m w = (Inr x, w1) \<Longrightarrow> at_rest S t w1 \<Longrightarrow> settles S t (k x) w1"
  shows "settles S t (bindE m k) w"
  using assms(1)
proof (rule om.runs_bind)
  fix x w1
  assume "m w = (Inr x, w1)" "settled S t (Inr x) (om_db w1) (om_tx w1)"
  then show "settles S t (k x) w1" by (intro assms(2)) (auto simp: settled_def at_rest_def)
qed simp

lemma settles_then:
  assumes "settles S t m w" and "\<And>w1. at_rest S t w1 \<Longrightarrow> settles S t k w1"
  shows "settles S t (thenE m k) w"
  unfolding thenE_def by (rule settles_bind [OF assms(1)]) (rule assms(2))

text \<open>Reading at rest.\<close>

lemma settles_reads:
  assumes "at_rest S t w" and "leaves (\<lambda>w. (om_db w, om_tx w)) m"
    and "\<And>x w1. m w = (Inr x, w1) \<Longrightarrow> at_rest S t w1 \<Longrightarrow> om_tx w1 = om_tx w \<Longrightarrow> settles S t (k x) w1"
  shows "settles S t (bindE m k) w"
proof (rule om.runs_reads [OF assms(2)])
  fix x w1
  assume "m w = (Inr x, w1)" "om_db w1 = om_db w" "om_tx w1 = om_tx w"
  with assms(1) show "settles S t (k x) w1" by (intro assms(3)) (simp_all add: at_rest_def)
qed (use assms(1) in \<open>simp add: at_rest_def\<close>)

lemma settles_then_reads:
  assumes "at_rest S t w" and "leaves (\<lambda>w. (om_db w, om_tx w)) m"
    and "\<And>w1. at_rest S t w1 \<Longrightarrow> om_tx w1 = om_tx w \<Longrightarrow> settles S t k w1"
  shows "settles S t (thenE m k) w"
  unfolding thenE_def by (rule settles_reads [OF assms(1,2)]) (rule assms(3))

lemma settles_select:
  assumes "at_rest S t w"
    and "\<And>w1. at_rest S t w1 \<Longrightarrow> om_tx w1 = om_tx w \<Longrightarrow> settles S t (k (f (om_tx w))) w1"
  shows "settles S t (bindE (select_om E f) k) w"
proof (rule om.runs_select)
  fix w1 :: "'a omni_world_scheme"
  assume "om_db w1 = om_db w" "om_tx w1 = om_tx w"
  with assms(1) show "settles S t (k (f (om_tx w))) w1"
    by (intro assms(2)) (simp_all add: at_rest_def)
qed (use assms(1) in \<open>simp add: at_rest_def\<close>)

lemma settles_load:
  assumes "at_rest S t w"
    and "\<And>c w1. c \<in> set (conversations (om_db w1)) \<Longrightarrow> cv_id c = i \<Longrightarrow> cv_org_id c = g \<Longrightarrow>
      at_rest S t w1 \<Longrightarrow> om_tx w1 = om_tx w \<Longrightarrow> settles S t (k c) w1"
  shows "settles S t (bindE (load_conversation E g i) k) w"
proof (rule settles_reads [OF assms(1)])
  fix x w1
  assume run: "load_conversation E g i w = (Inr x, w1)" and w1: "at_rest S t w1" "om_tx w1 = om_tx w"
  have db: "om_db w1 = om_tx w" using at_restD [OF w1(1)] w1(2) by simp
  from run obtain y w2 where sel: "select_om E (\<lambda>t. row_get cv_id i (conversations t)) w = (Inr y, w2)"
    and "(case y of None \<Rightarrow> raise (Exn (Omni ConversationNotFoundError))
      | Some c \<Rightarrow> if cv_org_id c \<noteq> g then raise (Exn (Omni ConversationNotFoundError)) else ret c) w2 = (Inr x, w1)"
    unfolding load_conversation_def bindE_Inr_iff by blast
  then have "y = Some x" "cv_org_id x = g" by (auto split: option.splits if_splits)
  with om.select_value [OF sel]
  have "row_get cv_id i (conversations (om_db w1)) = Some x" "cv_org_id x = g" by (simp_all add: db)
  note x = row_get_SomeD [OF this(1), THEN conjunct1] row_get_SomeD [OF this(1), THEN conjunct2] this(2)
  show "settles S t (k x) w1" by (rule assms(2) [OF x w1])
qed (intro frames, simp)

text \<open>Committing a draft.\<close>

lemma settles_commit:
  assumes "draft S t (om_tx w)" and "good (om_db w)" "evolves S t (om_db w)"
    and "\<And>w1. at_rest S t w1 \<Longrightarrow> om_db w1 = om_tx w \<Longrightarrow> settles S t k w1"
  shows "settles S t (thenE (commit_om E) k) w"
proof (rule om.runs_commit)
  fix w1 :: "'a omni_world_scheme"
  assume "omni_check (om_tx w) = None" "om_db w1 = om_tx w" "om_tx w1 = om_tx w"
  with assms(1) show "settles S t k w1"
    by (intro assms(4)) (simp_all add: at_rest_def good_def draft_def)
qed (use assms(1-3) in \<open>auto simp: good_def draft_def\<close>)

text \<open>A change of the tables and its commit, from rest.\<close>

lemma settles_change:
  assumes "at_rest S t w" and "draft S t (f (om_tx w))"
    and "\<And>w1. at_rest S t w1 \<Longrightarrow> om_db w1 = f (om_tx w) \<Longrightarrow> settles S t k w1"
  shows "settles S t (thenE (modify_om f) (thenE (commit_om E) k)) w"
proof (rule om.runs_modify)
  fix w1 :: "'a omni_world_scheme"
  assume "om_db w1 = om_db w" "om_tx w1 = f (om_tx w)"
  with assms at_restD [OF assms(1)] show "settles S t (thenE (commit_om E) k) w1"
    by (intro settles_commit) simp_all
qed


section \<open>Routing\<close>

lemma record_assignment_settles:
  assumes "at_rest S t w" and "c \<in> set (conversations (om_db w))" and "cv_org_id c \<in> S"
  shows "settles S t (record_assignment E c u by' reason) w"
  unfolding record_assignment_def Let_def
  apply (rule settles_reads [OF assms(1)])
   apply (intro frames; simp)
  apply (rule settles_reads, assumption)
   apply (intro frames; simp)
  apply (rule settles_change, assumption)
   apply (rule draft_assign [OF at_rest_draft], assumption)
        apply (use assms at_restD [OF assms(1)] good_distinct in \<open>auto simp: at_rest_def\<close>)[6]
  apply (rule settles_rest, assumption)
  apply (intro frames; simp)
  done

lemma claim_settles:
  assumes "at_rest S t w" and "g \<in> S"
  shows "settles S t (claim E g i u) w"
  unfolding claim_def
  apply (rule settles_then_reads [OF assms(1)])
   apply (intro frames; simp)
  apply (rule settles_load, assumption)
  apply (use assms(2) in \<open>auto intro: record_assignment_settles settles_rest frames\<close>)
  done

lemma reassign_settles:
  assumes "at_rest S t w" and "g \<in> S"
  shows "settles S t (reassign E g i u v) w"
  unfolding reassign_def
  apply (rule settles_then_reads [OF assms(1)])
   apply (intro frames; simp)
  apply (rule settles_then_reads, assumption)
   apply (intro frames; simp)
  apply (rule settles_load, assumption)
  apply (rule record_assignment_settles, assumption+)
  apply (simp add: assms(2))
  done

lemma set_routing_config_leaves [frames]:
  "leaves (\<lambda>w. (om_db w, om_tx w)) (set_routing_config E g u s a)"
  unfolding set_routing_config_def Let_def by (intro frames; simp)

lemma apply_single_assignee_settles:
  assumes "at_rest S t w" and "c \<in> set (conversations (om_db w))" and "cv_org_id c \<in> S"
  shows "settles S t (apply_single_assignee_if_configured E c) w"
  unfolding apply_single_assignee_if_configured_def
proof (rule settles_reads [OF assms(1)])
  fix s w1
  assume w1: "at_rest S t w1" "om_tx w1 = om_tx w"
  show "settles S t (bindE (liftS (routing_config s)) (\<lambda>designated. case designated of
       None \<Rightarrow> ret c
     | Some u \<Rightarrow> record_assignment E c u ''routing:single_assignee'' ''single_assignee'')) w1"
  proof (rule om.runs_lift)
    fix d
    show "settles S t (case d of None \<Rightarrow> ret c
       | Some u \<Rightarrow> record_assignment E c u ''routing:single_assignee'' ''single_assignee'') w1"
    proof (cases d)
      case None
      with w1 show ?thesis by (auto intro!: settles_rest frames)
    next
      case (Some u)
      with w1 assms at_restD [OF assms(1)] at_restD [OF w1(1)] show ?thesis
        by (auto intro!: record_assignment_settles)
    qed
  qed (use at_restD [OF w1(1)] in simp)
qed (intro frames; simp)


section \<open>Replies\<close>

lemma reply_reads_leave [frames]:
  assumes "\<And>w g. f (tick_update g w) = f w"
  shows "leaves f (find_by_dedup_key E g i k)" "leaves f (lookup_dedup E g i key)"
    "leaves f (new_reply E g i u ch body key subject)"
    "(\<And>w g. f (windows_update g w) = f w) \<Longrightarrow> leaves f (check_channel_rate E g ch)"
  unfolding lookup_dedup_def find_by_dedup_key_def new_reply_def check_channel_rate_def
  by (intro frames; simp add: assms)+

lemma new_reply_Inr:
  "new_reply E g i u ch body key subject w = (Inr m, w') \<Longrightarrow>
     mg_org_id m = g \<and> mg_conversation_id m = i \<and> mg_channel_type m = ch \<and> mg_dedup_key m = key \<and>
     mg_status m = ''queued'' \<and> mg_direction m = ''outbound'' \<and> mg_body_text m = Some body \<and> mg_sent_by m = Some u"
  by (auto simp: new_reply_def act_Inr)

text \<open>A message of a conversation, on the channel of its customer.\<close>

lemma message_linkedI:
  assumes "c \<in> set (conversations d)" and "row_get ci_id (cv_identity_id c) (identities d) = Some i"
    and "mg_org_id m = cv_org_id c" "mg_conversation_id m = cv_id c" "mg_channel_type m = ci_channel_type i"
  shows "message_linked d m"
  unfolding message_linked_def
  by (rule bexI [where x = c], rule bexI [where x = i]) (use assms row_get_SomeD [OF assms(2)] in auto)

text \<open>The commit of a reply, or the look-up of its twin after a rollback.\<close>

lemma commit_or_twin_settles:
  fixes w :: "'z omni_world_scheme"
  assumes "draft S t (om_tx w)" and "good (om_db w)" "evolves S t (om_db w)"
  shows "settles S t (commit_or_twin E g i key) w"
proof (rule om.runsI)
  fix r w'
  assume run: "commit_or_twin E g i key w = (r, w')"
  have commit: "settled S t r1 (om_db w1) (om_tx w1)" if "thenE (commit_om E) (ret None) w = (r1, w1)"
    for r1 :: "exn + message option" and w1 :: "'z omni_world_scheme"
  proof (rule om.runsD [OF settles_commit [OF assms] that])
    fix v :: "'z omni_world_scheme"
    assume "at_rest S t v"
    then show "settles S t (ret None) v" by (rule settles_rest) (rule frames)
  qed
  define again :: "exn \<Rightarrow> ('z omni_world_scheme, message option) op" where
    "again = (\<lambda>e. case key of None \<Rightarrow> raise e
           | Some k \<Rightarrow> bindE (find_by_dedup_key E g i k) (\<lambda>existing.
               case existing of None \<Rightarrow> raise e | Some m \<Rightarrow> ret (Some m)))"
  from run consider (plain) "thenE (commit_om E) (ret None) w = (r, w')"
    | (twin) e and w1 :: "'z omni_world_scheme" where "thenE (commit_om E) (ret None) w = (Inl e :: exn + message option, w1)"
        "again e (om_tx_update (\<lambda>_. om_db w1) w1) = (r, w')"
    by (auto simp: commit_or_twin_def again_def catchE_app thenE_app pg_rollback_def split: prod.splits sum.splits if_splits)
  then show "settled S t r (om_db w') (om_tx w')"
  proof cases
    case (twin e w1)
    from commit [OF twin(1)] have "at_rest S t (om_tx_update (\<lambda>_. om_db w1) w1)" by (simp add: at_rest_def)
    then have "settles S t (again e) (om_tx_update (\<lambda>_. om_db w1) w1)"
      unfolding again_def by (rule settles_rest) (intro frames; simp)
    from om.runsD [OF this twin(2)] show ?thesis .
  qed (rule commit)
qed

lemma post_reply_settles:
  assumes "at_rest S t w" and "c \<in> set (conversations (om_db w))" "cv_id c = i" "cv_org_id c = g" "g \<in> S"
    and "row_get ci_id (cv_identity_id c) (identities (om_db w)) = Some i'"
  shows "settles S t (bindE (new_reply E g i u (ci_channel_type i') body key subject) (\<lambda>m.
         thenE (modify_om (\<lambda>t. t\<lparr>messages := messages t @ [m]\<rparr>))
         (bindE (commit_or_twin E g i key) (\<lambda>twin.
         case twin of
           Some m' \<Rightarrow> ret (m', False)
         | None \<Rightarrow> thenE (enqueue_outbound E g (mg_id m)) (ret (m, True)))))) w"
proof (rule settles_reads [OF assms(1)], (intro frames; simp), rule om.runs_modify, rule settles_bind,
    rule commit_or_twin_settles)
  fix m and w1 w2 :: "'a omni_world_scheme"
  assume run: "new_reply E g i u (ci_channel_type i') body key subject w = (Inr m, w1)"
    and w1: "at_rest S t w1" "om_tx w1 = om_tx w"
    and w2: "om_db w2 = om_db w1" "om_tx w2 = (om_tx w1)\<lparr>messages := messages (om_tx w1) @ [m]\<rparr>"
  note m = new_reply_Inr [OF run] and db = at_restD [OF assms(1)] at_restD [OF w1(1)]
  have "message_linked (om_tx w1) m"
    using assms m db w1 by (intro message_linkedI [of c _ i']) simp_all
  then show "draft S t (om_tx w2)"
    unfolding w2 using m assms(5) at_rest_draft [OF w1(1)] by (intro draft_message) auto
  show "good (om_db w2)" "evolves S t (om_db w2)" using db w2 by simp_all
next
  fix m twin and w3 :: "'a omni_world_scheme"
  assume "at_rest S t w3"
  then show "settles S t (case twin of Some m' \<Rightarrow> ret (m', False)
      | None \<Rightarrow> thenE (enqueue_outbound E g (mg_id m)) (ret (m, True))) w3"
    by (rule settles_rest) (intro frames; simp)
qed

text \<open>A choice that goes on only with a value.\<close>

lemma runs_case_option:
  assumes "x = None \<Longrightarrow> om.runs R m w" and "\<And>y. x = Some y \<Longrightarrow> om.runs R (f y) w"
  shows "om.runs R (case x of None \<Rightarrow> m | Some y \<Rightarrow> f y) w"
  using assms by (cases x) simp_all

lemma send_reply_settles:
  assumes "at_rest S t w" and "g \<in> S"
  shows "settles S t (send_reply E g i u body key subject) w"
  unfolding send_reply_def
  apply (rule settles_then_reads [OF assms(1)], (intro frames; simp))
  apply (rule settles_load, assumption)
  apply (rule settles_select, assumption)
  apply (rule runs_case_option)
   apply (rule settles_rest, assumption, intro frames)
  apply (rule settles_reads, assumption, (intro frames; simp))
  apply (rule runs_case_option)
   apply (rule settles_then_reads, assumption, (intro frames; simp))
   apply (rule post_reply_settles, assumption)
       apply (use assms(2) in \<open>auto simp: at_rest_def\<close>)[5]
  apply (rule settles_rest, assumption, intro frames)
  done


section \<open>Connections, webhooks and the inbox\<close>

lemma connection_secret_leaves [frames]:
  assumes "\<And>w g. f (tick_update g w) = f w" "\<And>w g. f (audit_tbl_update g w) = f w"
    "\<And>w g. f (bus_update g w) = f w" "\<And>w g. f (settings_tbl_update g w) = f w"
    "\<And>w g. f (secret_store_update g w) = f w" "\<And>w g. f (secret_cache_update g w) = f w"
  shows "leaves f (connection_secret E g u i ch acc needed creds key)"
  unfolding connection_secret_def
  by ((cases creds; cases key; simp only: prod.case option.case), (intro frames; simp add: assms)+)

lemma create_connection_settles:
  assumes "at_rest S t w" and "g \<in> S"
  shows "settles S t (create_connection E g u ch name acc creds key) w"
  unfolding create_connection_def Let_def
  apply (rule settles_then_reads [OF assms(1)], (intro frames; simp))
  apply (rule settles_reads, assumption, (intro frames; simp))
  apply (split if_split, intro conjI impI)
   apply (rule settles_rest, assumption, intro frames)
  apply (rule settles_reads, assumption, (intro frames; simp))
  apply (rule settles_reads, assumption, (intro frames; simp))
  apply (split prod.split, intro allI impI)
  apply (rule settles_reads, assumption, (intro frames; simp))
  apply (rule settles_change, assumption)
   apply (rule draft_connection [OF at_rest_draft], assumption)
   apply (simp add: assms(2))
  apply (rule settles_rest, assumption, (intro frames; simp))
  done

lemma settles_own_connection:
  assumes "at_rest S t w"
    and "\<And>cn w1. cn \<in> set (connections (om_tx w1)) \<Longrightarrow> cn_org_id cn = g \<Longrightarrow>
      at_rest S t w1 \<Longrightarrow> om_tx w1 = om_tx w \<Longrightarrow> settles S t (k cn) w1"
  shows "settles S t (bindE (load_own_connection E g i) k) w"
proof (rule settles_reads [OF assms(1)])
  fix x w1
  assume run: "load_own_connection E g i w = (Inr x, w1)" and w1: "at_rest S t w1" "om_tx w1 = om_tx w"
  from run obtain y w2 where sel: "select_om E (\<lambda>t. row_get cn_id i (connections t)) w = (Inr y, w2)"
    and "(case y of None \<Rightarrow> raise (Exn (Omni ConnectionNotFoundError))
      | Some cn \<Rightarrow> if cn_org_id cn \<noteq> g then raise (Exn (Omni ConnectionNotFoundError)) else ret cn) w2 = (Inr x, w1)"
    unfolding load_own_connection_def bindE_Inr_iff by blast
  then have x: "y = Some x" "cn_org_id x = g" by (auto split: option.splits if_splits)
  with om.select_value [OF sel] w1(2) have "row_get cn_id i (connections (om_tx w1)) = Some x" by simp
  from row_get_SomeD [OF this] show "settles S t (k x) w1"
    by (intro assms(2) x(2) w1) simp
qed (unfold load_own_connection_def, intro frames, simp)

lemma connection_reads_leave [frames]:
  assumes "\<And>w g. f (tick_update g w) = f w"
  shows "leaves f (load_own_connection E g i)" "leaves f (list_connections E g u)"
    "leaves f (get_connection E g u i)"
  unfolding get_connection_def list_connections_def load_own_connection_def
  by (intro frames; simp add: assms)+

lemma disable_connection_settles:
  assumes "at_rest S t w" and "g \<in> S"
  shows "settles S t (disable_connection E g u i) w"
  unfolding disable_connection_def Let_def
  apply (rule settles_then_reads [OF assms(1)], (intro frames; simp))
  apply (rule settles_own_connection, assumption)
  apply (rule settles_reads, assumption, (intro frames; simp))
  apply (rule settles_change, assumption)
   apply (rule draft_connection_upd [OF at_rest_draft], assumption)
  subgoal premises p for w1 cn w2 now w3 x
  proof -
    from p have "cn \<in> set (connections (om_tx w3))" "distinct (map cn_id (connections (om_tx w3)))"
      using good_distinct by (auto simp: at_rest_def)
    with p have "x = cn" by (auto simp: distinct_map inj_on_def)
    with p assms(2) show ?thesis by (simp add: cn_follows_def)
  qed
  apply (rule settles_rest, assumption, (intro frames; simp))
  done

lemma webhook_leaves [frames]:
  assumes "\<And>w g. f (tick_update g w) = f w"
  shows "leaves f (load_connection E i)" "leaves f (resolve_connection E ch i)"
    "(\<And>w g. f (secret_cache_update g w) = f w) \<Longrightarrow> leaves f (verify_subscription E ch i params)"
    "(\<And>w g. f (secret_cache_update g w) = f w) \<Longrightarrow> (\<And>w g. f (queue_urls_update g w) = f w) \<Longrightarrow>
     (\<And>w g. f (inbound_q_update g w) = f w) \<Longrightarrow> leaves f (handle_webhook E ch i raw headers)"
  unfolding verify_subscription_def handle_webhook_def resolve_connection_def load_connection_def
  by (intro frames; simp add: assms)+

lemma inbox_reads_leave [frames]:
  assumes "\<And>w g. f (tick_update g w) = f w"
  shows "leaves f (list_conversations E g u cq cur)"
    "(\<And>w g. f (media_cache_update g w) = f w) \<Longrightarrow> leaves f (get_conversation E g i u limit before)"
  unfolding list_conversations_def get_conversation_def attachments_for_def
  by (intro frames; simp add: assms)+

lemma mark_read_settles:
  assumes "at_rest S t w" and "g \<in> S"
  shows "settles S t (mark_read E g i u) w"
  unfolding mark_read_def Let_def
  apply (rule settles_then_reads [OF assms(1)], (intro frames; simp))
  apply (rule settles_load, assumption)
  apply (rule settles_change, assumption)
   apply (rule draft_save_conversation [OF at_rest_draft], assumption)
      apply (use assms(2) good_distinct in \<open>auto simp: at_rest_def cv_follows_def\<close>)[4]
  apply (rule settles_rest, assumption, intro frames)
  done


section \<open>The worker: one inbound message\<close>

text \<open>A body that leaves a checked draft with property \<open>P\<close> when it returns.\<close>

definition drafted :: "string set \<Rightarrow> omni_tables \<Rightarrow> ('a \<Rightarrow> omni_tables \<Rightarrow> bool) \<Rightarrow> exn + 'a \<Rightarrow> omni_tables \<Rightarrow> omni_tables \<Rightarrow> bool" where
  "drafted S t P r d x \<longleftrightarrow> good d \<and> evolves S t d \<and>
     (case r of Inl _ \<Rightarrow> True | Inr v \<Rightarrow> draft S t x \<and> omni_check x = None \<and> P v x)"

lemma drafted_simps [simp]:
  "drafted S t P (Inl e) d x \<longleftrightarrow> good d \<and> evolves S t d"
  "drafted S t P (Inr v) d x \<longleftrightarrow> good d \<and> evolves S t d \<and> draft S t x \<and> omni_check x = None \<and> P v x"
  by (simp_all add: drafted_def)

lemma checked_distinct:
  "omni_check x = None \<Longrightarrow> distinct (map ci_id (identities x)) \<and> distinct (map cv_id (conversations x)) \<and>
     distinct (map mg_id (messages x))"
  using omni_check_None by (auto simp: omni_unique_def)

lemma one_or_none_Inr: "one_or_none xs = Inr x \<longleftrightarrow> (x = None \<and> xs = []) \<or> (\<exists>y. x = Some y \<and> xs = [y])"
  by (auto simp: one_or_none_def split: list.split)

definition identity_of :: "string \<Rightarrow> string \<Rightarrow> channel_identity \<Rightarrow> omni_tables \<Rightarrow> bool" where
  "identity_of g ch i x \<longleftrightarrow> i \<in> set (identities x) \<and> ci_org_id i = g \<and> ci_channel_type i = ch"

lemma identity_drafted:
  assumes "good (om_db w)" "evolves S t (om_db w)" "draft S t (om_tx w)" "omni_check (om_tx w) = None" "g \<in> S"
  shows "om.runs (drafted S t (identity_of g ch)) (find_or_create_identity E g ch e n) w"
  unfolding find_or_create_identity_def Let_def
  apply (rule om.runs_select, simp add: assms)
  apply (rule om.runs_lift, simp add: assms)
  apply (rule runs_case_option)
   apply (rule om.runs_reads, intro frames, simp, simp add: assms)
   apply (rule om.runs_reads, intro frames, simp, simp add: assms)
   apply (rule om.runs_modify)
   apply (rule om.runs_flush, simp add: assms)
   apply (rule om.runs_ret)
   apply (simp add: assms identity_of_def draft_identity)
  apply (rule om.runs_ret)
  apply (auto simp: assms identity_of_def one_or_none_Inr filter_eq_Cons_iff)
  done

definition conversation_of :: "string \<Rightarrow> string \<Rightarrow> channel_identity \<Rightarrow> conversation \<Rightarrow> omni_tables \<Rightarrow> bool" where
  "conversation_of g ch i c x \<longleftrightarrow> identity_of g ch i x \<and>
     c \<in> set (conversations x) \<and> cv_org_id c = g \<and> cv_identity_id c = ci_id i"

lemma draft_new_conversation:
  assumes "draft S t d" and "g \<in> S" and "identity_of g ch i d"
    and "filter (\<lambda>c. cv_org_id c = g \<and> cv_identity_id c = ci_id i) (conversations d) = []"
    and "cv_org_id c = g" "cv_identity_id c = ci_id i" "cv_assigned_user_id c = None"
    and "omni_check (d\<lparr>conversations := conversations d @ [c]\<rparr>) = None"
  shows "draft S t (d\<lparr>conversations := conversations d @ [c]\<rparr>)"
proof (rule draft_conversation [where i = i])
  note dist = checked_distinct [OF assms(8)]
  show "distinct (map ci_id (identities d))" "cv_id c \<notin> cv_id ` set (conversations d)"
    using dist by auto
qed (use assms in \<open>simp_all add: identity_of_def\<close>)

lemma conversation_drafted:
  assumes "good (om_db w)" "evolves S t (om_db w)" "draft S t (om_tx w)" "omni_check (om_tx w) = None" "g \<in> S"
    and "identity_of g ch i (om_tx w)"
  shows "om.runs (drafted S t (\<lambda>(c, b). conversation_of g ch i c)) (find_or_create_conversation E g (ci_id i)) w"
  unfolding find_or_create_conversation_def Let_def
  apply (rule om.runs_select, simp add: assms)
  apply (rule om.runs_lift, simp add: assms)
  apply (rule runs_case_option)
   apply (rule om.runs_reads, intro frames, simp, simp add: assms)
   apply (rule om.runs_reads, intro frames, simp, simp add: assms)
   apply (rule om.runs_modify)
   apply (rule om.runs_flush, simp add: assms)
   apply (rule om.runs_ret)
  subgoal
    using assms
    by (auto simp: conversation_of_def identity_of_def one_or_none_Inr intro!: draft_new_conversation [where i = i])
  apply (rule om.runs_ret)
  using assms apply (auto simp: conversation_of_def one_or_none_Inr filter_eq_Cons_iff)
  done


lemma new_inbound_message_Inr:
  "new_inbound_message E g ch i item w = (Inr m, w') \<Longrightarrow>
     mg_org_id m = g \<and> mg_conversation_id m = i \<and> mg_channel_type m = ch \<and>
     mg_external_id m = in_external_message_id item \<and> mg_body_text m = in_body_text item \<and>
     mg_status m = ''received'' \<and> mg_direction m = ''inbound'' \<and> mg_dedup_key m = None"
  by (auto simp: new_inbound_message_def act_Inr)

lemma new_inbound_message_leaves [frames]:
  "(\<And>w g. f (tick_update g w) = f w) \<Longrightarrow> leaves f (new_inbound_message E g ch i item)"
  unfolding new_inbound_message_def by (intro frames; simp)

text \<open>A flush that rolls the session back when a constraint is violated.\<close>

lemma flush_or_duplicate_runs:
  fixes w :: "'z omni_world_scheme"
  shows "om.runs (\<lambda>r d x. d = om_db w \<and> (case r of Inl _ \<Rightarrow> True
      | Inr fresh \<Rightarrow> if fresh then x = om_tx w \<and> omni_check x = None
                     else x = d \<and> omni_check (om_tx w) = Some (Exn (Py IntegrityError)))) (flush_or_duplicate E) w"
proof (rule om.runsI)
  fix r and w' :: "'z omni_world_scheme"
  assume run: "flush_or_duplicate E w = (r, w')"
  have flush: "om_db w1 = om_db w \<and> om_tx w1 = om_tx w \<and>
      (case r1 of Inr _ \<Rightarrow> omni_check (om_tx w) = None
       | Inl e \<Rightarrow> e = Exn (Py DBAPIError) \<or> omni_check (om_tx w) = Some e)"
    if "flush_om E w = (r1, w1)" for r1 :: "exn + unit" and w1 :: "'z omni_world_scheme"
    using that unfolding pg_flush_def by (elim run_pg_cases) (auto simp: pg_check_def split: option.splits)
  show "om_db w' = om_db w \<and> (case r of Inl _ \<Rightarrow> True
      | Inr fresh \<Rightarrow> if fresh then om_tx w' = om_tx w \<and> omni_check (om_tx w') = None
                     else om_tx w' = om_db w' \<and> omni_check (om_tx w) = Some (Exn (Py IntegrityError)))"
  proof (cases "flush_om E w")
    case (Pair r1 w1)
    with run flush [OF Pair] show ?thesis
      by (cases r1) (auto simp: flush_or_duplicate_def act_apps pg_rollback_def split: if_splits)
  qed
qed

text \<open>A stored message on the way to its commit.\<close>

definition stored :: "string set \<Rightarrow> omni_tables \<Rightarrow> conversation \<Rightarrow> message \<Rightarrow> omni_tables \<Rightarrow> omni_tables \<Rightarrow> bool" where
  "stored S t c m d x \<longleftrightarrow> good d \<and> evolves S t d \<and> draft S t x \<and> c \<in> set (conversations x) \<and>
     distinct (map cv_id (conversations x)) \<and> m \<in> set (messages x)"

lemma store_attachment_runs:
  assumes "stored S t c m (om_db w) (om_tx w)" and "mg_org_id m = g" "g \<in> S"
  shows "om.runs (\<lambda>r d x. if isl r then good d \<and> evolves S t d else stored S t c m d x)
    (store_attachment E g (mg_id m) att) w"
  unfolding store_attachment_def
  apply (rule om.runs_reads, (intro frames; simp))
  using assms(1) apply (simp add: stored_def)
  apply (rule om.runs_reads, intro frames, simp)
  using assms(1) apply (simp add: stored_def)
  subgoal premises p for st w1 row_id w2
    using assms p
    by (auto simp: om.runs_def om.modify_app stored_def attachment_linked_def intro!: draft_attachment)
  done

lemma note_message_same [simp]:
  "cv_id (note_message now item c) = cv_id c" "cv_org_id (note_message now item c) = cv_org_id c"
  "cv_assigned_user_id (note_message now item c) = cv_assigned_user_id c"
  by (simp_all add: note_message_def)

lemma note_follows: "cv_org_id c \<in> S \<Longrightarrow> cv_follows S c (note_message now item c)"
  by (simp add: cv_follows_def note_message_def)

lemma announce_leaves [frames]:
  assumes "\<And>w g. f (tick_update g w) = f w" "\<And>w g. f (bus_update g w) = f w" "\<And>w g. f (inboxes_update g w) = f w"
  shows "leaves f (announce_message E g ch c i)"
  unfolding announce_message_def Let_def by (intro frames; simp add: assms)

text \<open>From the stored message to the end: attachments, the conversation, the commit, routing.\<close>

lemma finish_item_settles:
  assumes "stored S t c m (om_db w) (om_tx w)" and "mg_org_id m = g" "cv_org_id c = g" "g \<in> S"
  shows "settles S t (thenE (forE (store_attachment E g (mg_id m)) (in_attachments item))
     (bindE (now_utc E) (\<lambda>now.
     thenE (modify_om (save_conversation (note_message now item c)))
     (thenE (commit_om E)
     (bindE (if is_new then apply_single_assignee_if_configured E (note_message now item c)
             else ret (note_message now item c)) (\<lambda>c2.
     announce_message E g ch c2 (mg_id m))))))) w"
proof (rule om.runs_then)
  show "om.runs (\<lambda>r d x. if isl r then good d \<and> evolves S t d else stored S t c m d x)
      (forE (store_attachment E g (mg_id m)) (in_attachments item)) w"
    by (rule om.runs_for [where I = "stored S t c m"], rule store_attachment_runs, assumption,
        rule assms, rule assms, rule assms)
next
  fix y and w1 :: "'a omni_world_scheme"
  assume "if isl (Inr y) then good (om_db w1) \<and> evolves S t (om_db w1) else stored S t c m (om_db w1) (om_tx w1)"
  then have st: "good (om_db w1)" "evolves S t (om_db w1)" "draft S t (om_tx w1)" "c \<in> set (conversations (om_tx w1))"
    "distinct (map cv_id (conversations (om_tx w1)))" by (simp_all add: stored_def)
  show "settles S t (bindE (now_utc E) (\<lambda>now.
     thenE (modify_om (save_conversation (note_message now item c)))
     (thenE (commit_om E)
     (bindE (if is_new then apply_single_assignee_if_configured E (note_message now item c)
             else ret (note_message now item c)) (\<lambda>c2.
     announce_message E g ch c2 (mg_id m)))))) w1"
    apply (rule om.runs_reads, intro frames, simp, simp add: st)
    apply (rule om.runs_modify)
    apply (rule settles_commit)
       apply (simp add: st assms draft_save_conversation [where c = c] note_follows)
      apply (simp_all add: st)[2]
    apply (rule settles_bind)
     apply (split if_split, intro conjI impI)
      apply (rule apply_single_assignee_settles, assumption)
    subgoal premises p for now w2 w3 w4
      using p st by (auto simp: save_conversation_def row_upd_def)
      apply (simp add: assms)
     apply (rule settles_rest, assumption, intro frames)
    apply (rule settles_rest, assumption, (intro frames; simp))
    done
qed simp

lemma stored_message:
  assumes "draft S t x" "good d" "evolves S t d" "g \<in> S" and c: "conversation_of g ch i c x"
    and m: "mg_org_id m = g" "mg_conversation_id m = cv_id c" "mg_channel_type m = ch"
    and "omni_check (x\<lparr>messages := messages x @ [m]\<rparr>) = None"
  shows "stored S t c m d (x\<lparr>messages := messages x @ [m]\<rparr>)"
proof -
  have "message_linked x m"
    unfolding message_linked_def
    by (rule bexI [where x = c], rule bexI [where x = i])
      (use c m in \<open>auto simp: conversation_of_def identity_of_def\<close>)
  with assms checked_distinct [OF assms(9)] show ?thesis
    by (auto simp: stored_def conversation_of_def intro!: draft_message)
qed

lemma process_item_settles:
  assumes "at_rest S t w" and "g \<in> S"
  shows "settles S t (process_item E g ch item) w"
  unfolding process_item_def Let_def
  apply (rule om.runs_bind [OF identity_drafted [where ch = ch]])
  using at_restD [OF assms(1)] at_rest_draft [OF assms(1)] assms(2) apply (simp_all add: good_def)[6]
  apply (rule om.runs_bind [OF conversation_drafted [where ch = ch]])
  using assms(2) apply simp_all [7]
  apply (split prod.split, intro allI impI)
  apply (rule om.runs_reads, intro frames, simp, simp)
  apply (rule om.runs_modify)
  apply (rule om.runs_bind [OF flush_or_duplicate_runs])
   apply simp
  subgoal premises p for i w1 cb w2 c is_new m w3 w4 fresh w5
  proof (cases fresh)
    case True
    have m: "mg_org_id m = g" "mg_conversation_id m = cv_id c" "mg_channel_type m = ch"
      using new_inbound_message_Inr [OF p(6)] by simp_all
    have x: "om_tx w5 = (om_tx w2)\<lparr>messages := messages (om_tx w2) @ [m]\<rparr>" "omni_check (om_tx w5) = None"
      "om_db w5 = om_db w2" using p True by auto
    have "stored S t c m (om_db w5) (om_tx w5)"
      unfolding x using p assms(2) m x by (intro stored_message [where i = i and g = g and ch = ch]) auto
    with True p m assms(2) show ?thesis
      by (auto intro!: finish_item_settles simp: conversation_of_def)
  next
    case False
    with p have "at_rest S t w5" by (auto simp: at_rest_def)
    with False show ?thesis by (auto intro!: settles_rest frames)
  qed
  done


section \<open>The worker: deliveries, queues and the loop\<close>

lemma distinct_saved: "omni_check x = None \<Longrightarrow> distinct (map mg_id (messages x))"
  by (simp add: checked_distinct)

lemma apply_delivery_status_settles:
  assumes "at_rest S t w" and "g \<in> S"
  shows "settles S t (apply_delivery_status E g ch u) w"
  unfolding apply_delivery_status_def
  apply (rule settles_select [OF assms(1)])
  apply (rule om.runs_lift)
   apply (simp add: at_rest_def)
  apply (rule runs_case_option)
   apply (rule settles_rest, assumption, intro frames)
  apply (split if_split, intro conjI impI)
   apply (rule settles_rest, assumption, intro frames)
  subgoal premises p for w1 found m
  proof -
    from p(3,4) have "m \<in> set (messages (om_tx w1))" "mg_org_id m = g"
      using p(2) by (auto simp: one_or_none_Inr filter_eq_Cons_iff)
    moreover have "distinct (map mg_id (messages (om_tx w1)))"
      using at_restD [OF p(1)] good_distinct by auto
    ultimately have "draft S t (save_message (m\<lparr>mg_status := du_status u\<rparr>) (om_tx w1))"
      using at_rest_draft [OF p(1)] assms(2)
      by (intro draft_save_message [where e = "mg_external_id m"]) auto
    then show ?thesis
      using p(1) by (intro settles_change [OF p(1)] settles_rest) (auto intro!: frames)
  qed
  done

lemma adapter_normalize_leaves [frames]:
  "get_adapter ch = Inr ad \<Longrightarrow> leaves (\<lambda>w. (om_db w, om_tx w)) (ad_normalize ad E p)"
  by (auto simp: get_adapter_def email_adapter_def whatsapp_adapter_def messenger_adapter_def
      instagram_adapter_def messenger_platform_def email_normalize_def resolve_raw_mime_def Let_def
      intro!: frames split: if_splits json.split option.split)

lemma settles_for:
  assumes "at_rest S t w" and "\<And>x v. x \<in> set xs \<Longrightarrow> at_rest S t v \<Longrightarrow> settles S t (f x) v"
  shows "settles S t (forE f xs) w"
  using assms
proof (induction xs arbitrary: w)
  case (Cons x xs)
  show ?case unfolding forE.simps
    by (rule settles_then) (use Cons in auto)
qed (auto intro!: settles_rest frames)

lemma process_inbound_message_settles:
  assumes "at_rest S t w" and "\<And>g. map_of (q_attributes msg) ''org_id'' = Some g \<Longrightarrow> g \<in> S"
  shows "settles S t (process_inbound_message E msg) w"
proof (cases "map_of (q_attributes msg) ''org_id''"; cases "map_of (q_attributes msg) ''channel_type''")
  fix g ch
  assume g: "map_of (q_attributes msg) ''org_id'' = Some g" and ch: "map_of (q_attributes msg) ''channel_type'' = Some ch"
  have err: "good (om_db w)" "evolves S t (om_db w)" using at_restD [OF assms(1)] by simp_all
  show ?thesis
    unfolding process_inbound_message_def g ch option.case prod.case
    apply (rule om.runs_lift, simp add: err)
    apply (rule om.runs_lift, simp add: err)
    apply (rule settles_reads [OF assms(1)], rule frames, assumption)
    apply (rule settles_then)
     apply (rule settles_for, assumption)
     apply (rule process_item_settles, assumption, rule assms(2) [OF g])
    apply (rule om.runs_lift, simp add: at_rest_def)
    apply (rule settles_for, assumption)
    apply (rule apply_delivery_status_settles, assumption, rule assms(2) [OF g])
    done
qed (use assms(1) in \<open>auto simp: process_inbound_message_def intro!: settles_rest frames\<close>)

lemma process_inbound_batch_settles:
  assumes "at_rest UNIV t w"
  shows "settles UNIV t (process_inbound_batch E n) w"
  unfolding process_inbound_batch_def
  apply (rule settles_reads [OF assms], (intro frames; simp))
  apply (rule settles_then)
   apply (rule settles_for, assumption)
   apply (rule settles_then)
    apply (rule process_inbound_message_settles, assumption, simp)
   apply (rule settles_rest, assumption, (intro frames; simp))
  apply (rule settles_rest, assumption, intro frames)
  done

lemma leaves_case_reply [frames]:
  "leaves f m \<Longrightarrow> leaves f n \<Longrightarrow> (\<And>x. leaves f (k x)) \<Longrightarrow>
     leaves f (case z of Http_error \<Rightarrow> m | No_json \<Rightarrow> n | Reply x \<Rightarrow> k x)"
  by (cases z) auto

lemma sending_leaves [frames]:
  assumes "\<And>w g. f (tick_update g w) = f w"
  shows "leaves f (outbound_context E m)"
    and "(\<And>w g. f (secret_cache_update g w) = f w) \<Longrightarrow> leaves f (outbound_credentials E m cn needed)"
    and "(\<And>w g. f (graph_calls_update g w) = f w) \<Longrightarrow> leaves f (graph_send E url payload path)"
  unfolding outbound_context_def outbound_credentials_def graph_send_def post_graph_api_def
  by (intro frames; simp add: assms)+

lemma try_send_leaves [frames]: "leaves f s \<Longrightarrow> leaves f (try_send s)"
  unfolding try_send_def by (intro frames)

lemma adapter_send_leaves [frames]:
  "get_adapter ch = Inr ad \<Longrightarrow> leaves (\<lambda>w. (om_db w, om_tx w)) (ad_send ad E to content credentials)"
  by (auto simp: get_adapter_def email_adapter_def whatsapp_adapter_def messenger_adapter_def
      instagram_adapter_def messenger_platform_def email_send_def whatsapp_send_def messenger_send_def
      intro!: frames split: if_splits option.split)

lemma process_outbound_message_settles:
  assumes "at_rest S t w" and "\<And>i m. row_get mg_id i (messages (om_db w)) = Some m \<Longrightarrow> mg_org_id m \<in> S"
  shows "settles S t (process_outbound_message E msg) w"
  unfolding process_outbound_message_def
  apply (rule om.runs_lift, use assms(1) in \<open>simp add: at_rest_def\<close>)
  apply (rule settles_select [OF assms(1)])
  apply (rule runs_case_option)
   apply (rule settles_rest, assumption, intro frames)
  apply (rule settles_reads, assumption, intro frames, simp)
  apply (rule runs_case_option)
   apply (rule settles_rest, assumption, intro frames)
  apply (split prod.split, intro allI impI)
  apply (rule om.runs_lift, simp add: at_rest_def)
  apply (rule settles_reads, assumption, (intro frames; simp))
  apply (rule settles_reads, assumption, rule try_send_leaves, rule adapter_send_leaves, assumption)
  subgoal premises p for message_id w1 m ctx w2 icn i cn ad creds w3 result w4
  proof -
    have row: "row_get mg_id message_id (messages (om_db w)) = Some m" "om_tx w4 = om_db w"
      using p at_restD [OF assms(1)] by simp_all
    have m: "m \<in> set (messages (om_tx w4))" "mg_org_id m \<in> S" "distinct (map mg_id (messages (om_tx w4)))"
      using row_get_SomeD [OF row(1)] assms(2) [OF row(1)] good_distinct at_restD [OF assms(1)] row(2) by auto
    have "draft S t (save_message (m\<lparr>mg_external_id := e, mg_status := s\<rparr>) (om_tx w4))" for e s
      using draft_save_message [OF at_rest_draft [OF p(15)] m(3,1,2)] by simp
    note sent = this
    have "m\<lparr>mg_external_id := mg_external_id m, mg_status := ''failed''\<rparr> = m\<lparr>mg_status := ''failed''\<rparr>" by simp
    with sent [where e = "mg_external_id m" and s = "''failed''"]
    have failed: "draft S t (save_message (m\<lparr>mg_status := ''failed''\<rparr>) (om_tx w4))" by (simp only:)
    show ?thesis
    proof (cases result)
      case None
      show ?thesis
        unfolding None option.case
        apply (split if_split, intro conjI impI)
         apply (rule settles_change [OF p(15)])
          apply (rule failed)
         apply (rule settles_rest, assumption, intro frames)
        apply (rule settles_rest [OF p(15)], intro frames)
        done
    next
      case (Some r)
      show ?thesis
        unfolding Some option.case
        apply (rule settles_change [OF p(15)])
         apply (rule sent)
        apply (rule settles_rest, assumption, (intro frames; simp))
        done
    qed
  qed
  done

lemma process_outbound_batch_settles:
  assumes "at_rest UNIV t w"
  shows "settles UNIV t (process_outbound_batch E n) w"
proof -
  have loop: "settles UNIV t (outbound_loop E msgs k) v" if "at_rest UNIV t v"
    for msgs k and v :: "'a omni_world_scheme"
    using that
  proof (induction msgs arbitrary: k v)
    case (Cons msg msgs)
    show ?case
      unfolding outbound_loop.simps
      apply (rule settles_bind)
       apply (rule process_outbound_message_settles [OF Cons.prems], simp)
      apply (split if_split, intro conjI impI)
       apply (rule settles_then_reads, assumption, (intro frames; simp))
       apply (rule Cons.IH, assumption)+
      done
  qed (auto intro!: settles_rest frames)
  show ?thesis
    unfolding process_outbound_batch_def
    by (rule settles_reads [OF assms], (intro frames; simp)) (rule loop)
qed

end
