(* ===== verification/A2Z_OmniService.thy ===== *)
theory A2Z_OmniService
  imports A2Z_OmniRuns
begin

text \<open>
  The omni-channel service as a whole: the requests of its clients, the webhooks of the
  providers and the rounds of the worker, one after another under any schedule of failures,
  and what holds of the tables after all such runs.
\<close>

section \<open>Events\<close>

datatype omni_request =
    Claim string
  | Reassign string string
  | Set_routing string "string option"
  | Send_reply string string "string option" "string option"
  | Mark_read string
  | Connect string string string "(string \<times> json) list option" "string option"
  | Disable string
  | Connections
  | Connection string
  | Inbox conversation_query "cursor option"
  | Thread string int "cursor option"

fun handle_omni :: "env \<Rightarrow> string \<Rightarrow> string \<Rightarrow> omni_request \<Rightarrow> ('z omni_world_scheme, unit) op" where
  "handle_omni E g u (Claim i) = thenE (claim E g i u) (ret ())"
| "handle_omni E g u (Reassign i v) = thenE (reassign E g i u v) (ret ())"
| "handle_omni E g u (Set_routing s a) = thenE (set_routing_config E g u s a) (ret ())"
| "handle_omni E g u (Send_reply i body key subject) = thenE (send_reply E g i u body key subject) (ret ())"
| "handle_omni E g u (Mark_read i) = thenE (mark_read E g i u) (ret ())"
| "handle_omni E g u (Connect ch name acc creds key) = thenE (create_connection E g u ch name acc creds key) (ret ())"
| "handle_omni E g u (Disable i) = thenE (disable_connection E g u i) (ret ())"
| "handle_omni E g u Connections = thenE (list_connections E g u) (ret ())"
| "handle_omni E g u (Connection i) = thenE (get_connection E g u i) (ret ())"
| "handle_omni E g u (Inbox cq cur) = thenE (list_conversations E g u cq cur) (ret ())"
| "handle_omni E g u (Thread i limit before) = thenE (get_conversation E g i u limit before) (ret ())"

datatype omni_event =
    Request string string omni_request
  | Webhook string string string "(string \<times> string) list"
  | Subscription string string "(string \<times> string) list"
  | Inbound_entry sqs_entry
  | Round bool

text \<open>The worker takes a batch from its queues; \<open>Inbound_entry\<close> is one entry on its own.\<close>

fun react :: "env \<Rightarrow> omni_event \<Rightarrow> 'z omni_world_scheme \<Rightarrow> 'z omni_world_scheme" where
  "react E (Request g u q) w = snd (omni_session (handle_omni E g u q) w)"
| "react E (Webhook ch i raw headers) w = snd (omni_session (handle_webhook E ch i raw headers) w)"
| "react E (Subscription ch i params) w = snd (omni_session (verify_subscription E ch i params) w)"
| "react E (Inbound_entry msg) w = snd (omni_session (process_inbound_message E msg) w)"
| "react E (Round expire) w = snd (run_rounds E [expire] w)"

definition omni_events :: "env \<Rightarrow> omni_event list \<Rightarrow> 'z omni_world_scheme \<Rightarrow> 'z omni_world_scheme" where
  "omni_events E evs w = fold (react E) evs w"

text \<open>The organisations an event may act for.\<close>

fun acts_for :: "omni_event \<Rightarrow> string set" where
  "acts_for (Request g _ _) = {g}"
| "acts_for (Webhook _ _ _ _) = {}"
| "acts_for (Subscription _ _ _) = {}"
| "acts_for (Inbound_entry msg) = set_option (map_of (q_attributes msg) ''org_id'')"
| "acts_for (Round _) = UNIV"

section \<open>One event\<close>

lemma settles_ret: "settles S t m w \<Longrightarrow> settles S t (thenE m (ret ())) w"
  by (erule settles_then) (auto intro!: settles_rest frames)

lemma handle_omni_settles:
  assumes "at_rest S t w" and "g \<in> S"
  shows "settles S t (handle_omni E g u q) w"
  using assms
  by (cases q)
    (auto intro!: settles_ret claim_settles reassign_settles send_reply_settles mark_read_settles
      create_connection_settles disable_connection_settles, auto intro!: settles_rest frames)

lemma session_settles:
  assumes "\<And>v. at_rest S t v \<Longrightarrow> settles S t m v" and "good (om_db w)" "evolves S t (om_db w)"
    and "omni_session m w = (r, w')"
  shows "good (om_db w') \<and> evolves S t (om_db w')"
  using assms(4)
proof (cases rule: om.in_session_cases)
  case (1 v v')
  with assms(2,3) have "at_rest S t v" by (simp add: at_rest_def)
  from om.runsD [OF assms(1) [OF this] 1(1)] show ?thesis by (simp add: 1(4) settled_def)
qed

lemma run_iteration_settles:
  assumes "\<And>v. at_rest S t v \<Longrightarrow> settles S t m v" and "good (om_db w)" "evolves S t (om_db w)"
    and "run_iteration m w = (r, w')"
  shows "good (om_db w') \<and> evolves S t (om_db w')"
  using assms(4) session_settles [OF assms(1-3)]
  by (cases "omni_session m w") (auto simp: run_iteration_def catchE_app split: sum.splits)

lemma round_settles:
  assumes "good (om_db w)" "evolves UNIV t (om_db w)"
  shows "good (om_db (react E (Round b) w)) \<and> evolves UNIV t (om_db (react E (Round b) w))"
proof -
  define w0 where "w0 = (if b then queue_update Outbound sqs_timeout (queue_update Inbound sqs_timeout w) else w)"
  have db: "om_db w0 = om_db w" by (simp add: w0_def)
  obtain r1 w1 where i: "run_iteration (process_inbound_batch E 10) w0 = (r1, w1)" by (rule prod.exhaust)
  obtain r2 w2 where o: "run_iteration (process_outbound_batch E 10) w1 = (r2, w2)" by (rule prod.exhaust)
  have "good (om_db w1) \<and> evolves UNIV t (om_db w1)"
    by (rule run_iteration_settles [OF process_inbound_batch_settles _ _ i]) (use assms db in simp_all)
  then have "good (om_db w2) \<and> evolves UNIV t (om_db w2)"
    by (intro run_iteration_settles [OF process_outbound_batch_settles _ _ o]) simp_all
  moreover have "\<not> isl r1" "\<not> isl r2"
    using i o by (auto simp: run_iteration_def catchE_app split: prod.splits sum.splits)
  then have "om_db (react E (Round b) w) = om_db w2"
    using i o by (cases r1; cases r2) (simp_all add: thenE_app w0_def whenE_def split: if_splits)
  ultimately show ?thesis by simp
qed

lemma react_settles:
  assumes "good (om_db w)" "evolves S t (om_db w)" "acts_for ev \<subseteq> S"
  shows "good (om_db (react E ev w)) \<and> evolves S t (om_db (react E ev w))"
proof (cases ev)
  case (Request g u q)
  with assms(3) have "g \<in> S" by simp
  then have "settles S t (handle_omni E g u q) v" if "at_rest S t v" for v :: "'a omni_world_scheme"
    using that by (intro handle_omni_settles)
  from session_settles [OF this assms(1,2) prod.collapse [symmetric]] Request show ?thesis by simp
next
  case (Inbound_entry msg)
  with assms(3) have "settles S t (process_inbound_message E msg) v" if "at_rest S t v" for v :: "'a omni_world_scheme"
    using that by (intro process_inbound_message_settles) auto
  from session_settles [OF this assms(1,2) prod.collapse [symmetric]] Inbound_entry show ?thesis by simp
next
  case (Round b)
  with assms round_settles [of w t E b] show ?thesis by (simp add: top.extremum_unique)
next
  case (Webhook ch i raw headers)
  have "settles S t (handle_webhook E ch i raw headers) v" if "at_rest S t v" for v :: "'a omni_world_scheme"
    using that by (rule settles_rest) (intro frames; simp)
  from session_settles [OF this assms(1,2) prod.collapse [symmetric]] Webhook show ?thesis by simp
next
  case (Subscription ch i params)
  have "settles S t (verify_subscription E ch i params) v" if "at_rest S t v" for v :: "'a omni_world_scheme"
    using that by (rule settles_rest) (intro frames; simp)
  from session_settles [OF this assms(1,2) prod.collapse [symmetric]] Subscription show ?thesis by simp
qed

lemma omni_events_settle:
  assumes "good (om_db w)" and "\<forall>ev \<in> set evs. acts_for ev \<subseteq> S"
  shows "good (om_db (omni_events E evs w)) \<and> evolves S (om_db w) (om_db (omni_events E evs w))"
  using assms(2)
proof (induction evs rule: rev_induct)
  case Nil
  with assms(1) show ?case by (simp add: omni_events_def)
next
  case (snoc ev evs)
  then show ?case
    using react_settles [of "omni_events E evs w" S "om_db w" ev E] by (auto simp: omni_events_def)
qed


section \<open>A sample organisation\<close>

definition sample_connection :: channel_connection where
  "sample_connection = \<lparr>cn_id = ''cn1'', cn_org_id = ''o1'', cn_channel_type = ''whatsapp'',
     cn_display_name = ''Support'', cn_provider_account_id = ''555'', cn_credentials_secret_key = ''cn1'',
     cn_status = ''active'', cn_created_at = 1, cn_updated_at = 1\<rparr>"

definition sample_identity :: "string \<Rightarrow> string \<Rightarrow> channel_identity" where
  "sample_identity i e = \<lparr>ci_id = i, ci_org_id = ''o1'', ci_channel_type = ''whatsapp'',
     ci_external_id = e, ci_display_name = None, ci_created_at = 2\<rparr>"

definition sample_conversation :: "string \<Rightarrow> string \<Rightarrow> string option \<Rightarrow> int option \<Rightarrow> conversation" where
  "sample_conversation c i u at_time = \<lparr>cv_id = c, cv_org_id = ''o1'', cv_identity_id = i,
     cv_status = ''open'', cv_assigned_user_id = u, cv_last_message_at = at_time,
     cv_last_message_preview = None, cv_unread_count = 1, cv_created_at = 3\<rparr>"

definition sample_message :: message where
  "sample_message = \<lparr>mg_id = ''m1'', mg_org_id = ''o1'', mg_conversation_id = ''c1'',
     mg_direction = ''inbound'', mg_channel_type = ''whatsapp'', mg_external_id = ''wamid.1'',
     mg_body_text = Some ''hello'', mg_subject = None, mg_content_type = ''text/plain'',
     mg_status = ''received'', mg_sent_by = None, mg_dedup_key = None, mg_created_at = 10\<rparr>"

definition sample_assignment :: assignment where
  "sample_assignment = \<lparr>as_id = ''a1'', as_org_id = ''o1'', as_conversation_id = ''c2'',
     as_assigned_user_id = ''bob'', as_assigned_by = ''bob'', as_reason = ''claim'', as_created_at = 4\<rparr>"

definition sample_omni_tables :: omni_tables where
  "sample_omni_tables = \<lparr>connections = [sample_connection],
     identities = [sample_identity ''i1'' ''491'', sample_identity ''i2'' ''492''],
     conversations = [sample_conversation ''c1'' ''i1'' None (Some 10),
                      sample_conversation ''c2'' ''i2'' (Some ''bob'') None],
     messages = [sample_message], msg_attachments = [], assignments = [sample_assignment]\<rparr>"

definition sample_queue :: "sqs_entry list \<Rightarrow> sqs_queue" where
  "sample_queue xs = \<lparr>q_visible = xs, q_in_flight = [], q_dead = []\<rparr>"

definition sample_secret :: "(string \<times> json) list" where
  "sample_secret = [(''app_secret'', JStr ''key''), (''access_token'', JStr ''t''), (''phone_number_id'', JStr ''9'')]"

definition sample_omni :: "omni_tables \<Rightarrow> omni_world" where
  "sample_omni t = fresh_audit (bus_world_ext [] (settings_world_ext []
     (member_world_ext [membership_item ''o1'' ''ann'' OWNER 0, membership_item ''o1'' ''bob'' MEMBER 0]
     (storage_world_ext (\<lambda>_. None) [] empty_cache
     (secrets_world_ext [secret_name ''o1'' ''omnichannel'' ''cn1'' \<mapsto> Dumped sample_secret] empty_cache
     (email_world_ext [] [] [] [] [] []
     (invoice_world_ext \<lparr>invoices = [], line_items = [], payments = []\<rparr> \<lparr>invoices = [], line_items = [], payments = []\<rparr>
     (omni_world_ext t t (sample_queue []) (sample_queue []) [] [] [] ()))))))))"

lemma sample_omni_simps [simp]:
  "om_db (sample_omni t) = t" "om_tx (sample_omni t) = t"
  "member_tbl (sample_omni t) = [membership_item ''o1'' ''ann'' OWNER 0, membership_item ''o1'' ''bob'' MEMBER 0]"
  "inbound_q (sample_omni t) = sample_queue []" "outbound_q (sample_omni t) = sample_queue []"
  "secret_store (sample_omni t) = [secret_name ''o1'' ''omnichannel'' ''cn1'' \<mapsto> Dumped sample_secret]"
  by (simp_all add: sample_omni_def fresh_audit_def)

lemmas sample_rows = sample_omni_tables_def sample_connection_def sample_identity_def
  sample_conversation_def sample_message_def sample_assignment_def

lemma sample_good: "good sample_omni_tables"
proof -
  have "omni_check sample_omni_tables = None"
    by (simp add: omni_check_def omni_unique_def omni_references_def fits32_def identity_key_def
        message_key_def dedup_keys_def sample_rows)
  moreover have "linked sample_omni_tables"
    by (simp add: linked_defs last_assignee_def sample_rows)
  ultimately show ?thesis by (simp add: good_def)
qed

lemma sample_members: "wf_members (member_tbl (sample_omni t))"
  using wf_put [OF wf_put [OF wf_members_Nil wf_item_membership [of "''o1''" "''ann''" OWNER 0]]
      wf_item_membership [of "''o1''" "''bob''" MEMBER 0]]
  by (simp add: row_put_def membership_item_def)

section \<open>The tables\<close>

text \<open>
  C3: consistency.  After any requests, webhooks and worker rounds, whatever failed on the
  way, the committed tables satisfy every constraint, no reference crosses an organisation,
  a message is on its customer's channel, a customer has one conversation, and a
  conversation is assigned to the user of the last row of its assignment history.
\<close>

theorem omni_tables_consistent:
  "good (om_db w) \<Longrightarrow> good (om_db (omni_events E evs w))"
  using omni_events_settle [of w evs UNIV E] by simp

theorem omni_tables_consistent_witness:
  "good (om_db (omni_events sample_env [Request ''o1'' ''ann'' (Claim ''c1''), Round True,
     Request ''o1'' ''bob'' (Send_reply ''c1'' ''hi'' None None)] (sample_omni sample_omni_tables)))"
  by (rule omni_tables_consistent) (simp add: sample_good)



text \<open>
  C17: tenant isolation.  Requests of other organisations, messages delivered to them,
  webhooks of any connection and subscription handshakes change nothing that an
  organisation has in the omni-channel tables.
\<close>

theorem omni_tenant_isolation:
  assumes "good (om_db w)" and "\<forall>ev \<in> set evs. g \<notin> acts_for ev"
  shows "org_part g (om_db (omni_events E evs w)) = org_part g (om_db w)"
proof -
  have "\<forall>ev \<in> set evs. acts_for ev \<subseteq> - {g}" using assms(2) by auto
  from omni_events_settle [OF assms(1) this] show ?thesis by (auto intro: evolves_isolated)
qed

theorem omni_tenant_isolation_witness:
  "org_part ''o2'' (om_db (omni_events sample_env [Request ''o1'' ''ann'' (Claim ''c1''),
     Webhook ''whatsapp'' ''cn1'' ''{}'' []] (sample_omni sample_omni_tables))) = org_part ''o2'' sample_omni_tables"
  using omni_tenant_isolation [of "sample_omni sample_omni_tables"
    "[Request ''o1'' ''ann'' (Claim ''c1''), Webhook ''whatsapp'' ''cn1'' ''{}'' []]" "''o2''" sample_env]
  by (simp add: sample_good)

section \<open>Who may do what\<close>

abbreviation ANY_ROLE :: "Role list" where
  "ANY_ROLE \<equiv> [OWNER, ADMIN, MEMBER, GUEST]"

fun allowed_roles :: "omni_request \<Rightarrow> Role list" where
  "allowed_roles (Claim _) = NON_VIEWER_ROLES"
| "allowed_roles (Send_reply _ _ _ _) = NON_VIEWER_ROLES"
| "allowed_roles (Mark_read _) = ANY_ROLE"
| "allowed_roles (Inbox _ _) = ANY_ROLE"
| "allowed_roles (Thread _ _ _) = ANY_ROLE"
| "allowed_roles _ = ADMIN_ROLES"

text \<open>Every handler starts with its gate.\<close>

lemma handle_omni_gate:
  "(allowed_roles q \<noteq> ANY_ROLE \<and> (\<exists>body. handle_omni E g u q = bindE (require_role (allowed_roles q) E u g) body)) \<or>
   (allowed_roles q = ANY_ROLE \<and> (\<exists>body. handle_omni E g u q = bindE (require_membership_omni E u g) body))"
  by (cases q)
    (simp_all add: NON_VIEWER_ROLES_def ADMIN_ROLES_def claim_def reassign_def set_routing_config_def
      send_reply_def mark_read_def create_connection_def disable_connection_def list_connections_def
      get_connection_def list_conversations_def get_conversation_def thenE_def bindE_assoc, blast+)

text \<open>
  Access.  A request of somebody who is not a member of the organisation, or whose role
  is not among those the request needs, has no effect at all: no row, queue, file, setting,
  counter or notification changes.  The answer is \<open>not found\<close> for a stranger, \<open>forbidden\<close>
  for a member, or an outage of the membership table.
\<close>

theorem omni_access:
  fixes w :: "'z omni_world_scheme"
  assumes "wf_members (member_tbl w)"
    and "\<And>r t. member_of (member_tbl w) (u, g) = Some (r, t) \<Longrightarrow> r \<notin> set (allowed_roles q)"
    and "handle_omni E g u q w = (r, w')"
  shows "(\<exists>n. w' = w\<lparr>tick := n\<rparr>) \<and>
    (r = Inl (if member_of (member_tbl w) (u, g) = None then Exn (Core NotFoundError)
              else Exn (Omni ForbiddenError)) \<or> (\<exists>x. r = Inl (outage_exn x)))"
  using handle_omni_gate [where ?'a = 'z, of q E g u]
proof (elim disjE conjE exE)
  fix body :: "membership \<Rightarrow> ('z omni_world_scheme, unit) op"
  assume h: "handle_omni E g u q = bindE (require_role (allowed_roles q) E u g) body"
  have "\<not> om_role.may_enter (allowed_roles q) u g w"
    using assms(2) by (auto simp: om_role.may_enter_def)
  from om_role.guarded_refuses [OF assms(1) this assms(3) [unfolded h]] show ?thesis
    by (simp add: om_role.refusal_of_def)
next
  fix body :: "membership \<Rightarrow> ('z omni_world_scheme, unit) op"
  assume h: "handle_omni E g u q = bindE (require_membership_omni E u g) body" and any: "allowed_roles q = ANY_ROLE"
  have "r \<in> set ANY_ROLE" for r by (cases r) simp_all
  with assms(2) any have none: "member_of (member_tbl w) (u, g) = None"
    by (cases "member_of (member_tbl w) (u, g)") auto
  then have "\<not> om_reader.may_enter u g w" by (simp add: om_reader.may_enter_def)
  from om_reader.guarded_refuses [OF assms(1) this assms(3) [unfolded h]] none show ?thesis
    by (simp add: om_reader.refusal_of_def)
qed

theorem omni_access_witness:
  "fst (handle_omni sample_env ''o1'' ''bob'' (Disable ''cn1'') (sample_omni sample_omni_tables)) =
     Inl (Exn (Omni ForbiddenError)) \<or>
   (\<exists>x. fst (handle_omni sample_env ''o1'' ''bob'' (Disable ''cn1'') (sample_omni sample_omni_tables)) = Inl (outage_exn x))"
proof -
  have bob: "member_of (member_tbl (sample_omni sample_omni_tables)) (''bob'', ''o1'') = Some (MEMBER, 0)"
    by code_simp
  note access = omni_access [where w = "sample_omni sample_omni_tables" and u = "''bob''" and g = "''o1''"
      and q = "Disable ''cn1''" and E = sample_env, OF sample_members _ prod.collapse [symmetric]]
  from bob show ?thesis by (intro access [THEN conjunct2, simplified bob option.simps if_False]) (simp add: ADMIN_ROLES_def)
qed

end
