(* ===== verification/A2Z_InboxPages.thy ===== *)
theory A2Z_InboxPages
  imports A2Z_Keyset A2Z_OmniService
begin

text \<open>
  What a client of the inbox sees who follows the cursors of \<open>inbox.py\<close>: every conversation
  once when the newest come first, and not every one when the oldest do; every message of a
  thread; and the file names of its attachments.
\<close>

section \<open>The listings as keyset listings\<close>

definition row_position :: "conversation \<times> channel_identity \<Rightarrow> position" where
  "row_position r = position_of (fst r)"

interpretation newest_first: keyset "after_position True" "in_order True row_position" row_position "\<lambda>_. True"
  by (rule newest_keyset)

text \<open>Oldest first the contract holds only for conversations with a last message.\<close>

interpretation oldest_first: keyset "after_position False" "in_order False row_position" row_position
    "\<lambda>p. fst p \<noteq> None"
  by (rule oldest_keyset)

interpretation thread_order: keyset "after_position True" "in_order True message_position" message_position
    "\<lambda>_. True"
  by (rule newest_keyset)

lemma clamp_defaults:
  "0 < clamp n DEFAULT_CONVERSATION_LIMIT" "clamp n DEFAULT_CONVERSATION_LIMIT \<le> 100"
  "0 < clamp n DEFAULT_MESSAGE_LIMIT" "clamp n DEFAULT_MESSAGE_LIMIT \<le> 100"
  by (auto simp: clamp_def MAX_LIMIT_def DEFAULT_CONVERSATION_LIMIT_def DEFAULT_MESSAGE_LIMIT_def)

lemma conversation_page_keyset:
  "conversation_page E g cq c t =
     keyset_page (after_position (cq_sort cq = ''-last_message_at'')) (in_order (cq_sort cq = ''-last_message_at'') row_position)
       row_position (clamp (cq_limit cq) DEFAULT_CONVERSATION_LIMIT) (matching E g cq t) c"
  by (simp add: conversation_page_def keyset_page_def Let_def case_prod_beta' row_position_def [abs_def])

lemma joined_ids:
  assumes "distinct (map ci_id (identities t))"
  shows "length (joined t) \<le> length (conversations t) \<and>
    (distinct (map cv_id (conversations t)) \<longrightarrow> distinct (map (\<lambda>r. cv_id (fst r)) (joined t)))"
proof -
  have one: "distinct (map ci_id is) \<Longrightarrow> length (filter (\<lambda>i. ci_id i = k) is) \<le> 1" for k "is"
    by (induction "is") (auto simp: filter_empty_conv image_iff)
  have pairs: "map (Pair c) is = [] \<or> (\<exists>i. map (Pair c) is = [(c, i)])" if "length is \<le> 1"
    for c :: conversation and "is" :: "channel_identity list"
    using that by (cases "is") auto
  let ?f = "\<lambda>c :: conversation. map (Pair c) (filter (\<lambda>i. ci_id i = cv_identity_id c) (identities t))"
  have "length (concat (map ?f cs)) \<le> length cs \<and>
      (distinct (map cv_id cs) \<longrightarrow> distinct (map (\<lambda>r. cv_id (fst r)) (concat (map ?f cs))))" for cs
  proof (induction cs)
    case (Cons c cs)
    then show ?case using pairs [OF one [OF assms], of c "cv_identity_id c"] by auto
  qed simp
  then show ?thesis by (simp add: joined_def)
qed

lemma matching_listable:
  assumes "good t"
  shows "newest_first.listable (matching E g cq t)" "length (matching E g cq t) \<le> length (conversations t)"
    "distinct (map (\<lambda>r. cv_id (fst r)) (matching E g cq t))"
proof -
  note d = joined_ids [of t] good_distinct [OF assms]
  then show ids: "distinct (map (\<lambda>r. cv_id (fst r)) (matching E g cq t))"
    unfolding matching_def by (simp add: distinct_map_filter)
  then show "newest_first.listable (matching E g cq t)"
    by (simp add: newest_first.listable_def row_position_def position_of_def)
  show "length (matching E g cq t) \<le> length (conversations t)"
    using d length_filter_le unfolding matching_def by (metis (no_types, lifting) le_trans)
qed

section \<open>Browsing the conversations\<close>

text \<open>A client that requests page after page with the cursors it is given.\<close>

fun browse ::
  "nat \<Rightarrow> env \<Rightarrow> string \<Rightarrow> string \<Rightarrow> conversation_query \<Rightarrow> cursor option
    \<Rightarrow> ('z omni_world_scheme, conversation_summary list option) op" where
  "browse 0 E g u cq c = ret None"
| "browse (Suc k) E g u cq c =
     bindE (omni_session (list_conversations E g u cq c)) (\<lambda>(items, next_cursor).
     case next_cursor of
       None \<Rightarrow> ret (Some items)
     | Some c' \<Rightarrow> bindE (browse k E g u cq (Some c')) (\<lambda>others. ret (map_option ((@) items) others)))"

definition unavailable :: "string \<Rightarrow> string \<Rightarrow> 'z omni_world_scheme \<Rightarrow> exn \<Rightarrow> bool" where
  "unavailable u g w e \<longleftrightarrow> (\<exists>x. e = outage_exn x) \<or> e = Exn (Py DBAPIError) \<or>
     (member_of (member_tbl w) (u, g) = None \<and> e = Exn (Core NotFoundError))"

lemma list_conversations_run:
  assumes "omni_session (list_conversations E g u cq (map_option Cursor c)) w = (r, w')"
    and "cq_sort cq \<in> {''-last_message_at'', ''last_message_at''}" and "wf_members (member_tbl w)"
  shows "(case r of
      Inr (items, next_cursor) \<Rightarrow> items = map (\<lambda>(c, i). summary c i) (fst (conversation_page E g cq c (om_db w))) \<and>
        next_cursor = map_option Cursor (snd (conversation_page E g cq c (om_db w)))
    | Inl e \<Rightarrow> unavailable u g w e) \<and> om_db w' = om_db w \<and> member_tbl w' = member_tbl w"
  using assms(1)
proof (cases rule: om.in_session_cases)
  case (1 v v')
  have "leaves (\<lambda>w. (om_db w, member_tbl w)) (list_conversations E g u cq (map_option Cursor c) :: ('a omni_world_scheme, _) op)"
    by (intro frames) simp
  from leavesD [OF this 1(1)] 1 have kept: "om_db w' = om_db w" "member_tbl w' = member_tbl w" by auto
  have sort: "\<not> cq_sort cq \<notin> {''-last_message_at'', ''last_message_at''}" using assms(2) by simp
  have lift: "liftS (case map_option Cursor c of None \<Rightarrow> Inr None | Some c \<Rightarrow> bindS (decode_cursor c) (\<lambda>p. Inr (Some p)))
      = ret c"
    by (cases c) (simp_all add: decode_cursor_def bindS_def liftS_def)
  have mem: "member_tbl v = member_tbl w" using 1(5) by simp
  show ?thesis
    using 1(1)
    unfolding list_conversations_def if_not_P [OF sort] lift bindE_ret
  proof (cases rule: thenE_cases)
    case (stop e)
    have "wf_members (member_tbl v)" using assms(3) mem by simp
    from om_reader.gate_Inl [OF this stop(1)] stop kept mem show ?thesis
      by (auto simp: unavailable_def)
  next
    case (go x v1)
    have "leaves om_tx (require_membership_omni E u g :: ('a omni_world_scheme, _) op)" by (intro frames) simp
    from leavesD [OF this go(1)] 1(2) have tx: "om_tx v1 = om_db w" by simp
    from go(2) show ?thesis
    proof (cases rule: bindE_cases)
      case (stop e)
      with om.select_error [OF stop(1)] kept show ?thesis by (simp add: unavailable_def)
    next
      case (go y v2)
      with om.select_value [OF go(1)] tx kept show ?thesis by (auto split: prod.splits)
    qed
  qed
qed

lemma browse_walk:
  assumes "walk k (\<lambda>c. conversation_page E g cq c (om_db w)) c = Some pages"
    and "cq_sort cq \<in> {''-last_message_at'', ''last_message_at''}" and "wf_members (member_tbl w)"
    and "browse k E g u cq (map_option Cursor c) w = (r, w')"
  shows "r = Inr (Some (map (\<lambda>(c, i). summary c i) (concat pages))) \<or> (\<exists>e. r = Inl e \<and> unavailable u g w e)"
  using assms
proof (induction k arbitrary: c pages w r w')
  case (Suc k)
  obtain rows np where fetch: "conversation_page E g cq c (om_db w) = (rows, np)" by (rule prod.exhaust)
  from Suc.prems(4) [unfolded browse.simps] show ?case
  proof (cases rule: bindE_cases)
    case (stop e)
    with list_conversations_run [OF stop(1) Suc.prems(2,3)] show ?thesis by simp
  next
    case (go y w1)
    obtain items cur where y: "y = (items, cur)" by (rule prod.exhaust)
    note run = list_conversations_run [OF go(1) Suc.prems(2,3), unfolded y fetch]
    show ?thesis
    proof (cases np)
      case None
      with go(2) run Suc.prems(1) fetch y show ?thesis by auto
    next
      case (Some p)
      then obtain pages' where pages: "walk k (\<lambda>c. conversation_page E g cq c (om_db w)) (Some p) = Some pages'"
        "pages = rows # pages'"
        using Suc.prems(1) fetch by auto
      from go(2) Some run have "bindE (browse k E g u cq (map_option Cursor (Some p)))
          (\<lambda>others. ret (map_option ((@) items) others)) w1 = (r, w')" by (simp add: y)
      then show ?thesis
      proof (cases rule: bindE_cases)
        case (stop e)
        from Suc.IH [OF _ Suc.prems(2) _ stop(1)] pages run Suc.prems(3) stop(2)
        show ?thesis by (auto simp: unavailable_def)
      next
        case (go z w2)
        from Suc.IH [OF _ Suc.prems(2) _ go(1)] pages run Suc.prems(3) go(2)
        show ?thesis by auto
      qed
    qed
  qed
qed simp

text \<open>
  C21: the inbox, newest first.  A client that follows the cursors gets every matching
  conversation exactly once and in order, in at most one request per conversation and one
  more; the only other outcomes are failures of the database or of the membership look-up,
  and a refusal of somebody who is not a member.
\<close>

theorem inbox_pages_complete:
  assumes "good (om_db w)" and "wf_members (member_tbl w)" and "cq_sort cq = ''-last_message_at''"
    and "browse (length (conversations (om_db w)) + 1) E g u cq None w = (r, w')"
  shows "(\<exists>rows. r = Inr (Some (map (\<lambda>(c, i). summary c i) rows)) \<and>
      mset rows = mset (matching E g cq (om_db w)) \<and>
      sorted_wrt (\<lambda>(c, _) (d, _). after_position True (position_of c) (position_of d)) rows) \<or>
    (\<exists>e. r = Inl e \<and> unavailable u g w e)"
proof -
  let ?rows = "matching E g cq (om_db w)"
  define k where "k = length (conversations (om_db w)) + 1"
  note rows = matching_listable [OF assms(1), of E g cq]
  have page: "(\<lambda>c. conversation_page E g cq c (om_db w)) = keyset_page (after_position True)
      (in_order True row_position) row_position (clamp (cq_limit cq) DEFAULT_CONVERSATION_LIMIT) ?rows"
    by (intro ext) (simp add: conversation_page_keyset assms(3))
  have "length ?rows < k" using rows(2) by (simp add: k_def)
  from newest_first.walk_all [OF rows(1) clamp_defaults(1) [of "cq_limit cq"] this] obtain pages
    where pages: "walk k (\<lambda>c. conversation_page E g cq c (om_db w)) None = Some pages"
      "concat pages = in_order True row_position ?rows"
    unfolding page by blast
  have "sorted_wrt (\<lambda>(c, _) (d, _). after_position True (position_of c) (position_of d)) (concat pages)"
    using newest_first.arrange_sorted [of ?rows] rows(1) pages(2)
    by (simp add: newest_first.listable_def row_position_def case_prod_beta')
  moreover have "mset (concat pages) = mset ?rows" by (simp add: pages(2) in_order_mset)
  moreover have "r = Inr (Some (map (\<lambda>(c, i). summary c i) (concat pages))) \<or> (\<exists>e. r = Inl e \<and> unavailable u g w e)"
    using browse_walk [OF pages(1) _ assms(2), of u r w'] assms(3,4) by (simp add: k_def del: browse.simps)
  ultimately show ?thesis by blast
qed

definition sample_query :: "string \<Rightarrow> int \<Rightarrow> conversation_query" where
  "sample_query s n = \<lparr>cq_status = None, cq_assigned = None, cq_text = None, cq_sort = s, cq_limit = n\<rparr>"

theorem inbox_pages_complete_witness:
  "case browse 3 sample_env ''o1'' ''ann'' (sample_query ''-last_message_at'' 1) None (sample_omni sample_omni_tables) of
     (r, w') \<Rightarrow> (\<exists>rows. r = Inr (Some (map (\<lambda>(c, i). summary c i) rows)) \<and>
       mset rows = {#(sample_conversation ''c1'' ''i1'' None (Some 10), sample_identity ''i1'' ''491''),
         (sample_conversation ''c2'' ''i2'' (Some ''bob'') None, sample_identity ''i2'' ''492'')#}) \<or>
     (\<exists>e. r = Inl e \<and> unavailable ''ann'' ''o1'' (sample_omni sample_omni_tables) e)"
proof -
  let ?q = "sample_query ''-last_message_at'' 1"
  obtain r w' where run: "browse 3 sample_env ''o1'' ''ann'' ?q None (sample_omni sample_omni_tables) = (r, w')"
    by (rule prod.exhaust)
  have three: "length (conversations sample_omni_tables) + 1 = 3" by (simp add: sample_omni_tables_def)
  have shown: "mset (matching sample_env ''o1'' ?q sample_omni_tables) =
      {#(sample_conversation ''c1'' ''i1'' None (Some 10), sample_identity ''i1'' ''491''),
        (sample_conversation ''c2'' ''i2'' (Some ''bob'') None, sample_identity ''i2'' ''492'')#}"
    by (simp add: matching_def joined_def sample_query_def sample_rows)
  have sort: "cq_sort ?q = ''-last_message_at''" by (simp add: sample_query_def)
  from inbox_pages_complete [of "sample_omni sample_omni_tables" ?q sample_env "''o1''" "''ann''" r w',
      OF _ sample_members sort, unfolded sample_omni_simps three, OF sample_good run]
  show ?thesis unfolding run prod.case shown by blast
qed

section \<open>Oldest first\<close>

definition timed :: "conversation \<times> channel_identity \<Rightarrow> bool" where
  "timed r \<longleftrightarrow> fst (row_position r) \<noteq> None"

lemma oldest_order_append:
  assumes "distinct (map (\<lambda>r. cv_id (fst r)) rows)"
  shows "in_order False row_position rows =
    in_order False row_position (filter timed rows) @ in_order False row_position (filter (\<lambda>r. \<not> timed r) rows)"
proof (rule sorted_wrt_unique [where R = "\<lambda>r s. precedes False (row_position r) (row_position s)"])
  have ids: "distinct (map (\<lambda>r. snd (row_position r)) (filter P rows))" for P
    using assms by (simp add: row_position_def position_of_def distinct_map_filter)
  show "sorted_wrt (\<lambda>r s. precedes False (row_position r) (row_position s)) (in_order False row_position rows)"
    by (rule in_order_sorted) (use ids [of "\<lambda>_. True"] in simp)
  have "precedes False p q" if "fst p \<noteq> None" "fst q = None" for p q
    using that by (auto simp: precedes_def time_rank_def)
  then show "sorted_wrt (\<lambda>r s. precedes False (row_position r) (row_position s))
      (in_order False row_position (filter timed rows) @ in_order False row_position (filter (\<lambda>r. \<not> timed r) rows))"
    using in_order_sorted [OF ids] by (auto simp: sorted_wrt_append timed_def)
  show "set (in_order False row_position rows) =
      set (in_order False row_position (filter timed rows) @ in_order False row_position (filter (\<lambda>r. \<not> timed r) rows))"
    by auto
qed (auto simp: asymp_on_def precedes_asym)

lemma oldest_rest_timed:
  "fst p \<noteq> None \<Longrightarrow> oldest_first.rest_of (filter timed rows) (Some p) = oldest_first.rest_of rows (Some p)"
proof -
  assume "fst p \<noteq> None"
  then have "\<not> timed r \<Longrightarrow> \<not> after_position False p (row_position r)" for r
    by (cases p; cases "row_position r"; cases "fst p") (auto simp: timed_def)
  then show ?thesis by (auto simp: oldest_first.rest_of_def intro!: filter_cong)
qed

lemma oldest_page_timed:
  assumes "fst p \<noteq> None" "keyset_page (after_position False) (in_order False row_position) row_position n rows (Some p) = (items, c)"
  shows "keyset_page (after_position False) (in_order False row_position) row_position n (filter timed rows) (Some p) = (items, c)"
    and "\<forall>q. c = Some q \<longrightarrow> fst q \<noteq> None"
proof -
  note rest = oldest_rest_timed [OF assms(1), unfolded oldest_first.rest_of_def option.case]
  show "keyset_page (after_position False) (in_order False row_position) row_position n (filter timed rows) (Some p) = (items, c)"
    using assms(2) rest [of rows] unfolding keyset_page_def option.case by simp
  let ?xs = "in_order False row_position (filter (\<lambda>r. after_position False p (row_position r)) (filter timed rows))"
  show "\<forall>q. c = Some q \<longrightarrow> fst q \<noteq> None"
  proof (intro allI impI)
    fix q
    assume "c = Some q"
    then have q: "take n ?xs \<noteq> []" "q = row_position (last (take n ?xs))"
      using assms(2) rest unfolding keyset_page_def option.case page_conv by (auto split: if_splits)
    then have "last (take n ?xs) \<in> set ?xs" by (metis in_set_takeD last_in_set)
    then show "fst q \<noteq> None"
      using q(2) by (auto simp: timed_def)
  qed
qed

lemma oldest_walk_timed:
  "fst p \<noteq> None \<Longrightarrow> walk k (keyset_page (after_position False) (in_order False row_position) row_position n rows) (Some p) =
     walk k (keyset_page (after_position False) (in_order False row_position) row_position n (filter timed rows)) (Some p)"
proof (induction k arbitrary: p)
  case (Suc k)
  obtain items c where "keyset_page (after_position False) (in_order False row_position) row_position n rows (Some p) = (items, c)"
    by (rule prod.exhaust)
  with oldest_page_timed [OF Suc.prems this] Suc.IH show ?case by (cases c) simp_all
qed simp

lemma oldest_walk_all:
  assumes "distinct (map (\<lambda>r. cv_id (fst r)) rows)" "length rows \<le> m" "0 < n" "n \<le> length (filter timed rows)"
  shows "\<exists>pages. walk (Suc m) (keyset_page (after_position False) (in_order False row_position) row_position n rows) None =
      Some pages \<and> concat pages = in_order False row_position (filter timed rows)"
proof -
  let ?pages = "keyset_page (after_position False) (in_order False row_position) row_position n"
  define A where "A = in_order False row_position (filter timed rows)"
  define B where "B = in_order False row_position (filter (\<lambda>r. \<not> timed r) rows)"
  have len: "length A = length (filter timed rows)" "length A + length B = length rows"
    using sum_length_filter_compl [of timed rows] by (simp_all add: A_def B_def)
  have listable: "oldest_first.listable (filter timed rows)"
    using assms(1) unfolding oldest_first.listable_def
    by (auto simp: row_position_def position_of_def timed_def distinct_map_filter)
  have fetch: "?pages rows None = (take n A, if n < length (A @ B) then Some (row_position (last (take n A))) else None)"
    using oldest_order_append [OF assms(1)] assms(3,4) len
    by (auto simp: keyset_page_def page_conv A_def [symmetric] B_def [symmetric])
  show ?thesis
  proof (cases "n < length (A @ B)")
    case True
    define y where "y = last (take n A)"
    have "butlast (take n A) @ [y] = take n A"
      using assms(3,4) len unfolding y_def by (intro append_butlast_last_id) auto
    then have "A = (butlast (take n A) @ [y]) @ drop n A" by simp
    then have split: "in_order False row_position (oldest_first.rest_of (filter timed rows) None) =
        butlast (take n A) @ y # drop n A"
      unfolding oldest_first.rest_of_def option.case A_def by simp
    note rest = oldest_first.rest_of_last [OF listable, of None, unfolded option.case, OF TrueI split]
    have "length (oldest_first.rest_of (filter timed rows) (Some (row_position y))) < m"
      using rest(1) oldest_first.arrange_set(2) [of "oldest_first.rest_of (filter timed rows) (Some (row_position y))"]
        assms(2,3,4) len by simp
    from oldest_first.walk_complete [OF listable assms(3), of "Some (row_position y)", unfolded option.case,
        OF rest(2) this, unfolded rest(1)]
    obtain ps where "walk m (?pages (filter timed rows)) (Some (row_position y)) = Some ps \<and>
        concat ps = drop n A \<and> (\<forall>p \<in> set ps. length p \<le> n)" by (rule exE)
    moreover have "?pages rows None = (take n A, Some (row_position y))" using fetch True by (simp add: y_def)
    ultimately have "walk (Suc m) (?pages rows) None = Some (take n A # ps)" "concat (take n A # ps) = A"
      unfolding walk.simps using oldest_walk_timed [OF rest(2), of m n rows] by simp_all
    then show ?thesis unfolding A_def by blast
  next
    case False
    with fetch len assms(4) show ?thesis by (auto simp: A_def)
  qed
qed



section \<open>Threads\<close>

text \<open>A page of a thread for a cursor as the client sends it back.\<close>

definition thread_fetch ::
  "string \<Rightarrow> string \<Rightarrow> int \<Rightarrow> omni_tables \<Rightarrow> position option \<Rightarrow> exn + message list \<times> position option" where
  "thread_fetch g i limit t c = bindS (decode_before (map_option Cursor c)) (\<lambda>b. Inr (thread_page g i limit b t))"

fun thread_walk :: "nat \<Rightarrow> string \<Rightarrow> string \<Rightarrow> int \<Rightarrow> omni_tables \<Rightarrow> position option \<Rightarrow> (exn + message list) option" where
  "thread_walk 0 g i limit t c = None"
| "thread_walk (Suc k) g i limit t c = (case thread_fetch g i limit t c of
     Inl e \<Rightarrow> Some (Inl e)
   | Inr (msgs, None) \<Rightarrow> Some (Inr msgs)
   | Inr (msgs, Some p) \<Rightarrow> (case thread_walk k g i limit t (Some p) of
        None \<Rightarrow> None
      | Some (Inl e) \<Rightarrow> Some (Inl e)
      | Some (Inr older) \<Rightarrow> Some (Inr (older @ msgs))))"

definition thread_rows :: "string \<Rightarrow> string \<Rightarrow> omni_tables \<Rightarrow> message list" where
  "thread_rows g i t = filter (\<lambda>m. mg_org_id m = g \<and> mg_conversation_id m = i) (messages t)"

lemma thread_fetch_page:
  assumes "\<forall>p. c = Some p \<longrightarrow> fst p \<noteq> None"
    and "keyset_page (after_position True) (in_order True message_position) message_position
      (clamp limit DEFAULT_MESSAGE_LIMIT) (thread_rows g i t) c = (items, d)"
  shows "thread_fetch g i limit t c = Inr (rev items, d)" and "\<forall>p. d = Some p \<longrightarrow> fst p \<noteq> None"
proof -
  show "\<forall>p. d = Some p \<longrightarrow> fst p \<noteq> None"
    using assms(2) by (auto simp: keyset_page_def page_conv message_position_def split: if_splits)
  have older: "after_position True (Some u, j) (message_position m) \<longleftrightarrow>
      mg_created_at m < u \<or> (mg_created_at m = u \<and> mg_id m < j)" for u j m
    by (auto simp: message_position_def)
  show "thread_fetch g i limit t c = Inr (rev items, d)"
  proof (cases c)
    case None
    with assms(2) show ?thesis
      by (auto simp: thread_fetch_def decode_before_def bindS_def thread_page_def keyset_page_def thread_rows_def
          Let_def page_conv)
  next
    case (Some p)
    then obtain u j where c: "c = Some (Some u, j)" using assms(1) by (cases p) auto
    have "thread_fetch g i limit t c = Inr (thread_page g i limit (Some (u, j)) t)"
      by (simp add: c thread_fetch_def decode_before_def decode_cursor_def bindS_def)
    moreover have "filter (\<lambda>r. after_position True (Some u, j) (message_position r)) (thread_rows g i t) =
        filter (\<lambda>m. mg_org_id m = g \<and> mg_conversation_id m = i \<and>
          (mg_created_at m < u \<or> (mg_created_at m = u \<and> mg_id m < j))) (messages t)"
      unfolding thread_rows_def older filter_filter by (rule filter_cong) auto
    ultimately show ?thesis
      using assms(2) by (auto simp: c thread_page_def keyset_page_def page_conv Let_def split: if_splits)
  qed
qed

lemma thread_walk_pages:
  assumes "walk k (keyset_page (after_position True) (in_order True message_position) message_position
      (clamp limit DEFAULT_MESSAGE_LIMIT) (thread_rows g i t)) c = Some pages"
    and "\<forall>p. c = Some p \<longrightarrow> fst p \<noteq> None"
  shows "thread_walk k g i limit t c = Some (Inr (rev (concat pages)))"
  using assms
proof (induction k arbitrary: c pages)
  case (Suc k)
  obtain items d where page: "keyset_page (after_position True) (in_order True message_position) message_position
      (clamp limit DEFAULT_MESSAGE_LIMIT) (thread_rows g i t) c = (items, d)" by (rule prod.exhaust)
  note fetch = thread_fetch_page [OF Suc.prems(2) page]
  show ?case
  proof (cases d)
    case None
    with Suc.prems(1) fetch page show ?thesis by auto
  next
    case (Some p)
    then obtain ps where "walk k (keyset_page (after_position True) (in_order True message_position) message_position
      (clamp limit DEFAULT_MESSAGE_LIMIT) (thread_rows g i t)) (Some p) = Some ps" "pages = items # ps"
      using Suc.prems(1) page by auto
    with Suc.IH [OF this(1)] fetch Some show ?thesis by simp
  qed
qed simp

text \<open>
  Threads.  Scrolling back through a thread with the cursors it gives out ends after at
  most one page per message and one more, never with a refused cursor, and shows exactly
  the messages of the conversation, oldest first, ties broken by id.
\<close>

theorem thread_pages_complete:
  assumes "good t"
  shows "\<exists>msgs. thread_walk (length (messages t) + 1) g i limit t None = Some (Inr msgs) \<and>
    mset msgs = mset (filter (\<lambda>m. mg_org_id m = g \<and> mg_conversation_id m = i) (messages t)) \<and>
    sorted_wrt (\<lambda>m m'. mg_created_at m < mg_created_at m' \<or>
      (mg_created_at m = mg_created_at m' \<and> mg_id m < mg_id m')) msgs"
proof -
  let ?rows = "thread_rows g i t"
  have ids: "distinct (map (\<lambda>m. snd (message_position m)) ?rows)"
    using good_distinct [OF assms] by (simp add: message_position_def thread_rows_def distinct_map_filter)
  then have listable: "thread_order.listable ?rows" by (simp add: thread_order.listable_def)
  have "length ?rows < length (messages t) + 1" by (simp add: thread_rows_def less_Suc_eq_le)
  from thread_order.walk_all [OF listable clamp_defaults(3) [of limit] this] obtain pages
    where pages: "walk (length (messages t) + 1) (keyset_page (after_position True) (in_order True message_position)
        message_position (clamp limit DEFAULT_MESSAGE_LIMIT) ?rows) None = Some pages"
      "concat pages = in_order True message_position ?rows" by blast
  have "thread_walk (length (messages t) + 1) g i limit t None = Some (Inr (rev (concat pages)))"
    by (rule thread_walk_pages [OF pages(1)]) simp
  moreover have "mset (rev (concat pages)) = mset ?rows" by (simp add: pages(2) in_order_mset)
  moreover have "sorted_wrt (\<lambda>m m'. mg_created_at m < mg_created_at m' \<or>
      (mg_created_at m = mg_created_at m' \<and> mg_id m < mg_id m')) (rev (concat pages))"
    using thread_order.arrange_sorted [OF ids] unfolding pages(2) sorted_wrt_rev
    by (rule sorted_wrt_mono_rel [rotated]) (auto simp: message_position_def)
  ultimately show ?thesis unfolding thread_rows_def by blast
qed

theorem thread_pages_complete_witness:
  "\<exists>msgs. thread_walk 2 ''o1'' ''c1'' 50 sample_omni_tables None = Some (Inr msgs) \<and> mset msgs = {#sample_message#}"
proof -
  have "length (messages sample_omni_tables) + 1 = 2"
    "filter (\<lambda>m. mg_org_id m = ''o1'' \<and> mg_conversation_id m = ''c1'') (messages sample_omni_tables) = [sample_message]"
    by (simp_all add: sample_omni_tables_def sample_message_def)
  with thread_pages_complete [OF sample_good, of "''o1''" "''c1''" 50] show ?thesis
    by (simp add: numeral_2_eq_2 del: thread_walk.simps)
qed

section \<open>File names\<close>

lemma show_int_no_sep: "c \<notin> set ''0123456789-'' \<Longrightarrow> c \<notin> set (show_int n)"
  using show_nat_digits [of c] by (auto simp: show_int_def split: if_splits)

lemma timestamp_no_sep: "c \<notin> set ''0123456789-'' \<Longrightarrow> c \<notin> set (timestamp us)"
  using show_int_no_sep [of c] by (auto simp: timestamp_def Let_def pad_def zfill_def split: prod.split)

text \<open>
  Attachment names.  The name that the thread shows for an attachment is the name it was
  uploaded under, if that contains no slash; a nameless upload shows its time stamp.
\<close>

theorem attachment_name_round_trip:
  assumes "CHR ''/'' \<notin> set filename"
  shows "filename_from_key (file_key g svc now filename) = (if filename = [] then timestamp now @ ''_'' else filename)"
proof -
  have sep: "CHR ''/'' \<notin> set (timestamp now)" "CHR ''_'' \<notin> set (timestamp now)"
    by (rule timestamp_no_sep, simp)+
  have "after_last CHR ''/'' ((g @ ''/'' @ svc) @ CHR ''/'' # (timestamp now @ ''_'' @ filename)) =
      timestamp now @ ''_'' @ filename"
    by (rule after_last_append) (use sep assms in simp)
  moreover have "partition_at CHR ''_'' (timestamp now @ CHR ''_'' # filename) = Some (timestamp now, filename)"
    by (rule partition_at_append) (rule sep)
  ultimately show ?thesis by (simp add: filename_from_key_def file_key_def)
qed

theorem attachment_name_round_trip_witness:
  "filename_from_key (file_key ''o1'' ''omnichannel'' 0 ''my_photo.jpg'') = ''my_photo.jpg''"
  by (subst attachment_name_round_trip) simp_all

end
