(* ===== verification/A2Z_OmniDelivery.thy ===== *)
theory A2Z_OmniDelivery
  imports A2Z_OmniService
begin

text \<open>
  What the single operations of the omni-channel service promise: claims, replies, inbound
  messages, delivery statuses and outbound sends.
\<close>

section \<open>Claims\<close>

definition assigns :: "conversation \<Rightarrow> string \<Rightarrow> string \<Rightarrow> string \<Rightarrow> omni_tables \<Rightarrow> omni_tables \<Rightarrow> bool" where
  "assigns c u b reason t d \<longleftrightarrow>
     conversations d = row_upd cv_id (cv_id c) (\<lambda>_. c\<lparr>cv_assigned_user_id := Some u\<rparr>) (conversations t) \<and>
     (\<exists>row. assignments d = assignments t @ [row] \<and> as_conversation_id row = cv_id c \<and>
        as_assigned_user_id row = u \<and> as_assigned_by row = b \<and> as_reason row = reason)"

lemma record_assignment_runs:
  assumes "om_tx w = om_db w"
  shows "om.runs (\<lambda>r d _. (d = om_db w \<and> isl r \<or> assigns c u b reason (om_db w) d) \<and>
       (\<forall>c'. r = Inr c' \<longrightarrow> c' = c\<lparr>cv_assigned_user_id := Some u\<rparr>)) (record_assignment E c u b reason) w"
  unfolding record_assignment_def Let_def
  apply (rule om.runs_reads, (intro frames; simp), simp)
  apply (rule om.runs_reads, (intro frames; simp), simp)
  apply (rule om.runs_modify)
  apply (rule om.runs_commit)
    apply simp
   apply (simp add: assms save_conversation_def assigns_def)
  subgoal premises p for row_id w1 now w2 w3 w4
  proof -
    have "assigns c u b reason (om_db w) (om_db w4)"
      using p assms by (simp add: save_conversation_def assigns_def)
    then show ?thesis
      apply -
      apply (rule om.runs_then_reads, (intro frames; simp), simp)+
      apply (rule om.runs_ret, simp)
      done
  qed
  done

text \<open>
  Claiming.  A claim never takes an assigned conversation over: every assigned
  conversation is unchanged after it, whatever failed.  If it returns, the conversation is
  the caller's, and either it was already and nothing changed, or it was unassigned and the
  history got one row, of reason \<open>claim\<close>, by and for the caller.
\<close>

theorem claim_exclusive:
  assumes "good (om_db w)" and "omni_session (claim E g i u) w = (r, w')"
  shows "(\<forall>c \<in> set (conversations (om_db w)). cv_assigned_user_id c \<noteq> None \<longrightarrow>
        c \<in> set (conversations (om_db w'))) \<and>
    (\<forall>c'. r = Inr c' \<longrightarrow> cv_id c' = i \<and> cv_assigned_user_id c' = Some u \<and> c' \<in> set (conversations (om_db w')) \<and>
      (om_db w' = om_db w \<or>
       (\<exists>row. assignments (om_db w') = assignments (om_db w) @ [row] \<and> as_conversation_id row = i \<and>
          as_assigned_user_id row = u \<and> as_assigned_by row = u \<and> as_reason row = ''claim'')))"
proof -
  let ?t = "om_db w"
  define R where "R r d \<longleftrightarrow> (\<forall>c \<in> set (conversations ?t). cv_assigned_user_id c \<noteq> None \<longrightarrow> c \<in> set (conversations d)) \<and>
    (\<forall>c'. r = Inr c' \<longrightarrow> cv_id c' = i \<and> cv_assigned_user_id c' = Some u \<and> c' \<in> set (conversations d) \<and>
      (d = ?t \<or> (\<exists>row. assignments d = assignments ?t @ [row] \<and> as_conversation_id row = i \<and>
          as_assigned_user_id row = u \<and> as_assigned_by row = u \<and> as_reason row = ''claim'')))"
    for r :: "exn + conversation" and d
  have dist: "distinct (map cv_id (conversations ?t))" using good_distinct [OF assms(1)] by simp
  have "R r (om_db w')"
  proof (rule om.ends_session [OF _ assms(2)])
    fix v :: "'a omni_world_scheme"
    assume v: "om_db v = ?t" "om_tx v = ?t"
    show "om.ends R (claim E g i u) v"
      unfolding claim_def load_conversation_def om.ends_runs bindE_assoc
      apply (rule om.runs_then_reads, (intro frames; simp), simp add: R_def v)
      apply (rule om.runs_select, simp add: R_def v)
      apply (split option.split, intro conjI allI impI)
       apply (simp add: om.runs_def bindE_app R_def v)
      subgoal premises p for m w1 w2 c
      proof (cases "cv_org_id c = g")
        case True
        have w2: "om_db w2 = ?t" "om_tx w2 = om_db w2" using p v by simp_all
        have c: "c \<in> set (conversations ?t)" "cv_id c = i" using p v row_get_SomeD by fastforce+
        consider (mine) "cv_assigned_user_id c = Some u" | (taken) x where "cv_assigned_user_id c = Some x" "x \<noteq> u"
          | (free) "cv_assigned_user_id c = None" by (cases "cv_assigned_user_id c") auto
        then show ?thesis
        proof cases
          case free
          have "R r d" if "(d = om_db w2 \<and> isl r \<or> assigns c u u ''claim'' (om_db w2) d) \<and>
              (\<forall>c'. r = Inr c' \<longrightarrow> c' = c\<lparr>cv_assigned_user_id := Some u\<rparr>)" for r d
          proof -
            from that have "d = ?t \<and> isl r \<or> R r d"
              using c dist free w2
              by (auto simp: R_def assigns_def row_upd_def distinct_map inj_on_def)
            then show ?thesis by (auto simp: R_def)
          qed
          with free True show ?thesis
            by (auto simp: bindE_ret intro: om.runs_mono [OF record_assignment_runs [OF w2(2)]])
        qed (use c w2 True in \<open>auto simp: om.runs_def bindE_app R_def\<close>)
      qed (use v p in \<open>simp add: om.runs_def bindE_app R_def\<close>)
      done
  qed
  then show ?thesis by (simp add: R_def)
qed


theorem claim_exclusive_witness:
  "sample_conversation ''c2'' ''i2'' (Some ''bob'') None \<in> set (conversations (om_db (snd
     (omni_session (claim sample_env ''o1'' ''c2'' ''ann'') (sample_omni sample_omni_tables)))))"
  using claim_exclusive [OF _ prod.collapse [symmetric], of "sample_omni sample_omni_tables" sample_env "''o1''" "''c2''" "''ann''"]
  by (simp add: sample_good) (simp add: sample_omni_tables_def sample_conversation_def)

section \<open>Inbound messages are stored once\<close>

definition has_message :: "string \<Rightarrow> string \<Rightarrow> omni_tables \<Rightarrow> bool" where
  "has_message ch e t \<longleftrightarrow> (ch, e) \<in> message_key ` set (messages t)"

text \<open>The random ids of the environment are not in use.\<close>

definition fresh_ids :: "env \<Rightarrow> omni_tables \<Rightarrow> bool" where
  "fresh_ids E t \<longleftrightarrow> (\<forall>n. uuid4 E n \<notin> mg_id ` set (messages t))"

text \<open>A property of the tables that no change invalidates holds of both copies, through commits.\<close>

definition both :: "(omni_tables \<Rightarrow> bool) \<Rightarrow> 'z omni_world_scheme \<Rightarrow> bool" where
  "both P w \<longleftrightarrow> P (om_db w) \<and> P (om_tx w)"

lemma both_reads: "leaves (\<lambda>w. (om_db w, om_tx w)) m \<Longrightarrow> keeps (both P) m"
  using leaves_keeps [where f = "\<lambda>w. (om_db w, om_tx w)" and P = "\<lambda>(d, x). P d \<and> P x"]
  by (simp add: both_def [abs_def] case_prod_beta)

lemma both_modify: "(\<And>t. P t \<Longrightarrow> P (f t)) \<Longrightarrow> keeps (both P) (modify_om f)"
  by (simp add: keeps_def both_def om.modify_app)

lemma both_commit: "keeps (both P) (commit_om E)"
proof (rule keepsI)
  fix w :: "'a omni_world_scheme"
  assume "both P w"
  then show "both P (snd (commit_om E w))"
    by (cases "commit_om E w") (auto simp: both_def elim!: om.commit_cases)
qed

lemmas step_keeps = keeps_bindE keeps_thenE keeps_case_option keeps_if keeps_ret

lemma has_message_kept [simp]:
  "has_message ch e (save_conversation c t) = has_message ch e t"
  "has_message ch e (t\<lparr>assignments := xs\<rparr>) = has_message ch e t"
  "has_message ch e (t\<lparr>msg_attachments := atts\<rparr>) = has_message ch e t"
  by (simp_all add: has_message_def save_conversation_def)

lemma record_assignment_keeps [keepers]: "keeps (both (has_message ch e)) (record_assignment E c u b reason)"
  unfolding record_assignment_def Let_def
  by (intro step_keeps both_commit both_modify; (rule both_reads, (intro frames; simp))?) simp

lemma route_and_announce_keeps:
  "keeps (both (has_message ch e)) (bindE (if is_new then apply_single_assignee_if_configured E c else ret c)
     (\<lambda>c2. announce_message E g ch' c2 i))"
  unfolding apply_single_assignee_if_configured_def
  by (intro step_keeps record_assignment_keeps; (rule both_reads, (intro frames; simp))?)

lemma finish_item_has_message:
  assumes "has_message ch e (om_tx w)"
  shows "om.runs (\<lambda>r d _. \<not> isl r \<longrightarrow> has_message ch e d) (thenE (forE (store_attachment E g i) atts)
     (bindE (now_utc E) (\<lambda>now.
     thenE (modify_om (save_conversation (note_message now item c)))
     (thenE (commit_om E)
     (bindE (if is_new then apply_single_assignee_if_configured E (note_message now item c)
             else ret (note_message now item c)) (\<lambda>c2.
     announce_message E g ch' c2 i)))))) w"
proof (rule om.runs_then)
  have "keeps (\<lambda>w. has_message ch e (om_tx w)) (store_attachment E g i att)" for att
    unfolding store_attachment_def
  proof (intro step_keeps)
    show "keeps (\<lambda>w. has_message ch e (om_tx w)) (upload_file E g ''omnichannel'' (ia_filename att)
        (ia_content att) (ia_content_type att) ''system'' None)"
      by (rule leaves_keeps [where f = om_tx]) (intro frames; simp)
    show "keeps (\<lambda>w. has_message ch e (om_tx w)) (new_uuid E)"
      by (rule leaves_keeps [where f = om_tx]) (intro frames; simp)
  qed (simp add: keeps_def om.modify_app)
  then have "keeps (\<lambda>w. has_message ch e (om_tx w)) (forE (store_attachment E g i) atts)"
    by (rule keeps_forE)
  then show "om.runs (\<lambda>_ _ x. has_message ch e x) (forE (store_attachment E g i) atts) w"
    using assms keepsD by (intro om.runsI) fast
next
  fix y and w1 :: "'a omni_world_scheme"
  assume m: "has_message ch e (om_tx w1)"
  show "om.runs (\<lambda>r d _. \<not> isl r \<longrightarrow> has_message ch e d) (bindE (now_utc E) (\<lambda>now.
     thenE (modify_om (save_conversation (note_message now item c)))
     (thenE (commit_om E)
     (bindE (if is_new then apply_single_assignee_if_configured E (note_message now item c)
             else ret (note_message now item c)) (\<lambda>c2.
     announce_message E g ch' c2 i))))) w1"
    apply (rule om.runs_reads, (intro frames; simp), simp)
    apply (rule om.runs_modify)
    apply (rule om.runs_commit, simp, simp)
    apply (rule om.runsI)
    apply (drule keepsD [OF route_and_announce_keeps [where ch = ch and e = e]])
     apply (simp_all add: both_def m)
    done
qed simp

lemma duplicate_key:
  assumes "omni_check t = None" and "omni_check (t\<lparr>messages := messages t @ [m]\<rparr>) = Some (Exn (Py IntegrityError))"
    and "mg_id m \<notin> mg_id ` set (messages t)" "mg_dedup_key m = None" "mg_conversation_id m \<in> cv_id ` set (conversations t)"
  shows "message_key m \<in> message_key ` set (messages t)"
  using assms by (auto simp: omni_check_def omni_unique_def omni_references_def dedup_keys_def list_all_iff split: if_splits)


lemma find_or_create_leaves_messages:
  "leaves (\<lambda>w. (om_db w, messages (om_tx w))) (find_or_create_identity E g ch e n)"
  "leaves (\<lambda>w. (om_db w, messages (om_tx w))) (find_or_create_conversation E g i)"
  unfolding find_or_create_identity_def find_or_create_conversation_def Let_def
  by (intro frames; simp)+

lemma new_inbound_message_id: "new_inbound_message E g ch i item w = (Inr m, w') \<Longrightarrow> \<exists>n. mg_id m = uuid4 E n"
  by (auto simp: new_inbound_message_def new_uuid_def act_Inr)

lemma process_item_has_message:
  assumes "at_rest UNIV t w" and "fresh_ids E (om_db w)"
  shows "om.runs (\<lambda>r d _. \<not> isl r \<longrightarrow> has_message ch (in_external_message_id item) d) (process_item E g ch item) w"
  unfolding process_item_def Let_def
  apply (rule om.runs_bind [OF identity_drafted [where ch = ch and S = UNIV and t = t]])
  using at_restD [OF assms(1)] at_rest_draft [OF assms(1)] apply (simp_all add: good_def)[6]
  apply (rule om.runs_bind [OF conversation_drafted [where ch = ch and S = UNIV and t = t]])
  apply simp_all[7]
  apply (split prod.split, intro allI impI)
  apply (rule om.runs_reads, intro frames, simp, simp)
  apply (rule om.runs_modify)
  apply (rule om.runs_bind [OF flush_or_duplicate_runs])
   apply simp
  subgoal premises p for i w1 cb w2 c is_new m w3 w4 fresh w5
  proof -
    have old: "messages (om_tx w2) = messages (om_db w)" "om_db w2 = om_db w"
      using leavesD [OF find_or_create_leaves_messages(1) p(1)] leavesD [OF find_or_create_leaves_messages(2) p(3)]
        at_restD [OF assms(1)] by simp_all
    have m: "mg_external_id m = in_external_message_id item" "mg_channel_type m = ch" "mg_dedup_key m = None"
        "mg_conversation_id m = cv_id c"
      using new_inbound_message_Inr [OF p(6)] by simp_all
    have tx: "om_tx w4 = (om_tx w2)\<lparr>messages := messages (om_tx w2) @ [m]\<rparr>" using p by simp
    show ?thesis
    proof (cases fresh)
      case True
      with p tx m have "has_message ch (in_external_message_id item) (om_tx w5)"
        by (simp add: has_message_def message_key_def)
      with True show ?thesis by (auto intro!: finish_item_has_message)
    next
      case False
      obtain n where "mg_id m = uuid4 E n" using new_inbound_message_id [OF p(6)] by blast
      with assms(2) old have "mg_id m \<notin> mg_id ` set (messages (om_tx w2))" by (simp add: fresh_ids_def)
      moreover have "omni_check (om_tx w2) = None" "mg_conversation_id m \<in> cv_id ` set (conversations (om_tx w2))"
        using p(4,5) m by (auto simp: conversation_of_def)
      ultimately have "message_key m \<in> message_key ` set (messages (om_tx w2))"
        using duplicate_key [of "om_tx w2" m] p(12) False m tx by simp
      then have "has_message ch (in_external_message_id item) (om_db w)"
        using old m by (simp add: has_message_def message_key_def)
      moreover have "om_db w5 = om_db w" using p(7,8,9,10,11,12) old False by simp
      ultimately show ?thesis using False by (simp add: om.runs_def)
    qed
  qed
  done


lemma process_item_duplicate:
  assumes "at_rest UNIV t w" and "has_message ch (in_external_message_id item) (om_db w)"
  shows "om.runs (\<lambda>_ d _. d = om_db w) (process_item E g ch item) w"
  unfolding process_item_def Let_def
  apply (rule om.runs_bind [where S = "\<lambda>_ d x. d = om_db w \<and> messages x = messages (om_db w)"])
    apply (rule om.runsI)
    apply (drule leavesD [OF find_or_create_leaves_messages(1)])
  using at_restD [OF assms(1)] apply simp
   apply simp
  apply (rule om.runs_bind [where S = "\<lambda>_ d x. d = om_db w \<and> messages x = messages (om_db w)"])
    apply (rule om.runsI)
    apply (drule leavesD [OF find_or_create_leaves_messages(2)], simp)
   apply simp
  apply (split prod.split, intro allI impI)
  apply (rule om.runs_reads, intro frames, simp, simp)
  apply (rule om.runs_modify)
  apply (rule om.runs_bind [OF flush_or_duplicate_runs])
   apply simp
  subgoal premises p for i w1 cb w2 c is_new m w3 w4 fresh w5
  proof -
    have key: "message_key m = (ch, in_external_message_id item)"
      using new_inbound_message_Inr [OF p(6)] by (simp add: message_key_def)
    have "omni_check (om_tx w4) \<noteq> None"
      using assms(2) p(4,8,10) key omni_check_None [of "om_tx w4"]
      by (auto simp: omni_unique_def has_message_def)
    with p show ?thesis by (auto simp: om.runs_def split: if_splits)
  qed
  done

lemma keys_once:
  assumes "distinct (map message_key ms)"
  shows "length (filter (\<lambda>m. message_key m = k) ms) = (if k \<in> message_key ` set ms then 1 else 0)"
  using assms by (induction ms) (auto simp: filter_empty_conv image_iff)


definition sample_item :: inbound_message where
  "sample_item = \<lparr>in_external_id = ''491'', in_external_message_id = ''wamid.1'', in_display_name = None,
     in_body_text = Some ''hello'', in_content_type = ''text/plain'', in_attachments = []\<rparr>"


section \<open>Delivery statuses\<close>

lemma omni_check_status:
  assumes "distinct (map mg_id (messages t))" and "m \<in> set (messages t)"
  shows "omni_check (save_message (m\<lparr>mg_status := s\<rparr>) t) = omni_check t"
proof -
  let ?m = "m\<lparr>mg_status := s\<rparr>"
  let ?ms = "row_upd mg_id (mg_id ?m) (\<lambda>_. ?m) (messages t)"
  have same: "map f ?ms = map f (messages t)" if "\<And>x. f (x\<lparr>mg_status := s\<rparr>) = f x" for f :: "message \<Rightarrow> 'x"
    using assms that by (intro map_row_upd_same) (auto simp: distinct_map inj_on_def)
  have "map mg_id ?ms = map mg_id (messages t)" "map message_key ?ms = map message_key (messages t)"
    "map mg_conversation_id ?ms = map mg_conversation_id (messages t)"
    by (rule same; simp add: message_key_def)+
  moreover have "dedup_keys ?ms = dedup_keys (messages t)"
    unfolding dedup_keys_def by (rule arg_cong [where f = concat], rule same) (simp split: option.split)
  moreover have "list_all (\<lambda>m. mg_conversation_id m \<in> X) xs = list_all (\<lambda>i. i \<in> X) (map mg_conversation_id xs)"
    for X and xs :: "message list" by (simp add: list_all_iff)
  then have "list_all (\<lambda>m. mg_conversation_id m \<in> X) ?ms = list_all (\<lambda>m. mg_conversation_id m \<in> X) (messages t)" for X
    using \<open>map mg_conversation_id ?ms = map mg_conversation_id (messages t)\<close> by metis
  ultimately show ?thesis
    by (simp add: omni_check_def omni_unique_def omni_references_def save_message_def del: set_map list.set_map)
qed

lemma filter_key:
  assumes "distinct (map message_key ms)" and "m \<in> set ms" "mg_org_id m = g" "mg_channel_type m = ch" "mg_external_id m = e"
  shows "filter (\<lambda>m. mg_org_id m = g \<and> mg_channel_type m = ch \<and> mg_external_id m = e) ms = [m]"
  using assms
proof (induction ms)
  case (Cons x ms)
  show ?case
  proof (cases "x = m")
    case True
    with Cons.prems have "\<forall>y \<in> set ms. message_key y \<noteq> message_key m" by (auto simp: image_iff)
    then have "filter (\<lambda>m. mg_org_id m = g \<and> mg_channel_type m = ch \<and> mg_external_id m = e) ms = []"
      using Cons.prems by (auto simp: filter_empty_conv message_key_def)
    with True Cons.prems show ?thesis by simp
  next
    case False
    with Cons.prems have "m \<in> set ms" "message_key x \<noteq> message_key m" by (auto simp: image_iff)
    with Cons show ?thesis by (auto simp: message_key_def)
  qed
qed simp

text \<open>The session's calls without failures.\<close>

lemma om_calls:
  assumes "no_faults E"
  shows "select_om E f w = (Inr (f (om_tx w)), w\<lparr>tick := Suc (tick w)\<rparr>)"
    and "omni_check (om_tx w) = None \<Longrightarrow> commit_om E w = (Inr (), w\<lparr>tick := Suc (tick w), om_db := om_tx w\<rparr>)"
  using assms by (simp_all add: pg_select_def pg_commit_def)

text \<open>One update without failures.\<close>

lemma apply_delivery_status_step:
  assumes "no_faults E" "at_rest UNIV t w" and m: "m \<in> set (messages (om_db w))" "mg_org_id m = g"
    "mg_channel_type m = ch" "mg_external_id m = du_external_message_id u"
  shows "\<exists>w' m'. apply_delivery_status E g ch u w = (Inr (), w') \<and> at_rest UNIV t w' \<and> m' \<in> set (messages (om_db w')) \<and>
     m' = m\<lparr>mg_status := (if advances_status (mg_status m) (du_status u) then du_status u else mg_status m)\<rparr>"
proof -
  note r = at_restD [OF assms(2)]
  then have dist: "distinct (map message_key (messages (om_db w)))" "distinct (map mg_id (messages (om_db w)))"
    using omni_check_None good_distinct by (auto simp: good_def omni_unique_def)
  note one = filter_key [OF dist(1) m]
  let ?m = "m\<lparr>mg_status := (if advances_status (mg_status m) (du_status u) then du_status u else mg_status m)\<rparr>"
  have check: "omni_check (save_message (m\<lparr>mg_status := s\<rparr>) (om_db w)) = None" for s
    using r m dist by (simp add: omni_check_status good_def)
  have "\<exists>w'. apply_delivery_status E g ch u w = (Inr (), w') \<and> ?m \<in> set (messages (om_db w'))"
  proof (cases "advances_status (mg_status m) (du_status u)")
    case True
    then show ?thesis
      using r one check [of "du_status u"] m
      by (auto simp: apply_delivery_status_def bindE_app thenE_app om_calls [OF assms(1)] one_or_none_def liftS_def
          om.modify_app publish_update_def Let_def save_message_def row_upd_def image_iff)
  next
    case False
    then show ?thesis
      using r one m
      by (simp add: apply_delivery_status_def bindE_app om_calls [OF assms(1)] one_or_none_def liftS_def)
  qed
  then obtain w' where run: "apply_delivery_status E g ch u w = (Inr (), w')" and m': "?m \<in> set (messages (om_db w'))"
    by blast
  moreover have "at_rest UNIV t w'"
    using om.runsD [OF apply_delivery_status_settles [OF assms(2) UNIV_I] run] by (simp add: settled_def at_rest_def)
  ultimately show ?thesis by blast
qed


lemma status_rank_known:
  "s \<in> fst ` set STATUS_RANK \<longleftrightarrow> s \<in> {''queued'', ''sent'', ''delivered'', ''read''}"
  by (auto simp: STATUS_RANK_def)

lemma advance_rank:
  assumes "s \<noteq> ''failed''"
  shows "status_rank (if advances_status old s then s else old) = max (status_rank old) (status_rank s)"
  using assms by (auto simp: advances_status_def)

lemma apply_updates:
  assumes "no_faults E" and "at_rest UNIV t w" and "m \<in> set (messages (om_db w))" "mg_org_id m = g" "mg_channel_type m = ch"
    and "\<forall>u \<in> set us. du_external_message_id u = mg_external_id m \<and> du_status u \<noteq> ''failed''"
  shows "\<exists>w' m'. forE (apply_delivery_status E g ch) us w = (Inr (), w') \<and> at_rest UNIV t w' \<and>
     m' \<in> set (messages (om_db w')) \<and> mg_id m' = mg_id m \<and>
     status_rank (mg_status m') = Max (insert (status_rank (mg_status m)) (status_rank ` du_status ` set us))"
  using assms(2-6)
proof (induction us arbitrary: w m)
  case (Cons u us)
  from Cons.prems apply_delivery_status_step [OF assms(1) Cons.prems(1,2,3,4), of u]
  obtain w1 m1 where one: "apply_delivery_status E g ch u w = (Inr (), w1)" "at_rest UNIV t w1"
    "m1 \<in> set (messages (om_db w1))"
    and m1: "m1 = m\<lparr>mg_status := (if advances_status (mg_status m) (du_status u) then du_status u else mg_status m)\<rparr>"
    by auto
  from Cons.IH [OF one(2,3)] Cons.prems m1 obtain w2 m2 where
    rest: "forE (apply_delivery_status E g ch) us w1 = (Inr (), w2)" "at_rest UNIV t w2"
    "m2 \<in> set (messages (om_db w2))" "mg_id m2 = mg_id m"
    "status_rank (mg_status m2) = Max (insert (status_rank (mg_status m1)) (status_rank ` du_status ` set us))"
    by auto
  have "status_rank (mg_status m1) = max (status_rank (mg_status m)) (status_rank (du_status u))"
    using advance_rank [of "du_status u" "mg_status m"] Cons.prems(5) m1 by simp
  with rest(5) have "status_rank (mg_status m2) =
      Max (insert (status_rank (mg_status m)) (status_rank ` du_status ` set (u # us)))"
    by (cases "us = []") (auto simp: Max_insert2 max.assoc insert_commute Max.insert_remove)
  with one(1) rest show ?case by (auto simp: thenE_app)
qed auto


definition sample_sent :: "string \<Rightarrow> message" where
  "sample_sent s = sample_message\<lparr>mg_direction := ''outbound'', mg_status := s\<rparr>"

definition sample_sent_tables :: omni_tables where
  "sample_sent_tables = sample_omni_tables\<lparr>messages := [sample_sent ''sent'']\<rparr>"

lemma sample_sent_good: "good sample_sent_tables"
proof -
  have "omni_check sample_sent_tables = None"
    by (simp add: omni_check_def omni_unique_def omni_references_def fits32_def identity_key_def
        message_key_def dedup_keys_def sample_rows sample_sent_tables_def sample_sent_def)
  moreover have "linked sample_sent_tables"
    by (simp add: linked_defs last_assignee_def sample_rows sample_sent_tables_def sample_sent_def)
  ultimately show ?thesis by (simp add: good_def)
qed



section \<open>Replies\<close>

text \<open>What a handler has done when it ends, result by result, step after step.\<close>

definition outcome :: "('e + 'a \<Rightarrow> 'w \<Rightarrow> bool) \<Rightarrow> ('w, 'e, 'a) act \<Rightarrow> 'w \<Rightarrow> bool" where
  "outcome R m w \<longleftrightarrow> (case m w of (r, w') \<Rightarrow> R r w')"

lemma outcomeD: "outcome R m w \<Longrightarrow> m w = (r, w') \<Longrightarrow> R r w'"
  by (simp add: outcome_def)

lemma outcomeI: "(\<And>r w'. m w = (r, w') \<Longrightarrow> R r w') \<Longrightarrow> outcome R m w"
  by (simp add: outcome_def split: prod.split)

lemma outcome_ret: "R (Inr x) w \<Longrightarrow> outcome R (ret x) w"
  and outcome_raise: "R (Inl e) w \<Longrightarrow> outcome R (raise e) w"
  by (simp_all add: outcome_def)

lemma outcome_bind:
  assumes "\<And>e w1. m w = (Inl e, w1) \<Longrightarrow> R (Inl e) w1" and "\<And>x w1. m w = (Inr x, w1) \<Longrightarrow> outcome R (k x) w1"
  shows "outcome R (bindE m k) w"
proof (rule outcomeI)
  fix r w'
  assume "bindE m k w = (r, w')"
  then show "R r w'"
  proof (cases rule: bindE_cases)
    case (stop e)
    with assms(1) show ?thesis by simp
  next
    case (go x w1)
    from outcomeD [OF assms(2) [OF go(1)] go(2)] show ?thesis .
  qed
qed

lemma outcome_reads:
  assumes "leaves f m" and "\<And>e w1. f w1 = f w \<Longrightarrow> R (Inl e) w1"
    and "\<And>x w1. m w = (Inr x, w1) \<Longrightarrow> f w1 = f w \<Longrightarrow> outcome R (k x) w1"
  shows "outcome R (bindE m k) w"
proof (rule outcome_bind)
  fix e w1
  assume "m w = (Inl e, w1)"
  from leavesD [OF assms(1) this] show "R (Inl e) w1" by (rule assms(2))
next
  fix x w1
  assume run: "m w = (Inr x, w1)"
  from run leavesD [OF assms(1) run] show "outcome R (k x) w1" by (rule assms(3))
qed

lemma outcome_then_reads:
  assumes "leaves f m" and "\<And>e w1. f w1 = f w \<Longrightarrow> R (Inl e) w1"
    and "\<And>w1. f w1 = f w \<Longrightarrow> outcome R k w1"
  shows "outcome R (thenE m k) w"
  unfolding thenE_def by (rule outcome_reads [where f = f]) (use assms in auto)

lemma outcome_select:
  assumes "\<And>w g. f (tick_update g w) = f w" and "\<And>e w1. f w1 = f w \<Longrightarrow> R (Inl e) w1"
    and "\<And>w1. f w1 = f w \<Longrightarrow> outcome R (k (h (om_tx w))) w1"
  shows "outcome R (bindE (select_om E h) k) w"
  by (rule outcome_reads [where f = f]) (use assms in \<open>auto intro!: frames dest: om.select_value\<close>)

lemma outcome_lift:
  assumes "\<And>e. s = Inl e \<Longrightarrow> R (Inl e) w" and "\<And>x. s = Inr x \<Longrightarrow> outcome R (k x) w"
  shows "outcome R (bindE (liftS s) k) w"
  using assms by (cases s) (auto simp: outcome_def bindE_app liftS_def)

lemma outcome_case_option:
  assumes "x = None \<Longrightarrow> outcome R m w" and "\<And>y. x = Some y \<Longrightarrow> outcome R (f y) w"
  shows "outcome R (case x of None \<Rightarrow> m | Some y \<Rightarrow> f y) w"
  using assms by (cases x) simp_all

lemma dedup_keys_snoc: "dedup_keys (m # ms) =
    (case mg_dedup_key m of None \<Rightarrow> [] | Some k \<Rightarrow> [(mg_org_id m, mg_conversation_id m, k)]) @ dedup_keys ms"
  by (simp add: dedup_keys_def)

lemma dedup_filter:
  assumes "distinct (dedup_keys ms)" and "m \<in> set ms" "mg_org_id m = g" "mg_conversation_id m = i" "mg_dedup_key m = Some k"
  shows "filter (\<lambda>m. mg_org_id m = g \<and> mg_conversation_id m = i \<and> mg_dedup_key m = Some k) ms = [m]"
proof -
  have keys: "(g, i, k) \<in> set (dedup_keys ms) \<longleftrightarrow>
      (\<exists>m \<in> set ms. mg_org_id m = g \<and> mg_conversation_id m = i \<and> mg_dedup_key m = Some k)" for ms
    by (force simp: dedup_keys_def split: option.splits)
  show ?thesis
    using assms
  proof (induction ms)
    case (Cons x ms)
    show ?case
    proof (cases "m \<in> set ms")
      case True
      with Cons.prems keys [of ms] have "\<not> (mg_org_id x = g \<and> mg_conversation_id x = i \<and> mg_dedup_key x = Some k)"
        by (auto simp: dedup_keys_snoc)
      with Cons True show ?thesis by (auto simp: dedup_keys_snoc)
    next
      case False
      with Cons.prems keys [of ms] have "filter (\<lambda>m. mg_org_id m = g \<and> mg_conversation_id m = i \<and> mg_dedup_key m = Some k) ms = []"
        by (auto simp: dedup_keys_snoc filter_empty_conv)
      with Cons.prems False show ?thesis by auto
    qed
  qed simp
qed

abbreviation reply_state :: "'z omni_world_scheme \<Rightarrow> omni_tables \<times> omni_tables \<times> sqs_queue \<times> (string \<times> string \<Rightarrow> rat list option)" where
  "reply_state w \<equiv> (om_db w, om_tx w, outbound_q w, windows w)"

lemma send_reply_replay:
  assumes "filter (\<lambda>m. mg_org_id m = g \<and> mg_conversation_id m = i \<and> mg_dedup_key m = Some k) (messages (om_tx w)) = [m]"
  shows "outcome (\<lambda>r w'. reply_state w' = reply_state w \<and> (\<forall>x. r = Inr x \<longrightarrow> x = (m, False)))
    (send_reply E g i u body (Some k) subject) w"
  unfolding send_reply_def lookup_dedup_def find_by_dedup_key_def option.case bindE_assoc
  apply (rule outcome_then_reads [where f = reply_state], (intro frames; simp), simp)
  apply (rule outcome_reads [where f = reply_state], (intro frames; simp), simp)
  apply (rule outcome_select [where f = reply_state], simp, simp)
  apply (rule outcome_case_option)
   apply (rule outcome_raise, simp)
  apply (rule outcome_select [where f = reply_state], simp, simp)
  apply (simp add: assms one_or_none_def liftS_def bindE_ret outcome_def)
  done

text \<open>
  C12: repeated replies.  A reply with a deduplication key that the conversation has already
  seen has no effect, whatever failed: no message, no queue entry, no rate budget; if it
  returns, it is with the message stored first.
\<close>

theorem reply_replay_safe:
  assumes "good (om_db w)" and "m \<in> set (messages (om_db w))" "mg_dedup_key m = Some k"
    and "omni_session (send_reply E (mg_org_id m) (mg_conversation_id m) u body (Some k) subject) w = (r, w')"
  shows "om_db w' = om_db w \<and> outbound_q w' = outbound_q w \<and> windows w' = windows w \<and>
    (\<forall>x. r = Inr x \<longrightarrow> x = (m, False))"
  using assms(4)
proof (cases rule: om.in_session_cases)
  case (1 v v')
  have "distinct (dedup_keys (messages (om_db w)))"
    using assms(1) omni_check_None by (auto simp: good_def omni_unique_def)
  from dedup_filter [OF this assms(2) refl refl assms(3)] 1(2)
  have "filter (\<lambda>x. mg_org_id x = mg_org_id m \<and> mg_conversation_id x = mg_conversation_id m \<and> mg_dedup_key x = Some k)
      (messages (om_tx v)) = [m]" by simp
  from outcomeD [OF send_reply_replay [OF this] 1(1)] 1 show ?thesis by auto
qed

definition sample_reply_tables :: omni_tables where
  "sample_reply_tables = sample_omni_tables\<lparr>messages := [sample_sent ''sent''\<lparr>mg_dedup_key := Some ''k1''\<rparr>]\<rparr>"

theorem reply_replay_safe_witness:
  "outbound_q (snd (omni_session (send_reply sample_env ''o1'' ''c1'' ''ann'' ''hi again'' (Some ''k1'') None)
     (sample_omni sample_reply_tables))) = sample_queue []"
proof -
  have m: "sample_sent ''sent''\<lparr>mg_dedup_key := Some ''k1''\<rparr> \<in> set (messages (om_db (sample_omni sample_reply_tables)))"
    by (simp add: sample_reply_tables_def)
  have "omni_check sample_reply_tables = None"
    by (simp add: omni_check_def omni_unique_def omni_references_def fits32_def identity_key_def
        message_key_def dedup_keys_def sample_rows sample_reply_tables_def sample_sent_def)
  moreover have "linked sample_reply_tables"
    by (simp add: linked_defs last_assignee_def sample_rows sample_reply_tables_def sample_sent_def)
  moreover have "mg_org_id (sample_sent ''sent''\<lparr>mg_dedup_key := Some ''k1''\<rparr>) = ''o1''"
    "mg_conversation_id (sample_sent ''sent''\<lparr>mg_dedup_key := Some ''k1''\<rparr>) = ''c1''"
    by (simp_all add: sample_sent_def sample_message_def)
  ultimately show ?thesis
    using reply_replay_safe [OF _ m _ prod.collapse [symmetric], of "''k1''" sample_env "''ann''" "''hi again''" None]
    by (simp add: good_def)
qed


section \<open>Outbound sends\<close>

text \<open>What the providers accepted: Graph API posts and mails.\<close>

definition accepted :: "'z omni_world_scheme \<Rightarrow> nat" where
  "accepted w = length (graph_calls w) + length (mails w)"

text \<open>The Graph API answers a POST with JSON only when it took the message.\<close>

definition graph_honest :: "env \<Rightarrow> bool" where
  "graph_honest E \<longleftrightarrow> (\<forall>url payload n data. snd (graph_api E url payload n) = Reply data \<longrightarrow> fst (graph_api E url payload n))"

lemma graph_send_accepted:
  assumes "graph_honest E" and "graph_send E url payload path w = (Inr r, w')"
  shows "accepted w' = Suc (accepted w)"
proof -
  from assms(2) obtain data w1 where post: "post_graph_api E url payload w = (Inr data, w1)"
    and rest: "bindE (liftS (extract_send_id data path)) (\<lambda>message_id.
       ret \<lparr>sr_external_message_id = message_id, sr_status = ''sent''\<rparr>) w1 = (Inr r, w')"
    by (auto simp: graph_send_def act_Inr split: if_splits)
  from rest have "w' = w1" by (auto simp: act_Inr liftS_def split: sum.splits)
  moreover obtain ok reply where g: "graph_api E url payload (tick w) = (ok, reply)" by (rule prod.exhaust)
  with post have "reply = Reply data" by (auto simp: post_graph_api_def act_Inr next_tick_def split: http_reply.splits)
  with assms(1) g have "ok" unfolding graph_honest_def by (metis fst_conv snd_conv)
  with post g \<open>reply = Reply data\<close> have "w1 = w\<lparr>tick := Suc (tick w), graph_calls := graph_calls w @ [(url, payload)]\<rparr>"
    by (auto simp: post_graph_api_def act_Inr next_tick_def)
  ultimately show ?thesis by (simp add: accepted_def)
qed

lemma send_email_mails:
  assumes "send_email E g svc to subject html text atts reply md w = (Inr res, w')"
  shows "length (mails w') = Suc (length (mails w))"
  using assms
proof (cases rule: send_email_stages)
  case (checked s w1 w2 w3)
  have "mails w3 = mails w"
    using checked(4,6) check_send_rate_run [OF checked(5)] by (simp_all add: outbox_def)
  with checked(7) transmit_run show ?thesis by fastforce
qed auto

lemma adapter_send_accepted:
  assumes "graph_honest E" and "get_adapter ch = Inr ad" and "ad_send ad E to content credentials w = (Inr r, w')"
  shows "accepted w < accepted w'"
proof -
  have email: "accepted w < accepted w'" if "email_send E to content credentials w = (Inr r, w')"
  proof -
    from that obtain res where "send_email E (py_str E (field credentials ''org_id'')) OMNICHANNEL to
          (case oc_subject content of None \<Rightarrow> [] | Some s \<Rightarrow> s)
          (case oc_body_text content of None \<Rightarrow> [] | Some b \<Rightarrow> b) (oc_body_text content) [] None [] w = (Inr res, w')"
      by (auto simp: email_send_def act_Inr split: if_splits)
    from send_email_mails [OF this] leavesD [where f = graph_calls, OF send_email_leaves this] show ?thesis
      by (simp add: accepted_def)
  qed
  show ?thesis
    using assms(2,3) email
    by (auto dest!: graph_send_accepted [OF assms(1)] simp: get_adapter_def email_adapter_def whatsapp_adapter_def messenger_adapter_def
      instagram_adapter_def messenger_platform_def whatsapp_send_def messenger_send_def
      split: if_splits option.splits)
qed


lemma row_get_member:
  assumes "distinct (map key xs)" and "x \<in> set xs"
  shows "row_get key (key x) xs = Some x"
  using assms by (induction xs) (auto simp: image_iff)

lemma outbound_context_None:
  assumes "good (om_tx w)" and "m \<in> set (messages (om_tx w))" and "outbound_context E m w = (Inr None, w')"
  shows "find_connection (mg_org_id m) (mg_channel_type m) (om_tx w) = None"
proof -
  from assms(1,2) obtain c i where c: "c \<in> set (conversations (om_tx w))" "cv_id c = mg_conversation_id m"
    and i: "i \<in> set (identities (om_tx w))" "ci_id i = cv_identity_id c"
    by (auto simp: good_def linked_def list_all_iff message_linked_def)
  have "row_get cv_id (mg_conversation_id m) (conversations (om_tx w)) = Some c"
    "row_get ci_id (cv_identity_id c) (identities (om_tx w)) = Some i"
    using row_get_member c i good_distinct [OF assms(1)] by metis+
  note found = this
  obtain co w1 where 1: "select_om E (\<lambda>t. row_get cv_id (mg_conversation_id m) (conversations t)) w = (Inr co, w1)"
    and "bindE (case co of None \<Rightarrow> ret None
            | Some c \<Rightarrow> select_om E (\<lambda>t. row_get ci_id (cv_identity_id c) (identities t))) (\<lambda>i.
     bindE (select_om E (find_connection (mg_org_id m) (mg_channel_type m))) (\<lambda>cn.
     ret (case (i, cn) of (Some i, Some cn) \<Rightarrow> Some (i, cn) | _ \<Rightarrow> None))) w1 = (Inr None, w')"
    using assms(3) unfolding outbound_context_def bindE_Inr_iff by blast
  moreover have "co = Some c" using om.select_value [OF 1] found by simp
  moreover have w1: "om_tx w1 = om_tx w" using 1 by (rule leavesD [where f = om_tx, rotated]) (intro frames, simp)
  ultimately obtain io w2 cn w3 where 2: "select_om E (\<lambda>t. row_get ci_id (cv_identity_id c) (identities t)) w1 = (Inr io, w2)"
    and 3: "select_om E (find_connection (mg_org_id m) (mg_channel_type m)) w2 = (Inr cn, w3)"
    and none: "(case (io, cn) of (Some i, Some cn) \<Rightarrow> Some (i, cn) | _ \<Rightarrow> None) = None"
    by (auto simp: act_Inr)
  have w2: "om_tx w2 = om_tx w1" using 2 by (rule leavesD [where f = om_tx, rotated]) (intro frames, simp)
  from om.select_value [OF 2] om.select_value [OF 3] none found w1 w2 show ?thesis
    by (auto split: option.splits)
qed

text \<open>Marking the message after the send.\<close>

lemma mark_outcome:
  assumes "om_db w = t" "om_tx w = t" and "leaves (\<lambda>w. (om_db w, accepted w)) k" and "\<And>x w1 w2. k w1 = (Inr x, w2) \<Longrightarrow> x = b"
    and "\<And>r w'. om_db w' = save_message m t \<Longrightarrow> accepted w' = accepted w \<Longrightarrow> (\<forall>x. r = Inr x \<longrightarrow> x = b) \<Longrightarrow> R r w'"
    and "\<And>e w'. om_db w' = t \<Longrightarrow> R (Inl e) w'"
  shows "outcome R (thenE (modify_om (save_message m)) (thenE (commit_om E) k)) w"
proof (rule outcomeI)
  fix r w'
  let ?v = "om_tx_update (save_message m) w"
  assume "thenE (modify_om (save_message m)) (thenE (commit_om E) k) w = (r, w')"
  then have run: "thenE (commit_om E) k ?v = (r, w')" by (simp add: thenE_app om.modify_app)
  have acc: "accepted w1 = accepted w" if "commit_om E ?v = (r1, w1)" for r1 w1
  proof -
    have "leaves accepted (commit_om E)" by (intro frames) (simp_all add: accepted_def)
    from leavesD [OF this that] show ?thesis by (simp add: accepted_def)
  qed
  from run show "R r w'"
  proof (cases rule: thenE_cases)
    case (stop e)
    from stop(1) have "om_db w' = t \<or> om_db w' = save_message m t"
      by (cases rule: om.commit_cases) (use assms(1,2) in auto)
    with stop acc [OF stop(1)] assms(5,6) show ?thesis by auto
  next
    case (go x w1)
    from go(1) have "om_db w1 = save_message m t" by (cases rule: om.commit_cases) (use assms(2) in auto)
    moreover from leavesD [OF assms(3) go(2)] have "om_db w' = om_db w1" "accepted w' = accepted w1" by simp_all
    moreover have "\<forall>x. r = Inr x \<longrightarrow> x = b" using go(2) assms(4) by blast
    ultimately show ?thesis using acc [OF go(1)] by (intro assms(5)) auto
  qed
qed

definition sent_row :: "message \<Rightarrow> omni_tables \<Rightarrow> omni_tables \<Rightarrow> bool" where
  "sent_row m t d \<longleftrightarrow> (\<exists>e. d = save_message (m\<lparr>mg_external_id := e, mg_status := ''sent''\<rparr>) t)"

text \<open>The verdict on one queue entry, from the tables \<open>t\<close>, after \<open>n\<close> accepted sends.\<close>

definition outbound_verdict :: "message \<Rightarrow> nat \<Rightarrow> omni_tables \<Rightarrow> nat \<Rightarrow> exn + bool \<Rightarrow> 'z omni_world_scheme \<Rightarrow> bool" where
  "outbound_verdict m count t n r w' \<longleftrightarrow> (case r of
     Inr True \<Rightarrow> (sent_row m t (om_db w') \<and> n < accepted w') \<or>
        (om_db w' = t \<and> find_connection (mg_org_id m) (mg_channel_type m) t = None)
   | Inr False \<Rightarrow> om_db w' =
        (if SQS_MAX_RECEIVE_COUNT \<le> count then save_message (m\<lparr>mg_status := ''failed''\<rparr>) t else t)
   | Inl _ \<Rightarrow> om_db w' = t \<or> (sent_row m t (om_db w') \<and> n < accepted w') \<or>
        (om_db w' = save_message (m\<lparr>mg_status := ''failed''\<rparr>) t \<and> SQS_MAX_RECEIVE_COUNT \<le> count))"


abbreviation send_state :: "'z omni_world_scheme \<Rightarrow> omni_tables \<times> omni_tables \<times> nat" where
  "send_state w \<equiv> (om_db w, om_tx w, accepted w)"

lemma try_send_accepted:
  assumes "graph_honest E" and "get_adapter ch = Inr ad" and "try_send (ad_send ad E to content creds) w = (r, w')"
  shows "om_db w' = om_db w \<and> om_tx w' = om_tx w \<and> (\<forall>x. r = Inr (Some x) \<longrightarrow> accepted w < accepted w')"
proof -
  have "leaves (\<lambda>w. (om_db w, om_tx w)) (try_send (ad_send ad E to content creds :: ('a omni_world_scheme, _) op))"
    by (rule try_send_leaves, rule adapter_send_leaves, rule assms(2))
  from leavesD [OF this assms(3)] have "om_db w' = om_db w" "om_tx w' = om_tx w" by simp_all
  moreover have "accepted w < accepted w'" if "r = Inr (Some x)" for x
    using assms(3) that adapter_send_accepted [OF assms(1,2)] by (auto simp: try_send_def act_Inr split: if_splits)
  ultimately show ?thesis by blast
qed

lemma lifted_Inr: "liftS (Inr x) = ret x"
  by (simp add: liftS_def)

lemma send_verdict:
  assumes "om_db w = t" "om_tx w = t" and "\<forall>x. result = Some x \<longrightarrow> n < accepted w"
  shows "outcome (outbound_verdict m count t n) (case result of
       None \<Rightarrow>
         if SQS_MAX_RECEIVE_COUNT \<le> count then
           thenE (modify_om (save_message (m\<lparr>mg_status := ''failed''\<rparr>))) (thenE (commit_om E) (ret False))
         else ret False
     | Some r \<Rightarrow>
         thenE (modify_om (save_message
            (m\<lparr>mg_external_id := sr_external_message_id r, mg_status := ''sent''\<rparr>)))
         (thenE (commit_om E)
         (thenE (publish_event E (mg_org_id m) ''message.sent'' d1 ''a2z.omnichannel'')
         (thenE (publish_update (mg_org_id m) (org_channel (mg_org_id m)) d2)
         (ret True))))) w"
proof (cases result)
  case None
  show ?thesis
    unfolding None option.case
    apply (split if_split, intro conjI impI)
     apply (rule mark_outcome [OF assms(1,2), where b = False])
        apply (intro frames)
       apply simp
      apply (case_tac r; simp add: outbound_verdict_def)
     apply (simp add: outbound_verdict_def)
    apply (simp add: outcome_def outbound_verdict_def assms)
    done
next
  case (Some x)
  with assms(3) have "n < accepted w" by simp
  then show ?thesis
    unfolding Some option.case
    apply -
    apply (rule mark_outcome [OF assms(1,2), where b = True])
       apply (intro frames; simp add: accepted_def)
      apply (clarsimp simp: thenE_Inr_iff)
     apply (case_tac r; simp add: outbound_verdict_def sent_row_def; blast)
    apply (simp add: outbound_verdict_def)
    done
qed

lemma process_outbound_outcome:
  assumes "graph_honest E" and "good t" and "om_db w = t" "om_tx w = t"
    and "bindS (py_item (JObj (q_body msg)) ''message_id'') as_str = Inr i"
    and "row_get mg_id i (messages t) = Some m"
  shows "outcome (outbound_verdict m (q_receive_count msg) t (accepted w)) (process_outbound_message E msg) w"
    (is "outcome ?R _ _")
  unfolding process_outbound_message_def assms(5) lifted_Inr bindE_ret
  apply (rule outcome_select [where f = send_state])
    apply (simp add: accepted_def)
   apply (simp add: outbound_verdict_def assms)
  apply (simp only: assms option.case)
  apply (rule outcome_reads [where f = send_state])
    apply (intro frames; simp add: accepted_def)
   apply (simp add: outbound_verdict_def assms)
  apply (rule outcome_case_option)
   apply (rule outcome_ret)
  subgoal premises p for w1 ctx w2
    using outbound_context_None [of w1 m E w2] p assms row_get_SomeD [OF assms(6)]
    by (simp add: outbound_verdict_def)
  apply (split prod.split, intro allI impI)
  apply (rule outcome_lift)
   apply (simp add: outbound_verdict_def assms)
  apply (rule outcome_reads [where f = send_state])
    apply (intro frames; simp add: accepted_def)
   apply (simp add: outbound_verdict_def assms)
  apply (rule outcome_bind)
  subgoal premises p for w1 ctx w2 icn i cn ad w3 creds e w4
    using try_send_accepted [OF assms(1) p(6,9)] p assms
    by (simp add: outbound_verdict_def)
  subgoal premises p for w1 ctx w2 icn i cn ad creds w3 result w4
    using try_send_accepted [OF assms(1) p(6,9)] p assms
    by (intro send_verdict) auto
  done


text \<open>
  C16: outbound sends.  Processing the queue entry of a message marks the message sent only
  after a provider accepted it; the entry is given up (\<open>True\<close>) only then, or when the
  organisation has no active connection of the channel; a failed send keeps the entry for
  SQS to redeliver, and the message is marked failed exactly when the entry was received as
  often as the redrive policy allows.  An exception in between leaves one of these states.
\<close>

theorem outbound_sent_or_kept:
  assumes "good (om_db w)" and "graph_honest E"
    and "bindS (py_item (JObj (q_body msg)) ''message_id'') as_str = Inr i"
    and "row_get mg_id i (messages (om_db w)) = Some m"
    and "omni_session (process_outbound_message E msg) w = (r, w')"
  shows "outbound_verdict m (q_receive_count msg) (om_db w) (accepted w) r w'"
  using assms(5)
proof (cases rule: om.in_session_cases)
  case (1 v v')
  have v: "accepted v = accepted w" "accepted w' = accepted v'" by (simp_all add: 1(5,6) accepted_def)
  from outcomeD [OF process_outbound_outcome [OF assms(2,1) 1(3) 1(2) assms(3,4)] 1(1)]
  have "outbound_verdict m (q_receive_count msg) (om_db w) (accepted w) r v'" by (simp add: v(1))
  then show ?thesis unfolding outbound_verdict_def 1(4) v(2) .
qed

definition sample_entry :: "string \<Rightarrow> nat \<Rightarrow> sqs_entry" where
  "sample_entry i n = \<lparr>q_id = ''e1'', q_body = [(''message_id'', JStr i)], q_attributes = [(''org_id'', ''o1'')],
     q_receive_count = n\<rparr>"

theorem outbound_sent_or_kept_witness:
  "outbound_verdict sample_message 5 sample_omni_tables 0
     (fst (omni_session (process_outbound_message sample_env (sample_entry ''m1'' 5)) (sample_omni sample_omni_tables)))
     (snd (omni_session (process_outbound_message sample_env (sample_entry ''m1'' 5)) (sample_omni sample_omni_tables)))"
proof -
  have "graph_honest sample_env" by (simp add: graph_honest_def sample_env_def)
  moreover have "bindS (py_item (JObj (q_body (sample_entry ''m1'' 5))) ''message_id'') as_str = Inr ''m1''"
    by (simp add: sample_entry_def bindS_def)
  moreover have "row_get mg_id ''m1'' (messages sample_omni_tables) = Some sample_message"
    by (simp add: sample_omni_tables_def sample_message_def)
  moreover have "accepted (sample_omni sample_omni_tables) = 0" "q_receive_count (sample_entry ''m1'' 5) = 5"
    by (simp_all add: accepted_def sample_omni_def fresh_audit_def sample_entry_def)
  ultimately show ?thesis
    using outbound_sent_or_kept [OF _ _ _ _ prod.collapse [symmetric], of "sample_omni sample_omni_tables" sample_env
      "sample_entry ''m1'' 5" "''m1''" sample_message]
    by (simp add: sample_good)
qed

end
