(* ===== verification/A2Z_WebhookRuns.thy ===== *)
theory A2Z_WebhookRuns
  imports A2Z_OmniDelivery
begin

text \<open>
  What a webhook must show before anything is queued (\<open>webhooks.py\<close> with the adapters and
  \<open>core/secrets.py\<close>): an active connection of its channel, and the signature of its body
  under a secret that was stored, or cached, for that connection.
\<close>

section \<open>Signatures\<close>

definition authentic :: "env \<Rightarrow> string \<Rightarrow> (string \<times> json) list \<Rightarrow> string \<Rightarrow> (string \<times> string) list \<Rightarrow> bool" where
  "authentic E channel_type bundle raw_body headers \<longleftrightarrow>
     (channel_type \<in> {''whatsapp'', ''messenger'', ''instagram''} \<longrightarrow>
      (\<exists>s. (case map_of bundle ''app_secret'' of None \<Rightarrow> JStr [] | Some v \<Rightarrow> v) = JStr s \<and>
        get_header headers ''X-Hub-Signature-256'' = Some (''sha256='' @ hmac_hex E s raw_body)))"

lemma meta_verify_True:
  "meta_verify_signature E raw headers v = Inr True \<Longrightarrow>
     \<exists>s. v = JStr s \<and> get_header headers ''X-Hub-Signature-256'' = Some (''sha256='' @ hmac_hex E s raw)"
  by (cases v) (auto simp: meta_verify_signature_def compute_signature_def split: option.splits if_splits)

lemma adapter_verify_authentic:
  assumes "get_adapter ch = Inr ad"
    and "ad_verify ad E raw headers (case map_of bundle (ad_signing_key ad) of None \<Rightarrow> JStr [] | Some v \<Rightarrow> v) = Inr True"
  shows "authentic E ch bundle raw headers"
  using assms meta_verify_True
  by (auto simp: authentic_def get_adapter_def whatsapp_adapter_def messenger_adapter_def instagram_adapter_def
      messenger_platform_def split: if_splits)

section \<open>Secrets\<close>

definition served_secret :: "'z secrets_world_scheme \<Rightarrow> string \<Rightarrow> string \<Rightarrow> (string \<times> json) list \<Rightarrow> bool" where
  "served_secret w org_id key bundle \<longleftrightarrow>
     (\<exists>raw. loads raw = Inr bundle \<and>
       (secret_store w (secret_name org_id ''omnichannel'' key) = Some raw \<or>
        (\<exists>t. cached (secret_cache w) t (secret_cache_key org_id ''omnichannel'' key) = Some raw)))"

lemma get_secret_served:
  assumes "get_secret E g ''omnichannel'' k w = (Inr bundle, w')"
  shows "served_secret w g k bundle"
  using assms by (cases rule: get_secret_run) (auto simp: served_secret_def)

section \<open>The queue\<close>

definition webhook_entry :: "string \<Rightarrow> channel_connection \<Rightarrow> json \<Rightarrow> sqs_entry" where
  "webhook_entry i cn payload = \<lparr>q_id = i, q_body = [(''raw_payload'', payload)],
     q_attributes = [(''channel_type'', cn_channel_type cn), (''org_id'', cn_org_id cn),
       (''connection_id'', cn_id cn)], q_receive_count = 0\<rparr>"

lemma enqueue_inbound_run:
  assumes "enqueue_inbound E (cn_org_id cn) (cn_channel_type cn) (cn_id cn) payload w = (r, w')"
  shows "(isl r \<and> inbound_q w' = inbound_q w) \<or> (\<exists>i. inbound_q w' = sqs_add (webhook_entry i cn payload) (inbound_q w))"
  using assms unfolding enqueue_inbound_def queue_send_def
proof (cases rule: thenE_cases)
  case (stop e)
  have "leaves inbound_q (queue_url E Inbound :: ('a omni_world_scheme, _) op)"
    unfolding queue_url_def by (intro frames) simp_all
  from leavesD [OF this stop(1)] stop(2) show ?thesis by simp
next
  case (go x w1)
  have "leaves inbound_q (queue_url E Inbound :: ('a omni_world_scheme, _) op)"
    unfolding queue_url_def by (intro frames) simp_all
  from leavesD [OF this go(1)] have "inbound_q w1 = inbound_q w" .
  with go(2) show ?thesis
    by (elim run_aws_cases) (auto simp: bindE_app thenE_app new_service_id_def webhook_entry_def)
qed

text \<open>How a webhook ends: nothing was queued, or the one entry of an authentic webhook.\<close>

definition webhook_queued :: "env \<Rightarrow> string \<Rightarrow> string \<Rightarrow> string \<Rightarrow> (string \<times> string) list
    \<Rightarrow> 'z omni_world_scheme \<Rightarrow> sqs_queue \<Rightarrow> bool" where
  "webhook_queued E ch i raw headers w q \<longleftrightarrow>
     (\<exists>cn bundle payload n. row_get cn_id i (connections (om_db w)) = Some cn \<and> cn_status cn = ''active'' \<and>
        cn_channel_type cn = ch \<and> served_secret w (cn_org_id cn) (cn_credentials_secret_key cn) bundle \<and>
        authentic E ch bundle raw headers \<and> json_loads E raw = Some payload \<and>
        q = sqs_add (webhook_entry n cn payload) (inbound_q w))"

abbreviation hook_state :: "'z omni_world_scheme \<Rightarrow> _" where
  "hook_state w \<equiv> (om_db w, om_tx w, inbound_q w, outbound_q w, secret_store w, secret_cache w)"

definition webhook_ends :: "env \<Rightarrow> string \<Rightarrow> string \<Rightarrow> string \<Rightarrow> (string \<times> string) list
    \<Rightarrow> 'z omni_world_scheme \<Rightarrow> exn + unit \<Rightarrow> 'z omni_world_scheme \<Rightarrow> bool" where
  "webhook_ends E ch i raw headers w r w' \<longleftrightarrow> outbound_q w' = outbound_q w \<and>
     ((isl r \<and> inbound_q w' = inbound_q w) \<or> webhook_queued E ch i raw headers w (inbound_q w'))"

text \<open>The handler once the secret is read, and once the connection is resolved.\<close>

abbreviation check_and_queue ::
  "env \<Rightarrow> channel_connection \<Rightarrow> 'z adapter \<Rightarrow> string \<Rightarrow> string \<Rightarrow> (string \<times> string) list \<Rightarrow> (string \<times> json) list
    \<Rightarrow> ('z omni_world_scheme, unit) op" where
  "check_and_queue E cn ad ch raw headers bundle \<equiv>
     bindE (liftS (ad_verify ad E raw headers
        (case map_of bundle (ad_signing_key ad) of None \<Rightarrow> JStr [] | Some v \<Rightarrow> v))) (\<lambda>verified.
     if \<not> verified then raise (Exn (Omni WebhookSignatureError))
     else (case json_loads E raw of
             None \<Rightarrow> raise (Exn (Py ValueErrorPy))
           | Some payload \<Rightarrow> thenE (enqueue_inbound E (cn_org_id cn) ch (cn_id cn) payload) (ret ())))"

lemma check_and_queue_outcome:
  assumes cn: "row_get cn_id i (connections (om_db w)) = Some cn" "cn_status cn = ''active''" "cn_channel_type cn = ch"
    and ad: "get_adapter ch = Inr ad" and served: "served_secret w (cn_org_id cn) (cn_credentials_secret_key cn) bundle"
    and q: "(inbound_q w2, outbound_q w2) = (inbound_q w, outbound_q w)"
  shows "outcome (webhook_ends E ch i raw headers w) (check_and_queue E cn ad ch raw headers bundle) w2"
proof (rule outcome_lift)
  show "webhook_ends E ch i raw headers w (Inl e) w2" for e using q by (simp add: webhook_ends_def)
  fix verified
  assume ok: "ad_verify ad E raw headers
      (case map_of bundle (ad_signing_key ad) of None \<Rightarrow> JStr [] | Some v \<Rightarrow> v) = Inr verified"
  show "outcome (webhook_ends E ch i raw headers w)
      (if \<not> verified then raise (Exn (Omni WebhookSignatureError))
       else (case json_loads E raw of
             None \<Rightarrow> raise (Exn (Py ValueErrorPy))
           | Some payload \<Rightarrow> thenE (enqueue_inbound E (cn_org_id cn) ch (cn_id cn) payload) (ret ()))) w2"
  proof (cases "verified \<and> json_loads E raw \<noteq> None")
    case True
    then obtain payload where payload: "json_loads E raw = Some payload" by blast
    have auth: "authentic E ch bundle raw headers" using adapter_verify_authentic [OF ad] ok True by simp
    obtain r w3 where send: "enqueue_inbound E (cn_org_id cn) ch (cn_id cn) payload w2 = (r, w3)"
      by (rule prod.exhaust)
    have "leaves outbound_q (enqueue_inbound E (cn_org_id cn) ch (cn_id cn) payload :: ('a omni_world_scheme, _) op)"
      by (intro frames) simp_all
    from leavesD [OF this send] have "outbound_q w3 = outbound_q w" using q by simp
    with enqueue_inbound_run [OF send [folded cn(3)]] q auth served payload cn send True show ?thesis
      by (cases r) (auto simp: outcome_def thenE_app webhook_ends_def webhook_queued_def)
  qed (use q in \<open>auto simp: outcome_def webhook_ends_def\<close>)
qed

lemma webhook_rest_outcome:
  assumes "row_get cn_id i (connections (om_db w)) = Some cn" "cn_status cn = ''active''" "cn_channel_type cn = ch"
    and "hook_state w1 = hook_state w"
  shows "outcome (webhook_ends E ch i raw headers w)
     (bindE (liftS (get_adapter ch)) (\<lambda>ad.
      bindE (get_secret E (cn_org_id cn) ''omnichannel'' (cn_credentials_secret_key cn)) (\<lambda>bundle.
      check_and_queue E cn ad ch raw headers bundle))) w1"
  apply (rule outcome_lift)
   apply (use assms(4) in \<open>simp add: webhook_ends_def\<close>)
  apply (rule outcome_reads [where f = "\<lambda>w. (inbound_q w, outbound_q w)"])
    apply (intro frames; simp)
   apply (use assms(4) in \<open>simp add: webhook_ends_def\<close>)
  subgoal premises p for ad creds w2
    using get_secret_served [OF p(2)] assms(4) p
    by (intro check_and_queue_outcome [OF assms(1-3) p(1)]) (simp_all add: served_secret_def)
  done

lemma handle_webhook_outcome:
  assumes "om_tx w = om_db w"
  shows "outcome (webhook_ends E ch i raw headers w) (handle_webhook E ch i raw headers) w"
  unfolding handle_webhook_def resolve_connection_def load_connection_def bindE_assoc
  apply (rule outcome_select [where f = hook_state])
    apply simp
   apply (simp add: webhook_ends_def)
  subgoal premises p for w1
  proof (cases "\<exists>cn. row_get cn_id i (connections (om_tx w)) = Some cn \<and> cn_status cn = ''active'' \<and> cn_channel_type cn = ch")
    case True
    then obtain cn where cn: "row_get cn_id i (connections (om_tx w)) = Some cn" "cn_status cn = ''active''"
      "cn_channel_type cn = ch" by blast
    show ?thesis
      using webhook_rest_outcome [OF cn(1) [unfolded assms] cn(2,3) p] by (simp add: cn bindE_ret)
  next
    case False
    with p show ?thesis
      by (auto simp: outcome_def bindE_app webhook_ends_def split: option.split)
  qed
  done


definition hook_env :: env where
  "hook_env = sample_env\<lparr>json_loads := \<lambda>_. Some (JObj [])\<rparr>"


end
