(* ===== verification/A2Z_SesNotifications.thy ===== *)
theory A2Z_SesNotifications
  imports A2Z_Auth
begin

text \<open>
  Bounce and complaint notifications of SES, delivered by SNS over HTTPS
  (\<open>app/routers/ses_notifications.py\<close>).  Certificates, signatures and HTTP are parameters.
\<close>

section \<open>Whom to trust\<close>

text \<open>\<open>^sns\.[a-z0-9-]+\.amazonaws\.com$\<close>; the \<open>$\<close> also matches before a final newline.\<close>

definition host_char :: "char \<Rightarrow> bool" where
  "host_char c \<longleftrightarrow> (let n = of_char c :: nat in (97 \<le> n \<and> n \<le> 122) \<or> (48 \<le> n \<and> n \<le> 57) \<or> n = 45)"

definition signing_host :: "string \<Rightarrow> bool" where
  "signing_host h \<longleftrightarrow>
     (let s = (if h \<noteq> [] \<and> last h = char_of (10 :: nat) then butlast h else h); n = length s in
      18 < n \<and> startswith s ''sns.'' \<and> drop (n - 14) s = ''.amazonaws.com'' \<and>
      list_all host_char (take (n - 18) (drop 4 s)))"

definition trusted_url :: "libs \<Rightarrow> string \<Rightarrow> exn + bool" where
  "trusted_url L url =
     (if \<not> startswith url ''https://'' then Inr False
      else bindS (url_host L url) (\<lambda>h. Inr (signing_host h)))"

definition NOTIFICATION_FIELDS :: "string list" where
  "NOTIFICATION_FIELDS = [''Message'', ''MessageId'', ''Subject'', ''Timestamp'', ''TopicArn'', ''Type'']"

definition SUBSCRIPTION_FIELDS :: "string list" where
  "SUBSCRIPTION_FIELDS =
     [''Message'', ''MessageId'', ''SubscribeURL'', ''Timestamp'', ''Token'', ''TopicArn'', ''Type'']"

definition canonical_string :: "env \<Rightarrow> (string \<times> json) list \<Rightarrow> string" where
  "canonical_string E payload =
     concat (map (\<lambda>f. case map_of payload f of
         None \<Rightarrow> []
       | Some v \<Rightarrow> f @ [char_of (10 :: nat)] @ py_str E v @ [char_of (10 :: nat)])
       (if truthy (field payload ''Token'') then SUBSCRIPTION_FIELDS else NOTIFICATION_FIELDS))"

section \<open>Verification\<close>

definition CERT_CACHE_TTL :: rat where "CERT_CACHE_TTL = 24 * 3600"

definition cert_get :: "env \<Rightarrow> string \<Rightarrow> ('z app_world_scheme, string option) op" where
  "cert_get E k = bindE (now_monotonic E) (\<lambda>now w.
     let (v, st) = cache_get (cert_cache w) now k in (Inr v, w\<lparr>cert_cache := st\<rparr>))"

definition cert_set :: "env \<Rightarrow> string \<Rightarrow> string \<Rightarrow> ('z app_world_scheme, unit) op" where
  "cert_set E k pem = bindE (now_monotonic E) (\<lambda>now.
     modifyE (\<lambda>w. w\<lparr>cert_cache := cache_set (cert_cache w) now k pem CERT_CACHE_TTL\<rparr>))"

definition fetch_url :: "libs \<Rightarrow> string \<Rightarrow> ('z app_world_scheme, string option) op" where
  "fetch_url L url = bindE next_tick (\<lambda>n.
     thenE (modifyE (\<lambda>w. w\<lparr>http_gets := http_gets w @ [url]\<rparr>)) (ret (http_get L url n)))"

definition fetch_signing_cert :: "env \<Rightarrow> libs \<Rightarrow> string \<Rightarrow> ('z app_world_scheme, string option) op" where
  "fetch_signing_cert E L cert_url =
     bindE (liftS (trusted_url L cert_url)) (\<lambda>trusted.
     if \<not> trusted then raise (Exn (Py SnsVerificationError))
     else
     bindE (cert_get E cert_url) (\<lambda>cached_pem.
     bindE (case cached_pem of
         Some pem \<Rightarrow> ret pem
       | None \<Rightarrow> bindE (fetch_url L cert_url) (\<lambda>resp.
           case resp of
             None \<Rightarrow> raise (Exn (Py SnsVerificationError))
           | Some pem \<Rightarrow> thenE (cert_set E cert_url pem) (ret pem))) (\<lambda>pem.
     case load_cert L pem of
       None \<Rightarrow> raise (Exn (Py SnsVerificationError))
     | Some key \<Rightarrow> ret key)))"

text \<open>\<open>base64.b64decode\<close> of a value that is not a string, and \<open>.startswith\<close> of one.\<close>

definition decode_signature :: "env \<Rightarrow> json \<Rightarrow> exn + string" where
  "decode_signature E v = (case v of
       JStr s \<Rightarrow> (case b64decode E s of None \<Rightarrow> Inl (Exn (Py ValueErrorPy)) | Some b \<Rightarrow> Inr b)
     | _ \<Rightarrow> Inl (Exn (Py TypeErrorPy)))"

definition url_text :: "json \<Rightarrow> exn + string" where
  "url_text v = (case v of JStr s \<Rightarrow> Inr s | _ \<Rightarrow> Inl (Exn (Py AttributeErrorPy)))"

definition verify_signature :: "env \<Rightarrow> libs \<Rightarrow> (string \<times> json) list \<Rightarrow> ('z app_world_scheme, unit) op" where
  "verify_signature E L payload =
     (let cert_url = field payload ''SigningCertURL''; signature_b64 = field payload ''Signature'' in
      if \<not> truthy cert_url \<or> \<not> truthy signature_b64 then raise (Exn (Py SnsVerificationError))
      else
      bindE (liftS (url_text cert_url)) (\<lambda>url.
      bindE (fetch_signing_cert E L url) (\<lambda>public_key.
      bindE (liftS (decode_signature E signature_b64)) (\<lambda>signature.
      case public_key of
        None \<Rightarrow> raise (Exn (Py SnsVerificationError))
      | Some k \<Rightarrow>
          if rsa_verify L k signature (canonical_string E payload)
               (field payload ''SignatureVersion'' = JStr ''2'')
          then ret () else raise (Exn (Py SnsVerificationError))))))"

definition confirm_subscription :: "libs \<Rightarrow> (string \<times> json) list \<Rightarrow> ('z app_world_scheme, unit) op" where
  "confirm_subscription L payload =
     bindE (liftS (bindS (py_item (JObj payload) ''SubscribeURL'') url_text)) (\<lambda>subscribe_url.
     bindE (liftS (trusted_url L subscribe_url)) (\<lambda>trusted.
     if \<not> trusted then raise (Exn (Py SnsVerificationError))
     else
     bindE (fetch_url L subscribe_url) (\<lambda>resp.
     case resp of None \<Rightarrow> raise (Exn (Py HttpErrorPy)) | Some _ \<Rightarrow> ret ())))"

section \<open>Notifications\<close>

text \<open>
  Message ids, addresses and bounce types are strings in what SES publishes; DynamoDB refuses
  keys of another type.
\<close>

definition as_key :: "json \<Rightarrow> exn + string" where
  "as_key v = (case v of JStr s \<Rightarrow> Inr s | _ \<Rightarrow> Inl (AwsError ''ValidationException''))"

definition or_json :: "json \<Rightarrow> json \<Rightarrow> json" where
  "or_json a b = (if truthy a then a else b)"

definition process_notification :: "env \<Rightarrow> json \<Rightarrow> ('z app_world_scheme, unit) op" where
  "process_notification E notification =
     bindE (liftS (bindS (py_get notification ''notificationType'') (\<lambda>a.
       bindS (py_get notification ''eventType'') (\<lambda>b. Inr (or_json a b))))) (\<lambda>n_type.
     bindE (liftS (bindS (py_get_or notification ''mail'' (JObj [])) (\<lambda>mail. py_get mail ''messageId''))) (\<lambda>mid.
     if \<not> truthy mid then ret ()
     else
     bindE (liftS (as_key mid)) (\<lambda>message_id.
     bindE (resolve_org_for_message E message_id) (\<lambda>org.
     case org of
       None \<Rightarrow> ret ()
     | Some org_id \<Rightarrow>
         if org_id = [] then ret ()
         else if n_type = JStr ''Bounce'' then
           bindE (liftS (py_get_or notification ''bounce'' (JObj []))) (\<lambda>bounce.
           bindE (liftS (bindS (py_get_or bounce ''bounceType'' (JStr ''Permanent'')) as_key)) (\<lambda>bounce_type.
           bindE (liftS (bindS (py_get_or bounce ''bouncedRecipients'' (JArr [])) py_iter)) (\<lambda>rs.
           forE (\<lambda>r. bindE (liftS (bindS (py_item r ''emailAddress'') as_key)) (\<lambda>to.
             handle_bounce_notification E org_id message_id to bounce_type)) rs)))
         else if n_type = JStr ''Complaint'' then
           bindE (liftS (py_get_or notification ''complaint'' (JObj []))) (\<lambda>complaint.
           bindE (liftS (bindS (py_get_or complaint ''complainedRecipients'' (JArr [])) py_iter)) (\<lambda>rs.
           forE (\<lambda>r. bindE (liftS (bindS (py_item r ''emailAddress'') as_key)) (\<lambda>to.
             handle_complaint_notification E org_id message_id to)) rs))
         else ret ()))))"

text \<open>The answer of the route: a body, or the \<open>HTTPException\<close> with its status.\<close>

datatype sns_answer = Ok_status | Http_exception int

definition as_payload :: "env \<Rightarrow> string \<Rightarrow> exn + (string \<times> json) list" where
  "as_payload E body = (case json_loads E body of
       None \<Rightarrow> Inl (Exn (Py ValueErrorPy))
     | Some (JObj payload) \<Rightarrow> Inr payload
     | Some _ \<Rightarrow> Inl (Exn (Py AttributeErrorPy)))"

definition on_sns_error :: "('w, sns_answer) op \<Rightarrow> int \<Rightarrow> ('w, sns_answer) op" where
  "on_sns_error m status = catchE m (\<lambda>e. if e = Exn (Py SnsVerificationError) then ret (Http_exception status) else raise e)"

definition dispatch_message :: "env \<Rightarrow> libs \<Rightarrow> (string \<times> json) list \<Rightarrow> ('z app_world_scheme, sns_answer) op" where
  "dispatch_message E L payload =
     (if field payload ''Type'' = JStr ''SubscriptionConfirmation'' then
       on_sns_error (thenE (confirm_subscription L payload) (ret Ok_status)) 400
     else if field payload ''Type'' = JStr ''Notification'' then
       (case (case map_of payload ''Message'' of None \<Rightarrow> JStr ''{}'' | Some v \<Rightarrow> v) of
          JStr message \<Rightarrow>
            (case json_loads E message of
               None \<Rightarrow> ret Ok_status
             | Some notification \<Rightarrow> thenE (process_notification E notification) (ret Ok_status))
        | _ \<Rightarrow> raise (Exn (Py TypeErrorPy)))
     else ret Ok_status)"

definition ses_notifications :: "env \<Rightarrow> libs \<Rightarrow> string \<Rightarrow> ('z app_world_scheme, sns_answer) op" where
  "ses_notifications E L body =
     bindE (liftS (as_payload E body)) (\<lambda>payload.
     bindE (on_sns_error (thenE (verify_signature E L payload) (ret Ok_status)) 403) (\<lambda>verdict.
     if verdict \<noteq> Ok_status then ret verdict
     else dispatch_message E L payload))"

section \<open>What a notification can do\<close>

definition trusted :: "libs \<Rightarrow> string \<Rightarrow> bool" where
  "trusted L url \<longleftrightarrow> startswith url ''https://'' \<and> (\<exists>h. url_host L url = Inr h \<and> signing_host h)"

lemma trusted_url_True: "trusted_url L url = Inr True \<longleftrightarrow> trusted L url"
  by (auto simp: trusted_url_def trusted_def bindS_def split: sum.splits)

text \<open>The state that only a verified message may change.\<close>

abbreviation guarded :: "'z app_world_scheme \<Rightarrow> _" where
  "guarded w \<equiv> (suppressions w, email_events w, audit_tbl w, bus w, mails w, om_db w, inv_db w, member_tbl w, settings_tbl w)"

lemma fetch_url_leaves [frames]:
  assumes "\<And>w g. f (tick_update g w) = f w" "\<And>w g. f (http_gets_update g w) = f w"
  shows "leaves f (fetch_url L url)"
proof -
  have "leaves f next_tick" by (simp add: leaves_def next_tick_def assms(1))
  then show ?thesis unfolding fetch_url_def by (intro frames; simp add: assms)
qed

lemma cert_leaves [frames]:
  assumes "\<And>w g. f (tick_update g w) = f w" "\<And>w g. f (cert_cache_update g w) = f w"
  shows "leaves f (cert_get E k)" "leaves f (cert_set E k pem)"
  unfolding cert_set_def
  by (auto simp: cert_get_def leaves_def bindE_app now_monotonic_def next_tick_def assms split: prod.splits
      intro!: frames)

lemma verify_signature_leaves [frames]:
  assumes "\<And>w g. f (tick_update g w) = f w" "\<And>w g. f (cert_cache_update g w) = f w" "\<And>w g. f (http_gets_update g w) = f w"
  shows "leaves f (fetch_signing_cert E L url)" "leaves f (verify_signature E L payload)"
proof -
  show fetch: "leaves f (fetch_signing_cert E L url)" for url
    unfolding fetch_signing_cert_def by (intro frames; simp add: assms)
  show "leaves f (verify_signature E L payload)"
    unfolding verify_signature_def Let_def by (intro frames fetch)
qed

lemma confirm_subscription_leaves [frames]:
  assumes "\<And>w g. f (tick_update g w) = f w" "\<And>w g. f (http_gets_update g w) = f w"
  shows "leaves f (confirm_subscription L payload)"
  unfolding confirm_subscription_def by (intro frames; simp add: assms)


definition net_ok :: "libs \<Rightarrow> string list \<Rightarrow> 'z app_world_scheme \<Rightarrow> bool" where
  "net_ok L gs w \<longleftrightarrow> ttl.all_live (\<lambda>t url pem. \<exists>n. http_get L url n = Some pem) (cert_cache w) \<and>
     (\<exists>us. http_gets w = gs @ us \<and> list_all (trusted L) us)"

lemma net_ok_simps [simp]: "net_ok L gs (tick_update g w) = net_ok L gs w"
  by (simp add: net_ok_def)

lemma fetch_url_net_ok: "trusted L url \<Longrightarrow> keeps (net_ok L gs) (fetch_url L url)"
  by (force simp: keeps_def fetch_url_def bindE_app thenE_app next_tick_def net_ok_def)

lemma cert_get_app:
  "cert_get E k w = (Inr (cached (cert_cache w) (monotonic E (tick w)) k),
     w\<lparr>tick := Suc (tick w), cert_cache := snd (cache_get (cert_cache w) (monotonic E (tick w)) k)\<rparr>)"
  by (simp add: cert_get_def bindE_app now_monotonic_def next_tick_def ttl.get_value [symmetric] split: prod.split)

lemma cert_get_net_ok: "keeps (net_ok L gs) (cert_get E k)"
  by (auto simp: keeps_def cert_get_app net_ok_def intro: ttl.all_live_get)

lemma cert_set_net_ok: "http_get L k n = Some pem \<Longrightarrow> keeps (net_ok L gs) (cert_set E k pem)"
  by (auto simp: keeps_def cert_set_def bindE_app now_monotonic_def next_tick_def net_ok_def intro!: ttl.all_live_set)

lemma fetch_signing_cert_run:
  assumes "fetch_signing_cert E L url w = (r, w')" and "net_ok L gs w"
  shows "net_ok L gs w' \<and> (\<forall>k. r = Inr (Some k) \<longrightarrow> trusted L url \<and>
    (\<exists>n pem. http_get L url n = Some pem \<and> load_cert L pem = Some (Some k)))"
proof (cases "trusted L url")
  case False
  then have "trusted_url L url \<noteq> Inr True" by (simp add: trusted_url_True)
  with assms show ?thesis
    by (cases "trusted_url L url") (auto simp: fetch_signing_cert_def bindE_app liftS_def)
next
  case True
  then have lift: "liftS (trusted_url L url) = ret True" by (simp add: trusted_url_True [symmetric] liftS_def)
  from assms(1) [unfolded fetch_signing_cert_def lift bindE_ret not_True_eq_False if_False]
  obtain c w1 where get: "cert_get E url w = (Inr c, w1)"
    and rest: "bindE (case c of
         Some pem \<Rightarrow> ret pem
       | None \<Rightarrow> bindE (fetch_url L url) (\<lambda>resp.
           case resp of
             None \<Rightarrow> raise (Exn (Py SnsVerificationError))
           | Some pem \<Rightarrow> thenE (cert_set E url pem) (ret pem))) (\<lambda>pem.
     case load_cert L pem of
       None \<Rightarrow> raise (Exn (Py SnsVerificationError))
     | Some key \<Rightarrow> ret key) w1 = (r, w')"
    by (auto simp: cert_get_def bindE_app split: prod.splits)
  have w1: "net_ok L gs w1" using keepsD [OF cert_get_net_ok get assms(2)] .
  show ?thesis
  proof (cases c)
    case None
    obtain resp w2 where fetch: "fetch_url L url w1 = (Inr resp, w2)" and resp: "resp = http_get L url (tick w1)"
      by (simp add: fetch_url_def bindE_app thenE_app next_tick_def)
    have w2: "net_ok L gs w2" using keepsD [OF fetch_url_net_ok [OF True] fetch w1] .
    show ?thesis
    proof (cases resp)
      case (Some pem)
      obtain w3 where set: "cert_set E url pem w2 = (Inr (), w3)"
        by (simp add: cert_set_def bindE_app now_monotonic_def next_tick_def)
      have "net_ok L gs w3" using keepsD [OF cert_set_net_ok set w2] resp Some by metis
      with rest None fetch Some set True resp show ?thesis
        by (auto simp: bindE_app thenE_app split: option.splits)
    qed (use rest None fetch w2 in \<open>auto simp: bindE_app\<close>)
  next
    case (Some pem)
    with get have "cached (cert_cache w) (monotonic E (tick w)) url = Some pem" by (simp add: cert_get_app)
    with assms(2) have "\<exists>n. http_get L url n = Some pem" unfolding net_ok_def ttl.all_live_def by blast
    with rest Some w1 True show ?thesis by (auto simp: bindE_app split: option.splits)
  qed
qed

text \<open>A message is signed under a key of a certificate that the host of AWS serves.\<close>

definition sns_signed :: "env \<Rightarrow> libs \<Rightarrow> (string \<times> json) list \<Rightarrow> bool" where
  "sns_signed E L payload \<longleftrightarrow>
     (\<exists>url n pem k signature. field payload ''SigningCertURL'' = JStr url \<and> trusted L url \<and>
        http_get L url n = Some pem \<and> load_cert L pem = Some (Some k) \<and>
        decode_signature E (field payload ''Signature'') = Inr signature \<and>
        rsa_verify L k signature (canonical_string E payload) (field payload ''SignatureVersion'' = JStr ''2''))"

lemma verify_signature_run:
  assumes "verify_signature E L payload w = (r, w')" and "net_ok L gs w"
  shows "net_ok L gs w' \<and> (r = Inr () \<longrightarrow> sns_signed E L payload)"
proof (cases "\<not> truthy (field payload ''SigningCertURL'') \<or> \<not> truthy (field payload ''Signature'') \<or>
    isl (url_text (field payload ''SigningCertURL''))")
  case True
  with assms show ?thesis
    by (auto simp: verify_signature_def Let_def bindE_app liftS_def split: if_splits sum.splits)
next
  case False
  then obtain url where url: "field payload ''SigningCertURL'' = JStr url"
    by (cases "field payload ''SigningCertURL''") (auto simp: url_text_def)
  obtain r1 w1 where fetch: "fetch_signing_cert E L url w = (r1, w1)" by (rule prod.exhaust)
  from assms(1) False fetch have
    "(case r1 of Inl e \<Rightarrow> (Inl e, w1) | Inr key \<Rightarrow> (case decode_signature E (field payload ''Signature'') of
       Inl e \<Rightarrow> (Inl e, w1)
     | Inr signature \<Rightarrow> (case key of None \<Rightarrow> (Inl (Exn (Py SnsVerificationError)), w1)
       | Some k \<Rightarrow> (if rsa_verify L k signature (canonical_string E payload)
               (field payload ''SignatureVersion'' = JStr ''2'') then Inr () else Inl (Exn (Py SnsVerificationError)), w1)))) = (r, w')"
    by (auto simp: verify_signature_def Let_def bindE_app liftS_def url url_text_def split: sum.splits option.splits if_splits)
  with fetch_signing_cert_run [OF fetch assms(2)] url show ?thesis
    by (fastforce simp: sns_signed_def split: sum.splits option.splits if_splits)
qed


lemma suppress_leaves_other:
  "leaves (\<lambda>w. filter (\<lambda>r. sp_org_id r \<noteq> g) (suppressions w)) (suppress E g to reason b)"
proof -
  have "filter (\<lambda>r. sp_org_id r \<noteq> g) (row_put sp_key r rows) = filter (\<lambda>r. sp_org_id r \<noteq> g) rows"
    if "sp_org_id r = g" for r rows
    using that by (intro filter_row_put) (auto simp: sp_key_def)
  then show ?thesis unfolding suppress_def by (intro frames) simp_all
qed

lemma outcome_leaf: "leaves f m \<Longrightarrow> (\<And>r w'. f w' = f w \<Longrightarrow> R r w') \<Longrightarrow> outcome R m w"
  by (rule outcomeI) (metis leavesD)

text \<open>A notification touches the suppressions of the organisation that sent the message only.\<close>

definition bounded_by_message :: "'z app_world_scheme \<Rightarrow> 'z app_world_scheme \<Rightarrow> bool" where
  "bounded_by_message w w' \<longleftrightarrow>
     (mails w', om_db w', inv_db w', member_tbl w', settings_tbl w') =
       (mails w, om_db w, inv_db w, member_tbl w, settings_tbl w) \<and>
     (guarded w' = guarded w \<or>
      (\<exists>mid ev. row_get em_message_id mid (email_events w) = Some ev \<and>
         (\<forall>h. h \<noteq> em_org_id ev \<longrightarrow> filter (\<lambda>r. sp_org_id r = h) (suppressions w') = filter (\<lambda>r. sp_org_id r = h) (suppressions w))))"

lemma bounded_refl: "guarded w' = guarded w \<Longrightarrow> bounded_by_message w w'"
  by (simp add: bounded_by_message_def)

lemma bounded_from:
  assumes "bounded_by_message w1 w2" "guarded w1 = guarded w"
  shows "bounded_by_message w w2"
proof -
  have eq: "suppressions w1 = suppressions w" "email_events w1 = email_events w" "audit_tbl w1 = audit_tbl w"
    "bus w1 = bus w" "mails w1 = mails w" "om_db w1 = om_db w" "inv_db w1 = inv_db w" "member_tbl w1 = member_tbl w"
    "settings_tbl w1 = settings_tbl w" using assms(2) by simp_all
  show ?thesis using assms(1) unfolding bounded_by_message_def eq .
qed

abbreviation org_effects :: "string \<Rightarrow> 'z app_world_scheme \<Rightarrow> _" where
  "org_effects g w \<equiv> ((mails w, om_db w, inv_db w, member_tbl w, settings_tbl w),
     filter (\<lambda>r. sp_org_id r \<noteq> g) (suppressions w))"

lemma handlers_org_effects:
  "leaves (org_effects g) (handle_bounce_notification E g mid to b :: ('z app_world_scheme, unit) op)"
  "leaves (org_effects g) (handle_complaint_notification E g mid to :: ('z app_world_scheme, unit) op)"
proof -
  have suppress: "leaves (org_effects g) (suppress E g to reason b :: ('z app_world_scheme, unit) op)" for reason b
  proof -
    have "leaves (\<lambda>w. (mails w, om_db w, inv_db w, member_tbl w, settings_tbl w)) (suppress E g to reason b :: ('z app_world_scheme, _) op)"
      unfolding suppress_def by (intro frames) simp_all
    with suppress_leaves_other [of g E to reason b] show ?thesis by (simp add: leaves_def)
  qed
  show "leaves (org_effects g) (handle_bounce_notification E g mid to b :: ('z app_world_scheme, unit) op)"
    "leaves (org_effects g) (handle_complaint_notification E g mid to :: ('z app_world_scheme, unit) op)"
    unfolding handle_bounce_notification_def handle_complaint_notification_def
    by (intro frames suppress; simp)+
qed

lemma org_effects_bounded:
  assumes "org_effects g w' = org_effects g w1" "guarded w1 = guarded w"
    and "row_get em_message_id mid (email_events w) = Some ev" "em_org_id ev = g"
  shows "bounded_by_message w w'"
proof -
  have "filter (\<lambda>r. sp_org_id r = h) rows = filter (\<lambda>r. sp_org_id r = h) (filter (\<lambda>r. sp_org_id r \<noteq> g) rows)"
    if "h \<noteq> g" for h rows
    using that by (auto intro!: filter_cong)
  with assms show ?thesis unfolding bounded_by_message_def by (metis prod.inject)
qed

lemma process_notification_outcome:
  "outcome (\<lambda>r w'. bounded_by_message w w') (process_notification E n) w"
  unfolding process_notification_def
  apply (rule outcome_lift, simp add: bounded_refl)
  apply (rule outcome_lift, simp add: bounded_refl)
  apply (split if_split, intro conjI impI, rule outcome_ret, simp add: bounded_refl)
  apply (rule outcome_lift, simp add: bounded_refl)
  apply (rule outcome_reads [where f = guarded])
    apply (unfold resolve_org_for_message_def, intro frames; simp)
   apply (simp add: bounded_refl)
  subgoal premises p for n_type mid message_id org w1
  proof -
    have w1: "guarded w1 = guarded w" by (rule p(6))
    have org: "\<exists>ev. row_get em_message_id message_id (email_events w) = Some ev \<and> em_org_id ev = g" if "org = Some g" for g
      using p(5) that by (auto simp: resolve_org_for_message_def bindE_Inr_iff dest!: run_aws_Inr)
    show ?thesis
    proof (rule outcome_case_option)
      show "outcome (\<lambda>r. bounded_by_message w) (ret ()) w1" using w1 by (intro outcome_ret bounded_refl)
    next
      fix g
      assume "org = Some g"
      with org obtain ev where ev: "row_get em_message_id message_id (email_events w) = Some ev" "em_org_id ev = g" by blast
      note effects = handlers_org_effects [of g]
      show "outcome (\<lambda>r. bounded_by_message w) (if g = [] then ret () else
         if n_type = JStr ''Bounce'' then
           bindE (liftS (py_get_or n ''bounce'' (JObj []))) (\<lambda>bounce.
           bindE (liftS (bindS (py_get_or bounce ''bounceType'' (JStr ''Permanent'')) as_key)) (\<lambda>bounce_type.
           bindE (liftS (bindS (py_get_or bounce ''bouncedRecipients'' (JArr [])) py_iter)) (\<lambda>rs.
           forE (\<lambda>r. bindE (liftS (bindS (py_item r ''emailAddress'') as_key)) (\<lambda>to.
             handle_bounce_notification E g message_id to bounce_type)) rs)))
         else if n_type = JStr ''Complaint'' then
           bindE (liftS (py_get_or n ''complaint'' (JObj []))) (\<lambda>complaint.
           bindE (liftS (bindS (py_get_or complaint ''complainedRecipients'' (JArr [])) py_iter)) (\<lambda>rs.
           forE (\<lambda>r. bindE (liftS (bindS (py_item r ''emailAddress'') as_key)) (\<lambda>to.
             handle_complaint_notification E g message_id to)) rs))
         else ret ()) w1"
      proof (rule outcome_leaf [where f = "org_effects g"])
        fix w' :: "'a app_world_scheme"
        assume "org_effects g w' = org_effects g w1"
        then show "bounded_by_message w w'" by (rule org_effects_bounded [OF _ w1 ev])
      qed (intro frames effects)
    qed
  qed
  done


lemma on_sns_error_run:
  assumes "on_sns_error (thenE m (ret Ok_status)) n w = (r, w')"
  obtains r1 where "m w = (r1, w')" "r = Inr Ok_status \<longleftrightarrow> r1 = Inr ()" "\<not> isl r1 \<longrightarrow> r = Inr Ok_status"
proof -
  obtain r1 w1 where m: "m w = (r1, w1)" by (rule prod.exhaust)
  with assms that show thesis
    by (cases r1) (auto simp: on_sns_error_def catchE_app thenE_app split: if_splits)
qed

lemma confirm_subscription_net_ok:
  assumes "confirm_subscription L payload w = (r, w')" and "net_ok L gs w"
  shows "net_ok L gs w'"
proof -
  have visit: "keeps (net_ok L gs) (bindE (liftS (trusted_url L url)) (\<lambda>ok.
      if \<not> ok then raise (Exn (Py SnsVerificationError))
      else bindE (fetch_url L url) (\<lambda>resp. case resp of None \<Rightarrow> raise (Exn (Py HttpErrorPy)) | Some _ \<Rightarrow> ret ())))" for url
  proof (cases "trusted L url")
    case True
    then have lift: "liftS (trusted_url L url) = ret True" by (simp add: trusted_url_True [symmetric] liftS_def)
    show ?thesis unfolding lift bindE_ret by (intro keepers fetch_url_net_ok True)
  next
    case False
    then have "trusted_url L url \<noteq> Inr True" by (simp add: trusted_url_True)
    then show ?thesis by (cases "trusted_url L url") (auto simp: keeps_def bindE_app liftS_def)
  qed
  have "keeps (net_ok L gs) (confirm_subscription L payload)"
    unfolding confirm_subscription_def by (rule keeps_bindE [OF keeps_liftS visit])
  from keepsD [OF this assms] show ?thesis .
qed

lemma process_notification_net: "leaves (\<lambda>w. (cert_cache w, http_gets w)) (process_notification E n)"
  unfolding process_notification_def resolve_org_for_message_def handle_bounce_notification_def
    handle_complaint_notification_def suppress_def
  by (intro frames; simp)

text \<open>The route once the signature is verified.\<close>

definition sns_verdict :: "libs \<Rightarrow> string list \<Rightarrow> bool \<Rightarrow> 'z app_world_scheme \<Rightarrow> 'z app_world_scheme \<Rightarrow> bool" where
  "sns_verdict L gs signed w w' \<longleftrightarrow> net_ok L gs w' \<and> bounded_by_message w w' \<and> (signed \<or> guarded w' = guarded w)"

lemma verified_outcome:
  assumes "net_ok L gs w1" and "guarded w1 = guarded w"
  shows "outcome (\<lambda>r. sns_verdict L gs True w) (dispatch_message E L payload) w1"
proof -
  have same: "guarded w2 = guarded w1 \<Longrightarrow> net_ok L gs w2 \<Longrightarrow> sns_verdict L gs True w w2" for w2
    using assms(2) by (simp add: sns_verdict_def bounded_refl)
  have confirm: "outcome (\<lambda>r. sns_verdict L gs True w)
      (on_sns_error (thenE (confirm_subscription L payload) (ret Ok_status)) 400) w1"
  proof (rule outcomeI)
    fix r w2
    assume "on_sns_error (thenE (confirm_subscription L payload) (ret Ok_status)) 400 w1 = (r, w2)"
    then obtain r1 where run: "confirm_subscription L payload w1 = (r1, w2)" by (rule on_sns_error_run)
    have "leaves guarded (confirm_subscription L payload :: ('a app_world_scheme, _) op)" by (intro frames; simp)
    from leavesD [OF this run] confirm_subscription_net_ok [OF run assms(1)] show "sns_verdict L gs True w w2" by (intro same)
  qed
  have process: "outcome (\<lambda>r. sns_verdict L gs True w) (thenE (process_notification E n) (ret Ok_status)) w1" for n
  proof (rule outcomeI)
    fix r w2
    assume run: "thenE (process_notification E n) (ret Ok_status) w1 = (r, w2)"
    then obtain r1 where p: "process_notification E n w1 = (r1, w2)"
      by (cases "process_notification E n w1"; cases "fst (process_notification E n w1)") (auto simp: thenE_app)
    have "bounded_by_message w w2"
      using outcomeD [OF process_notification_outcome p] assms(2) by (rule bounded_from)
    then show "sns_verdict L gs True w w2"
      using leavesD [OF process_notification_net p] assms(1) by (simp add: sns_verdict_def net_ok_def)
  qed
  show ?thesis
    using confirm process same [OF refl assms(1)]
    unfolding dispatch_message_def
    by (auto simp: outcome_ret outcome_raise split: json.split option.split)
qed


definition forged_env :: env where
  "forged_env = sample_env\<lparr>json_loads := \<lambda>_. Some (JObj [(''Type'', JStr ''Notification''), (''Message'', JStr ''{}''),
     (''SigningCertURL'', JStr ''https://sns.evil.example.com/cert.pem''), (''Signature'', JStr ''x'')])\<rparr>"


end
