(* ===== verification/A2Z_Schemas.thy ===== *)
theory A2Z_Schemas
  imports A2Z_InvoiceService A2Z_SesNotifications
begin

text \<open>
  What the HTTP API answers: the response models of \<open>services/invoicing/schemas.py\<close> and of
  \<open>services/omnichannel/connections.py\<close> with the functions that fill them from rows, and the
  bodies of all routes.
\<close>

section \<open>Invoicing\<close>

fun payment_status_value :: "PaymentStatus \<Rightarrow> string" where
  "payment_status_value PS_UNPAID = ''unpaid''"
| "payment_status_value PS_PARTIALLY_PAID = ''partially_paid''"
| "payment_status_value PS_PAID = ''paid''"

record line_item_response =
  lr_line_item_id :: string
  lr_description :: string
  lr_quantity :: rat
  lr_unit_price_cents :: int
  lr_amount_cents :: int

definition line_item_response_of :: "line_item \<Rightarrow> line_item_response" where
  "line_item_response_of it =
     \<lparr>lr_line_item_id = li_id it, lr_description = li_description it, lr_quantity = li_quantity it,
      lr_unit_price_cents = li_unit_price it, lr_amount_cents = li_amount it\<rparr>"

record invoice_detail =
  id_org_id :: string
  id_invoice_id :: string
  id_invoice_number :: string
  id_status :: string
  id_customer_email :: string
  id_customer_name :: string
  id_customer_company :: "string option"
  id_invoice_date :: int
  id_due_date :: "int option"
  id_payment_terms :: "string option"
  id_line_items :: "line_item_response list"
  id_subtotal_cents :: int
  id_tax_cents :: int
  id_discount_cents :: int
  id_total_cents :: int
  id_amount_paid_cents :: int
  id_payment_status :: string
  id_remaining_cents :: int
  id_currency_code :: string
  id_notes :: "string option"
  id_pdf_s3_key :: "string option"
  id_pdf_signed_url :: "string option"
  id_created_by :: string
  id_created_at :: int
  id_updated_at :: int
  id_is_deleted :: bool

definition invoice_detail_of :: "invoice \<Rightarrow> line_item list \<Rightarrow> string option \<Rightarrow> invoice_detail" where
  "invoice_detail_of iv its pdf_signed_url =
     \<lparr>id_org_id = iv_org_id iv, id_invoice_id = iv_id iv, id_invoice_number = iv_number iv,
      id_status = invoice_status_value (iv_status iv),
      id_customer_email = iv_customer_email iv, id_customer_name = iv_customer_name iv,
      id_customer_company = iv_customer_company iv,
      id_invoice_date = iv_invoice_date iv, id_due_date = iv_due_date iv,
      id_payment_terms = iv_payment_terms iv,
      id_line_items = map line_item_response_of its,
      id_subtotal_cents = iv_subtotal iv, id_tax_cents = iv_tax iv,
      id_discount_cents = iv_discount iv, id_total_cents = iv_total iv,
      id_amount_paid_cents = iv_paid iv, id_payment_status = payment_status_value (iv_payment_status iv),
      id_remaining_cents = max (iv_total iv - iv_paid iv) 0,
      id_currency_code = iv_currency iv, id_notes = iv_notes iv,
      id_pdf_s3_key = iv_pdf_s3_key iv, id_pdf_signed_url = pdf_signed_url,
      id_created_by = iv_created_by iv, id_created_at = iv_created_at iv,
      id_updated_at = iv_updated_at iv, id_is_deleted = iv_is_deleted iv\<rparr>"

record payment_response =
  pp_payment_id :: string
  pp_amount_cents :: int
  pp_payment_date :: int
  pp_payment_method :: string
  pp_reference :: "string option"
  pp_notes :: "string option"
  pp_recorded_by :: string
  pp_recorded_at :: int

definition payment_response_of :: "payment \<Rightarrow> payment_response" where
  "payment_response_of p =
     \<lparr>pp_payment_id = py_id p, pp_amount_cents = py_amount p, pp_payment_date = py_payment_date p,
      pp_payment_method = py_method p, pp_reference = py_reference p, pp_notes = py_notes p,
      pp_recorded_by = py_recorded_by p, pp_recorded_at = py_recorded_at p\<rparr>"

section \<open>Connections\<close>

record connection_view =
  vw_id :: string
  vw_channel_type :: string
  vw_display_name :: string
  vw_provider_account_id :: string
  vw_credentials_secret_key :: string
  vw_status :: string
  vw_created_at :: int
  vw_updated_at :: int
  vw_dns_records :: "domain_records option"

definition to_view :: "channel_connection \<Rightarrow> domain_records option \<Rightarrow> connection_view" where
  "to_view cn dns_records =
     \<lparr>vw_id = cn_id cn, vw_channel_type = cn_channel_type cn, vw_display_name = cn_display_name cn,
      vw_provider_account_id = cn_provider_account_id cn,
      vw_credentials_secret_key = cn_credentials_secret_key cn, vw_status = cn_status cn,
      vw_created_at = cn_created_at cn, vw_updated_at = cn_updated_at cn, vw_dns_records = dns_records\<rparr>"

section \<open>Replies\<close>

text \<open>
  The small models are constructors: \<open>SendInvoiceResponse\<close>, \<open>RecordPaymentResponse\<close>,
  \<open>VoidResponse\<close>, \<open>MarkReadResponse\<close>, \<open>SendReplyResponse\<close>, \<open>AssignmentResponse\<close> and
  \<open>RoutingConfigResponse\<close>, with their fields in the order of the source.
\<close>

datatype body =
    Nothing
  | Error_body "exc_cls"                       \<comment> \<open>\<open>"error": type(exc).__name__\<close>\<close>
  | Validation_errors
  | Plain string
  | Status_of string
  | Health_body string string string           \<comment> \<open>status, dynamodb, postgres\<close>
  | Org_body org
  | Orgs "org list"
  | Membership_body membership
  | Memberships "membership list"
  | Settings_body org_settings
  | Email_result_body email_result
  | Invoice_detail invoice_detail
  | Invoice_list_response "invoice_detail list" nat
  | Send_invoice_response string string string int
  | Record_payment_response string string int string int string
  | Void_response string string int
  | Payment_list_response "payment_response list"
  | Conversation_page "conversation_summary list" "cursor option"
  | Conversation_detail conversation_summary "message_view list" "cursor option"
  | Mark_read_response string int
  | Send_reply_response string string
  | Assignment_response string "string option"
  | Routing_config_response string "string option"
  | Connection_view connection_view
  | Connection_page "connection_view list"

record reply =
  reply_status :: int
  reply_retry_after :: "int option"
  reply_body :: body

abbreviation reply_with :: "int \<Rightarrow> body \<Rightarrow> reply" where
  "reply_with n b \<equiv> \<lparr>reply_status = n, reply_retry_after = None, reply_body = b\<rparr>"

end
