(* ===== verification/A2Z_Routes.thy ===== *)
theory A2Z_Routes
  imports A2Z_Schemas
begin

text \<open>
  The routes of the HTTP API: \<open>routers/core_admin.py\<close>, \<open>routers/invoicing.py\<close>,
  \<open>routers/omnichannel.py\<close> (but its stream) and \<open>routers/health.py\<close>, and their dispatch and
  error handling in \<open>main.py\<close>.  A request arrives parsed and typed; its field constraints
  are checked after the caller is known, as FastAPI resolves dependencies first.
\<close>

section \<open>Core\<close>

type_synonym claims = "(string \<times> json) list"

type_synonym 'z route = "('z app_world_scheme, reply) op"

datatype core_call =
    Create_organisation string
  | List_my_orgs
  | List_members string
  | Add_org_member string string Role
  | Get_settings string
  | Update_settings string "(string \<times> json) list"
  | Email_send string ServiceType string string string "string option" "(string \<times> json) list option"
  | Domain_status string

definition create_org_route :: "env \<Rightarrow> string \<Rightarrow> claims \<Rightarrow> 'z route" where
  "create_org_route E name user =
     bindE (liftS (user_sub user)) (\<lambda>sub.
     bindE (create_org E name sub) (\<lambda>g. ret (reply_with 201 (Org_body g))))"

definition list_my_orgs_route :: "env \<Rightarrow> claims \<Rightarrow> 'z route" where
  "list_my_orgs_route E user =
     bindE (liftS (user_sub user)) (\<lambda>sub.
     bindE (list_user_orgs E sub) (\<lambda>gs. ret (reply_with 200 (Orgs gs))))"

definition list_members_route :: "env \<Rightarrow> string \<Rightarrow> claims \<Rightarrow> 'z route" where
  "list_members_route E org_id user =
     thenE (require_member E org_id user)
     (bindE (list_org_members E org_id) (\<lambda>ms. ret (reply_with 200 (Memberships ms))))"

definition add_member_route :: "env \<Rightarrow> string \<Rightarrow> string \<Rightarrow> Role \<Rightarrow> claims \<Rightarrow> 'z route" where
  "add_member_route E org_id user_id role user =
     bindE (require_member E org_id user) (\<lambda>m.
     thenE (require_admin m)
     (bindE (liftS (user_sub user)) (\<lambda>sub.
     bindE (add_member E org_id user_id role sub) (\<lambda>added. ret (reply_with 201 (Membership_body added))))))"

definition get_settings_route :: "env \<Rightarrow> string \<Rightarrow> claims \<Rightarrow> 'z route" where
  "get_settings_route E org_id user =
     thenE (require_member E org_id user)
     (bindE (get_org_settings E org_id) (\<lambda>s. ret (reply_with 200 (Settings_body s))))"

definition update_settings_route :: "env \<Rightarrow> string \<Rightarrow> (string \<times> json) list \<Rightarrow> claims \<Rightarrow> 'z route" where
  "update_settings_route E org_id changes user =
     bindE (require_member E org_id user) (\<lambda>m.
     thenE (require_admin m)
     (bindE (liftS (user_sub user)) (\<lambda>sub.
     bindE (set_org_settings E org_id changes sub) (\<lambda>s. ret (reply_with 200 (Settings_body s))))))"

definition send_email_route ::
  "env \<Rightarrow> string \<Rightarrow> ServiceType \<Rightarrow> string \<Rightarrow> string \<Rightarrow> string \<Rightarrow> string option
    \<Rightarrow> (string \<times> json) list option \<Rightarrow> claims \<Rightarrow> 'z route" where
  "send_email_route E org_id service_type to subject body_html body_text metadata user =
     thenE (require_member E org_id user)
     (bindE (send_email E org_id service_type to subject body_html body_text [] None
               (case metadata of None \<Rightarrow> [] | Some m \<Rightarrow> m)) (\<lambda>res.
     ret (reply_with 200 (Email_result_body res))))"

definition get_domain_verification_status_route :: "env \<Rightarrow> string \<Rightarrow> claims \<Rightarrow> 'z route" where
  "get_domain_verification_status_route E org_id user =
     thenE (require_member E org_id user)
     (bindE (get_domain_verification_status E org_id) (\<lambda>status. ret (reply_with 200 (Status_of status))))"

fun core_route :: "env \<Rightarrow> core_call \<Rightarrow> claims \<Rightarrow> 'z route" where
  "core_route E (Create_organisation n) user = create_org_route E n user"
| "core_route E List_my_orgs user = list_my_orgs_route E user"
| "core_route E (List_members g) user = list_members_route E g user"
| "core_route E (Add_org_member g u r) user = add_member_route E g u r user"
| "core_route E (Get_settings g) user = get_settings_route E g user"
| "core_route E (Update_settings g changes) user = update_settings_route E g changes user"
| "core_route E (Email_send g t to s h b m) user = send_email_route E g t to s h b m user"
| "core_route E (Domain_status g) user = get_domain_verification_status_route E g user"

section \<open>Invoicing\<close>

datatype inv_call =
    Create_invoice invoice_create
  | List_invoices "string option" int int
  | Get_invoice string
  | Update_invoice string invoice_update
  | Delete_invoice string
  | Send_invoice string string
  | Record_payment string payment_request
  | Void_invoice string string
  | List_payments string

definition detail :: "env \<Rightarrow> invoice \<Rightarrow> line_item list \<Rightarrow> ('z app_world_scheme, invoice_detail) op" where
  "detail E iv its = bindE (signed_pdf_url E iv) (\<lambda>url. ret (invoice_detail_of iv its url))"

definition create_invoice_route :: "env \<Rightarrow> string \<Rightarrow> invoice_create \<Rightarrow> string \<Rightarrow> 'z route" where
  "create_invoice_route E org_id body sub =
     bindE (create_invoice E org_id sub body) (\<lambda>(iv, its).
     bindE (detail E iv its) (\<lambda>d. ret (reply_with 201 (Invoice_detail d))))"

definition list_invoices_route :: "env \<Rightarrow> string \<Rightarrow> string option \<Rightarrow> int \<Rightarrow> int \<Rightarrow> string \<Rightarrow> 'z route" where
  "list_invoices_route E org_id status skip limit sub =
     (let statuses = (case status of None \<Rightarrow> [] | Some s \<Rightarrow> if s = [] then [] else split_on CHR '','' s) in
      bindE (list_invoices E org_id sub statuses (nat skip) (nat limit)) (\<lambda>(rows, total).
      bindE (mapE (\<lambda>(iv, its). detail E iv its) rows) (\<lambda>ds.
      ret (reply_with 200 (Invoice_list_response ds total)))))"

definition get_invoice_route :: "env \<Rightarrow> string \<Rightarrow> string \<Rightarrow> string \<Rightarrow> 'z route" where
  "get_invoice_route E org_id invoice_id sub =
     bindE (get_invoice E org_id sub invoice_id) (\<lambda>(iv, its).
     bindE (detail E iv its) (\<lambda>d. ret (reply_with 200 (Invoice_detail d))))"

definition update_invoice_route :: "env \<Rightarrow> string \<Rightarrow> string \<Rightarrow> invoice_update \<Rightarrow> string \<Rightarrow> 'z route" where
  "update_invoice_route E org_id invoice_id body sub =
     bindE (update_invoice E org_id invoice_id sub body) (\<lambda>(iv, its).
     bindE (detail E iv its) (\<lambda>d. ret (reply_with 200 (Invoice_detail d))))"

definition delete_invoice_route :: "env \<Rightarrow> string \<Rightarrow> string \<Rightarrow> string \<Rightarrow> 'z route" where
  "delete_invoice_route E org_id invoice_id sub =
     thenE (soft_delete_invoice E org_id invoice_id sub) (ret (reply_with 204 Nothing))"

definition send_invoice_route :: "env \<Rightarrow> renderer \<Rightarrow> string \<Rightarrow> string \<Rightarrow> string \<Rightarrow> string \<Rightarrow> 'z route" where
  "send_invoice_route E pdf org_id invoice_id recipient_email sub =
     bindE (send_invoice E pdf org_id invoice_id sub recipient_email) (\<lambda>(iv, _).
     case iv_pdf_s3_key iv of
       None \<Rightarrow> raise (Exn (Py AssertionErrorPy))
     | Some key \<Rightarrow> ret (reply_with 200
         (Send_invoice_response (iv_id iv) (invoice_status_value (iv_status iv)) key (iv_updated_at iv))))"

definition record_payment_route :: "env \<Rightarrow> string \<Rightarrow> string \<Rightarrow> payment_request \<Rightarrow> string \<Rightarrow> 'z route" where
  "record_payment_route E org_id invoice_id body sub =
     bindE (record_payment E org_id invoice_id sub body) (\<lambda>(iv, p).
     ret (reply_with 200 (Record_payment_response (iv_id iv) (invoice_status_value (iv_status iv)) (iv_paid iv)
        (payment_status_value (iv_payment_status iv)) (max (iv_total iv - iv_paid iv) 0) (py_id p))))"

definition void_invoice_route :: "env \<Rightarrow> string \<Rightarrow> string \<Rightarrow> string \<Rightarrow> string \<Rightarrow> 'z route" where
  "void_invoice_route E org_id invoice_id reason sub =
     bindE (void_invoice E org_id invoice_id sub reason) (\<lambda>iv.
     ret (reply_with 200 (Void_response (iv_id iv) (invoice_status_value (iv_status iv)) (iv_updated_at iv))))"

definition list_payments_route :: "env \<Rightarrow> string \<Rightarrow> string \<Rightarrow> string \<Rightarrow> 'z route" where
  "list_payments_route E org_id invoice_id sub =
     bindE (list_payments E org_id sub invoice_id) (\<lambda>ps.
     ret (reply_with 200 (Payment_list_response (map payment_response_of ps))))"

text \<open>The constraints of the request models and of the query parameters.\<close>

fun inv_valid :: "inv_call \<Rightarrow> bool" where
  "inv_valid (Create_invoice b) = valid_create b"
| "inv_valid (Update_invoice _ b) = valid_update b"
| "inv_valid (Record_payment _ b) = valid_payment b"
| "inv_valid (List_invoices _ skip limit) = (0 \<le> skip \<and> 1 \<le> limit \<and> limit \<le> 200)"
| "inv_valid _ = True"

fun inv_route :: "env \<Rightarrow> renderer \<Rightarrow> string \<Rightarrow> inv_call \<Rightarrow> string \<Rightarrow> 'z route" where
  "inv_route E pdf g (Create_invoice b) u = create_invoice_route E g b u"
| "inv_route E pdf g (List_invoices s k n) u = list_invoices_route E g s k n u"
| "inv_route E pdf g (Get_invoice i) u = get_invoice_route E g i u"
| "inv_route E pdf g (Update_invoice i b) u = update_invoice_route E g i b u"
| "inv_route E pdf g (Delete_invoice i) u = delete_invoice_route E g i u"
| "inv_route E pdf g (Send_invoice i r) u = send_invoice_route E pdf g i r u"
| "inv_route E pdf g (Record_payment i b) u = record_payment_route E g i b u"
| "inv_route E pdf g (Void_invoice i r) u = void_invoice_route E g i r u"
| "inv_route E pdf g (List_payments i) u = list_payments_route E g i u"

section \<open>Omni-channel\<close>

definition list_conversations_route ::
  "env \<Rightarrow> string \<Rightarrow> conversation_query \<Rightarrow> cursor option \<Rightarrow> string \<Rightarrow> 'z route" where
  "list_conversations_route E org_id cq cursor sub =
     bindE (list_conversations E org_id sub cq cursor) (\<lambda>(items, next_cursor).
     ret (reply_with 200 (Conversation_page items next_cursor)))"

definition get_conversation_route ::
  "env \<Rightarrow> string \<Rightarrow> string \<Rightarrow> int \<Rightarrow> cursor option \<Rightarrow> string \<Rightarrow> 'z route" where
  "get_conversation_route E org_id conversation_id limit before sub =
     bindE (get_conversation E org_id conversation_id sub limit before) (\<lambda>(c, msgs, next_cursor).
     ret (reply_with 200 (Conversation_detail c msgs next_cursor)))"

definition mark_read_route :: "env \<Rightarrow> string \<Rightarrow> string \<Rightarrow> string \<Rightarrow> 'z route" where
  "mark_read_route E org_id conversation_id sub =
     bindE (mark_read E org_id conversation_id sub) (\<lambda>c.
     ret (reply_with 200 (Mark_read_response (cv_id c) (cv_unread_count c))))"

definition send_reply_route ::
  "env \<Rightarrow> string \<Rightarrow> string \<Rightarrow> string \<Rightarrow> string option \<Rightarrow> string option \<Rightarrow> string \<Rightarrow> 'z route" where
  "send_reply_route E org_id conversation_id body_text idempotency_key subject sub =
     bindE (send_reply E org_id conversation_id sub body_text idempotency_key subject) (\<lambda>(m, created).
     ret (reply_with (if created then 201 else 200) (Send_reply_response (mg_id m) (mg_status m))))"

definition claim_conversation_route :: "env \<Rightarrow> string \<Rightarrow> string \<Rightarrow> string \<Rightarrow> 'z route" where
  "claim_conversation_route E org_id conversation_id sub =
     bindE (claim E org_id conversation_id sub) (\<lambda>c.
     ret (reply_with 200 (Assignment_response (cv_id c) (cv_assigned_user_id c))))"

definition reassign_conversation_route :: "env \<Rightarrow> string \<Rightarrow> string \<Rightarrow> string \<Rightarrow> string \<Rightarrow> 'z route" where
  "reassign_conversation_route E org_id conversation_id assignee_user_id sub =
     bindE (reassign E org_id conversation_id sub assignee_user_id) (\<lambda>c.
     ret (reply_with 200 (Assignment_response (cv_id c) (cv_assigned_user_id c))))"

text \<open>\<open>RoutingConfigResponse(**config)\<close>\<close>

definition routing_config_response :: "(string \<times> json) list \<Rightarrow> exn + body" where
  "routing_config_response config =
     bindS (as_str (field config ''routing_strategy'')) (\<lambda>s.
     bindS (as_opt_text (field config ''single_assignee_user_id'')) (\<lambda>a.
     Inr (Routing_config_response s a)))"

definition set_routing_config_route :: "env \<Rightarrow> string \<Rightarrow> string \<Rightarrow> string option \<Rightarrow> string \<Rightarrow> 'z route" where
  "set_routing_config_route E org_id strategy single_assignee_user_id sub =
     bindE (set_routing_config E org_id sub strategy single_assignee_user_id) (\<lambda>config.
     bindE (liftS (routing_config_response config)) (\<lambda>b. ret (reply_with 200 b)))"

definition create_connection_route ::
  "env \<Rightarrow> string \<Rightarrow> string \<Rightarrow> string \<Rightarrow> string \<Rightarrow> (string \<times> json) list option \<Rightarrow> string option
    \<Rightarrow> string \<Rightarrow> 'z route" where
  "create_connection_route E org_id channel_type display_name provider_account_id
     credentials credentials_secret_key sub =
     bindE (create_connection E org_id sub channel_type display_name provider_account_id
              credentials credentials_secret_key) (\<lambda>(cn, dns_records).
     ret (reply_with 201 (Connection_view (to_view cn dns_records))))"

definition list_connections_route :: "env \<Rightarrow> string \<Rightarrow> string \<Rightarrow> 'z route" where
  "list_connections_route E org_id sub =
     bindE (list_connections E org_id sub) (\<lambda>rows.
     ret (reply_with 200 (Connection_page (map (\<lambda>c. to_view c None) rows))))"

definition get_connection_route :: "env \<Rightarrow> string \<Rightarrow> string \<Rightarrow> string \<Rightarrow> 'z route" where
  "get_connection_route E org_id connection_id sub =
     bindE (get_connection E org_id sub connection_id) (\<lambda>cn.
     ret (reply_with 200 (Connection_view (to_view cn None))))"

definition disable_connection_route :: "env \<Rightarrow> string \<Rightarrow> string \<Rightarrow> string \<Rightarrow> 'z route" where
  "disable_connection_route E org_id connection_id sub =
     thenE (disable_connection E org_id sub connection_id) (ret (reply_with 204 Nothing))"

fun omni_route :: "env \<Rightarrow> string \<Rightarrow> omni_request \<Rightarrow> string \<Rightarrow> 'z route" where
  "omni_route E g (Claim i) u = claim_conversation_route E g i u"
| "omni_route E g (Reassign i v) u = reassign_conversation_route E g i v u"
| "omni_route E g (Set_routing s a) u = set_routing_config_route E g s a u"
| "omni_route E g (Send_reply i b k s) u = send_reply_route E g i b k s u"
| "omni_route E g (Mark_read i) u = mark_read_route E g i u"
| "omni_route E g (Connect ch n acc cs k) u = create_connection_route E g ch n acc cs k u"
| "omni_route E g (Disable i) u = disable_connection_route E g i u"
| "omni_route E g Connections u = list_connections_route E g u"
| "omni_route E g (Connection i) u = get_connection_route E g i u"
| "omni_route E g (Inbox cq cur) u = list_conversations_route E g cq cur u"
| "omni_route E g (Thread i n b) u = get_conversation_route E g i n b u"

definition receive_webhook :: "env \<Rightarrow> string \<Rightarrow> string \<Rightarrow> string \<Rightarrow> (string \<times> string) list \<Rightarrow> 'z route" where
  "receive_webhook E channel_type connection_id raw_body headers =
     thenE (handle_webhook E channel_type connection_id raw_body headers)
       (ret (reply_with 200 (Status_of ''accepted'')))"

definition verify_webhook_subscription :: "env \<Rightarrow> string \<Rightarrow> string \<Rightarrow> (string \<times> string) list \<Rightarrow> 'z route" where
  "verify_webhook_subscription E channel_type connection_id params =
     bindE (verify_subscription E channel_type connection_id params) (\<lambda>challenge.
     ret (reply_with 200 (Plain challenge)))"

section \<open>Health\<close>

text \<open>A probe: \<open>ok\<close>, or \<open>error\<close> whatever it raised.\<close>

definition probe :: "('w, unit) op \<Rightarrow> ('w, string) op" where
  "probe m = catchE (thenE m (ret ''ok'')) (\<lambda>_. ret ''error'')"

definition health :: "env \<Rightarrow> 'z route" where
  "health E =
     bindE (probe (run_aws E (ret ()))) (\<lambda>dynamodb.
     bindE (probe (run_pg E (ret ()))) (\<lambda>postgres.
     let healthy = (dynamodb = ''ok'' \<and> postgres = ''ok'') in
     ret (reply_with (if healthy then 200 else 503)
       (Health_body (if healthy then ''ok'' else ''degraded'') dynamodb postgres))))"

section \<open>The application\<close>

type_synonym headers = "(string \<times> string) list"

datatype api_request =
    Health
  | Ses_notification string
  | Core_api core_call
  | Invoicing_api string inv_call
  | Omni_api string omni_request
  | Webhook_post string string string
  | Webhook_get string string "(string \<times> string) list"

text \<open>The caller is a dependency of every route under \<open>CurrentUser\<close>; then the parameters.\<close>

definition as_user :: "env \<Rightarrow> libs \<Rightarrow> Settings \<Rightarrow> headers \<Rightarrow> bool \<Rightarrow> (claims \<Rightarrow> 'z route) \<Rightarrow> 'z route" where
  "as_user E L S headers valid endpoint =
     bindE (current_user E L S headers) (\<lambda>user.
     if valid then endpoint user else ret (reply_with 422 Validation_errors))"

definition by_sub :: "(string \<Rightarrow> 'z route) \<Rightarrow> claims \<Rightarrow> 'z route" where
  "by_sub endpoint user = bindE (liftS (user_sub user)) endpoint"

definition sns_reply :: "sns_answer \<Rightarrow> reply" where
  "sns_reply a = (case a of Ok_status \<Rightarrow> reply_with 200 (Status_of ''ok'')
     | Http_exception n \<Rightarrow> reply_with n Nothing)"

text \<open>\<open>routing.set_routing_config\<close> is the one omni-channel route without a session.\<close>

fun needs_session :: "omni_request \<Rightarrow> bool" where
  "needs_session (Set_routing _ _) = False"
| "needs_session _ = True"

fun endpoint :: "env \<Rightarrow> libs \<Rightarrow> Settings \<Rightarrow> renderer \<Rightarrow> headers \<Rightarrow> api_request \<Rightarrow> 'z route" where
  "endpoint E L S pdf h Health = health E"
| "endpoint E L S pdf h (Ses_notification raw) =
     bindE (ses_notifications E L raw) (\<lambda>a. ret (sns_reply a))"
| "endpoint E L S pdf h (Core_api q) = as_user E L S h True (core_route E q)"
| "endpoint E L S pdf h (Invoicing_api g q) =
     as_user E L S h (inv_valid q) (\<lambda>user. inv_session (by_sub (inv_route E pdf g q) user))"
| "endpoint E L S pdf h (Omni_api g q) =
     as_user E L S h True (\<lambda>user.
       if needs_session q then omni_session (by_sub (omni_route E g q) user)
       else by_sub (omni_route E g q) user)"
| "endpoint E L S pdf h (Webhook_post ch i raw) = omni_session (receive_webhook E ch i raw h)"
| "endpoint E L S pdf h (Webhook_get ch i params) = omni_session (verify_webhook_subscription E ch i params)"

text \<open>
  \<open>core_error_handler\<close> for a \<open>CoreError\<close>; anything else is the framework's plain 500.
\<close>

definition error_reply :: "exn \<Rightarrow> reply" where
  "error_reply e = (case core_error_handler e of
     Some r \<Rightarrow> \<lparr>reply_status = status_code r, reply_retry_after = retry_after_header r,
                reply_body = Error_body (class_of e)\<rparr>
   | None \<Rightarrow> reply_with 500 Nothing)"

definition respond ::
  "env \<Rightarrow> libs \<Rightarrow> Settings \<Rightarrow> renderer \<Rightarrow> headers \<Rightarrow> api_request \<Rightarrow> 'z app_world_scheme \<Rightarrow> reply \<times> 'z app_world_scheme" where
  "respond E L S pdf h q w =
     (case endpoint E L S pdf h q w of
        (Inr r, w') \<Rightarrow> (r, w')
      | (Inl e, w') \<Rightarrow> (error_reply e, w'))"

end
