(* ===== verification/A2Z_PlatformFrames.thy ===== *)
theory A2Z_PlatformFrames
  imports A2Z_Routes
begin

text \<open>
  What the parts of the server leave of each other's stores: the routes of invoicing, of
  the omni-channel service and of Core, the callers' tokens, the notifications of SES and
  the rounds of the worker.  The steps of invoicing and the settling of omni-channel
  sessions carry over from the services to the routes.
\<close>

section \<open>What the parts leave alone\<close>

lemma session_leaves [frames]:
  assumes "\<And>w g. f (tx_upd g w) = f w" and "leaves f m"
  shows "leaves f (in_session db tx_upd m)"
  by (auto simp: leaves_def in_session_def assms(1) leavesD [OF assms(2)] split: prod.split)

lemma tick_leaves_platform [frames]: "(\<And>w g. f (tick_update g w) = f w) \<Longrightarrow> leaves f next_tick"
  by (simp add: leaves_def next_tick_def)

lemma pg_rollback_leaves [frames]: "(\<And>w g. f (tx_upd g w) = f w) \<Longrightarrow> leaves f (pg_rollback db tx_upd)"
  unfolding pg_rollback_def by (intro frames) simp

lemma by_sub_leaves [frames]: "(\<And>u. leaves f (m u)) \<Longrightarrow> leaves f (by_sub m user)"
  unfolding by_sub_def by (intro frames)

lemma routes_leave_auth [frames]:
  assumes "\<And>w g. f (tick_update g w) = f w"
  shows "leaves f (require_member E g user)" "leaves f (require_admin m)" "leaves f (get_domain_verification_status E g)"
    "leaves f (list_user_orgs E u)" "leaves f (list_org_members E g)" "leaves f (detail E iv its)"
    "leaves f (health E)"
  unfolding require_member_def require_admin_def get_domain_verification_status_def list_user_orgs_def
    get_org_def list_org_members_def detail_def generate_signed_url_def signed_pdf_url_def health_def probe_def Let_def
  by (intro frames; simp add: assms)+

text \<open>What invoicing does not touch: the other two stores and the caches of the HTTP layer.\<close>

abbreviation beside_invoicing :: "'z app_world_scheme \<Rightarrow> _" where
  "beside_invoicing w \<equiv> (om_db w, member_tbl w, jwks_cache w, provisioned w)"

lemma inv_handlers_leave [frames]:
  "leaves beside_invoicing (create_invoice E g u b :: ('z app_world_scheme, _) op)"
  "leaves beside_invoicing (update_invoice E g i u ub :: ('z app_world_scheme, _) op)"
  "leaves beside_invoicing (soft_delete_invoice E g i u :: ('z app_world_scheme, _) op)"
  "leaves beside_invoicing (send_invoice E pdf g i u r :: ('z app_world_scheme, _) op)"
  "leaves beside_invoicing (record_payment E g i u pb :: ('z app_world_scheme, _) op)"
  "leaves beside_invoicing (void_invoice E g i u r :: ('z app_world_scheme, _) op)"
  unfolding create_invoice_def update_invoice_def soft_delete_invoice_def send_invoice_def record_payment_def
    void_invoice_def replace_items_def Let_def
  by (intro frames; simp)+

lemma inv_route_leaves: "leaves beside_invoicing (inv_route E pdf g q u :: 'z route)"
  by (cases q; simp only: inv_route.simps create_invoice_route_def list_invoices_route_def get_invoice_route_def
      update_invoice_route_def delete_invoice_route_def send_invoice_route_def record_payment_route_def
      void_invoice_route_def list_payments_route_def get_invoice_def list_invoices_def list_payments_def Let_def;
      (intro frames; simp))

section \<open>Invoicing\<close>

lemma ends_view:
  assumes "inv.ends R m w" and "\<And>x. leaves inv_db (k x)" and "\<And>r t. R r t \<Longrightarrow> Q t"
  shows "inv.ends (\<lambda>_. Q) (bindE m k) w"
  using assms(1,3) leavesD [OF assms(2)]
  by (fastforce simp: inv.ends_def bindE_app split: prod.splits sum.splits)

lemma inv_route_steps:
  fixes w :: "'z app_world_scheme"
  assumes "inv_db w = t" "inv_tx w = t" "inv_valid q"
  shows "inv.ends (\<lambda>_ t'. t' = t \<or> inv_step g t t') (inv_route E pdf g q u) w"
proof (cases q)
  case (Create_invoice b)
  then have "valid_create b" using assms(3) by simp
  with Create_invoice show ?thesis
    by (auto simp: create_invoice_route_def intro: created intro!: ends_view [OF create_outcome [OF assms(1,2)]] frames)
next
  case (Update_invoice i b)
  then have "valid_update b" using assms(3) by simp
  with Update_invoice show ?thesis
    by (auto simp: update_invoice_route_def intro: inv_step_edited intro!: ends_view [OF update_outcome [OF assms(1,2)]] frames)
next
  case (Delete_invoice i)
  with assms show ?thesis
    by (auto simp: delete_invoice_route_def thenE_def intro: deleted intro!: ends_view [OF soft_delete_outcome [OF assms(1,2)]] frames)
next
  case (Send_invoice i r)
  with assms show ?thesis
    by (auto simp: send_invoice_route_def intro: sent intro!: ends_view [OF send_outcome [OF assms(1,2)]] frames)
next
  case (Record_payment i b)
  then have "valid_payment b" using assms(3) by simp
  with Record_payment assms show ?thesis
    by (auto simp: record_payment_route_def intro: paid intro!: ends_view [OF record_payment_outcome [OF assms(1,2)]] frames
        simp: valid_payment_def)
next
  case (Void_invoice i r)
  with assms show ?thesis
    by (auto simp: void_invoice_route_def intro: voided intro!: ends_view [OF void_outcome [OF assms(1,2)]] frames)
next
  case (List_invoices s k n)
  have "leaves inv_db (list_invoices_route E g s k n u :: 'z route)"
    unfolding list_invoices_route_def Let_def by (intro frames; simp)
  with List_invoices assms show ?thesis by (auto intro: inv.ends_rest)
next
  case (Get_invoice i)
  have "leaves inv_db (get_invoice_route E g i u :: 'z route)"
    unfolding get_invoice_route_def by (intro frames; simp)
  with Get_invoice assms show ?thesis by (auto intro: inv.ends_rest)
next
  case (List_payments i)
  have "leaves inv_db (list_payments_route E g i u :: 'z route)"
    unfolding list_payments_route_def by (intro frames; simp)
  with List_payments assms show ?thesis by (auto intro: inv.ends_rest)
qed

lemma inv_endpoint_books:
  fixes w :: "'z app_world_scheme"
  assumes "inv_valid q" and "books_ok (inv_db w)"
  shows "books_ok (inv_db (snd (inv_session (by_sub (inv_route E pdf g q) user) w)))"
proof -
  obtain r w' where run: "inv_session (by_sub (inv_route E pdf g q) user) w = (r, w')" by (rule prod.exhaust)
  have "inv_db w' = inv_db w \<or> inv_step g (inv_db w) (inv_db w')"
  proof (rule inv.ends_session [OF _ run])
    fix v :: "'z app_world_scheme"
    assume v: "inv_db v = inv_db w" "inv_tx v = inv_db w"
    show "inv.ends (\<lambda>_ t'. t' = inv_db w \<or> inv_step g (inv_db w) t') (by_sub (inv_route E pdf g q) user) v"
      unfolding by_sub_def by (rule inv.ends_lift) (use v in \<open>auto intro: inv_route_steps assms(1)\<close>)
  qed
  with run assms(2) show ?thesis by (auto intro: inv_step_books_ok)
qed

section \<open>Omni-channel\<close>

abbreviation beside_omni :: "'z app_world_scheme \<Rightarrow> _" where
  "beside_omni w \<equiv> (inv_db w, member_tbl w, jwks_cache w)"

lemma settles_view:
  "settles S t m w \<Longrightarrow> (\<And>x. leaves (\<lambda>w. (om_db w, om_tx w)) (k x)) \<Longrightarrow> settles S t (bindE m k) w"
  by (erule settles_bind) (auto intro: settles_rest)

lemma omni_route_settles:
  assumes "at_rest S t w" and "g \<in> S"
  shows "settles S t (omni_route E g q u) w"
  using assms
  by (cases q)
    (auto simp: claim_conversation_route_def reassign_conversation_route_def send_reply_route_def mark_read_route_def
      create_connection_route_def disable_connection_route_def thenE_def
      intro!: settles_view claim_settles reassign_settles send_reply_settles mark_read_settles
      create_connection_settles disable_connection_settles frames,
     auto simp: set_routing_config_route_def list_connections_route_def get_connection_route_def
      list_conversations_route_def get_conversation_route_def intro!: settles_rest frames)

lemma omni_ops_leave [frames]:
  "leaves beside_omni (claim E g i u :: ('z app_world_scheme, _) op)"
  "leaves beside_omni (reassign E g i u v :: ('z app_world_scheme, _) op)"
  "leaves beside_omni (mark_read E g i u :: ('z app_world_scheme, _) op)"
  "leaves beside_omni (create_connection E g u ch n acc cs k :: ('z app_world_scheme, _) op)"
  "leaves beside_omni (disable_connection E g u i :: ('z app_world_scheme, _) op)"
  "leaves beside_omni (set_routing_config E g u s a :: ('z app_world_scheme, _) op)"
  unfolding set_routing_config_def claim_def reassign_def mark_read_def create_connection_def disable_connection_def record_assignment_def Let_def
  by (intro frames; simp)+

lemma send_reply_leaves [frames]:
  "leaves beside_omni (send_reply E g i u b k s :: ('z app_world_scheme, _) op)"
  unfolding send_reply_def commit_or_twin_def Let_def by (intro frames; simp)

lemma omni_route_leaves: "leaves beside_omni (omni_route E g q u :: 'z route)"
  by (cases q; simp only: omni_route.simps claim_conversation_route_def reassign_conversation_route_def send_reply_route_def
      mark_read_route_def create_connection_route_def disable_connection_route_def set_routing_config_route_def
      list_connections_route_def get_connection_route_def list_conversations_route_def get_conversation_route_def;
      (intro frames; simp))

section \<open>Core\<close>

abbreviation beside_core :: "'z app_world_scheme \<Rightarrow> _" where
  "beside_core w \<equiv> (om_db w, inv_db w, jwks_cache w)"

lemma member_ops_leave [frames]:
  "leaves beside_core (create_org E n u :: ('z app_world_scheme, _) op)"
  "leaves beside_core (add_member E g u r i :: ('z app_world_scheme, _) op)"
  unfolding create_org_def add_member_def Let_def except_condition_def
  by (intro frames; simp)+

lemma core_route_leaves: "leaves beside_core (core_route E q user :: 'z route)"
  by (cases q; simp only: core_route.simps create_org_route_def list_my_orgs_route_def list_members_route_def
      add_member_route_def get_settings_route_def update_settings_route_def send_email_route_def
      get_domain_verification_status_route_def; (intro frames; simp))

lemma member_ops_wf [keepers]:
  "keeps (\<lambda>w. wf_members (member_tbl w)) (create_org E n u :: ('z app_world_scheme, _) op)"
  "keeps (\<lambda>w. wf_members (member_tbl w)) (add_member E g u r i :: ('z app_world_scheme, _) op)"
  "keeps (\<lambda>w. wf_members (member_tbl w)) (create_user_if_not_exists E u email :: ('z app_world_scheme, _) op)"
proof -
  have exec: "keeps (\<lambda>w. wf_members (member_tbl w)) (exec E c :: ('z app_world_scheme, _) op)" for c
    by (rule keepsI) (use exec_refines [OF prod.collapse [symmetric]] in blast)
  have then_ret: "keeps P m" if "keeps P (thenE m (ret ()))" for P and m :: "('z app_world_scheme, 'b) op"
  proof -
    have "snd (thenE m (ret ()) w) = snd (m w)" for w
      by (simp add: thenE_app split: prod.split sum.split)
    with that show ?thesis by (simp add: keeps_def)
  qed
  show "keeps (\<lambda>w. wf_members (member_tbl w)) (create_org E n u :: ('z app_world_scheme, _) op)"
    using exec [of "Create_org n u"] by (auto intro: then_ret)
  show "keeps (\<lambda>w. wf_members (member_tbl w)) (add_member E g u r i :: ('z app_world_scheme, _) op)"
    using exec [of "Add_member g u r i"] by (auto intro: then_ret)
  show "keeps (\<lambda>w. wf_members (member_tbl w)) (create_user_if_not_exists E u email :: ('z app_world_scheme, _) op)"
    using exec [of "Create_user u email"] by simp
qed

lemma core_route_wf: "keeps (\<lambda>w. wf_members (member_tbl w)) (core_route E q user :: 'z route)"
proof (cases "(\<exists>n. q = Create_organisation n) \<or> (\<exists>g u r. q = Add_org_member g u r)")
  case True
  have auth: "keeps (\<lambda>w. wf_members (member_tbl w)) (require_member E g user :: ('z app_world_scheme, _) op)"
    "keeps (\<lambda>w. wf_members (member_tbl w)) (require_admin m :: ('z app_world_scheme, _) op)" for g m
    by (rule leaves_keeps, intro frames; simp)+
  from True show ?thesis
    by (elim disjE exE) (simp_all only: core_route.simps create_org_route_def add_member_route_def, (intro keepers auth)+)
next
  case False
  then have "leaves member_tbl (core_route E q user :: 'z route)"
    by (cases q; (simp; fail)?; simp only: core_route.simps list_my_orgs_route_def list_members_route_def
      get_settings_route_def update_settings_route_def send_email_route_def
      get_domain_verification_status_route_def; (intro frames; simp))
  then show ?thesis by (rule leaves_keeps)
qed

section \<open>Callers, notifications and the worker\<close>

lemma current_user_leaves: "leaves (\<lambda>w. (om_db w, inv_db w)) (current_user E L S h :: ('z app_world_scheme, _) op)"
  unfolding current_user_def by (intro frames; simp)

lemma current_user_wf: "keeps (\<lambda>w. wf_members (member_tbl w)) (current_user E L S h :: ('z app_world_scheme, _) op)"
proof -
  have "keeps (\<lambda>w. wf_members (member_tbl w)) (get_current_user_from_request E L S h :: ('z app_world_scheme, _) op)"
    by (rule leaves_keeps, intro frames; simp)
  then show ?thesis unfolding current_user_def by (intro keepers; simp)
qed

lemma jwks_genuine_fetch: "keeps (jwks_genuine L) (fetch_jwks E L)"
  by (rule keepsI) (use fetch_jwks_run [OF prod.collapse [symmetric]] in blast)

lemma jwks_genuine_user: "keeps (jwks_genuine L) (current_user E L S h :: ('a app_world_scheme, _) op)"
proof -
  have kept: "keeps (jwks_genuine L) m" if "leaves jwks_cache m" for m :: "('a app_world_scheme, 'b) op"
    using leaves_keeps [OF that, of "\<lambda>c. \<forall>t keys. c = Some (t, keys) \<longrightarrow> published L keys"]
    by (simp add: jwks_genuine_def keeps_def)
  have key: "keeps (jwks_genuine L) (signing_key E L kid)" for kid
    by (rule keepsI) (use signing_key_Inr [OF prod.collapse [symmetric]] in blast)
  have cognito: "keeps (jwks_genuine L) (validate_cognito E L S token :: ('a app_world_scheme, _) op)" for token
    unfolding validate_cognito_def by (intro keepers key kept frames; simp add: jwks_genuine_def)
  have "keeps (jwks_genuine L) (validate_test_token E L S token :: ('a app_world_scheme, _) op)" for token
    unfolding validate_test_token_def by (rule kept, intro frames; simp)
  with cognito have jwt: "keeps (jwks_genuine L) (validate_jwt E L S token :: ('a app_world_scheme, _) op)" for token
    unfolding validate_jwt_def by (intro keepers)
  have request: "keeps (jwks_genuine L) (get_current_user_from_request E L S h :: ('a app_world_scheme, _) op)"
    unfolding get_current_user_from_request_def by (intro keepers jwt)
  have create: "leaves jwks_cache (create_user_if_not_exists E sub email :: ('a app_world_scheme, _) op)" for sub email
    by (intro frames; simp)
  show ?thesis
    unfolding current_user_def by (intro keepers request kept [OF create]) (simp add: jwks_genuine_def)
qed

lemma process_notification_leaves:
  "leaves (\<lambda>w. (om_db w, inv_db w, member_tbl w, jwks_cache w)) (process_notification E n :: ('z app_world_scheme, _) op)"
  unfolding process_notification_def resolve_org_for_message_def handle_bounce_notification_def
    handle_complaint_notification_def suppress_def
  by (intro frames; simp)

lemma leaves_case_json [frames]:
  "(\<And>s. leaves f (m s)) \<Longrightarrow> leaves f n \<Longrightarrow> leaves f (case v of JStr s \<Rightarrow> m s | _ \<Rightarrow> n)"
  by (cases v) simp_all

lemma ses_notifications_leaves:
  "leaves (\<lambda>w. (om_db w, inv_db w, member_tbl w, jwks_cache w)) (ses_notifications E L raw :: ('z app_world_scheme, _) op)"
  unfolding ses_notifications_def dispatch_message_def on_sns_error_def
  by (intro frames process_notification_leaves; simp)

text \<open>A round of the worker leaves invoicing, the members and the HTTP caches alone.\<close>

lemma run_iteration_leaves [frames]: "leaves beside_omni m \<Longrightarrow> leaves beside_omni (run_iteration m :: ('z app_world_scheme, _) op)"
  unfolding run_iteration_def by (intro frames; simp)

lemma leaves_bind_lift: "(\<And>x. s = Inr x \<Longrightarrow> leaves f (k x)) \<Longrightarrow> leaves f (bindE (liftS s) k)"
  by (cases s) (auto simp: leaves_def bindE_app liftS_def)

lemma adapters_leave:
  assumes "get_adapter ch = Inr ad"
  shows "leaves beside_omni (ad_normalize ad E p :: ('z app_world_scheme, _) op)"
    and "leaves beside_omni (ad_send ad E to content credentials :: ('z app_world_scheme, _) op)"
  using assms
  by (auto simp: get_adapter_def email_adapter_def whatsapp_adapter_def messenger_adapter_def
      instagram_adapter_def messenger_platform_def email_normalize_def resolve_raw_mime_def
      email_send_def whatsapp_send_def messenger_send_def Let_def
      intro!: frames split: if_splits json.split option.split)

lemma inbound_leaves [frames]:
  "leaves beside_omni (process_item E g ch item :: ('z app_world_scheme, _) op)"
  "leaves beside_omni (apply_delivery_status E g ch du :: ('z app_world_scheme, _) op)"
  unfolding process_item_def apply_delivery_status_def find_or_create_identity_def find_or_create_conversation_def
    new_inbound_message_def flush_or_duplicate_def store_attachment_def announce_message_def
    apply_single_assignee_if_configured_def record_assignment_def Let_def
  by (intro frames; simp)+

lemma process_inbound_message_leaves [frames]:
  "leaves beside_omni (process_inbound_message E msg :: ('z app_world_scheme, _) op)"
proof (cases "map_of (q_attributes msg) ''org_id''"; cases "map_of (q_attributes msg) ''channel_type''")
  fix g ch
  assume g: "map_of (q_attributes msg) ''org_id'' = Some g" and ch: "map_of (q_attributes msg) ''channel_type'' = Some ch"
  show ?thesis
    unfolding process_inbound_message_def g ch option.case prod.case
    by (rule leaves_bind_lift) (intro frames adapters_leave; assumption)
qed (auto simp: process_inbound_message_def intro!: frames)

lemma process_outbound_message_leaves [frames]:
  "leaves beside_omni (process_outbound_message E msg :: ('z app_world_scheme, _) op)"
  unfolding process_outbound_message_def
  apply (rule leaves_bindE, rule frames)
  apply (rule leaves_bindE, (intro frames; simp))
  apply (rule leaves_case_option, rule frames)
  apply (rule leaves_bindE, (intro frames; simp))
  apply (rule leaves_case_option, rule frames)
  apply (rule leaves_case_prod)
  apply (rule leaves_bind_lift)
  apply (intro frames adapters_leave; (assumption | simp))
  done

end
