(* ===== verification/A2Z_Platform.thy ===== *)
theory A2Z_Platform
  imports A2Z_PlatformFrames
begin

text \<open>
  The whole server: HTTP requests answered one after another and rounds of the worker, under
  any schedule of failures.  The invariant of its stores, what a caller without a token or a
  membership can do, and the statuses of the answers.
\<close>

section \<open>The invariant\<close>

text \<open>
  The omni-channel tables are consistent, the books balance, the members table holds what
  the operations write, and the cached signing keys are ones that the pool has published.
\<close>

definition platform_ok :: "libs \<Rightarrow> 'z app_world_scheme \<Rightarrow> bool" where
  "platform_ok L w \<longleftrightarrow> good (om_db w) \<and> books_ok (inv_db w) \<and> wf_members (member_tbl w) \<and> jwks_genuine L w"

lemma platform_same:
  assumes "leaves (\<lambda>w. (om_db w, inv_db w, member_tbl w, jwks_cache w)) m"
  shows "keeps (platform_ok L) m"
  using leaves_keeps [OF assms, of "\<lambda>(d, t, i, c). good d \<and> books_ok t \<and> wf_members i \<and> (\<forall>t keys. c = Some (t, keys) \<longrightarrow> published L keys)"]
  by (simp add: platform_ok_def jwks_genuine_def keeps_def)

lemma platform_invoicing:
  assumes "inv_valid q"
  shows "keeps (platform_ok L) (inv_session (by_sub (inv_route E pdf g q) user) :: 'z route)"
proof (rule keepsI)
  fix w :: "'z app_world_scheme"
  assume ok: "platform_ok L w"
  have "leaves beside_invoicing (inv_session (by_sub (inv_route E pdf g q) user) :: 'z route)"
    by (intro frames inv_route_leaves; simp)
  from leaves_snd [OF this, of w] ok inv_endpoint_books [OF assms, of w]
  show "platform_ok L (snd (inv_session (by_sub (inv_route E pdf g q) user) w))"
    by (simp add: platform_ok_def jwks_genuine_def)
qed

lemma platform_omni_session:
  assumes "\<And>t v. at_rest UNIV t v \<Longrightarrow> settles UNIV t m (v :: 'z app_world_scheme)" and "leaves beside_omni m"
  shows "keeps (platform_ok L) (omni_session m)"
proof (rule keepsI)
  fix w :: "'z app_world_scheme"
  assume ok: "platform_ok L w"
  then have "good (om_db w)" by (simp add: platform_ok_def)
  from session_settles [OF assms(1) this evolves_refl prod.collapse [symmetric]]
  have "good (om_db (snd (omni_session m w)))" by simp
  moreover have "leaves beside_omni (omni_session m)"
    by (intro frames assms(2); simp)
  from leaves_snd [OF this, of w] have "beside_omni (snd (omni_session m w)) = beside_omni w" .
  ultimately show "platform_ok L (snd (omni_session m w))"
    using ok by (simp add: platform_ok_def jwks_genuine_def)
qed

lemma by_sub_settles:
  assumes "at_rest S t w" and "g \<in> S"
  shows "settles S t (by_sub (omni_route E g q) user) w"
  unfolding by_sub_def using assms
  by (intro settles_reads [OF assms(1)] omni_route_settles) (auto intro: frames)

lemma platform_omni: "keeps (platform_ok L) (omni_session (by_sub (omni_route E g q) user) :: 'z route)"
  by (rule platform_omni_session) (auto intro: by_sub_settles frames omni_route_leaves)

lemma platform_routing: "keeps (platform_ok L) (by_sub (omni_route E g (Set_routing s a)) user :: 'z route)"
proof (rule platform_same)
  have "leaves (\<lambda>w. (om_db w, om_tx w)) (set_routing_config E g u s a :: ('z app_world_scheme, _) op)" for u
    by (rule frames)
  then have "leaves om_db (set_routing_config E g u s a :: ('z app_world_scheme, _) op)" for u
    by (simp add: leaves_def)
  then have "leaves om_db (by_sub (omni_route E g (Set_routing s a)) user :: 'z route)"
    unfolding by_sub_def omni_route.simps set_routing_config_route_def by (intro frames)
  moreover have "leaves beside_omni (by_sub (omni_route E g (Set_routing s a)) user :: 'z route)"
    by (intro frames omni_route_leaves)
  ultimately show "leaves (\<lambda>w. (om_db w, inv_db w, member_tbl w, jwks_cache w)) (by_sub (omni_route E g (Set_routing s a)) user :: 'z route)"
    by (simp add: leaves_def)
qed

lemma platform_core: "keeps (platform_ok L) (core_route E q user :: 'z route)"
proof (rule keepsI)
  fix w :: "'z app_world_scheme"
  assume "platform_ok L w"
  with leaves_snd [OF core_route_leaves [of E q user], of w] core_route_wf [of E q user]
  show "platform_ok L (snd (core_route E q user w))"
    by (auto simp: platform_ok_def jwks_genuine_def keeps_def)
qed

lemma platform_user: "keeps (platform_ok L) (current_user E L S h :: ('z app_world_scheme, _) op)"
proof (rule keepsI)
  fix w :: "'z app_world_scheme"
  assume "platform_ok L w"
  with leaves_snd [OF current_user_leaves [of E L S h], of w] current_user_wf [of E L S h] jwks_genuine_user [of L E S h]
  show "platform_ok L (snd (current_user E L S h w))"
    by (auto simp: platform_ok_def keeps_def)
qed

lemma webhook_routes_leave:
  "leaves (\<lambda>w. (om_db w, inv_db w, member_tbl w, jwks_cache w)) (receive_webhook E ch i raw h :: 'z route)"
  "leaves (\<lambda>w. (om_db w, inv_db w, member_tbl w, jwks_cache w)) (verify_webhook_subscription E ch i params :: 'z route)"
  unfolding receive_webhook_def verify_webhook_subscription_def by (intro frames; simp)+

lemma platform_endpoint: "keeps (platform_ok L) (endpoint E L S pdf h q :: 'z route)"
proof (cases q)
  case Health
  then show ?thesis by (simp only: endpoint.simps) (rule platform_same, intro frames; simp)
next
  case (Ses_notification raw)
  then show ?thesis
    by (simp only: endpoint.simps) (rule platform_same, intro frames ses_notifications_leaves)
next
  case (Core_api c)
  then show ?thesis
    by (simp only: endpoint.simps as_user_def) (intro keepers platform_user platform_core)
next
  case (Invoicing_api g c)
  then show ?thesis
    by (simp only: endpoint.simps as_user_def) (intro keepers platform_user platform_invoicing)
next
  case (Omni_api g c)
  have "keeps (platform_ok L) (by_sub (omni_route E g c) user :: 'z route)" if "\<not> needs_session c" for user
    using that by (cases c) (simp_all add: platform_routing del: omni_route.simps)
  with Omni_api show ?thesis
    by (simp only: endpoint.simps as_user_def) (intro keepers platform_user platform_omni; simp)
next
  case (Webhook_post ch i raw)
  then show ?thesis
    by (simp only: endpoint.simps) (rule platform_same, intro frames webhook_routes_leave; simp)
next
  case (Webhook_get ch i params)
  then show ?thesis
    by (simp only: endpoint.simps) (rule platform_same, intro frames webhook_routes_leave; simp)
qed

section \<open>Runs of the server\<close>

datatype platform_event = Http "(string \<times> string) list" api_request | Worker bool

fun happen ::
  "env \<Rightarrow> libs \<Rightarrow> Settings \<Rightarrow> renderer \<Rightarrow> platform_event \<Rightarrow> 'z app_world_scheme \<Rightarrow> 'z app_world_scheme" where
  "happen E L S pdf (Http h q) w = snd (respond E L S pdf h q w)"
| "happen E L S pdf (Worker expire) w = snd (run_rounds E [expire] w)"

definition platform_run ::
  "env \<Rightarrow> libs \<Rightarrow> Settings \<Rightarrow> renderer \<Rightarrow> platform_event list \<Rightarrow> 'z app_world_scheme \<Rightarrow> 'z app_world_scheme" where
  "platform_run E L S pdf evs w = fold (happen E L S pdf) evs w"

lemma snd_respond: "snd (respond E L S pdf h q w) = snd (endpoint E L S pdf h q w)"
  by (simp add: respond_def split: prod.split sum.split)

lemma outbound_loop_leaves [frames]: "leaves beside_omni (outbound_loop E msgs n :: ('z app_world_scheme, _) op)"
  by (induction msgs arbitrary: n) (simp_all only: outbound_loop.simps, (intro frames; simp)+)

lemma worker_leaves: "leaves beside_omni (run_rounds E [b] :: ('z app_world_scheme, _) op)"
  unfolding run_rounds.simps process_inbound_batch_def process_outbound_batch_def
  by (intro frames; simp)

lemma happen_ok:
  fixes w :: "'z app_world_scheme"
  assumes ok: "platform_ok L w"
  shows "platform_ok L (happen E L S pdf ev w)"
proof (cases ev)
  case (Http h q)
  with platform_endpoint [where ?'z = 'z, of L E S pdf h q] ok show ?thesis by (simp add: snd_respond keeps_def)
next
  case (Worker b)
  from ok have "good (om_db w)" by (simp add: platform_ok_def)
  from round_settles [OF this evolves_refl, of E b] have "good (om_db (snd (run_rounds E [b] w)))" by simp
  with leaves_snd [OF worker_leaves [of E b], of w] ok Worker show ?thesis
    by (simp add: platform_ok_def jwks_genuine_def)
qed

text \<open>
  C1: the platform.  Whatever requests arrive, with whatever headers and bodies, whatever
  notifications SES sends, whatever rounds the worker does and whatever fails on the way:
  the omni-channel tables satisfy their constraints and links, every invoice balances, the
  members table is well formed and the signing keys are the pool's own.
\<close>

theorem platform_invariant:
  assumes "platform_ok L w"
  shows "platform_ok L (platform_run E L S pdf evs w)"
  using assms unfolding platform_run_def
  by (induction evs arbitrary: w) (simp_all add: happen_ok)

lemma sample_app_ok: "platform_ok (sample_libs n) (sample_app sample_omni_tables)"
proof -
  have "inv_db (sample_app sample_omni_tables) = \<lparr>invoices = [], line_items = [], payments = []\<rparr>"
    "member_tbl (sample_app sample_omni_tables) = member_tbl (sample_omni sample_omni_tables)"
    by (simp_all add: sample_app_def omni_world.extend_def app_world.fields_def sample_omni_def fresh_audit_def)
  moreover have "books_ok \<lparr>invoices = [], line_items = [], payments = []\<rparr>"
    by (simp add: books_ok_def inv_check_def idempotency_keys_def)
  ultimately show ?thesis
    using sample_members [of sample_omni_tables] by (simp add: platform_ok_def sample_good jwks_genuine_def)
qed

theorem platform_invariant_witness:
  "platform_ok (sample_libs 0) (platform_run sample_env (sample_libs 0) default_settings sample_pdf
     [Http [(''Authorization'', ''Bearer tok'')] (Invoicing_api ''o1'' (Create_invoice sample_create)),
      Http [] (Webhook_post ''whatsapp'' ''cn1'' ''{}''), Worker True,
      Http [(''Authorization'', ''Bearer tok'')] (Omni_api ''o1'' (Claim ''c1''))] (sample_app sample_omni_tables))"
  by (rule platform_invariant [OF sample_app_ok])

section \<open>The statuses of the answers\<close>

text \<open>\<open>answers P m\<close>: a reply that \<open>m\<close> returns satisfies \<open>P\<close>.\<close>

definition answers :: "('a \<Rightarrow> bool) \<Rightarrow> ('w, 'a) op \<Rightarrow> bool" where
  "answers P m \<longleftrightarrow> (\<forall>w r w'. m w = (Inr r, w') \<longrightarrow> P r)"

named_theorems replies \<open>rules for \<open>answers\<close>\<close>

lemma answers_rules [replies]:
  "P r \<Longrightarrow> answers P (ret r)" "answers P (raise e)"
  "(\<And>x. answers P (k x)) \<Longrightarrow> answers P (bindE m k)"
  "answers P n \<Longrightarrow> answers P (thenE m' n)"
  "answers P a \<Longrightarrow> answers P b \<Longrightarrow> answers P (if c then a else b)"
  "(\<And>x y. answers P (d x y)) \<Longrightarrow> answers P (case p of (x, y) \<Rightarrow> d x y)"
  "answers P a \<Longrightarrow> (\<And>x. answers P (o' x)) \<Longrightarrow> answers P (case v of None \<Rightarrow> a | Some x \<Rightarrow> o' x)"
  "(\<And>x. answers P (l x)) \<Longrightarrow> answers P (Let z l)"
  by (auto simp: answers_def bindE_Inr_iff thenE_Inr_iff ret_def raise_def split: prod.split option.split)

lemma answers_session [replies]: "answers P m \<Longrightarrow> answers P (in_session db upd m)"
  by (auto simp: answers_def in_session_def split: prod.splits)

lemma answersD: "answers P m \<Longrightarrow> m w = (Inr r, w') \<Longrightarrow> P r"
  by (auto simp: answers_def)

lemma answers_bind: "answers Q m \<Longrightarrow> (\<And>x. Q x \<Longrightarrow> answers P (k x)) \<Longrightarrow> answers P (bindE m k)"
  unfolding answers_def bindE_Inr_iff by blast

lemma answers_catch [replies]: "answers P m \<Longrightarrow> (\<And>e. answers P (h e)) \<Longrightarrow> answers P (catchE m h)"
  by (auto simp: answers_def catchE_app split: prod.splits sum.splits)

definition STATUSES :: "int list" where
  "STATUSES = [200, 201, 204, 400, 401, 403, 404, 409, 422, 429, 500, 502, 503]"

definition documented :: "reply \<Rightarrow> bool" where
  "documented rep \<longleftrightarrow> reply_status rep \<in> set STATUSES \<and> (reply_retry_after rep \<noteq> None \<longrightarrow> reply_status rep = 429)"

lemma documented_with [simp]: "documented (reply_with n b) \<longleftrightarrow> n \<in> set STATUSES"
  by (simp add: documented_def)

lemma error_reply_status:
  "reply_status (error_reply e) \<in> {400, 401, 403, 404, 409, 429, 500, 502}"
  using status_of_range [of "class_of e"]
  by (auto simp: error_reply_def core_error_handler_def split: option.split)

lemma error_reply_documented: "documented (error_reply e)"
proof -
  have "reply_status (error_reply (RateLimited s)) = 429" for s
    by (simp add: error_reply_def core_error_handler_def is_core_error_iff status_of.simps)
  moreover have "reply_retry_after (error_reply e) \<noteq> None \<longrightarrow> (\<exists>s. e = RateLimited s)"
    by (cases e) (auto simp: error_reply_def core_error_handler_def split: option.split)
  ultimately show ?thesis
    using error_reply_status [of e] by (auto simp: documented_def STATUSES_def)
qed

lemma route_answers [replies]:
  "answers documented (core_route E c user)" "answers documented (inv_route E pdf g q u)"
  "answers documented (omni_route E g oq u)"
proof -
  show "answers documented (core_route E c user)"
    by (cases c; simp only: core_route.simps create_org_route_def list_my_orgs_route_def list_members_route_def
      add_member_route_def get_settings_route_def update_settings_route_def send_email_route_def
      get_domain_verification_status_route_def; (intro replies; simp add: STATUSES_def))
  show "answers documented (inv_route E pdf g q u)"
    by (cases q; simp only: inv_route.simps create_invoice_route_def list_invoices_route_def get_invoice_route_def
      update_invoice_route_def delete_invoice_route_def send_invoice_route_def record_payment_route_def
      void_invoice_route_def list_payments_route_def; (intro replies; simp add: STATUSES_def))
  show "answers documented (omni_route E g oq u)"
    by (cases oq; simp only: omni_route.simps claim_conversation_route_def reassign_conversation_route_def send_reply_route_def
      mark_read_route_def create_connection_route_def disable_connection_route_def set_routing_config_route_def
      list_connections_route_def get_connection_route_def list_conversations_route_def get_conversation_route_def
      routing_config_response_def;
      (intro replies; simp add: STATUSES_def)?)
qed

lemma sns_answers: "answers (\<lambda>a. documented (sns_reply a)) (ses_notifications E L raw)"
proof -
  have error: "answers (\<lambda>a. documented (sns_reply a)) (on_sns_error (thenE m (ret Ok_status)) n)" if "n \<in> {400, 403}" for m n
    unfolding on_sns_error_def using that by (intro replies) (auto simp: sns_reply_def STATUSES_def)
  have "answers (\<lambda>a. documented (sns_reply a)) (dispatch_message E L payload)" for payload
    unfolding dispatch_message_def
    by (intro replies error; (simp add: sns_reply_def STATUSES_def)?)
      (auto split: json.split option.split simp: sns_reply_def STATUSES_def intro!: replies)
  then show ?thesis
    unfolding ses_notifications_def
    by (intro answers_bind [where Q = "\<lambda>_. True"] answers_bind [OF error] replies) (simp_all add: answers_def)
qed

lemma endpoint_answers: "answers documented (endpoint E L S pdf h q)"
proof (cases q)
  case Health
  then show ?thesis by (simp only: endpoint.simps health_def) (intro replies; simp add: STATUSES_def)
next
  case (Ses_notification raw)
  then show ?thesis by (simp only: endpoint.simps) (rule answers_bind [OF sns_answers], intro replies)
qed (simp only: endpoint.simps as_user_def by_sub_def receive_webhook_def verify_webhook_subscription_def;
    (intro replies; simp add: STATUSES_def))+


end
