(* ===== verification/A2Z_ApiAccess.thy ===== *)
theory A2Z_ApiAccess
  imports A2Z_Platform
begin

text \<open>
  Who may do what over HTTP: a request for an organisation needs a bearer token that stands
  for one of its members, with a role that the request asks for.
\<close>

section \<open>Whom a request stands for\<close>

definition bearer_token :: "(string \<times> string) list \<Rightarrow> string option" where
  "bearer_token headers =
     (case get_header headers ''authorization'' of
        None \<Rightarrow> None
      | Some h \<Rightarrow>
          (case partition_at CHR '' '' h of
             None \<Rightarrow> None
           | Some (scheme, token) \<Rightarrow> if map lower scheme = ''bearer'' then Some (strip token) else None))"

definition stands_for :: "libs \<Rightarrow> Settings \<Rightarrow> (string \<times> string) list \<Rightarrow> string \<Rightarrow> bool" where
  "stands_for L S headers u \<longleftrightarrow> (\<exists>token claims. bearer_token headers = Some token \<and>
     accepted_token L S token claims \<and> user_sub claims = Inr u)"

lemma current_user_accepts:
  assumes "current_user E L S headers w = (Inr claims, w')" and "jwks_genuine L w"
  shows "\<exists>token. bearer_token headers = Some token \<and> accepted_token L S token claims"
proof -
  from assms(1) obtain w1 where run: "get_current_user_from_request E L S headers w = (Inr claims, w1)"
    by (auto simp: current_user_def bindE_Inr_iff thenE_Inr_iff split: if_splits)
  then obtain h scheme token where "get_header headers ''authorization'' = Some h"
      "partition_at CHR '' '' h = Some (scheme, token)" "map lower scheme = ''bearer''"
      and "validate_jwt E L S (strip token) w = (Inr claims, w1)"
    by (auto simp: get_current_user_from_request_def split: option.splits if_splits)
  with validate_jwt_Inr [OF _ assms(2), of E S "strip token" claims w1] show ?thesis
    by (auto simp: bearer_token_def)
qed

text \<open>
  Everything but the clock, the caches of the HTTP layer, the users' own rows and the working
  copies of sessions.
\<close>

definition observable :: "'z app_world_scheme \<Rightarrow> 'z app_world_scheme" where
  "observable w = w\<lparr>tick := 0, jwks_cache := None, provisioned := [], member_tbl := [],
     inv_tx := inv_db w, om_tx := om_db w\<rparr>"

lemma current_user_observable: "leaves observable (current_user E L S h :: ('z app_world_scheme, _) op)"
  unfolding current_user_def by (intro frames; simp add: observable_def)

lemma create_user_members:
  fixes w :: "'z app_world_scheme"
  assumes "wf_members (member_tbl w)"
  shows "member_of (member_tbl (snd (create_user_if_not_exists E sub email w))) = member_of (member_tbl w)"
  using exec_refines [OF prod.collapse [symmetric], of w E "Create_user sub email"] assms by auto

lemma current_user_members:
  fixes w :: "'a app_world_scheme"
  assumes "wf_members (member_tbl w)"
  shows "wf_members (member_tbl (snd (current_user E L S h w))) \<and>
    member_of (member_tbl (snd (current_user E L S h w))) = member_of (member_tbl w)"
proof -
  let ?P = "\<lambda>v :: 'a app_world_scheme. wf_members (member_tbl v) \<and> member_of (member_tbl v) = member_of (member_tbl w)"
  have same: "keeps ?P m" if "leaves member_tbl m" for m :: "('a app_world_scheme, 'b) op"
    using that by (simp add: leaves_def keeps_def)
  have "leaves member_tbl (get_current_user_from_request E L S h :: ('a app_world_scheme, _) op)"
    by (intro frames; simp)
  note request = same [OF this]
  have create: "keeps ?P (create_user_if_not_exists E sub email)" for sub email
    using member_ops_wf(3) [where ?'z = 'a, of E sub email] create_user_members [where ?'z = 'a]
    by (auto simp: keeps_def)
  have "keeps ?P (current_user E L S h :: ('a app_world_scheme, _) op)"
    unfolding current_user_def by (intro keepers request create; simp)
  with assms show ?thesis by (simp add: keeps_def)
qed

section \<open>Refusals\<close>

definition ANY_OF :: "Role list" where "ANY_OF = [OWNER, ADMIN, MEMBER, GUEST]"

lemma any_of [simp]: "r \<in> set ANY_OF" by (cases r) (simp_all add: ANY_OF_def)

definition entitled :: "string \<Rightarrow> string \<Rightarrow> Role list \<Rightarrow> item list \<Rightarrow> bool" where
  "entitled u g roles tbl \<longleftrightarrow> (\<exists>r t. member_of tbl (u, g) = Some (r, t) \<and> r \<in> set roles)"

text \<open>\<open>m\<close> does nothing and raises when \<open>u\<close> has none of the roles in \<open>g\<close>.\<close>

definition refuses :: "string \<Rightarrow> string \<Rightarrow> Role list \<Rightarrow> ('z member_world_scheme, 'a) op \<Rightarrow> bool" where
  "refuses u g roles m \<longleftrightarrow> (\<forall>w. wf_members (member_tbl w) \<and> \<not> entitled u g roles (member_tbl w) \<longrightarrow>
     (\<exists>e n. m w = (Inl e, w\<lparr>tick := n\<rparr>)))"

named_theorems refusals \<open>rules for \<open>refuses\<close>\<close>

lemma refuses_seq [refusals]:
  "refuses u g roles m \<Longrightarrow> refuses u g roles (bindE m k)"
  "refuses u g roles m \<Longrightarrow> refuses u g roles (thenE m n)"
  unfolding refuses_def by (fastforce simp: bindE_app thenE_app)+

lemma refuses_role_gate:
  assumes "\<And>r. admits r \<longleftrightarrow> r \<in> set roles"
  shows "refuses u g roles (role_gate admits forbidden E u g)"
  unfolding refuses_def
proof (intro allI impI, elim conjE)
  fix w :: "'a member_world_scheme"
  assume wf: "wf_members (member_tbl w)" and out: "\<not> entitled u g roles (member_tbl w)"
  obtain r w' where run: "role_gate admits forbidden E u g w = (r, w')" by (rule prod.exhaust)
  have "leaves (\<lambda>w. w\<lparr>tick := 0\<rparr>) (role_gate admits forbidden E u g :: ('a member_world_scheme, _) op)"
    unfolding role_gate_def by (intro frames) simp
  from tick_only [OF this run] obtain n where "w' = w\<lparr>tick := n\<rparr>" ..
  moreover have "isl r"
    using role_gate_laws [OF wf run] out assms by (cases r) (auto simp: entitled_def)
  ultimately show "\<exists>e n. role_gate admits forbidden E u g w = (Inl e, w\<lparr>tick := n\<rparr>)"
    using run by (auto simp: isl_def)
qed

lemma gates_refuse [refusals]:
  "refuses u g MUTATION_ROLES (require_mutation_role E u g)"
  "refuses u g roles (require_role roles E u g)"
  "refuses u g ANY_OF (require_membership E u g)" "refuses u g ANY_OF (require_membership_omni E u g)"
  unfolding require_mutation_role_gate require_membership_gate require_role_gate require_membership_omni_gate
  by (rule refuses_role_gate, simp)+

lemma require_member_refuses [refusals]:
  "user_sub user = Inr u \<Longrightarrow> refuses u g ANY_OF (require_member E g user)"
  using refuses_role_gate [of "\<lambda>_. True" ANY_OF u g "Exn (Core NotFoundError)" E]
  by (simp add: require_member_def role_gate_def liftS_def bindE_ret cong: option.case_cong)

text \<open>\<open>require_member\<close> and \<open>require_admin\<close> in a row are one gate.\<close>

lemma require_admin_refuses [refusals]:
  assumes "user_sub user = Inr u"
  shows "refuses u g ADMIN_ROLES (bindE (require_member E g user) (\<lambda>m. thenE (require_admin m) k))"
proof -
  have "bindE (require_member E g user) (\<lambda>m. thenE (require_admin m) k) =
      bindE (role_gate (\<lambda>r. r \<in> set ADMIN_ROLES) (Exn Dep_Forbidden) E u g) (\<lambda>_. k)"
    by (auto simp: require_member_def role_gate_def assms liftS_def bindE_ret bindE_assoc bindE_app thenE_app
        require_admin_def ADMIN_ROLES_def fun_eq_iff split: option.split prod.split sum.split)
  then show ?thesis by (simp add: refuses_seq(1) refuses_role_gate)
qed

section \<open>The routes\<close>

text \<open>The organisation a request is for, and the roles it asks for.\<close>

fun core_scope :: "core_call \<Rightarrow> (string \<times> Role list) option" where
  "core_scope (Create_organisation _) = None"
| "core_scope List_my_orgs = None"
| "core_scope (List_members g) = Some (g, ANY_OF)"
| "core_scope (Add_org_member g _ _) = Some (g, ADMIN_ROLES)"
| "core_scope (Get_settings g) = Some (g, ANY_OF)"
| "core_scope (Update_settings g _) = Some (g, ADMIN_ROLES)"
| "core_scope (Email_send g _ _ _ _ _ _) = Some (g, ANY_OF)"
| "core_scope (Domain_status g) = Some (g, ANY_OF)"

fun inv_roles :: "inv_call \<Rightarrow> Role list" where
  "inv_roles (List_invoices _ _ _) = ANY_OF"
| "inv_roles (Get_invoice _) = ANY_OF"
| "inv_roles (List_payments _) = ANY_OF"
| "inv_roles _ = MUTATION_ROLES"

fun omni_roles :: "omni_request \<Rightarrow> Role list" where
  "omni_roles (Claim _) = NON_VIEWER_ROLES"
| "omni_roles (Send_reply _ _ _ _) = NON_VIEWER_ROLES"
| "omni_roles (Mark_read _) = ANY_OF"
| "omni_roles (Inbox _ _) = ANY_OF"
| "omni_roles (Thread _ _ _) = ANY_OF"
| "omni_roles _ = ADMIN_ROLES"

fun scope :: "api_request \<Rightarrow> (string \<times> Role list) option" where
  "scope (Core_api c) = core_scope c"
| "scope (Invoicing_api g c) = Some (g, inv_roles c)"
| "scope (Omni_api g c) = Some (g, omni_roles c)"
| "scope _ = None"

lemma core_refuses:
  "core_scope c = Some (g, roles) \<Longrightarrow> user_sub user = Inr u \<Longrightarrow> refuses u g roles (core_route E c user :: 'z route)"
  by (cases c)
    (auto simp: list_members_route_def add_member_route_def get_settings_route_def update_settings_route_def
      send_email_route_def get_domain_verification_status_route_def simp del: bindE_assoc intro: refusals)

lemma inv_refuses: "refuses u g (inv_roles c) (inv_route E pdf g c u :: 'z route)"
  by (cases c; simp only: inv_route.simps inv_roles.simps create_invoice_route_def list_invoices_route_def get_invoice_route_def
      update_invoice_route_def delete_invoice_route_def send_invoice_route_def record_payment_route_def
      void_invoice_route_def list_payments_route_def create_invoice_def list_invoices_def get_invoice_def
      update_invoice_def soft_delete_invoice_def send_invoice_def record_payment_def void_invoice_def
      list_payments_def Let_def; (intro refusals))

lemma omni_refuses: "refuses u g (omni_roles c) (omni_route E g c u :: 'z route)"
  by (cases c; simp only: omni_route.simps omni_roles.simps claim_conversation_route_def
      reassign_conversation_route_def send_reply_route_def
      mark_read_route_def create_connection_route_def disable_connection_route_def set_routing_config_route_def
      list_connections_route_def get_connection_route_def list_conversations_route_def get_conversation_route_def
      claim_def reassign_def send_reply_def mark_read_def create_connection_def disable_connection_def
      set_routing_config_def list_connections_def get_connection_def list_conversations_def get_conversation_def Let_def;
      (intro refusals))

text \<open>A request that ends in an error and leaves no trace.\<close>

definition barred :: "'z route \<Rightarrow> 'z app_world_scheme \<Rightarrow> bool" where
  "barred m w \<longleftrightarrow> (\<exists>e w'. m w = (Inl e, w') \<and> observable w' = observable w \<and> member_tbl w' = member_tbl w)"

definition unentitled :: "string \<Rightarrow> Role list \<Rightarrow> claims \<Rightarrow> item list \<Rightarrow> bool" where
  "unentitled g roles user tbl \<longleftrightarrow> wf_members tbl \<and> (\<forall>u. user_sub user = Inr u \<longrightarrow> \<not> entitled u g roles tbl)"

lemma observable_simps [simp]:
  "observable (w\<lparr>tick := n\<rparr>) = observable w" "observable (w\<lparr>inv_tx := t\<rparr>) = observable w"
  "observable (w\<lparr>om_tx := x\<rparr>) = observable w"
  by (simp_all add: observable_def)

lemma refuses_barred:
  assumes "user_sub user = Inr u \<Longrightarrow> refuses u g roles (m :: 'z route)"
    and "unentitled g roles user (member_tbl w)" and "user_sub user = Inr u"
  shows "\<exists>e n. m w = (Inl e, w\<lparr>tick := n\<rparr>)"
  using assms by (auto simp: refuses_def unentitled_def)

lemma by_sub_barred:
  assumes "\<And>u. refuses u g roles (m u :: 'z route)" and "unentitled g roles user (member_tbl w)"
  shows "\<exists>e n. by_sub m user w = (Inl e, w\<lparr>tick := n\<rparr>)"
proof (cases "user_sub user")
  case (Inl e)
  then have "by_sub m user w = (Inl e, w\<lparr>tick := tick w\<rparr>)" by (simp add: by_sub_def bindE_app liftS_def)
  then show ?thesis by blast
next
  case (Inr u)
  then have "by_sub m user w = m u w" by (simp add: by_sub_def liftS_def bindE_ret)
  with refuses_barred [OF assms(1,2) Inr] show ?thesis by simp
qed

lemma inv_session_barred:
  assumes "\<And>u. refuses u g roles (m u :: 'z route)" and "unentitled g roles user (member_tbl w)"
  shows "barred (inv_session (by_sub m user)) w"
  using by_sub_barred [OF assms(1), where user = user and w = "w\<lparr>inv_tx := inv_db w\<rparr>"] assms(2)
  by (auto simp: barred_def in_session_def)

lemma omni_session_barred:
  assumes "\<And>u. refuses u g roles (m u :: 'z route)" and "unentitled g roles user (member_tbl w)"
  shows "barred (omni_session (by_sub m user)) w"
  using by_sub_barred [OF assms(1), where user = user and w = "w\<lparr>om_tx := om_db w\<rparr>"] assms(2)
  by (auto simp: barred_def in_session_def)

lemma core_barred:
  fixes w :: "'z app_world_scheme"
  assumes "core_scope c = Some (g, roles)" and "unentitled g roles user (member_tbl w)"
  shows "barred (core_route E c user) w"
proof (cases "user_sub user")
  case (Inl e)
  then have "core_route E c user w = (Inl e, w)"
    using assms(1) by (cases c) (auto simp: list_members_route_def add_member_route_def get_settings_route_def
      update_settings_route_def send_email_route_def get_domain_verification_status_route_def
      require_member_def bindE_app thenE_app liftS_def)
  then show ?thesis by (simp add: barred_def)
next
  case (Inr u)
  have "refuses u g roles (core_route E c user :: 'z route)" by (rule core_refuses [OF assms(1) Inr])
  from refuses_barred [OF this assms(2) Inr] show ?thesis by (auto simp: barred_def)
qed

text \<open>The body of a request for an organisation, behind \<open>CurrentUser\<close>.\<close>

lemma scoped_endpoint:
  assumes "scope q = Some (g, roles)"
  obtains valid body where "endpoint E L S pdf h q = as_user E L S h valid (body :: claims \<Rightarrow> 'z route)"
    and "\<forall>user w. unentitled g roles user (member_tbl w) \<longrightarrow> barred (body user) w"
proof (cases q)
  case (Core_api c)
  with assms show thesis
    by (intro that [of True "core_route E c"]) (auto intro: core_barred)
next
  case (Invoicing_api g' c)
  with assms show thesis
    by (intro that [of "inv_valid c" "\<lambda>user. inv_session (by_sub (inv_route E pdf g' c) user)"])
      (auto intro: inv_session_barred inv_refuses)
next
  case (Omni_api g' c)
  have "barred (by_sub (omni_route E g c) user) w" if "unentitled g (omni_roles c) user (member_tbl w)"
    for user and w :: "'z app_world_scheme"
    using by_sub_barred [OF omni_refuses [where E = E] that] by (auto simp: barred_def)
  with Omni_api assms show thesis
    by (intro that [of True "\<lambda>user. if needs_session c then omni_session (by_sub (omni_route E g' c) user)
       else by_sub (omni_route E g' c) user"])
      (auto intro: omni_session_barred omni_refuses)
qed (use assms in simp_all)

text \<open>
  C2: access over HTTP.  A request for an organisation whose bearer token stands for nobody
  with one of the roles the request asks for there (no token, a forged or expired one, a
  stranger's, or that of a member with too little a role) gets an error, and nothing of the
  platform changes: no row, setting, file, mail, event, queue, secret or counter, and nobody's
  membership.
\<close>

theorem api_access:
  fixes w :: "'z app_world_scheme"
  assumes "platform_ok L w" and "scope q = Some (g, roles)"
    and "\<And>u. stands_for L S h u \<Longrightarrow> \<not> entitled u g roles (member_tbl w)"
    and "respond E L S pdf h q w = (rep, w')"
  shows "400 \<le> reply_status rep \<and> observable w' = observable w \<and>
    member_of (member_tbl w') = member_of (member_tbl w)"
proof -
  from assms(1) have wf: "wf_members (member_tbl w)" and keys: "jwks_genuine L w"
    by (simp_all add: platform_ok_def)
  obtain r w1 where user: "current_user E L S h w = (r, w1)" by (rule prod.exhaust)
  have obs: "observable w1 = observable w" using leavesD [OF current_user_observable user] .
  have mem: "wf_members (member_tbl w1)" "member_of (member_tbl w1) = member_of (member_tbl w)"
    using current_user_members [OF wf, of E L S h] user by simp_all
  obtain valid body where e: "endpoint E L S pdf h q = as_user E L S h valid (body :: claims \<Rightarrow> 'z route)"
    and bar: "\<forall>user w. unentitled g roles user (member_tbl w) \<longrightarrow> barred (body user) w"
    by (rule scoped_endpoint [OF assms(2), where E = E and L = L and S = S and pdf = pdf and h = h])
  have error: "400 \<le> reply_status (error_reply x)" for x using error_reply_status [of x] by auto
  show ?thesis
  proof (cases r)
    case (Inl x)
    with assms(4) user e error obs mem show ?thesis by (auto simp: respond_def as_user_def bindE_app)
  next
    case (Inr claims)
    have "\<not> entitled u g roles (member_tbl w1)" if "user_sub claims = Inr u" for u
      using assms(3) [of u] current_user_accepts [OF user [unfolded Inr] keys] that mem(2)
      by (auto simp: stands_for_def entitled_def)
    with mem(1) have "unentitled g roles claims (member_tbl w1)" by (simp add: unentitled_def)
    from bar [rule_format, OF this] obtain x w2 where "body claims w1 = (Inl x, w2)" "observable w2 = observable w1"
      "member_tbl w2 = member_tbl w1" by (auto simp: barred_def)
    with assms(4) user Inr e error obs mem show ?thesis
      by (cases valid) (auto simp: respond_def as_user_def bindE_app)
  qed
qed

theorem api_access_witness:
  "400 \<le> reply_status (fst (respond sample_env (sample_libs 0) default_settings sample_pdf
     [(''Authorization'', ''Bearer tok'')] (Omni_api ''o9'' (Claim ''c1'')) (sample_app sample_omni_tables)))"
proof -
  let ?w = "sample_app sample_omni_tables"
  have tbl: "member_tbl ?w = [membership_item ''o1'' ''ann'' OWNER 0, membership_item ''o1'' ''bob'' MEMBER 0]"
    by (simp add: sample_app_def omni_world.extend_def app_world.fields_def sample_omni_def fresh_audit_def)
  have "\<not> entitled u ''o9'' NON_VIEWER_ROLES (member_tbl ?w)" for u
    by (simp add: entitled_def member_of_def row_get_def tbl)
  from api_access [OF sample_app_ok _ this prod.collapse [symmetric], where q = "Omni_api ''o9'' (Claim ''c1'')"]
  show ?thesis by simp
qed

end
