(* ===== verification/A2Z_Stream.thy ===== *)
theory A2Z_Stream
  imports A2Z_ApiAccess "HOL-Library.Sublist"
begin

text \<open>
  Live inbox updates over Server-Sent Events: \<open>app/services/omnichannel/stream.py\<close> and the
  \<open>stream_inbox\<close> route.  The asynchronous generator is opened, resumed once per frame and,
  when the client goes away first, closed; what other tasks publish while it is suspended is
  a parameter, and so is \<open>json.dumps\<close>.  The messages of the broker are JSON values, so the
  text of a frame is made from the dump of one.
\<close>

section \<open>Frames\<close>

definition newline :: char where "newline = char_of (10 :: nat)"

definition frame_data :: "string \<Rightarrow> string" where
  "frame_data payload = ''data: '' @ payload @ [newline, newline]"

definition frame_comment :: "string \<Rightarrow> string" where
  "frame_comment comment = '': '' @ comment @ [newline, newline]"

definition channels_for :: "string \<Rightarrow> string \<Rightarrow> string list" where
  "channels_for org_id user_id =
     [''org:'' @ org_id @ '':conversations'', ''user:'' @ user_id @ '':notifications'']"

section \<open>The generator\<close>

definition MAX_LIFETIME_SECONDS :: rat where "MAX_LIFETIME_SECONDS = 300"

text \<open>A publication by another task: the organisation, the channel and the payload.\<close>

type_synonym publication = "string \<times> string \<times> (string \<times> json) list"

record surroundings =
  dumps :: "json \<Rightarrow> string"
  gone :: "nat \<Rightarrow> bool"                    \<comment> \<open>\<open>is_disconnected()\<close>\<close>
  meanwhile :: "nat \<Rightarrow> publication list"   \<comment> \<open>what others publish during the suspension that starts at a tick\<close>

record stream =
  st_queue :: nat
  st_started :: rat
  st_channels :: "string list"

definition others :: "surroundings \<Rightarrow> ('z realtime_world_scheme, unit) op" where
  "others X = bindE next_tick (\<lambda>n. forE (\<lambda>(g, ch, p). publish_update g ch p) (meanwhile X n))"

text \<open>Up to the first \<open>yield\<close>.\<close>

definition stream_open :: "env \<Rightarrow> string \<Rightarrow> string \<Rightarrow> ('z realtime_world_scheme, stream \<times> string) op" where
  "stream_open E org_id user_id =
     (let channels = channels_for org_id user_id in
      bindE (now_monotonic E) (\<lambda>started.
      bindE (subscribe channels) (\<lambda>queue.
      ret (\<lparr>st_queue = queue, st_started = started, st_channels = channels\<rparr>, frame_comment ''connected''))))"

text \<open>The \<open>finally\<close> of the subscription, whichever way the generator ends.\<close>

definition stream_close :: "stream \<Rightarrow> ('z realtime_world_scheme, unit) op" where
  "stream_close s = unsubscribe (st_queue s) (st_channels s)"

text \<open>From one \<open>yield\<close> to the next, or to the end: one turn of the loop.\<close>

definition lifetime_over :: "env \<Rightarrow> rat option \<Rightarrow> stream \<Rightarrow> ('z realtime_world_scheme, bool) op" where
  "lifetime_over E max_lifetime_seconds s =
     (case max_lifetime_seconds of
        None \<Rightarrow> ret False
      | Some m \<Rightarrow> bindE (now_monotonic E) (\<lambda>now. ret (m \<le> now - st_started s)))"

definition stream_resume ::
  "env \<Rightarrow> surroundings \<Rightarrow> rat option \<Rightarrow> stream \<Rightarrow> ('z realtime_world_scheme, string option) op" where
  "stream_resume E X max_lifetime_seconds s =
     bindE (lifetime_over E max_lifetime_seconds s) (\<lambda>over.
     if over then thenE (stream_close s) (ret None)
     else
     bindE next_tick (\<lambda>n.
     if gone X n then thenE (stream_close s) (ret None)
     else
     thenE (others X)
     (bindE (subscription_get (st_queue s)) (\<lambda>message.
     ret (Some (case message of
        None \<Rightarrow> frame_comment ''keepalive''
      | Some m \<Rightarrow> frame_data (dumps X m)))))))"

text \<open>
  A response that takes at most \<open>n\<close> further frames: the frames, and whether the generator
  ended by itself.  A response that stops earlier closes it.
\<close>

fun stream_pulls ::
  "nat \<Rightarrow> env \<Rightarrow> surroundings \<Rightarrow> rat option \<Rightarrow> stream \<Rightarrow> ('z realtime_world_scheme, string list \<times> bool) op" where
  "stream_pulls 0 E X m s = thenE (stream_close s) (ret ([], False))"
| "stream_pulls (Suc n) E X m s =
     bindE (stream_resume E X m s) (\<lambda>f.
     case f of
       None \<Rightarrow> ret ([], True)
     | Some f \<Rightarrow> thenE (others X) (bindE (stream_pulls n E X m s) (\<lambda>(fs, ended). ret (f # fs, ended))))"

definition stream_events ::
  "nat \<Rightarrow> env \<Rightarrow> surroundings \<Rightarrow> string \<Rightarrow> string \<Rightarrow> rat option \<Rightarrow> ('z realtime_world_scheme, string list \<times> bool) op" where
  "stream_events n E X org_id user_id m =
     bindE (stream_open E org_id user_id) (\<lambda>(s, hello).
     thenE (others X)
     (bindE (stream_pulls n E X m s) (\<lambda>(fs, ended). ret (hello # fs, ended))))"

section \<open>The route\<close>

definition stream_token :: "string option \<Rightarrow> (string \<times> string) list \<Rightarrow> string" where
  "stream_token access_token headers =
     (case access_token of
        Some t \<Rightarrow> t
      | None \<Rightarrow>
          (case get_header headers ''authorization'' of
             None \<Rightarrow> []
           | Some h \<Rightarrow>
               if startswith (map lower h) ''bearer ''
               then (case partition_at CHR '' '' h of None \<Rightarrow> [] | Some (_, t) \<Rightarrow> strip t)
               else []))"

definition stream_inbox ::
  "nat \<Rightarrow> env \<Rightarrow> libs \<Rightarrow> Settings \<Rightarrow> surroundings \<Rightarrow> string \<Rightarrow> string option \<Rightarrow> (string \<times> string) list
    \<Rightarrow> ('z app_world_scheme, string list \<times> bool) op" where
  "stream_inbox n E L S X org_id access_token headers =
     bindE (validate_jwt E L S (stream_token access_token headers)) (\<lambda>claims.
     bindE (liftS (user_sub claims)) (\<lambda>user_id.
     thenE (require_membership_omni E user_id org_id)
     (stream_events n E X org_id user_id (Some MAX_LIFETIME_SECONDS))))"

section \<open>Termination\<close>

lemma others_run:
  "\<exists>w'. others X w = (Inr (), w') \<and> tick w' = Suc (tick w) \<and> subscribers w' = subscribers w \<and> next_queue w' = next_queue w"
proof -
  have pubs: "\<exists>w'. forE (\<lambda>(g, ch, p). publish_update g ch p) ps w = (Inr (), w') \<and> tick w' = tick w \<and>
      subscribers w' = subscribers w \<and> next_queue w' = next_queue w" for ps and w :: "'a realtime_world_scheme"
  proof (induction ps arbitrary: w)
    case (Cons p ps)
    obtain g ch x where p: "p = (g, ch, x)" by (rule prod_cases3)
    let ?w = "snd (publish_update g ch x w)"
    from Cons.IH [of ?w] show ?case
      by (auto simp: p thenE_app publish_update_def Let_def)
  qed (simp add: ret_def)
  show ?thesis using pubs [of "meanwhile X (tick w)" "w\<lparr>tick := Suc (tick w)\<rparr>"]
    by (simp add: others_def bindE_app next_tick_def)
qed

lemma close_subscribers:
  "subscribers w1 = subscribers w \<Longrightarrow> subscribers (snd (stream_close s w1)) = subscribers (snd (stream_close s w))"
  by (simp add: stream_close_def unsubscribe_def)

lemma resume_run:
  "\<exists>f w'. stream_resume E X (Some m) s w = (Inr f, w') \<and> tick w < tick w' \<and>
     (case f of
        None \<Rightarrow> subscribers w' = subscribers (snd (stream_close s w))
      | Some _ \<Rightarrow> subscribers w' = subscribers w \<and> \<not> m \<le> monotonic E (tick w) - st_started s)"
proof (cases "m \<le> monotonic E (tick w) - st_started s")
  case True
  then show ?thesis
    by (simp add: stream_resume_def lifetime_over_def bindE_app thenE_app stream_close_def unsubscribe_def)
next
  case False
  let ?w = "w\<lparr>tick := Suc (Suc (tick w))\<rparr>"
  obtain w1 where o: "others X ?w = (Inr (), w1)" "tick w1 = Suc (tick ?w)" "subscribers w1 = subscribers w"
    using others_run [of X ?w] by auto
  show ?thesis
  proof (cases "gone X (Suc (tick w))")
    case True
    with False show ?thesis
      by (simp add: stream_resume_def lifetime_over_def bindE_app thenE_app next_tick_def stream_close_def unsubscribe_def)
  next
    case False
    with \<open>\<not> m \<le> _\<close> o show ?thesis
      by (auto simp: stream_resume_def lifetime_over_def bindE_app thenE_app next_tick_def subscription_get_def split: list.split)
  qed
qed

text \<open>\<open>N\<close> is a reading of the clock after which the lifetime is over.\<close>

lemma pulls_run:
  assumes "\<And>k. N \<le> k \<Longrightarrow> m \<le> monotonic E k - st_started s"
  shows "\<exists>fs ended w'. stream_pulls n E X (Some m) s w = (Inr (fs, ended), w') \<and> length fs \<le> N - tick w \<and>
    (N - tick w < n \<longrightarrow> ended) \<and> subscribers w' = subscribers (snd (stream_close s w))"
proof (induction n arbitrary: w)
  case 0
  show ?case by (auto simp: thenE_app stream_close_def unsubscribe_def ret_def intro: exI [of _ False])
next
  case (Suc n)
  obtain f w1 where res: "stream_resume E X (Some m) s w = (Inr f, w1)" and tick: "tick w < tick w1"
    and f: "case f of None \<Rightarrow> subscribers w1 = subscribers (snd (stream_close s w))
      | Some _ \<Rightarrow> subscribers w1 = subscribers w \<and> \<not> m \<le> monotonic E (tick w) - st_started s"
    using resume_run [of E X m s w] by blast
  show ?case
  proof (cases f)
    case None
    with res f show ?thesis by (auto simp: bindE_app ret_def intro: exI [of _ True])
  next
    case (Some t)
    with f assms [of "tick w"] have early: "tick w < N" by (cases "tick w < N") auto
    obtain w2 where o: "others X w1 = (Inr (), w2)" "tick w2 = Suc (tick w1)" "subscribers w2 = subscribers w1"
      using others_run [of X w1] by auto
    obtain fs ended w' where rest: "stream_pulls n E X (Some m) s w2 = (Inr (fs, ended), w')" "length fs \<le> N - tick w2"
      "N - tick w2 < n \<longrightarrow> ended" "subscribers w' = subscribers (snd (stream_close s w2))"
      using Suc.IH [of w2] by blast
    have "subscribers (snd (stream_close s w2)) = subscribers (snd (stream_close s w))"
      by (rule close_subscribers) (use o f Some in simp)
    with rest o tick early show ?thesis
      by (auto simp: bindE_app thenE_app res Some ret_def)
  qed
qed

lemma stream_events_run:
  assumes "\<And>k. N \<le> k \<Longrightarrow> m \<le> monotonic E k - monotonic E (tick w)"
    and "wf_subscribers (subscribers w)" and "\<forall>key qs. subscribers w key = Some qs \<longrightarrow> next_queue w \<notin> set qs"
  shows "\<exists>fs ended w'. stream_events n E X g u (Some m) w = (Inr (fs, ended), w') \<and>
    (N - tick w < n \<longrightarrow> ended) \<and> length fs \<le> Suc (N - tick w) \<and> subscribers w' = subscribers w"
proof -
  let ?w = "w\<lparr>tick := Suc (tick w)\<rparr>"
  let ?s = "\<lparr>st_queue = next_queue w, st_started = monotonic E (tick w), st_channels = channels_for g u\<rparr>"
  obtain w1 where sub: "subscribe (channels_for g u) ?w = (Inr (next_queue w), w1)" and t1: "tick w1 = Suc (tick w)"
    by (simp add: subscribe_def Let_def)
  obtain w2 where o: "others X w1 = (Inr (), w2)" "tick w2 = Suc (tick w1)" "subscribers w2 = subscribers w1"
    using others_run [of X w1] by auto
  obtain fs ended w' where p: "stream_pulls n E X (Some m) ?s w2 = (Inr (fs, ended), w')" "length fs \<le> N - tick w2"
      "N - tick w2 < n \<longrightarrow> ended" "subscribers w' = subscribers (snd (stream_close ?s w2))"
    using pulls_run [of N m E ?s n X w2] assms(1) by auto
  have "subscribers (snd (stream_close ?s w2)) = subscribers (snd (unsubscribe (next_queue w) (channels_for g u) w1))"
    using close_subscribers [OF o(3), of ?s] by (simp add: stream_close_def)
  also have "\<dots> = subscribers ?w"
    by (rule subscription_torn_down [OF _ _ sub refl]) (use assms(2,3) in simp_all)
  finally have clean: "subscribers w' = subscribers w" using p(4) by simp
  have "stream_events n E X g u (Some m) w = (Inr (frame_comment ''connected'' # fs, ended), w')"
    using sub o(1) p(1) by (simp add: stream_events_def stream_open_def Let_def bindE_app thenE_app ret_def)
  with p(2,3) o(2) t1 clean show ?thesis by auto
qed

text \<open>
  C29: a stream ends.  If the clock reaches the end of the stream's lifetime, however many
  messages arrive, the generator returns by itself when it is asked often enough, after a
  bounded number of frames; and whether it ends so, by the client's disconnection or by the
  response being cancelled, no subscription is left behind.
\<close>

theorem stream_terminates:
  assumes "\<And>k. N \<le> k \<Longrightarrow> m \<le> monotonic E k - monotonic E (tick w)"
    and "wf_subscribers (subscribers w)" and "\<forall>key qs. subscribers w key = Some qs \<longrightarrow> next_queue w \<notin> set qs"
  shows "\<exists>fs ended w'. stream_events n E X g u (Some m) w = (Inr (fs, ended), w') \<and>
    (N - tick w < n \<longrightarrow> ended) \<and> length fs \<le> Suc (N - tick w) \<and> subscribers w' = subscribers w"
  by (rule stream_events_run [OF assms])

definition clock_env :: env where "clock_env = sample_env\<lparr>monotonic := of_nat\<rparr>"

definition sample_traffic :: surroundings where
  "sample_traffic = \<lparr>dumps = (\<lambda>_. ''{}''), gone = (\<lambda>_. False),
     meanwhile = (\<lambda>n. if n = 1 then [(''o1'', ''org:o1:conversations'', [(''n'', JNum 1)]), (''o2'', ''org:o2:conversations'', [])] else [])\<rparr>"

lemma clock_env_late: "300 \<le> k \<Longrightarrow> MAX_LIFETIME_SECONDS \<le> monotonic clock_env k - monotonic clock_env 0"
  using of_nat_le_iff [of 300 k, where ?'a = rat] by (simp add: clock_env_def MAX_LIFETIME_SECONDS_def)

lemma sample_app_subscribers [simp]: "subscribers (sample_app t) = (\<lambda>_. None)"
  by (simp add: sample_app_def omni_world.extend_def app_world.fields_def sample_omni_def fresh_audit_def)

theorem stream_terminates_witness:
  "\<exists>fs w'. stream_events 400 clock_env sample_traffic ''o1'' ''ann'' (Some MAX_LIFETIME_SECONDS) (sample_app sample_omni_tables) = (Inr (fs, True), w') \<and>
     length fs \<le> 301 \<and> subscribers w' = subscribers (sample_app sample_omni_tables)"
  using stream_terminates [of 300 MAX_LIFETIME_SECONDS clock_env "sample_app sample_omni_tables" 400 sample_traffic
      "''o1''" "''ann''"] clock_env_late
  by (auto simp: wf_subscribers_def)

section \<open>What a stream relays\<close>

text \<open>What is published, on the channels \<open>chs\<close>, during the suspension that starts at a tick.\<close>

definition heard :: "surroundings \<Rightarrow> string list \<Rightarrow> nat \<Rightarrow> json list" where
  "heard X chs n = map (\<lambda>(g, ch, p). JObj (dict_merge p [(''org_id'', JStr g)]))
     (filter (\<lambda>(g, ch, p). ch \<in> set chs) (meanwhile X n))"

text \<open>The ticks at which a stream with a lifetime is suspended while it yields \<open>j\<close> frames.\<close>

fun pauses :: "nat \<Rightarrow> nat \<Rightarrow> nat list" where
  "pauses t 0 = []"
| "pauses t (Suc j) = (t + 2) # (t + 3) # pauses (t + 4) j"

definition published_to :: "surroundings \<Rightarrow> string list \<Rightarrow> nat list \<Rightarrow> json list" where
  "published_to X chs ks = concat (map (heard X chs) ks)"

definition data_frames :: "string list \<Rightarrow> string list" where
  "data_frames fs = filter (\<lambda>f. startswith f ''data: '') fs"

definition listening :: "nat \<Rightarrow> string list \<Rightarrow> 'z realtime_world_scheme \<Rightarrow> bool" where
  "listening q chs w \<longleftrightarrow> (\<forall>ch. q \<in> live_queues ch w \<longleftrightarrow> ch \<in> set chs) \<and> length (inboxes w q) \<le> QUEUE_MAXSIZE"

lemma data_frames_simps [simp]:
  "data_frames [] = []" "data_frames (frame_data p # fs) = frame_data p # data_frames fs"
  "data_frames (frame_comment c # fs) = data_frames fs"
  by (simp_all add: data_frames_def frame_data_def frame_comment_def startswith_def)

lemma live_queues_cong: "subscribers w' = subscribers w \<Longrightarrow> live_queues ch w' = live_queues ch w"
  by (simp add: live_queues_def)

lemma publishing_inbox:
  assumes "\<forall>ch. q \<in> live_queues ch w \<longleftrightarrow> ch \<in> set chs" and "forE (\<lambda>(g, ch, p). publish_update g ch p) ps w = (r, w')"
  shows "inboxes w' q = fold put_dropping_oldest
    (map (\<lambda>(g, ch, p). JObj (dict_merge p [(''org_id'', JStr g)])) (filter (\<lambda>(g, ch, p). ch \<in> set chs) ps)) (inboxes w q)"
  using assms
proof (induction ps arbitrary: w)
  case (Cons p ps)
  obtain g ch x where p: "p = (g, ch, x)" by (rule prod_cases3)
  let ?w = "snd (publish_update g ch x w)"
  have live: "\<forall>c. q \<in> live_queues c ?w \<longleftrightarrow> c \<in> set chs"
    using Cons.prems(1) live_queues_cong [OF publish_subscribers] by metis
  from Cons.prems(2) have "forE (\<lambda>(g, ch, p). publish_update g ch p) ps ?w = (r, w')"
    by (simp add: p thenE_run [OF publish_update_app])
  from Cons.IH [OF live this] Cons.prems(1) show ?case by (simp add: p publish_inbox)
qed (simp add: ret_def)

lemma others_inbox:
  assumes "listening q chs w" and "others X w = (Inr (), w')"
  shows "listening q chs w' \<and> subseq (inboxes w' q) (inboxes w q @ heard X chs (tick w)) \<and>
    (length (inboxes w q @ heard X chs (tick w)) \<le> QUEUE_MAXSIZE \<longrightarrow> inboxes w' q = inboxes w q @ heard X chs (tick w))"
proof -
  let ?w = "w\<lparr>tick := Suc (tick w)\<rparr>" and ?h = "heard X chs (tick w)"
  from assms(1) have live: "\<forall>ch. q \<in> live_queues ch ?w \<longleftrightarrow> ch \<in> set chs" and room: "length (inboxes w q) \<le> QUEUE_MAXSIZE"
    by (auto simp: listening_def live_queues_def)
  have "forE (\<lambda>(g, ch, p). publish_update g ch p) (meanwhile X (tick w)) ?w = (Inr (), w')"
    using assms(2) by (simp add: others_def bindE_app next_tick_def)
  from publishing_inbox [OF live this] have "inboxes w' q = fold put_dropping_oldest ?h (inboxes w q)"
    by (simp add: heard_def)
  with room have eq: "inboxes w' q = drop (length (inboxes w q @ ?h) - QUEUE_MAXSIZE) (inboxes w q @ ?h)"
    by (simp add: inbox.puts_window)
  moreover have "\<forall>ch. q \<in> live_queues ch w' \<longleftrightarrow> ch \<in> set chs"
    using others_run [of X w] assms by (auto simp: listening_def live_queues_def)
  ultimately show ?thesis by (auto simp: listening_def simp del: drop_append)
qed

text \<open>One turn that yields a frame.\<close>

lemma resume_relay:
  assumes "stream_resume E X (Some m) s w = (Inr (Some f), w')" and "listening (st_queue s) chs w"
  shows "listening (st_queue s) chs w' \<and> tick w' = tick w + 3 \<and>
    (\<exists>A. subseq A (inboxes w (st_queue s) @ heard X chs (tick w + 2)) \<and>
      (length (inboxes w (st_queue s) @ heard X chs (tick w + 2)) \<le> QUEUE_MAXSIZE \<longrightarrow>
         A = inboxes w (st_queue s) @ heard X chs (tick w + 2)) \<and>
      ((A = [] \<and> f = frame_comment ''keepalive'' \<and> inboxes w' (st_queue s) = []) \<or>
       (\<exists>x. A = x # inboxes w' (st_queue s) \<and> f = frame_data (dumps X x))))"
proof -
  let ?q = "st_queue s" and ?w = "w\<lparr>tick := Suc (Suc (tick w))\<rparr>"
  obtain w1 where o: "others X ?w = (Inr (), w1)" "tick w1 = Suc (tick ?w)"
    using others_run [of X ?w] by auto
  have "listening ?q chs ?w" using assms(2) by (simp add: listening_def live_queues_def)
  note A = others_inbox [OF this o(1)]
  from assms(1) o have "(case inboxes w1 ?q of
        [] \<Rightarrow> f = frame_comment ''keepalive'' \<and> w' = w1
      | x # rest \<Rightarrow> f = frame_data (dumps X x) \<and> w' = w1\<lparr>inboxes := (inboxes w1)(?q := rest)\<rparr>)"
    by (auto simp: stream_resume_def lifetime_over_def bindE_app thenE_app next_tick_def subscription_get_def
        stream_close_def unsubscribe_def ret_def split: if_splits list.splits)
  with A o(2) show ?thesis
    by (intro conjI exI [of _ "inboxes w1 ?q"])
      (auto simp: listening_def live_queues_def split: list.splits)
qed

lemma pulls_relay:
  assumes "stream_pulls n E X (Some m) s w = (Inr (fs, ended), w')" and "listening (st_queue s) chs w"
  defines "Q \<equiv> inboxes w (st_queue s) @ published_to X chs (pauses (tick w) (length fs))"
  shows "\<exists>ms. data_frames fs = map (\<lambda>x. frame_data (dumps X x)) ms \<and> subseq ms Q \<and>
    (length Q \<le> QUEUE_MAXSIZE \<longrightarrow> (\<exists>rest. Q = ms @ rest))"
  using assms(1,2) unfolding Q_def
proof (induction n arbitrary: w fs)
  case 0
  then show ?case by (auto simp: thenE_app stream_close_def unsubscribe_def ret_def)
next
  case (Suc n)
  let ?q = "st_queue s"
  from Suc.prems(1) obtain f w1 where res: "stream_resume E X (Some m) s w = (Inr f, w1)"
    by (auto simp: bindE_Inr_iff)
  show ?case
  proof (cases f)
    case None
    with Suc.prems(1) res show ?thesis by (auto simp: bindE_app ret_def)
  next
    case (Some t)
    note turn = resume_relay [OF res [unfolded Some] Suc.prems(2)]
    then obtain A where A: "subseq A (inboxes w ?q @ heard X chs (tick w + 2))"
      "length (inboxes w ?q @ heard X chs (tick w + 2)) \<le> QUEUE_MAXSIZE \<longrightarrow> A = inboxes w ?q @ heard X chs (tick w + 2)"
      and got: "(A = [] \<and> t = frame_comment ''keepalive'' \<and> inboxes w1 ?q = []) \<or>
        (\<exists>x. A = x # inboxes w1 ?q \<and> t = frame_data (dumps X x))" by blast
    obtain w2 where o: "others X w1 = (Inr (), w2)" "tick w2 = Suc (tick w1)" using others_run [of X w1] by auto
    note B = others_inbox [OF conjunct1 [OF turn] o(1)]
    from Suc.prems(1) res Some o obtain fs' where fs: "fs = t # fs'"
      and rest: "stream_pulls n E X (Some m) s w2 = (Inr (fs', ended), w')"
      by (auto simp: bindE_app thenE_app ret_def split: prod.splits sum.splits)
    define H where "H = published_to X chs (pauses (tick w2) (length fs'))"
    from Suc.IH [OF rest conjunct1 [OF B]] obtain ms where
      ms: "data_frames fs' = map (\<lambda>x. frame_data (dumps X x)) ms" "subseq ms (inboxes w2 ?q @ H)"
        "length (inboxes w2 ?q @ H) \<le> QUEUE_MAXSIZE \<longrightarrow> (\<exists>rest. inboxes w2 ?q @ H = ms @ rest)"
      by (auto simp: H_def)
    have total: "inboxes w ?q @ published_to X chs (pauses (tick w) (length fs)) =
        (inboxes w ?q @ heard X chs (tick w + 2)) @ heard X chs (tick w1) @ H"
      using turn o(2) by (simp add: fs published_to_def H_def eval_nat_numeral)
    obtain xs where xs: "A = xs @ inboxes w1 ?q" "data_frames fs = map (\<lambda>x. frame_data (dumps X x)) (xs @ ms)"
    proof -
      from got show thesis
      proof (elim disjE conjE exE)
        assume "A = []" "t = frame_comment ''keepalive''" "inboxes w1 ?q = []"
        with ms(1) show thesis by (intro that [of "[]"]) (simp_all add: fs)
      next
        fix x
        assume "A = x # inboxes w1 ?q" "t = frame_data (dumps X x)"
        with ms(1) show thesis by (intro that [of "[x]"]) (simp_all add: fs)
      qed
    qed
    have "subseq (xs @ ms) (xs @ inboxes w2 ?q @ H)"
      by (rule list_emb_append_mono) (simp_all add: ms(2))
    also have "subseq (xs @ inboxes w2 ?q @ H) (xs @ (inboxes w1 ?q @ heard X chs (tick w1)) @ H)"
      using B by (intro list_emb_append_mono subseq_order.order_refl) simp
    also have "xs @ (inboxes w1 ?q @ heard X chs (tick w1)) @ H = A @ heard X chs (tick w1) @ H" by (simp add: xs(1))
    also have "subseq \<dots> ((inboxes w ?q @ heard X chs (tick w + 2)) @ heard X chs (tick w1) @ H)"
      using A(1) by (intro list_emb_append_mono subseq_order.order_refl)
    finally have part: "subseq (xs @ ms) ((inboxes w ?q @ heard X chs (tick w + 2)) @ heard X chs (tick w1) @ H)" .
    have "\<exists>rest. (inboxes w ?q @ heard X chs (tick w + 2)) @ heard X chs (tick w1) @ H = (xs @ ms) @ rest"
      if room: "length ((inboxes w ?q @ heard X chs (tick w + 2)) @ heard X chs (tick w1) @ H) \<le> QUEUE_MAXSIZE"
    proof -
      from room A(2) have a: "inboxes w ?q @ heard X chs (tick w + 2) = xs @ inboxes w1 ?q" by (simp add: xs(1))
      with room B arg_cong [OF a, of length] have b: "inboxes w2 ?q = inboxes w1 ?q @ heard X chs (tick w1)" by simp
      have "length (inboxes w1 ?q) \<le> length (inboxes w ?q) + length (heard X chs (tick w + 2))"
        unfolding length_append [symmetric] a by simp
      with room b ms(3) obtain rest where "inboxes w2 ?q @ H = ms @ rest" by auto
      with a b show ?thesis by auto
    qed
    with part xs(2) show ?thesis unfolding total by blast
  qed
qed



section \<open>Who may listen\<close>

text \<open>
  C31: streams are for members.  A stream of an organisation's updates opens only for a token
  that validates, from the query or the header, and whose user is a member of the
  organisation at that moment; a refused request subscribes to nothing.
\<close>

theorem stream_members_only:
  assumes "platform_ok L w" and "stream_inbox n E L S X g access_token headers w = (r, w')"
  shows "(\<exists>claims u. accepted_token L S (stream_token access_token headers) claims \<and> user_sub claims = Inr u \<and>
      entitled u g ANY_OF (member_tbl w)) \<or>
    (isl r \<and> observable w' = observable w)"
proof -
  from assms(1) have wf: "wf_members (member_tbl w)" and keys: "jwks_genuine L w"
    by (simp_all add: platform_ok_def)
  obtain rc w1 where jwt: "validate_jwt E L S (stream_token access_token headers) w = (rc, w1)" by (rule prod.exhaust)
  have "leaves observable (validate_jwt E L S (stream_token access_token headers) :: ('a app_world_scheme, _) op)"
    "leaves member_tbl (validate_jwt E L S (stream_token access_token headers) :: ('a app_world_scheme, _) op)"
    by (intro frames; simp add: observable_def)+
  from leavesD [OF this(1) jwt] leavesD [OF this(2) jwt]
  have same: "observable w1 = observable w" "member_tbl w1 = member_tbl w" .
  show ?thesis
  proof (cases rc)
    case (Inl e)
    with assms(2) jwt same show ?thesis by (auto simp: stream_inbox_def bindE_app)
  next
    case (Inr claims)
    note ok = conjunct2 [OF validate_jwt_Inr [OF jwt [unfolded Inr] keys]]
    show ?thesis
    proof (cases "user_sub claims")
      case (Inl e)
      with assms(2) jwt same \<open>rc = Inr claims\<close> show ?thesis by (auto simp: stream_inbox_def bindE_app liftS_def)
    next
      case (Inr u)
      show ?thesis
      proof (cases "entitled u g ANY_OF (member_tbl w)")
        case True
        with ok Inr show ?thesis by blast
      next
        case False
        have "refuses u g ANY_OF (thenE (require_membership_omni E u g)
            (stream_events n E X g u (Some MAX_LIFETIME_SECONDS)) :: ('a app_world_scheme, _) op)"
          by (intro refusals)
        with False wf same(2) obtain e k where "thenE (require_membership_omni E u g)
            (stream_events n E X g u (Some MAX_LIFETIME_SECONDS)) w1 = (Inl e, w1\<lparr>tick := k\<rparr>)"
          unfolding refuses_def by metis
        with assms(2) jwt same \<open>rc = Inr claims\<close> Inr show ?thesis
          by (auto simp: stream_inbox_def bindE_app liftS_def)
      qed
    qed
  qed
qed

theorem stream_members_only_witness:
  "isl (fst (stream_inbox 3 clock_env (sample_libs 0) default_settings sample_traffic ''o9'' (Some ''tok'') [] (sample_app sample_omni_tables)))"
proof -
  let ?w = "sample_app sample_omni_tables"
  have "member_tbl ?w = [membership_item ''o1'' ''ann'' OWNER 0, membership_item ''o1'' ''bob'' MEMBER 0]"
    by (simp add: sample_app_def omni_world.extend_def app_world.fields_def sample_omni_def fresh_audit_def)
  then have "\<not> entitled u ''o9'' ANY_OF (member_tbl ?w)" for u
    by (simp add: entitled_def member_of_def row_get_def)
  with stream_members_only [OF sample_app_ok [of 0] prod.collapse [symmetric], where n = 3 and E = clock_env
      and S = default_settings and X = sample_traffic and g = "''o9''" and access_token = "Some ''tok''" and headers = "[]"] show ?thesis by blast
qed

end
