(* ===== verification/A2Z_Tasks.thy ===== *)
theory A2Z_Tasks
  imports A2Z_Postgres "HOL-Library.Multiset"
begin

text \<open>
  Concurrent requests.  The server is one event loop: between two \<open>await\<close>s a coroutine runs
  alone, and at an \<open>await\<close> any other may run.  A task is a coroutine cut at its awaits.  The
  interleavings of a list of tasks are the runs of the loop; what else touches the state (other
  requests, the worker, other processes) is a relation between states.  Rules in the
  rely-guarantee style prove what every task finds when it ends.
\<close>

section \<open>Tasks\<close>

datatype ('w, 'e, 'a) task =
    Done "'e + 'a"
  | Await "'w \<Rightarrow> 'w" "'w \<Rightarrow> ('w, 'e, 'a) task"     \<comment> \<open>the state after the step, and what is left to do\<close>

definition stmt :: "('w, 'e, 'a) act \<Rightarrow> ('w, 'e, 'a) task" where
  "stmt m = Await (\<lambda>w. snd (m w)) (\<lambda>w. Done (fst (m w)))"

primrec bindT :: "('w, 'e, 'a) task \<Rightarrow> ('a \<Rightarrow> ('w, 'e, 'b) task) \<Rightarrow> ('w, 'e, 'b) task" where
  "bindT (Done r) k = (case r of Inl e \<Rightarrow> Done (Inl e) | Inr x \<Rightarrow> k x)"
| "bindT (Await g c) k = Await g (\<lambda>w. bindT (c w) k)"

text \<open>A task that runs without interruption.\<close>

primrec alone :: "('w, 'e, 'a) task \<Rightarrow> ('w, 'e, 'a) act" where
  "alone (Done r) = (\<lambda>w. (r, w))"
| "alone (Await g c) = (\<lambda>w. alone (c w) (g w))"

lemma alone_stmt [simp]: "alone (stmt m) = m"
  by (simp add: stmt_def)

lemma alone_bindT [simp]: "alone (bindT p k) = bindE (alone p) (\<lambda>x. alone (k x))"
proof (induction p)
  case (Done r)
  show ?case by (cases r) (simp_all add: bindE_def)
next
  case (Await g c)
  have "alone (bindT (c w) k) (g w) = bindE (alone (c w)) (\<lambda>x. alone (k x)) (g w)" for w
    using Await [OF rangeI] by simp
  then show ?case by (simp add: bindE_def)
qed

section \<open>Interleavings\<close>

inductive interleave ::
  "('w \<Rightarrow> 'w \<Rightarrow> bool) \<Rightarrow> ('w, 'e, 'a) task list \<times> 'w \<Rightarrow> ('w, 'e, 'a) task list \<times> 'w \<Rightarrow> bool" for R s where
  start: "interleave R s s"
| turn: "interleave R s (ps, w) \<Longrightarrow> i < length ps \<Longrightarrow> ps ! i = Await g c \<Longrightarrow> interleave R s (ps[i := c w], g w)"
| outside: "interleave R s (ps, w) \<Longrightarrow> R w w' \<Longrightarrow> interleave R s (ps, w')"

text \<open>A run by an explicit schedule: whose turn it is.\<close>

fun scheduled :: "nat list \<Rightarrow> ('w, 'e, 'a) task list \<times> 'w \<Rightarrow> ('w, 'e, 'a) task list \<times> 'w" where
  "scheduled [] s = s"
| "scheduled (i # is) (ps, w) = scheduled is
     (if i < length ps then case ps ! i of Done _ \<Rightarrow> (ps, w) | Await g c \<Rightarrow> (ps[i := c w], g w) else (ps, w))"

lemma interleave_trans: "interleave R t u \<Longrightarrow> interleave R s t \<Longrightarrow> interleave R s u"
  by (induction rule: interleave.induct) (auto intro: interleave.intros)

lemma scheduled_interleaves: "interleave R s (scheduled is s)"
proof (induction "is" s rule: scheduled.induct)
  case (2 i "is" ps w)
  have "interleave R (ps, w)
      (if i < length ps then case ps ! i of Done _ \<Rightarrow> (ps, w) | Await g c \<Rightarrow> (ps[i := c w], g w) else (ps, w))"
    by (auto intro: interleave.intros split: task.split)
  with 2 show ?case by (auto intro: interleave_trans)
qed (simp add: interleave.start)

lemma interleave_length: "interleave R s t \<Longrightarrow> length (fst t) = length (fst s)"
  by (induction rule: interleave.induct) auto

section \<open>Termination\<close>

text \<open>Every task ends: no schedule gives turns for ever.\<close>

definition left_of :: "(('w, 'e, 'a) task \<times> ('w, 'e, 'a) task) set" where
  "left_of = {(c w, Await g c) | g c w. True}"

lemma wf_left_of: "wf (left_of :: (('w, 'e, 'a) task \<times> ('w, 'e, 'a) task) set)"
proof (rule wfUNIVI)
  fix P :: "('w, 'e, 'a) task \<Rightarrow> bool" and p
  assume step: "\<forall>x. (\<forall>y. (y, x) \<in> left_of \<longrightarrow> P y) \<longrightarrow> P x"
  show "P p"
  proof (induction p)
    case (Done r)
    have "(y, Done r) \<notin> left_of" for y :: "('w, 'e, 'a) task" by (simp add: left_of_def)
    with step show ?case by blast
  next
    case (Await g c)
    have "P y" if "(y, Await g c) \<in> left_of" for y
    proof -
      from that obtain w where "y = c w" by (auto simp: left_of_def)
      with Await [OF rangeI] show ?thesis by simp
    qed
    with step show ?case by blast
  qed
qed

lemma turn_decreases:
  assumes "i < length ps" and "ps ! i = Await g c"
  shows "(mset (ps[i := c w]), mset ps) \<in> mult left_of"
proof -
  let ?I = "mset ps - {#Await g c#}"
  have "Await g c \<in># mset ps" using assms by (metis nth_mem set_mset_mset)
  then have "mset ps = ?I + {#Await g c#}" by simp
  moreover have "mset (ps[i := c w]) = ?I + {#c w#}" using assms by (simp add: mset_update)
  moreover have "(?I + {#c w#}, ?I + {#Await g c#}) \<in> mult left_of"
    by (rule one_step_implies_mult) (auto simp: left_of_def)
  ultimately show ?thesis by simp
qed

text \<open>From every state a schedule leads to the end of all tasks.\<close>

lemma tasks_end: "\<exists>is. \<forall>p\<in>set (fst (scheduled is (ps, w))). \<exists>r. p = Done r"
proof (induction "mset ps" arbitrary: ps w rule: wf_induct_rule [OF wf_mult [OF wf_left_of]])
  case 1
  show ?case
  proof (cases "\<exists>i < length ps. \<exists>g c. ps ! i = Await g c")
    case True
    then obtain i g c where i: "i < length ps" "ps ! i = Await g c" by blast
    from 1 [OF turn_decreases [OF i]] obtain "is"
      where "\<forall>p\<in>set (fst (scheduled is (ps[i := c w], g w))). \<exists>r. p = Done r" by blast
    with i show ?thesis by (intro exI [of _ "i # is"]) simp
  next
    case False
    then have "\<forall>p\<in>set ps. \<exists>r. p = Done r" by (metis in_set_conv_nth task.exhaust)
    then show ?thesis by (intro exI [of _ "[]"]) simp
  qed
qed

section \<open>Sessions\<close>

text \<open>
  A statement on a session without changes of its own sees what is committed (Postgres, read
  committed).
\<close>

definition pg_query :: "('w \<Rightarrow> 't) \<Rightarrow> (('t \<Rightarrow> 't) \<Rightarrow> 'w \<Rightarrow> 'w) \<Rightarrow> ('w, 'e, 'a) act \<Rightarrow> ('w, 'e, 'a) task" where
  "pg_query db tx_upd m = stmt (\<lambda>w. m (tx_upd (\<lambda>_. db w) w))"

lemma alone_case_option [simp]:
  "alone (case x of None \<Rightarrow> p | Some y \<Rightarrow> q y) = (case x of None \<Rightarrow> alone p | Some y \<Rightarrow> alone (q y))"
  by (cases x) simp_all

lemma bindE_cong_at:
  assumes "m w = n w" and "\<And>x v. n w = (Inr x, v) \<Longrightarrow> k x v = h x v"
  shows "bindE m k w = bindE n h w"
  using assms by (auto simp: bindE_app split: prod.split sum.split)

locale task_session = session +
  assumes tx_same: "tx w = db w \<Longrightarrow> tx_upd (\<lambda>_. db w) w = w"
begin

lemma alone_query: "tx w = db w \<Longrightarrow> alone (pg_query db tx_upd m) w = m w"
  by (simp add: pg_query_def tx_same)

text \<open>Reading keeps a session without changes.\<close>

lemma alone_read_at:
  assumes "tx w = db w" and "leaves (\<lambda>w. (db w, tx w)) m"
    and "\<And>x v. m w = (Inr x, v) \<Longrightarrow> tx v = db v \<Longrightarrow> db v = db w \<Longrightarrow> k x v = h x v"
  shows "bindE (alone (pg_query db tx_upd m)) k w = bindE m h w"
proof (rule bindE_cong_at)
  show "alone (pg_query db tx_upd m) w = m w" by (rule alone_query [OF assms(1)])
  fix x v
  assume run: "m w = (Inr x, v)"
  from leavesD [OF assms(2) run] assms(1) assms(3) [OF run] show "k x v = h x v" by simp
qed

lemma alone_read:
  assumes "tx w = db w" and "leaves (\<lambda>w. (db w, tx w)) m" and "\<And>x v. tx v = db v \<Longrightarrow> k x v = h x v"
  shows "bindE (alone (pg_query db tx_upd m)) k w = bindE m h w"
  using assms by (intro alone_read_at) auto

end

section \<open>Steps that do not clash\<close>

text \<open>Time goes on, and no violated constraint is reported.\<close>

definition tidy :: "('z world_scheme, 'a) op \<Rightarrow> bool" where
  "tidy m \<longleftrightarrow> (\<forall>w. tick w \<le> tick (snd (m w)) \<and> fst (m w) \<noteq> Inl (Exn (Py IntegrityError)))"

named_theorems tidying \<open>actions that report no violated constraint\<close>

lemma tidyD: "tidy m \<Longrightarrow> m w = (r, w') \<Longrightarrow> tick w \<le> tick w' \<and> r \<noteq> Inl (Exn (Py IntegrityError))"
  by (metis tidy_def fst_conv snd_conv)

lemma tidy_bind [tidying]:
  assumes "tidy m" and "\<And>x. tidy (k x)"
  shows "tidy (bindE m k)"
  unfolding tidy_def
proof
  fix w
  obtain r w1 where m: "m w = (r, w1)" by (rule prod.exhaust)
  show "tick w \<le> tick (snd (bindE m k w)) \<and> fst (bindE m k w) \<noteq> Inl (Exn (Py IntegrityError))"
  proof (cases r)
    case (Inl e)
    with tidyD [OF assms(1) m] show ?thesis by (simp add: bindE_app m)
  next
    case (Inr x)
    have "tick w \<le> tick w1" using tidyD [OF assms(1) m] by simp
    moreover have "tick w1 \<le> tick (snd (k x w1)) \<and> fst (k x w1) \<noteq> Inl (Exn (Py IntegrityError))"
      using assms(2) unfolding tidy_def by blast
    ultimately show ?thesis using Inr by (simp add: bindE_app m)
  qed
qed

lemma tidy_then [tidying]: "tidy m \<Longrightarrow> tidy k \<Longrightarrow> tidy (thenE m k)"
  by (simp add: thenE_def tidy_bind)

lemma tidy_basic [tidying]:
  "tidy (ret x)" "tidy (getsE f)" "e \<noteq> Exn (Py IntegrityError) \<Longrightarrow> tidy (raise e)"
  "(\<And>w. tick (g w) = tick w) \<Longrightarrow> tidy (modifyE g)" "s \<noteq> Inl (Exn (Py IntegrityError)) \<Longrightarrow> tidy (liftS s)"
  "tidy next_tick" "tidy (new_uuid E)" "tidy (now_utc E)" "tidy (now_monotonic E)" "tidy (new_service_id E)"
  by (auto simp: tidy_def liftS_def new_service_id_def now_monotonic_def bindE_app split: sum.split)

lemma tidy_choice [tidying]:
  "tidy m \<Longrightarrow> (\<And>x. tidy (k x)) \<Longrightarrow> tidy (case z of None \<Rightarrow> m | Some x \<Rightarrow> k x)"
  "tidy m \<Longrightarrow> tidy n \<Longrightarrow> tidy (if b then m else n)"
  "(\<And>x y. tidy (f x y)) \<Longrightarrow> tidy (case p of (x, y) \<Rightarrow> f x y)"
  by (auto split: option.split prod.split)

lemma tidy_calls [tidying]:
  assumes "tidy m"
  shows "tidy (run_aws E m)" "tidy (run_pg E m)"
proof -
  have "outage_exn x \<noteq> Exn (Py IntegrityError)" for x by (cases x) auto
  moreover have "tick w \<le> tick (snd (m (w\<lparr>tick := Suc (tick w)\<rparr>)))" for w
    using assms unfolding tidy_def by (metis Suc_leD world.select_convs(1) world.surjective world.update_convs(1))
  ultimately show "tidy (run_aws E m)" "tidy (run_pg E m)"
    using assms by (auto simp: tidy_def run_aws_def run_pg_def bindE_app split: option.split aws_fault.split)
qed

lemma tidy_select [tidying]: "tidy (pg_select tx E f)"
  unfolding pg_select_def by (intro tidying)

section \<open>Rely and guarantee\<close>

text \<open>
  \<open>safe R Q p w\<close>: if everything else changes the state within \<open>R\<close>, then so does \<open>p\<close>, and when
  it ends, \<open>Q\<close> holds of its result and of the state from then on.
\<close>

primrec safe :: "('w \<Rightarrow> 'w \<Rightarrow> bool) \<Rightarrow> ('e + 'a \<Rightarrow> 'w \<Rightarrow> bool) \<Rightarrow> ('w, 'e, 'a) task \<Rightarrow> 'w \<Rightarrow> bool" where
  "safe R Q (Done r) = (\<lambda>w. \<forall>w'. R w w' \<longrightarrow> Q r w')"
| "safe R Q (Await g c) = (\<lambda>w. \<forall>w'. R w w' \<longrightarrow> R w' (g w') \<and> safe R Q (c w') (g w'))"

text \<open>
  \<open>only_by H C p\<close>: \<open>p\<close> does not end with a result in \<open>C\<close>, unless a step of its own makes \<open>H\<close> true
  that was false.
\<close>

primrec only_by :: "('w \<Rightarrow> bool) \<Rightarrow> ('e + 'a \<Rightarrow> bool) \<Rightarrow> ('w, 'e, 'a) task \<Rightarrow> bool" where
  "only_by H C (Done r) = (\<not> C r)"
| "only_by H C (Await g c) = (\<forall>w. only_by H C (c w) \<or> (\<not> H w \<and> H (g w)))"

lemma only_by_stmt: "(\<And>w. C (fst (m w)) \<Longrightarrow> \<not> H w \<and> H (snd (m w))) \<Longrightarrow> only_by H C (stmt m)"
  by (auto simp: stmt_def)

lemma only_by_bind:
  assumes "only_by H (\<lambda>r. \<not> isl r \<and> \<not> only_by H C (k (projr r))) p" and "\<And>e. \<not> C (Inl e)"
  shows "only_by H C (bindT p k)"
  using assms(1)
proof (induction p)
  case (Done r)
  with assms(2) show ?case by (cases r) auto
next
  case (Await g c)
  then show ?case by auto
qed

lemma only_by_weaken: "only_by H C p \<Longrightarrow> (\<And>r. D r \<Longrightarrow> C r) \<Longrightarrow> only_by H D p"
  by (induction p) auto

lemma only_by_never: "(\<And>r. \<not> C r) \<Longrightarrow> only_by H C p"
  by (induction p) auto

locale rely =
  fixes R :: "'w \<Rightarrow> 'w \<Rightarrow> bool"
  assumes rely_refl: "R w w" and rely_trans: "R u v \<Longrightarrow> R v w \<Longrightarrow> R u w"
begin

lemma safe_later: "safe R Q p w \<Longrightarrow> R w w' \<Longrightarrow> safe R Q p w'"
  by (cases p) (auto intro: rely_trans)

lemma safe_done: "safe R Q (Done r) w \<Longrightarrow> Q r w"
  using rely_refl by simp

lemma safe_stmt:
  assumes "\<And>v r v'. R w v \<Longrightarrow> m v = (r, v') \<Longrightarrow> R v v' \<and> (\<forall>v''. R v' v'' \<longrightarrow> Q r v'')"
  shows "safe R Q (stmt m) w"
  using assms [OF _ prod.collapse [symmetric]] by (auto simp: stmt_def)

lemma safe_bind:
  assumes "safe R M p w"
    and "\<And>x v. R w v \<Longrightarrow> M (Inr x) v \<Longrightarrow> safe R Q (k x) v"
    and "\<And>e v. R w v \<Longrightarrow> M (Inl e) v \<Longrightarrow> Q (Inl e) v"
  shows "safe R Q (bindT p k) w"
  using assms
proof (induction p arbitrary: w)
  case (Done r)
  show ?case
  proof (cases r)
    case (Inl e)
    with Done show ?thesis by auto
  next
    case (Inr x)
    with Done rely_refl show ?thesis by auto
  qed
next
  case (Await g c)
  have "safe R Q (bindT (c v) k) (g v)" "R v (g v)" if "R w v" for v
  proof -
    from Await.prems(1) that have s: "R v (g v)" "safe R M (c v) (g v)" by auto
    then have "R w u" if "R (g v) u" for u using that \<open>R w v\<close> rely_trans by blast
    with Await.IH [OF rangeI s(2)] Await.prems(2,3) show "safe R Q (bindT (c v) k) (g v)" by blast
    from s show "R v (g v)" by simp
  qed
  then show ?case by simp
qed

lemma safe_weaken:
  "safe R Q p w \<Longrightarrow> (\<And>r v. R w v \<Longrightarrow> Q r v \<Longrightarrow> P r v) \<Longrightarrow> safe R P p w"
proof (induction p arbitrary: w)
  case (Await g c)
  have "R v (g v) \<and> safe R P (c v) (g v)" if v: "R w v" for v
  proof -
    from Await.prems(1) v have s: "R v (g v)" "safe R Q (c v) (g v)" by auto
    with v have "R w u" if "R (g v) u" for u using that rely_trans by blast
    with Await.IH [OF rangeI s(2)] Await.prems(2) s show ?thesis by blast
  qed
  then show ?case by simp
qed auto

text \<open>Tasks that are safe stay safe, whatever the schedule.\<close>

theorem interleave_safe:
  assumes "interleave R (ps, w) (qs, w')" and "\<And>i. i < length ps \<Longrightarrow> safe R (Q i) (ps ! i) w"
  shows "R w w' \<and> length qs = length ps \<and> (\<forall>i < length qs. safe R (Q i) (qs ! i) w')"
  using assms(1)
proof (induction "(qs, w')" arbitrary: qs w' rule: interleave.induct)
  case start
  with assms(2) rely_refl show ?case by simp
next
  case (turn qs w' i g c)
  then have "safe R (Q i) (Await g c) w'" by auto
  then have step: "R w' (g w')" "safe R (Q i) (c w') (g w')" using rely_refl by auto
  with turn show ?case
    by (auto simp: nth_list_update intro: rely_trans safe_later)
next
  case (outside qs w' w'')
  then show ?case by (auto intro: rely_trans safe_later)
qed

lemma interleave_result:
  assumes "interleave R (ps, w) (qs, w')" and "\<And>i. i < length ps \<Longrightarrow> safe R (Q i) (ps ! i) w"
    and "i < length ps" and "qs ! i = Done r"
  shows "Q i r w'"
  using interleave_safe [OF assms(1,2)] assms(3,4) safe_done by metis

text \<open>Of tasks that end in \<open>C\<close> only by making \<open>H\<close> true, which stays, at most one does.\<close>

theorem interleave_once:
  assumes "interleave R (ps, w) (qs, w')" and "\<And>i. i < length ps \<Longrightarrow> safe R (Q i) (ps ! i) w"
    and "\<And>i. i < length ps \<Longrightarrow> only_by H C (ps ! i)" and "\<And>u v. R u v \<Longrightarrow> H u \<Longrightarrow> H v"
  shows "\<forall>i < length qs. \<forall>j < length qs. \<not> only_by H C (qs ! i) \<longrightarrow> \<not> only_by H C (qs ! j) \<longrightarrow> i = j \<and> H w'"
  using assms(1)
proof (induction "(qs, w')" arbitrary: qs w' rule: interleave.induct)
  case start
  with assms(3) show ?case by simp
next
  case (turn qs w' k g c)
  from interleave_safe [OF turn(1) assms(2)] turn(3,4) have "safe R (Q k) (Await g c) w'" by auto
  then have "R w' (g w')" using rely_refl by auto
  with assms(4) have "H w' \<Longrightarrow> H (g w')" by blast
  moreover have "only_by H C (c w') \<or> (\<not> H w' \<and> H (g w'))" if "only_by H C (qs ! k)" using that turn(4) by auto
  ultimately show ?case using turn(2,3) by (auto simp: nth_list_update)
next
  case (outside qs w' w'')
  with assms(4) show ?case by blast
qed

end

end
