(* ===== verification/A2Z_ReplyRace.thy ===== *)
theory A2Z_ReplyRace
  imports A2Z_Tasks A2Z_OmniDelivery
begin

text \<open>
  Replies that race: \<open>handlers.send_reply\<close> cut at its awaits, and any number of such requests
  interleaved with each other and with whatever else changes the inbox.  The handler looks for
  the deduplication key, and again when its commit violates the unique index; only the second
  look-up matters here, and it does not occur when requests come one after the other.
\<close>

section \<open>The handler as a task\<close>

abbreviation query :: "('z omni_world_scheme, 'a) op \<Rightarrow> ('z omni_world_scheme, exn, 'a) task" where
  "query \<equiv> pg_query om_db om_tx_update"

text \<open>
  From the rate limit, which does not await anything, to the end of the commit or rollback:
  the message, and the error if the commit violated a constraint.
\<close>

definition insert_reply ::
  "env \<Rightarrow> string \<Rightarrow> string \<Rightarrow> string \<Rightarrow> string \<Rightarrow> string \<Rightarrow> string option \<Rightarrow> string option
    \<Rightarrow> ('z omni_world_scheme, message \<times> exn option) op" where
  "insert_reply E org_id conversation_id user_id channel_type body_text key subject =
     thenE (check_channel_rate E org_id channel_type)
     (bindE (new_reply E org_id conversation_id user_id channel_type body_text key subject) (\<lambda>m.
     thenE (modify_om (\<lambda>t. t\<lparr>messages := messages t @ [m]\<rparr>))
     (catchE (thenE (commit_om E) (ret (m, None)))
       (\<lambda>e. if e \<noteq> Exn (Py IntegrityError) then raise e else thenE rollback_om (ret (m, Some e))))))"

definition enqueue_reply :: "env \<Rightarrow> string \<Rightarrow> message \<Rightarrow> ('z omni_world_scheme, exn, message \<times> bool) task" where
  "enqueue_reply E org_id m = stmt (thenE (enqueue_outbound E org_id (mg_id m)) (ret (m, True)))"

text \<open>The twin of a reply, whose commit came first.\<close>

definition return_twin ::
  "env \<Rightarrow> string \<Rightarrow> string \<Rightarrow> string option \<Rightarrow> exn \<Rightarrow> ('z omni_world_scheme, exn, message \<times> bool) task" where
  "return_twin E org_id conversation_id key e = (case key of
     None \<Rightarrow> Done (Inl e)
   | Some k \<Rightarrow> bindT (query (find_by_dedup_key E org_id conversation_id k)) (\<lambda>existing.
       case existing of None \<Rightarrow> Done (Inl e) | Some m \<Rightarrow> Done (Inr (m, False))))"

definition store_reply ::
  "env \<Rightarrow> string \<Rightarrow> string \<Rightarrow> string \<Rightarrow> string \<Rightarrow> string \<Rightarrow> string option \<Rightarrow> string option
    \<Rightarrow> ('z omni_world_scheme, exn, message \<times> bool) task" where
  "store_reply E org_id conversation_id user_id channel_type body_text key subject =
     bindT (query (insert_reply E org_id conversation_id user_id channel_type body_text key subject)) (\<lambda>(m, clash).
     case clash of
       None \<Rightarrow> enqueue_reply E org_id m
     | Some e \<Rightarrow> return_twin E org_id conversation_id key e)"

definition reply_task ::
  "env \<Rightarrow> string \<Rightarrow> string \<Rightarrow> string \<Rightarrow> string \<Rightarrow> string option \<Rightarrow> string option
    \<Rightarrow> ('z omni_world_scheme, exn, message \<times> bool) task" where
  "reply_task E org_id conversation_id user_id body_text client_dedup_key subject =
     bindT (stmt (require_role NON_VIEWER_ROLES E user_id org_id)) (\<lambda>_.
     bindT (query (load_conversation E org_id conversation_id)) (\<lambda>c.
     bindT (query (select_om E (\<lambda>t. row_get ci_id (cv_identity_id c) (identities t)))) (\<lambda>i.
     case i of
       None \<Rightarrow> Done (Inl (Exn (Omni ConversationNotFoundError)))
     | Some i \<Rightarrow>
     bindT (query (lookup_dedup E org_id conversation_id client_dedup_key)) (\<lambda>existing.
     case existing of
       Some m \<Rightarrow> Done (Inr (m, False))
     | None \<Rightarrow> store_reply E org_id conversation_id user_id (ci_channel_type i) body_text client_dedup_key subject))))"

section \<open>A task alone is the handler\<close>

interpretation om_task: task_session om_db om_tx om_db_update om_tx_update omni_check
proof
  fix w :: "'z omni_world_scheme"
  show "om_tx w = om_db w \<Longrightarrow> om_tx_update (\<lambda>_. om_db w) w = w" by (cases w) simp
qed

lemma alone_store:
  assumes "om_tx w = om_db w"
  shows "alone (store_reply E g i u ch body key subject) w =
    thenE (check_channel_rate E g ch)
     (bindE (new_reply E g i u ch body key subject) (\<lambda>m.
     thenE (modify_om (\<lambda>t. t\<lparr>messages := messages t @ [m]\<rparr>))
     (bindE (commit_or_twin E g i key) (\<lambda>twin.
     case twin of
       Some m' \<Rightarrow> ret (m', False)
     | None \<Rightarrow> thenE (enqueue_outbound E g (mg_id m)) (ret (m, True)))))) w"
  using assms
  by (auto simp: store_reply_def insert_reply_def return_twin_def enqueue_reply_def commit_or_twin_def om_task.alone_query
      act_apps pg_rollback_def split: prod.split sum.split option.split)

lemma alone_reply:
  fixes w :: "'z omni_world_scheme"
  assumes "om_tx w = om_db w"
  shows "alone (reply_task E g i u body key subject) w = send_reply E g i u body key subject w"
proof -
  let ?db = "\<lambda>w :: 'z omni_world_scheme. (om_db w, om_tx w)"
  have role: "leaves ?db (require_role NON_VIEWER_ROLES E u g)"
    and conv: "leaves ?db (load_conversation E g i)"
    and sel: "leaves ?db (select_om E f)" and look: "leaves ?db (lookup_dedup E g i key)"
    for f :: "omni_tables \<Rightarrow> channel_identity option"
    by (intro frames; simp)+
  show ?thesis
    unfolding reply_task_def send_reply_def alone_bindT alone_stmt alone_case_option thenE_def
  proof (rule bindE_cong_at [OF refl], rule om_task.alone_read [OF _ conv], goal_cases)
    case (1 m v)
    with leavesD [OF role 1] assms show ?case by simp
  next
    case (2 m v c v1)
    show ?case
    proof (rule om_task.alone_read [OF 2(2) sel], goal_cases)
      case (1 a v2)
      show ?case
      proof (cases a)
        case (Some i')
        have "bindE (alone (query (lookup_dedup E g i key)))
            (case_option (alone (store_reply E g i u (ci_channel_type i') body key subject)) (\<lambda>m. alone (Done (Inr (m, False))))) v2 =
          bindE (lookup_dedup E g i key) (case_option
            (thenE (check_channel_rate E g (ci_channel_type i'))
             (bindE (new_reply E g i u (ci_channel_type i') body key subject) (\<lambda>m.
             thenE (modify_om (\<lambda>t. t\<lparr>messages := messages t @ [m]\<rparr>))
             (bindE (commit_or_twin E g i key) (\<lambda>twin.
             case twin of
               Some m' \<Rightarrow> ret (m', False)
             | None \<Rightarrow> thenE (enqueue_outbound E g (mg_id m)) (ret (m, True))))))) (\<lambda>m. ret (m, False))) v2"
          by (rule om_task.alone_read [OF 1 look]) (auto simp: alone_store split: option.split)
        with Some show ?thesis by (simp add: thenE_def)
      qed simp
    qed
  qed
qed

section \<open>What happens meanwhile\<close>

text \<open>What identifies a reply, and does not change when the message is sent.\<close>

definition reply_id :: "message \<Rightarrow> string \<times> string \<times> string \<times> string option" where
  "reply_id m = (mg_id m, mg_org_id m, mg_conversation_id m, mg_dedup_key m)"

abbreviation reply_ids :: "'z omni_world_scheme \<Rightarrow> (string \<times> string \<times> string \<times> string option) set" where
  "reply_ids w \<equiv> reply_id ` set (messages (om_db w))"

text \<open>The random ids still to come are new.\<close>

definition fresh :: "env \<Rightarrow> 'z omni_world_scheme \<Rightarrow> bool" where
  "fresh E w \<longleftrightarrow> (\<forall>n\<ge>tick w. \<forall>m\<in>set (messages (om_db w)).
     mg_id m \<noteq> uuid4 E n \<and> mg_external_id m \<noteq> ''pending:'' @ uuid4 E n)"

text \<open>
  Messages and conversations are not deleted, the constraints hold, and nobody else draws the
  ids that are still to come.
\<close>

definition meanwhile :: "env \<Rightarrow> 'z omni_world_scheme \<Rightarrow> 'z omni_world_scheme \<Rightarrow> bool" where
  "meanwhile E w w' \<longleftrightarrow> tick w \<le> tick w' \<and> reply_ids w \<subseteq> reply_ids w' \<and>
     cv_id ` set (conversations (om_db w)) \<subseteq> cv_id ` set (conversations (om_db w')) \<and>
     (omni_check (om_db w) = None \<longrightarrow> omni_check (om_db w') = None) \<and> (fresh E w \<longrightarrow> fresh E w')"

interpretation race: rely "meanwhile E" for E
  by unfold_locales (simp add: meanwhile_def, unfold meanwhile_def, meson order_trans)

text \<open>A step that changes nothing committed.\<close>

lemma fresh_later: "fresh E w \<Longrightarrow> tick w \<le> tick w' \<Longrightarrow> om_db w' = om_db w \<Longrightarrow> fresh E w'"
  by (auto simp: fresh_def)

lemma meanwhile_reads: "tick w \<le> tick w' \<Longrightarrow> om_db w' = om_db w \<Longrightarrow> meanwhile E w w'"
  by (auto simp: meanwhile_def intro: fresh_later)

section \<open>Steps that do not clash\<close>

lemma parse_tidy: "bindS (to_membership u g it) (\<lambda>m. Inr (Some m)) \<noteq> Inl (Exn (Py IntegrityError))"
proof -
  have "role_json j \<noteq> Inl (Exn (Py IntegrityError))" "time_json j \<noteq> Inl (Exn (Py IntegrityError))" for j
    by (cases j; simp split: option.split)+
  then show ?thesis
    by (auto simp: to_membership_def bindS_def item_attr_def split: sum.splits option.splits)
qed

lemma one_or_none_tidy: "one_or_none rows \<noteq> Inl (Exn (Py IntegrityError))"
  by (simp add: one_or_none_def split: list.split)

lemma reply_steps_tidy [tidying]:
  "tidy (require_role roles E u g)" "tidy (load_conversation E g i)" "tidy (find_by_dedup_key E g i k)"
  "tidy (lookup_dedup E g i key)" "tidy (new_reply E g i u ch body key subject)" "tidy (enqueue_outbound E g mid)"
proof -
  show "tidy (require_role roles E u g)"
    unfolding require_role_def require_membership_omni_def get_membership_def by (intro tidying parse_tidy) simp_all
  show "tidy (load_conversation E g i)" unfolding load_conversation_def by (intro tidying) simp_all
  show *: "tidy (find_by_dedup_key E g i k)" for k unfolding find_by_dedup_key_def by (intro tidying one_or_none_tidy)
  show "tidy (lookup_dedup E g i key)" unfolding lookup_dedup_def by (intro tidying *)
  show "tidy (new_reply E g i u ch body key subject)" unfolding new_reply_def by (intro tidying)
  show "tidy (enqueue_outbound E g mid)"
    unfolding enqueue_outbound_def queue_send_def queue_url_def by (intro tidying) simp_all
qed

section \<open>What a task finds\<close>

text \<open>Reading statements.\<close>

lemma tick_begin [simp]: "tick (om_tx_update f w) = tick w" by simp

lemma read_safe:
  fixes m :: "('z omni_world_scheme, 'a) op" and w :: "'z omni_world_scheme"
  assumes "tidy m" and "leaves om_db m"
    and "\<And>x v v'. m (om_tx_update (\<lambda>_. om_db v) v) = (Inr x, v') \<Longrightarrow> meanwhile E w v \<Longrightarrow> om_db v' = om_db v \<Longrightarrow> M x v'"
    and "\<And>x u v. M x u \<Longrightarrow> meanwhile E u v \<Longrightarrow> M x v"
  shows "safe (meanwhile E) (\<lambda>r v. case r of Inl e \<Rightarrow> e \<noteq> Exn (Py IntegrityError) | Inr x \<Rightarrow> M x v) (query m) w"
  unfolding pg_query_def
proof (rule race.safe_stmt)
  fix v r v'
  assume wv: "meanwhile E w v" and run: "m (om_tx_update (\<lambda>_. om_db v) v) = (r, v')"
  from tidyD [OF assms(1) run] leavesD [OF assms(2) run]
  have v': "tick v \<le> tick v'" "r \<noteq> Inl (Exn (Py IntegrityError))" "om_db v' = om_db v" by auto
  moreover have "case r of Inl e \<Rightarrow> e \<noteq> Exn (Py IntegrityError) | Inr x \<Rightarrow> M x v''" if "meanwhile E v' v''" for v''
    using v'(2,3) assms(3) [OF _ wv] assms(4) [OF _ that] run by (cases r) auto
  ultimately show "meanwhile E v v' \<and> (\<forall>v''. meanwhile E v' v'' \<longrightarrow> (case r of Inl e \<Rightarrow> e \<noteq> Exn (Py IntegrityError) | Inr x \<Rightarrow> M x v''))"
    using meanwhile_reads by blast
qed

text \<open>A key that is taken.\<close>

definition taken :: "string \<Rightarrow> string \<Rightarrow> string \<Rightarrow> 'z omni_world_scheme \<Rightarrow> bool" where
  "taken g i k w \<longleftrightarrow> (\<exists>mid. (mid, g, i, Some k) \<in> reply_ids w)"

lemma taken_stays: "taken g i k w \<Longrightarrow> meanwhile E w w' \<Longrightarrow> taken g i k w'"
  unfolding taken_def meanwhile_def by blast

lemma dedup_keys_iff: "(g, i, k) \<in> set (dedup_keys ms) \<longleftrightarrow> (\<exists>mid. (mid, g, i, Some k) \<in> reply_id ` set ms)"
  by (force simp: dedup_keys_def reply_id_def split: option.splits)

lemma taken_iff: "taken g i k w \<longleftrightarrow> (g, i, k) \<in> set (dedup_keys (messages (om_db w)))"
  by (simp add: taken_def dedup_keys_iff)

text \<open>Adding a message.\<close>

lemma omni_check_add:
  assumes "omni_check t = None" and "mg_conversation_id m \<in> cv_id ` set (conversations t)"
    and "\<forall>m'\<in>set (messages t). mg_id m' \<noteq> mg_id m \<and> mg_external_id m' \<noteq> mg_external_id m"
  shows "omni_check (t\<lparr>messages := messages t @ [m]\<rparr>) =
    (if \<exists>k. mg_dedup_key m = Some k \<and> (mg_org_id m, mg_conversation_id m, k) \<in> set (dedup_keys (messages t))
     then Some (Exn (Py IntegrityError)) else None)"
proof -
  have "list_all (\<lambda>a. ma_message_id a \<in> set (map mg_id (messages t @ [m]))) (msg_attachments t)"
    using omni_check_None [OF assms(1)] by (auto simp: omni_references_def list_all_iff)
  moreover have "dedup_keys (messages t @ [m]) = dedup_keys (messages t) @
      (case mg_dedup_key m of None \<Rightarrow> [] | Some k \<Rightarrow> [(mg_org_id m, mg_conversation_id m, k)])"
    by (simp add: dedup_keys_def)
  ultimately show ?thesis
    using assms omni_check_None [OF assms(1)]
    by (auto simp: omni_check_def omni_unique_def omni_references_def message_key_def split: option.splits if_splits)
qed

lemma rate_tidy [tidying]: "tidy (check_channel_rate E g ch)"
proof -
  have "r \<noteq> Inl (Exn (Py IntegrityError))" if "window_step limit window now dq = (r, dq')" for limit window now dq r dq'
    using that by (auto simp: window_step_def Let_def split: if_splits list.splits)
  then have "tidy (check_and_increment E g a limit window)" for a limit window
    by (auto simp: tidy_def check_and_increment_def bindE_app now_monotonic_def Let_def split: prod.split)
  then show ?thesis unfolding check_channel_rate_def by (intro tidying)
qed

lemma new_reply_ids:
  assumes "new_reply E g i u ch body key subject w = (Inr m, w')"
  shows "mg_external_id m = ''pending:'' @ uuid4 E (tick w)" "mg_id m = uuid4 E (Suc (tick w))" "tick w' = Suc (Suc (Suc (tick w)))"
    "mg_org_id m = g" "mg_conversation_id m = i" "mg_dedup_key m = key"
  using assms by (auto simp: new_reply_def bindE_app)

text \<open>A reply drawn up between two moments, with ids of that time.\<close>

definition drawn :: "env \<Rightarrow> string \<Rightarrow> string \<Rightarrow> string option \<Rightarrow> nat \<Rightarrow> nat \<Rightarrow> message \<Rightarrow> bool" where
  "drawn E g i key a b m \<longleftrightarrow> mg_org_id m = g \<and> mg_conversation_id m = i \<and> mg_dedup_key m = key \<and>
     (\<exists>n. a \<le> n \<and> n < b \<and> mg_external_id m = ''pending:'' @ uuid4 E n) \<and> (\<exists>n. a \<le> n \<and> n < b \<and> mg_id m = uuid4 E n)"

text \<open>What the insertion does: stored (the answer may be lost), refused as a twin, or failed.\<close>

lemma insert_reply_cases:
  fixes v :: "'z omni_world_scheme"
  assumes run: "insert_reply E g i u ch body key subject (om_tx_update (\<lambda>_. om_db v) v) = (r, v')"
  obtains (stored) m where "r = Inr (m, None) \<or> (\<exists>e. r = Inl e \<and> e \<noteq> Exn (Py IntegrityError))" "drawn E g i key (tick v) (tick v') m"
      "om_db v' = (om_db v)\<lparr>messages := messages (om_db v) @ [m]\<rparr>" "omni_check (om_db v') = None" "tick v \<le> tick v'"
  | (clash) m where "r = Inr (m, Some (Exn (Py IntegrityError)))" "drawn E g i key (tick v) (tick v') m"
      "om_db v' = om_db v" "omni_check ((om_db v)\<lparr>messages := messages (om_db v) @ [m]\<rparr>) = Some (Exn (Py IntegrityError))" "tick v \<le> tick v'"
  | (failed) e where "r = Inl e" "e \<noteq> Exn (Py IntegrityError)" "om_db v' = om_db v" "tick v \<le> tick v'"
proof -
  let ?w = "om_tx_update (\<lambda>_. om_db v) v"
  have rate: "leaves om_db (check_channel_rate E g ch :: ('z omni_world_scheme, unit) op)"
      "leaves om_tx (check_channel_rate E g ch :: ('z omni_world_scheme, unit) op)"
    and draw: "leaves om_db (new_reply E g i u ch body key subject :: ('z omni_world_scheme, message) op)"
      "leaves om_tx (new_reply E g i u ch body key subject :: ('z omni_world_scheme, message) op)"
    by (intro frames; simp)+
  from run consider (limited) e where "check_channel_rate E g ch ?w = (Inl e, v')" "r = Inl e"
    | (go) w1 where "check_channel_rate E g ch ?w = (Inr (), w1)"
        "bindE (new_reply E g i u ch body key subject) (\<lambda>m. thenE (modify_om (\<lambda>t. t\<lparr>messages := messages t @ [m]\<rparr>))
         (catchE (thenE (commit_om E) (ret (m, None)))
           (\<lambda>e. if e \<noteq> Exn (Py IntegrityError) then raise e else thenE rollback_om (ret (m, Some e))))) w1 = (r, v')"
    unfolding insert_reply_def by (cases rule: thenE_cases) auto
  then show ?thesis
  proof cases
    case (limited e)
    have "om_db v' = om_db v" using leavesD [OF rate(1) limited(1)] by simp
    with limited tidyD [OF rate_tidy limited(1)] failed show ?thesis by simp
  next
    case go
    have w1: "om_db w1 = om_db v" "om_tx w1 = om_db v" "tick v \<le> tick w1"
      using leavesD [OF rate(1) go(1)] leavesD [OF rate(2) go(1)] tidyD [OF rate_tidy go(1)] by simp_all
    obtain m w2 where new: "new_reply E g i u ch body key subject w1 = (Inr m, w2)"
      by (simp add: new_reply_def bindE_app)
    have w2: "om_db w2 = om_db v" "om_tx w2 = om_db v"
      using leavesD [OF draw(1) new] leavesD [OF draw(2) new] w1 by simp_all
    let ?t = "(om_db v)\<lparr>messages := messages (om_db v) @ [m]\<rparr>"
    let ?w3 = "om_tx_update (\<lambda>_. ?t) w2"
    obtain r4 w4 where com: "commit_om E ?w3 = (r4, w4)" by (rule prod.exhaust)
    have tick: "tick w4 = Suc (tick w2)"
      using com by (auto simp: pg_commit_def run_pg_def bindE_app split: option.splits aws_fault.splits)
    have dr: "drawn E g i key (tick v) (tick v') m" "tick v \<le> tick v'" if "tick v' = tick w4"
      using new_reply_ids [OF new] w1(3) tick that
      by (auto simp: drawn_def intro: exI [of _ "tick w1"] exI [of _ "Suc (tick w1)"])
    have w3: "om_tx_update (\<lambda>t. t\<lparr>messages := messages t @ [m]\<rparr>) w2 = ?w3" using w2(2) by (cases w2) simp
    from go(2) have tail: "catchE (thenE (commit_om E) (ret (m, None)))
           (\<lambda>e. if e \<noteq> Exn (Py IntegrityError) then raise e else thenE rollback_om (ret (m, Some e))) ?w3 = (r, v')"
      by (simp add: bindE_app new thenE_app pg_modify_def w3)
    show ?thesis
      using com
    proof (cases rule: om.commit_cases)
      case committed
      with tail com have "r = Inr (m, None)" "v' = w4" by (auto simp: act_apps)
      with committed dr stored [of m] show ?thesis by simp
    next
      case (rejected e)
      show ?thesis
      proof (cases "e = Exn (Py IntegrityError)")
        case True
        with tail com rejected have "r = Inr (m, Some e)" "v' = om_tx_update (\<lambda>_. om_db w4) w4"
          by (auto simp: act_apps pg_rollback_def)
        with rejected True dr w2 clash [of m] show ?thesis by simp
      next
        case False
        with tail com rejected have "r = Inl e" "v' = w4" by (auto simp: act_apps)
        with rejected False dr w2 failed [of e] show ?thesis by simp
      qed
    next
      case failed': failed
      with tail com have "r = Inl (Exn (Py DBAPIError))" "v' = w4" by (auto simp: act_apps)
      with failed' dr w2 failed show ?thesis by simp
    next
      case lost
      with tail com have "r = Inl (Exn (Py DBAPIError))" "v' = w4" by (auto simp: act_apps)
      with lost dr stored [of m] show ?thesis by simp
    qed
  qed
qed

text \<open>What every task may count on, and what its result means.\<close>

definition inbox_ok :: "env \<Rightarrow> 'z omni_world_scheme \<Rightarrow> bool" where
  "inbox_ok E w \<longleftrightarrow> omni_check (om_db w) = None \<and> fresh E w"

definition replied :: "string \<Rightarrow> string \<Rightarrow> string option \<Rightarrow> exn + message \<times> bool \<Rightarrow> 'z omni_world_scheme \<Rightarrow> bool" where
  "replied g i key r w \<longleftrightarrow> (case r of Inl e \<Rightarrow> e \<noteq> Exn (Py IntegrityError)
     | Inr (m, created) \<Rightarrow> mg_org_id m = g \<and> mg_conversation_id m = i \<and> mg_dedup_key m = key \<and> reply_id m \<in> reply_ids w)"

lemma inbox_ok_later: "inbox_ok E w \<Longrightarrow> meanwhile E w w' \<Longrightarrow> inbox_ok E w'"
  by (simp add: inbox_ok_def meanwhile_def)

definition known :: "string \<Rightarrow> 'z omni_world_scheme \<Rightarrow> bool" where
  "known i w \<longleftrightarrow> i \<in> cv_id ` set (conversations (om_db w))"

lemma conversation_later: "known i w \<Longrightarrow> meanwhile E w w' \<Longrightarrow> known i w'"
  unfolding meanwhile_def known_def by blast

lemma stored_later: "reply_id m \<in> reply_ids w \<Longrightarrow> meanwhile E w w' \<Longrightarrow> reply_id m \<in> reply_ids w'"
  unfolding meanwhile_def by blast

lemma drawn_fresh:
  assumes "fresh E v" and "drawn E g i key (tick v) b m"
  shows "\<forall>m'\<in>set (messages (om_db v)). mg_id m' \<noteq> mg_id m \<and> mg_external_id m' \<noteq> mg_external_id m"
  using assms by (auto simp: fresh_def drawn_def)

lemma add_meanwhile:
  assumes "inj (uuid4 E)" and "tick v \<le> tick v'" and "drawn E g i key (tick v) (tick v') m"
    and "om_db v' = (om_db v)\<lparr>messages := messages (om_db v) @ [m]\<rparr>" and "omni_check (om_db v') = None"
  shows "meanwhile E v v'" "reply_id m \<in> reply_ids v'"
proof -
  have "mg_id m \<noteq> uuid4 E n" "mg_external_id m \<noteq> ''pending:'' @ uuid4 E n" if "tick v' \<le> n" for n
    using assms(1,3) that unfolding drawn_def by (metis injD leD append_same_eq same_append_eq)+
  then have "fresh E v'" if "fresh E v"
    using that assms(2,4) by (auto simp: fresh_def)
  with assms show "meanwhile E v v'" by (auto simp: meanwhile_def)
  from assms(4) show "reply_id m \<in> reply_ids v'" by simp
qed

text \<open>The insertion, under interference.\<close>

definition inserted :: "string \<Rightarrow> string \<Rightarrow> string option \<Rightarrow> exn + message \<times> exn option \<Rightarrow> 'z omni_world_scheme \<Rightarrow> bool" where
  "inserted g i key r w \<longleftrightarrow> (case r of Inl e \<Rightarrow> e \<noteq> Exn (Py IntegrityError)
     | Inr (m, None) \<Rightarrow> mg_org_id m = g \<and> mg_conversation_id m = i \<and> mg_dedup_key m = key \<and> reply_id m \<in> reply_ids w
     | Inr (m, Some e) \<Rightarrow> \<exists>k. key = Some k \<and> taken g i k w)"

lemma inserted_later: "inserted g i key r w \<Longrightarrow> meanwhile E w w' \<Longrightarrow> inserted g i key r w'"
  unfolding inserted_def using stored_later taken_stays by (fastforce split: sum.splits option.splits prod.splits)

lemma insert_safe:
  assumes "inj (uuid4 E)" and "inbox_ok E w" and "known i w"
  shows "safe (meanwhile E) (inserted g i key) (query (insert_reply E g i u ch body key subject)) w"
  unfolding pg_query_def
proof (rule race.safe_stmt)
  fix v r v'
  assume wv: "meanwhile E w v"
    and run: "insert_reply E g i u ch body key subject (om_tx_update (\<lambda>_. om_db v) v) = (r, v')"
  from inbox_ok_later [OF assms(2) wv] have ok: "omni_check (om_db v) = None" "fresh E v" by (simp_all add: inbox_ok_def)
  from conversation_later [OF assms(3) wv] have conv: "known i v" .
  from run have "meanwhile E v v' \<and> inserted g i key r v'"
  proof (cases rule: insert_reply_cases)
    case (stored m)
    from add_meanwhile [OF assms(1) stored(5,2,3,4)] stored(1,2) show ?thesis
      by (auto simp: inserted_def drawn_def)
  next
    case (clash m)
    from clash(2) conv have "mg_conversation_id m \<in> cv_id ` set (conversations (om_db v))" by (simp add: drawn_def known_def)
    from omni_check_add [OF ok(1) this drawn_fresh [OF ok(2) clash(2)]] clash(4)
    obtain k where "mg_dedup_key m = Some k" "(mg_org_id m, mg_conversation_id m, k) \<in> set (dedup_keys (messages (om_db v)))"
      by (auto split: if_splits)
    with clash have "key = Some k" "taken g i k v'" by (simp_all add: taken_iff drawn_def)
    with clash(1) meanwhile_reads [OF clash(5,3)] show ?thesis by (simp add: inserted_def)
  next
    case failed
    with meanwhile_reads show ?thesis by (auto simp: inserted_def)
  qed
  then show "meanwhile E v v' \<and> (\<forall>v''. meanwhile E v' v'' \<longrightarrow> inserted g i key r v'')"
    using inserted_later by blast
qed

lemma replied_later: "replied g i key r w \<Longrightarrow> meanwhile E w w' \<Longrightarrow> replied g i key r w'"
  unfolding replied_def using stored_later by (fastforce split: sum.splits prod.splits)

lemma done_safe: "replied g i key r w \<Longrightarrow> safe (meanwhile E) (replied g i key) (Done r) w"
  using replied_later by auto

lemma enqueue_safe:
  assumes "replied g i key (Inr (m, True)) w"
  shows "safe (meanwhile E) (replied g i key) (enqueue_reply E g m) w"
  unfolding enqueue_reply_def
proof (rule race.safe_stmt)
  fix v r and v' :: "'a omni_world_scheme"
  assume wv: "meanwhile E w v" and run: "thenE (enqueue_outbound E g (mg_id m)) (ret (m, True)) v = (r, v')"
  have "tidy (thenE (enqueue_outbound E g (mg_id m)) (ret (m, True)) :: ('a omni_world_scheme, message \<times> bool) op)"
    by (intro tidying)
  from tidyD [OF this run] have t: "tick v \<le> tick v'" "r \<noteq> Inl (Exn (Py IntegrityError))" by simp_all
  have "leaves om_db (thenE (enqueue_outbound E g (mg_id m)) (ret (m, True)) :: ('a omni_world_scheme, message \<times> bool) op)"
    by (intro frames) simp_all
  from leavesD [OF this run] have db: "om_db v' = om_db v" .
  from run have "\<And>x. r = Inr x \<Longrightarrow> x = (m, True)" by (auto simp: act_apps split: sum.splits prod.splits)
  with t(2) replied_later [OF assms wv] db have "replied g i key r v'" by (cases r) (auto simp: replied_def)
  with meanwhile_reads [OF t(1) db] replied_later
  show "meanwhile E v v' \<and> (\<forall>v''. meanwhile E v' v'' \<longrightarrow> replied g i key r v'')" by blast
qed

lemma find_rows:
  assumes "om_tx w = om_db w" and "find_by_dedup_key E g i k w = (Inr x, w')"
  shows "one_or_none (filter (\<lambda>m. mg_org_id m = g \<and> mg_conversation_id m = i \<and> mg_dedup_key m = Some k) (messages (om_db w))) = Inr x"
proof -
  from assms(2) obtain rows w1 where "select_om E (\<lambda>t. filter (\<lambda>m. mg_org_id m = g \<and> mg_conversation_id m = i \<and>
        mg_dedup_key m = Some k) (messages t)) w = (Inr rows, w1)" and x: "liftS (one_or_none rows) w1 = (Inr x, w')"
    by (auto simp: find_by_dedup_key_def bindE_Inr_iff)
  from om.select_value [OF this(1)] x assms(1) show ?thesis by (auto simp: liftS_def split: sum.splits)
qed

lemma find_taken:
  assumes "om_tx w = om_db w" and "omni_check (om_db w) = None" and "taken g i k w" and "find_by_dedup_key E g i k w = (Inr x, w')"
  shows "x \<noteq> None"
proof -
  from assms(3) obtain m where m: "m \<in> set (messages (om_db w))" "mg_org_id m = g" "mg_conversation_id m = i" "mg_dedup_key m = Some k"
    by (auto simp: taken_def reply_id_def)
  have "distinct (dedup_keys (messages (om_db w)))" using omni_check_None [OF assms(2)] by (simp add: omni_unique_def)
  from dedup_filter [OF this m] find_rows [OF assms(1,4)] show ?thesis by (auto simp: one_or_none_def)
qed

lemma find_sound:
  assumes "om_tx w = om_db w" and "find_by_dedup_key E g i k w = (Inr (Some m), w')"
  shows "replied g i (Some k) (Inr (m, False)) w"
proof -
  let ?rows = "filter (\<lambda>m. mg_org_id m = g \<and> mg_conversation_id m = i \<and> mg_dedup_key m = Some k) (messages (om_db w))"
  have "?rows = [m]" using find_rows [OF assms] by (auto simp: one_or_none_def split: list.splits)
  then have "m \<in> set ?rows" by (metis list.set_intros(1))
  then show ?thesis by (simp add: replied_def)
qed

lemma find_query_safe:
  fixes w :: "'z omni_world_scheme"
  assumes "inbox_ok E w"
  shows "safe (meanwhile E) (\<lambda>r v. case r of Inl e \<Rightarrow> e \<noteq> Exn (Py IntegrityError)
      | Inr x \<Rightarrow> (\<forall>m. x = Some m \<longrightarrow> replied g i (Some k) (Inr (m, False)) v) \<and> (taken g i k w \<longrightarrow> x \<noteq> None))
    (query (find_by_dedup_key E g i k)) w"
proof (rule read_safe)
  show "leaves om_db (find_by_dedup_key E g i k :: ('z omni_world_scheme, message option) op)" by (intro frames) simp
  show "(\<forall>m. x = Some m \<longrightarrow> replied g i (Some k) (Inr (m, False)) v) \<and> (taken g i k w \<longrightarrow> x \<noteq> None)"
    if "(\<forall>m. x = Some m \<longrightarrow> replied g i (Some k) (Inr (m, False)) u) \<and> (taken g i k w \<longrightarrow> x \<noteq> None)" "meanwhile E u v" for x u v
    using that replied_later by blast
  fix x and v v' :: "'z omni_world_scheme"
  assume run: "find_by_dedup_key E g i k (om_tx_update (\<lambda>_. om_db v) v) = (Inr x, v')" and wv: "meanwhile E w v" and db: "om_db v' = om_db v"
  have "replied g i (Some k) (Inr (m, False)) v'" if "x = Some m" for m
    using find_sound [OF _ run [unfolded that]] db by (simp add: replied_def)
  moreover have "x \<noteq> None" if "taken g i k w"
    using find_taken [OF _ _ _ run] taken_stays [OF that wv] inbox_ok_later [OF assms wv]
    by (simp add: taken_def inbox_ok_def)
  ultimately show "(\<forall>m. x = Some m \<longrightarrow> replied g i (Some k) (Inr (m, False)) v') \<and> (taken g i k w \<longrightarrow> x \<noteq> None)" by blast
qed (rule tidying)

lemma twin_safe:
  assumes "inbox_ok E w" and "key = Some k" and "taken g i k w"
  shows "safe (meanwhile E) (replied g i key) (return_twin E g i key e) w"
  unfolding return_twin_def assms(2) option.case
proof (rule race.safe_bind [OF find_query_safe [OF assms(1)]])
  fix x v
  assume "case Inr x of Inl e \<Rightarrow> e \<noteq> Exn (Py IntegrityError)
      | Inr x \<Rightarrow> (\<forall>m. x = Some m \<longrightarrow> replied g i (Some k) (Inr (m, False)) v) \<and> (taken g i k w \<longrightarrow> x \<noteq> None)"
  with assms(3) show "safe (meanwhile E) (replied g i (Some k)) (case x of None \<Rightarrow> Done (Inl e) | Some m \<Rightarrow> Done (Inr (m, False))) v"
    by (cases x) (simp_all only: option.case sum.case, simp, intro done_safe, simp)
qed (simp add: replied_def)

lemma store_safe:
  assumes "inj (uuid4 E)" and "inbox_ok E w" and "known i w"
  shows "safe (meanwhile E) (replied g i key) (store_reply E g i u ch body key subject) w"
  unfolding store_reply_def
proof (rule race.safe_bind [OF insert_safe [OF assms]], clarify)
  fix m clash v
  assume wv: "meanwhile E w v" and ins: "inserted g i key (Inr (m, clash)) v"
  show "safe (meanwhile E) (replied g i key) (case clash of None \<Rightarrow> enqueue_reply E g m | Some e \<Rightarrow> return_twin E g i key e) v"
  proof (cases clash)
    case None
    with ins have "replied g i key (Inr (m, True)) v" by (simp add: inserted_def replied_def)
    from enqueue_safe [OF this] None show ?thesis by simp
  next
    case (Some e)
    with ins obtain k where "key = Some k" "taken g i k v" by (auto simp: inserted_def)
    from twin_safe [OF inbox_ok_later [OF assms(2) wv] this] Some show ?thesis by simp
  qed
qed (simp add: inserted_def replied_def)

lemma load_safe:
  fixes w :: "'z omni_world_scheme"
  shows "safe (meanwhile E) (\<lambda>r v. case r of Inl e \<Rightarrow> e \<noteq> Exn (Py IntegrityError) | Inr c \<Rightarrow> known i v)
    (query (load_conversation E g i)) w"
proof (rule read_safe)
  show "leaves om_db (load_conversation E g i :: ('z omni_world_scheme, conversation) op)" by (intro frames) simp
  fix c and v v' :: "'z omni_world_scheme"
  assume "load_conversation E g i (om_tx_update (\<lambda>_. om_db v) v) = (Inr c, v')" and db: "om_db v' = om_db v"
  then obtain x w1 where x: "select_om E (\<lambda>t. row_get cv_id i (conversations t)) (om_tx_update (\<lambda>_. om_db v) v) = (Inr x, w1)"
    and "x \<noteq> None" by (auto simp: load_conversation_def bindE_Inr_iff split: option.splits)
  with om.select_value [OF x] obtain c' where "row_get cv_id i (conversations (om_db v)) = Some c'" by auto
  from row_get_SomeD [OF this] db show "known i v'" by (auto simp: known_def)
next
  fix c :: conversation and u v :: "'z omni_world_scheme"
  assume "known i u" "meanwhile E u v"
  then show "known i v" by (rule conversation_later)
qed (rule tidying)

lemma quiet_safe:
  fixes w :: "'z omni_world_scheme" and m :: "('z omni_world_scheme, 'a) op"
  assumes "tidy m" and "leaves om_db m" and "\<And>v. tick (f v) = tick v" "\<And>v. om_db (f v) = om_db v"
  shows "safe (meanwhile E) (\<lambda>r v. r \<noteq> Inl (Exn (Py IntegrityError))) (stmt (\<lambda>w. m (f w))) w"
proof (rule race.safe_stmt)
  fix v r v'
  assume "m (f v) = (r, v')"
  from tidyD [OF assms(1) this] leavesD [OF assms(2) this] assms(3,4) [of v]
  show "meanwhile E v v' \<and> (\<forall>v''. meanwhile E v' v'' \<longrightarrow> r \<noteq> Inl (Exn (Py IntegrityError)))"
    by (simp add: meanwhile_reads)
qed

lemmas quiet_stmt = quiet_safe [where f = "\<lambda>w. w", OF _ _ refl refl]
lemmas quiet_query = quiet_safe [where f = "\<lambda>w. om_tx_update (\<lambda>_. om_db w) w", folded pg_query_def, simplified]

text \<open>The first look-up.\<close>

lemma lookup_safe:
  fixes w :: "'z omni_world_scheme"
  assumes "inbox_ok E w"
  shows "safe (meanwhile E) (\<lambda>r v. case r of Inl e \<Rightarrow> e \<noteq> Exn (Py IntegrityError)
      | Inr x \<Rightarrow> \<forall>m. x = Some m \<longrightarrow> replied g i key (Inr (m, False)) v) (query (lookup_dedup E g i key)) w"
proof (cases key)
  case None
  have "leaves om_db (ret None :: ('z omni_world_scheme, message option) op)" by (rule frames)
  then show ?thesis
    unfolding lookup_dedup_def None option.case by (rule read_safe [OF tidy_basic(1)]) (auto intro: replied_later)
next
  case (Some k)
  show ?thesis
    unfolding lookup_dedup_def Some option.case
    by (rule race.safe_weaken [OF find_query_safe [OF assms]]) (auto split: sum.splits)
qed

lemma reply_safe:
  fixes w :: "'z omni_world_scheme"
  assumes "inj (uuid4 E)" and "inbox_ok E w"
  shows "safe (meanwhile E) (replied g i key) (reply_task E g i u body key subject) w"
proof -
  have none: "replied g i key (Inl e) v" if "Inl e \<noteq> (Inl (Exn (Py IntegrityError)) :: exn + 'b)" for e and v :: "'z omni_world_scheme"
    using that by (simp add: replied_def)
  have role: "leaves om_db (require_role NON_VIEWER_ROLES E u g :: ('z omni_world_scheme, membership) op)"
    and sel: "leaves om_db (select_om E f :: ('z omni_world_scheme, channel_identity option) op)" for f
    by (intro frames; simp)+
  show ?thesis
    unfolding reply_task_def
  proof (rule race.safe_bind [OF quiet_stmt [OF reply_steps_tidy(1) role]], rule race.safe_bind [OF load_safe],
      rule race.safe_bind [OF quiet_query [OF tidy_select sel]], goal_cases)
    case (1 m v c v1 a v2)
    have ok: "inbox_ok E v2" using inbox_ok_later assms(2) 1(1,3,5) by blast
    from 1(4) have conv: "known i v2" using conversation_later 1(5) by auto
    show ?case
    proof (cases a)
      case None
      then show ?thesis by (simp add: replied_def)
    next
      case (Some i')
      have "safe (meanwhile E) (replied g i key) (bindT (query (lookup_dedup E g i key)) (\<lambda>existing.
          case existing of Some m \<Rightarrow> Done (Inr (m, False))
          | None \<Rightarrow> store_reply E g i u (ci_channel_type i') body key subject)) v2"
      proof (rule race.safe_bind [OF lookup_safe [OF ok]])
        fix x v
        assume "meanwhile E v2 v" and x: "case Inr x of Inl e \<Rightarrow> e \<noteq> Exn (Py IntegrityError)
            | Inr x \<Rightarrow> \<forall>m. x = Some m \<longrightarrow> replied g i key (Inr (m, False)) v"
        with store_safe [OF assms(1) inbox_ok_later [OF ok] conversation_later [OF conv]]
        show "safe (meanwhile E) (replied g i key) (case x of Some m \<Rightarrow> Done (Inr (m, False))
            | None \<Rightarrow> store_reply E g i u (ci_channel_type i') body key subject) v"
          by (cases x) (simp_all only: option.case sum.case, rule done_safe, simp)
      qed (simp add: replied_def)
      with Some show ?thesis by simp
    qed
  qed (auto simp: replied_def)
qed

section \<open>One winner\<close>

text \<open>The results that say: I stored the message of this key.\<close>

definition winner :: "string \<Rightarrow> string \<Rightarrow> string \<Rightarrow> exn + message \<times> bool \<Rightarrow> bool" where
  "winner g i k r \<longleftrightarrow> (\<exists>m. r = Inr (m, True) \<and> mg_org_id m = g \<and> mg_conversation_id m = i \<and> mg_dedup_key m = Some k)"

lemma winner_simps [simp]: "\<not> winner g i k (Inl e)" "\<not> winner g i k (Inr (m, False))"
  by (simp_all add: winner_def)

lemma only_by_reads: "(\<And>x. only_by H (winner g i k) (f x)) \<Longrightarrow> only_by H (winner g i k) (bindT p f)"
  by (rule only_by_bind) (auto intro: only_by_never)

lemma twin_only: "only_by H (winner g i k) (return_twin E g' i' key e)"
  unfolding return_twin_def by (auto split: option.split intro!: only_by_reads)

lemma insert_only:
  "only_by (taken g i k) (\<lambda>r. \<exists>m. r = Inr (m, None) \<and> mg_org_id m = g \<and> mg_conversation_id m = i \<and> mg_dedup_key m = Some k)
     (query (insert_reply E g' i' u ch body key subject))"
  unfolding pg_query_def
proof (rule only_by_stmt)
  fix w :: "'a omni_world_scheme"
  let ?ins = "insert_reply E g' i' u ch body key subject (om_tx_update (\<lambda>_. om_db w) w)"
  assume "\<exists>m. fst ?ins = Inr (m, None) \<and> mg_org_id m = g \<and> mg_conversation_id m = i \<and> mg_dedup_key m = Some k"
  then obtain m where m: "fst ?ins = Inr (m, None)" "mg_org_id m = g" "mg_conversation_id m = i" "mg_dedup_key m = Some k" by blast
  from prod.collapse [symmetric, of ?ins] show "\<not> taken g i k w \<and> taken g i k (snd ?ins)"
  proof (cases rule: insert_reply_cases)
    case (stored m')
    with m have "om_db (snd ?ins) = (om_db w)\<lparr>messages := messages (om_db w) @ [m]\<rparr>" by auto
    moreover from omni_check_None [OF stored(4)] have "distinct (dedup_keys (messages (om_db (snd ?ins))))" by (simp add: omni_unique_def)
    ultimately show ?thesis using m by (auto simp: taken_iff dedup_keys_def)
  qed (use m in auto)
qed

lemma store_only: "only_by (taken g i k) (winner g i k) (store_reply E g' i' u ch body key subject)"
  unfolding store_reply_def
proof (rule only_by_bind)
  have *: "\<not> winner g i k (Inr (m, True)) \<Longrightarrow> only_by (taken g i k) (winner g i k) (enqueue_reply E g' m)" for m
    unfolding enqueue_reply_def by (rule only_by_stmt) (auto simp: winner_def act_apps split: prod.splits sum.splits)
  show "only_by (taken g i k) (\<lambda>r. \<not> isl r \<and> \<not> only_by (taken g i k) (winner g i k)
      (case projr r of (m, None) \<Rightarrow> enqueue_reply E g' m | (m, Some e) \<Rightarrow> return_twin E g' i' key e))
     (query (insert_reply E g' i' u ch body key subject))"
  proof (rule only_by_weaken [OF insert_only])
    fix r :: "exn + message \<times> exn option"
    assume r: "\<not> isl r \<and> \<not> only_by (taken g i k) (winner g i k)
      (case projr r of (m, None) \<Rightarrow> enqueue_reply E g' m | (m, Some e) \<Rightarrow> return_twin E g' i' key e)"
    then obtain m clash where m: "r = Inr (m, clash)" by (cases r) auto
    with r have "clash = None" by (cases clash) (auto simp: twin_only)
    with r m * have "winner g i k (Inr (m, True))" by auto
    with m \<open>clash = None\<close> show "\<exists>m. r = Inr (m, None) \<and> mg_org_id m = g \<and> mg_conversation_id m = i \<and> mg_dedup_key m = Some k"
      by (simp add: winner_def)
  qed
qed simp

lemma reply_only: "only_by (taken g i k) (winner g i k) (reply_task E g' i' u body key subject)"
  unfolding reply_task_def
  by (intro only_by_reads; simp split: option.split; intro allI impI only_by_reads; simp add: store_only split: option.split)

section \<open>Racing replies\<close>

record reply_request =
  rq_org :: string
  rq_conversation :: string
  rq_user :: string
  rq_body :: string
  rq_key :: "string option"
  rq_subject :: "string option"

definition reply_of :: "env \<Rightarrow> reply_request \<Rightarrow> ('z omni_world_scheme, exn, message \<times> bool) task" where
  "reply_of E q = reply_task E (rq_org q) (rq_conversation q) (rq_user q) (rq_body q) (rq_key q) (rq_subject q)"

lemma same_key_same_message:
  assumes "omni_check (om_db w) = None" and "reply_id m \<in> reply_ids w" "reply_id m' \<in> reply_ids w"
    and "mg_org_id m = mg_org_id m'" "mg_conversation_id m = mg_conversation_id m'" "mg_dedup_key m = Some k" "mg_dedup_key m' = Some k"
  shows "mg_id m = mg_id m'"
proof -
  from assms(2,3) obtain x x' where x: "x \<in> set (messages (om_db w))" "reply_id x = reply_id m"
    and x': "x' \<in> set (messages (om_db w))" "reply_id x' = reply_id m'" by (metis imageE)
  have d: "distinct (dedup_keys (messages (om_db w)))" using omni_check_None [OF assms(1)] by (simp add: omni_unique_def)
  from dedup_filter [OF d x(1) refl refl, of k] dedup_filter [OF d x'(1) refl refl, of k] x(2) x'(2) assms(4-7)
  have "x = x'" by (simp add: reply_id_def)
  with x(2) x'(2) show ?thesis by (simp add: reply_id_def)
qed

text \<open>
  C13: racing replies.  A reply request cut at its awaits is the handler when nothing
  interrupts it.  Let any number of them run, interleaved in any way with each other and with
  whatever deletes no message: none reports a violated constraint, whatever failed; those of
  one conversation with one deduplication key that return, return one and the same message,
  which is stored; and at most one of them says that it created it.
\<close>

theorem reply_race_safe:
  fixes w :: "'z omni_world_scheme"
  assumes "inj (uuid4 E)" and "inbox_ok E w" and "interleave (meanwhile E) (map (reply_of E) qs, w) (ps, w')"
    and "a < length qs" "b < length qs" and "rq_org (qs ! a) = rq_org (qs ! b)" "rq_conversation (qs ! a) = rq_conversation (qs ! b)"
    and "rq_key (qs ! a) = Some k" "rq_key (qs ! b) = Some k"
  shows "(\<forall>v :: 'z omni_world_scheme. om_tx v = om_db v \<longrightarrow> alone (reply_of E (qs ! a)) v =
      send_reply E (rq_org (qs ! a)) (rq_conversation (qs ! a)) (rq_user (qs ! a)) (rq_body (qs ! a)) (Some k) (rq_subject (qs ! a)) v) \<and>
    ps ! a \<noteq> Done (Inl (Exn (Py IntegrityError))) \<and>
    (\<forall>m c. ps ! a = Done (Inr (m, c)) \<longrightarrow> reply_id m \<in> reply_ids w' \<and>
       mg_org_id m = rq_org (qs ! a) \<and> mg_conversation_id m = rq_conversation (qs ! a) \<and> mg_dedup_key m = Some k \<and>
       (\<forall>m' c'. ps ! b = Done (Inr (m', c')) \<longrightarrow> mg_id m' = mg_id m \<and> (c \<and> c' \<longrightarrow> a = b)))"
proof -
  let ?g = "rq_org (qs ! a)" and ?i = "rq_conversation (qs ! a)"
  have safe: "safe (meanwhile E) (replied (rq_org (qs ! j)) (rq_conversation (qs ! j)) (rq_key (qs ! j))) (map (reply_of E) qs ! j) w"
    if "j < length (map (reply_of E) qs)" for j
    using reply_safe [OF assms(1,2)] that by (simp add: reply_of_def)
  have only: "only_by (taken ?g ?i k) (winner ?g ?i k) (map (reply_of E) qs ! j)" if "j < length (map (reply_of E) qs)" for j
    using that by (simp add: reply_of_def reply_only)
  note ended = race.interleave_result [OF assms(3) safe] and until_end = race.interleave_safe [OF assms(3) safe]
  from until_end have w': "inbox_ok E w'" "length ps = length qs" using inbox_ok_later [OF assms(2)] by auto
  have res: "replied (rq_org (qs ! j)) (rq_conversation (qs ! j)) (rq_key (qs ! j)) r w'" if "j < length qs" "ps ! j = Done r" for j r
    using ended [of j] that by simp
  have once: "\<forall>x < length ps. \<forall>y < length ps. \<not> only_by (taken ?g ?i k) (winner ?g ?i k) (ps ! x) \<longrightarrow>
      \<not> only_by (taken ?g ?i k) (winner ?g ?i k) (ps ! y) \<longrightarrow> x = y \<and> taken ?g ?i k w'"
    by (rule race.interleave_once [OF assms(3) safe only]) (auto intro: taken_stays)
  have one: "a = b" if "ps ! a = Done (Inr (m, c))" "ps ! b = Done (Inr (m', c'))" "c \<and> c'" for m c m' c'
  proof -
    have "winner ?g ?i k (Inr (m, c))" "winner ?g ?i k (Inr (m', c'))"
      using res [OF assms(4) that(1)] res [OF assms(5) that(2)] that(3) assms(6-9) by (simp_all add: replied_def winner_def)
    then have "\<not> only_by (taken ?g ?i k) (winner ?g ?i k) (ps ! a)" "\<not> only_by (taken ?g ?i k) (winner ?g ?i k) (ps ! b)"
      using that(1,2) by simp_all
    with once assms(4,5) w'(2) show ?thesis by simp
  qed
  have same: "mg_id m' = mg_id m" if "ps ! a = Done (Inr (m, c))" "ps ! b = Done (Inr (m', c'))" for m c m' c'
    using res [OF assms(4) that(1)] res [OF assms(5) that(2)] assms(6-9) w'(1)
    by (intro same_key_same_message [of w']) (auto simp: replied_def inbox_ok_def)
  have clean: "ps ! a \<noteq> Done (Inl (Exn (Py IntegrityError)))"
    using res [OF assms(4)] by (auto simp: replied_def)
  have handler: "alone (reply_of E (qs ! a)) v = send_reply E ?g ?i (rq_user (qs ! a)) (rq_body (qs ! a)) (Some k) (rq_subject (qs ! a)) v"
    if "om_tx v = om_db v" for v :: "'z omni_world_scheme"
    using alone_reply [OF that] assms(8) by (simp add: reply_of_def)
  have stored: "reply_id m \<in> reply_ids w'" "mg_org_id m = ?g" "mg_conversation_id m = ?i" "mg_dedup_key m = Some k"
    if "ps ! a = Done (Inr (m, c))" for m c
    using res [OF assms(4) that] assms(8) by (simp_all add: replied_def)
  show ?thesis
    by (intro conjI allI impI; (rule clean | erule handler | erule stored | erule (1) same | erule (2) one))
qed

text \<open>Two requests that both looked for the key before either stored its message.\<close>

definition sample_reply :: "string \<Rightarrow> reply_request" where
  "sample_reply body = \<lparr>rq_org = ''o1'', rq_conversation = ''c1'', rq_user = ''ann'', rq_body = body, rq_key = Some ''k1'', rq_subject = None\<rparr>"

definition reply_race :: "(omni_world, exn, message \<times> bool) task list \<times> omni_world" where
  "reply_race = scheduled [0, 0, 0, 0, 1, 1, 1, 1, 0, 1, 0, 1]
     (map (reply_of sample_env) [sample_reply ''hello'', sample_reply ''hello''], sample_omni sample_omni_tables)"

definition created :: "('w, 'e, 'b \<times> bool) task \<Rightarrow> bool option" where
  "created p = (case p of Done (Inr (m, c)) \<Rightarrow> Some c | _ \<Rightarrow> None)"

lemma created_Some: "created p = Some c \<Longrightarrow> \<exists>m. p = Done (Inr (m, c))"
  by (auto simp: created_def split: task.splits sum.splits)

lemma reply_race_runs: "map created (fst reply_race) = [Some True, Some False]"
  unfolding reply_race_def by code_simp

theorem reply_race_safe_witness:
  "\<exists>m m'. fst reply_race = [Done (Inr (m, True)), Done (Inr (m', False))] \<and> mg_id m' = mg_id m \<and> reply_id m \<in> reply_ids (snd reply_race)"
proof -
  let ?qs = "[sample_reply ''hello'', sample_reply ''hello'']"
  have inj: "inj (uuid4 sample_env)" by (simp add: inj_def sample_env_def show_nat_inject)
  have ok: "inbox_ok sample_env (sample_omni sample_omni_tables)"
    by (simp add: inbox_ok_def fresh_def sample_env_def omni_check_def omni_unique_def omni_references_def fits32_def
        identity_key_def message_key_def dedup_keys_def sample_rows)
  have run: "interleave (meanwhile sample_env) (map (reply_of sample_env) ?qs, sample_omni sample_omni_tables) (fst reply_race, snd reply_race)"
    unfolding prod.collapse reply_race_def by (rule scheduled_interleaves)
  obtain m m' where res: "fst reply_race = [Done (Inr (m, True)), Done (Inr (m', False))]"
    using reply_race_runs created_Some by (auto simp: map_eq_Cons_conv) blast
  from reply_race_safe [OF inj ok run, of 0 1 "''k1''"] res show ?thesis by (auto simp: sample_reply_def)
qed

end
