(* ===== verification/A2Z_ClaimRace.thy ===== *)
theory A2Z_ClaimRace
  imports A2Z_ReplyRace
begin

text \<open>
  Assignments that race: \<open>claim\<close> and \<open>reassign\<close> of \<open>services/omnichannel/routing.py\<close> cut at
  their awaits.  The row of the conversation is not locked, and \<open>_record_assignment\<close> writes the
  assignee it was given whatever the row says by then.
\<close>

section \<open>The handlers as tasks\<close>

text \<open>
  The flush of \<open>conversation.assigned_user_id = u\<close>: SQLAlchemy writes the attributes whose value
  differs from what was read, and nothing if the assignee is the one that was read.
\<close>

definition assign_row :: "conversation \<Rightarrow> string \<Rightarrow> omni_tables \<Rightarrow> omni_tables" where
  "assign_row c u t = (if cv_assigned_user_id c = Some u then t
     else t\<lparr>conversations := row_upd cv_id (cv_id c) (\<lambda>r. r\<lparr>cv_assigned_user_id := Some u\<rparr>) (conversations t)\<rparr>)"

definition store_assignment ::
  "env \<Rightarrow> conversation \<Rightarrow> string \<Rightarrow> string \<Rightarrow> string \<Rightarrow> ('z omni_world_scheme, unit) op" where
  "store_assignment E c assigned_user_id assigned_by reason =
     bindE (new_uuid E) (\<lambda>row_id.
     bindE (now_utc E) (\<lambda>now.
     thenE (modify_om (\<lambda>t. (assign_row c assigned_user_id t)\<lparr>assignments := assignments t @
        [\<lparr>as_id = row_id, as_org_id = cv_org_id c, as_conversation_id = cv_id c,
          as_assigned_user_id = assigned_user_id, as_assigned_by = assigned_by,
          as_reason = reason, as_created_at = now\<rparr>]\<rparr>))
     (commit_om E)))"

definition report_assignment ::
  "env \<Rightarrow> conversation \<Rightarrow> string \<Rightarrow> string \<Rightarrow> string \<Rightarrow> ('z omni_world_scheme, exn, unit) task" where
  "report_assignment E c assigned_user_id assigned_by reason =
     (let update = [(''type'', JStr ''conversation.assigned''), (''conversation_id'', JStr (cv_id c)),
                    (''assigned_user_id'', JStr assigned_user_id)]
      in
      bindT (stmt (log_audit E (cv_org_id c) assigned_by (ActStr ''conversation.assigned'') ''conversation'' (cv_id c)
         [(''assigned_user_id'', JStr assigned_user_id), (''reason'', JStr reason)])) (\<lambda>_.
      bindT (stmt (publish_event E (cv_org_id c) ''conversation.assigned''
         [(''conversation_id'', JStr (cv_id c)), (''assigned_user_id'', JStr assigned_user_id),
          (''assigned_by'', JStr assigned_by), (''reason'', JStr reason)] ''a2z.omnichannel'')) (\<lambda>_.
      stmt (thenE (publish_update (cv_org_id c) (org_channel (cv_org_id c)) update)
        (publish_update (cv_org_id c) (user_channel assigned_user_id) update)))))"

definition assign_task ::
  "env \<Rightarrow> conversation \<Rightarrow> string \<Rightarrow> string \<Rightarrow> string \<Rightarrow> ('z omni_world_scheme, exn, conversation) task" where
  "assign_task E c assigned_user_id assigned_by reason =
     bindT (query (store_assignment E c assigned_user_id assigned_by reason)) (\<lambda>_.
     bindT (report_assignment E c assigned_user_id assigned_by reason) (\<lambda>_.
     Done (Inr (c\<lparr>cv_assigned_user_id := Some assigned_user_id\<rparr>))))"

definition claim_task ::
  "env \<Rightarrow> string \<Rightarrow> string \<Rightarrow> string \<Rightarrow> ('z omni_world_scheme, exn, conversation) task" where
  "claim_task E org_id conversation_id user_id =
     bindT (stmt (require_role NON_VIEWER_ROLES E user_id org_id)) (\<lambda>_.
     bindT (query (load_conversation E org_id conversation_id)) (\<lambda>c.
     if cv_assigned_user_id c = Some user_id then Done (Inr c)
     else if cv_assigned_user_id c \<noteq> None then Done (Inl (Exn (Omni ConversationAlreadyAssignedError)))
     else assign_task E c user_id user_id ''claim''))"

definition reassign_task ::
  "env \<Rightarrow> string \<Rightarrow> string \<Rightarrow> string \<Rightarrow> string \<Rightarrow> ('z omni_world_scheme, exn, conversation) task" where
  "reassign_task E org_id conversation_id actor_user_id assignee_user_id =
     bindT (stmt (require_role ADMIN_ROLES E actor_user_id org_id)) (\<lambda>_.
     bindT (stmt (require_membership_omni E assignee_user_id org_id)) (\<lambda>_.
     bindT (query (load_conversation E org_id conversation_id)) (\<lambda>c.
     assign_task E c assignee_user_id actor_user_id ''reassign'')))"

section \<open>A task alone is the handler\<close>

lemma load_found: "load_conversation E g i w = (Inr c, w') \<Longrightarrow> c \<in> set (conversations (om_tx w)) \<and> cv_id c = i"
proof -
  assume "load_conversation E g i w = (Inr c, w')"
  then obtain x w1 where x: "select_om E (\<lambda>t. row_get cv_id i (conversations t)) w = (Inr x, w1)" and "x = Some c"
    by (auto simp: load_conversation_def bindE_Inr_iff split: option.splits if_splits)
  with om.select_value [OF x] show ?thesis using row_get_SomeD by fastforce
qed

lemma assign_row_self:
  assumes "omni_check t = None" and "c \<in> set (conversations t)" and "conversations t' = conversations t"
  shows "assign_row c u t' = save_conversation (c\<lparr>cv_assigned_user_id := Some u\<rparr>) t'"
proof -
  have "inj_on cv_id (set (conversations t))" using omni_check_None [OF assms(1)] by (simp add: omni_unique_def distinct_map)
  with assms(2) have one: "r = c" if "r \<in> set (conversations t)" "cv_id r = cv_id c" for r using that by (auto dest: inj_onD)
  have "map (\<lambda>r. if cv_id r = cv_id c then r\<lparr>cv_assigned_user_id := Some u\<rparr> else r) (conversations t) =
      map (\<lambda>r. if cv_id r = cv_id c then c\<lparr>cv_assigned_user_id := Some u\<rparr> else r) (conversations t)"
    using one by (intro map_cong) auto
  moreover have "map (\<lambda>r. if cv_id r = cv_id c then c\<lparr>cv_assigned_user_id := Some u\<rparr> else r) (conversations t) = conversations t"
    if "cv_assigned_user_id c = Some u"
  proof -
    from that have "c\<lparr>cv_assigned_user_id := Some u\<rparr> = c" by (cases c) simp
    with one show ?thesis by (intro map_idI) auto
  qed
  ultimately show ?thesis
    using assms(3) by (cases t') (simp add: assign_row_def save_conversation_def row_upd_def)
qed

lemma alone_assign:
  fixes w :: "'z omni_world_scheme"
  assumes rest: "om_tx w = om_db w" and ok: "omni_check (om_db w) = None" and c: "c \<in> set (conversations (om_db w))"
  shows "alone (assign_task E c u b reason) w = record_assignment E c u b reason w"
proof -
  let ?row = "\<lparr>as_id = uuid4 E (tick w), as_org_id = cv_org_id c, as_conversation_id = cv_id c, as_assigned_user_id = u,
      as_assigned_by = b, as_reason = reason, as_created_at = utcnow E (Suc (tick w))\<rparr>"
  let ?new = "\<lambda>f t. (f t)\<lparr>assignments := assignments t @ [?row]\<rparr>" and ?w = "w\<lparr>tick := Suc (Suc (tick w))\<rparr>"
  have "om_tx_update (?new (assign_row c u)) ?w = om_tx_update (?new (save_conversation (c\<lparr>cv_assigned_user_id := Some u\<rparr>))) ?w"
    using rest assign_row_self [OF ok c refl] by (cases w) simp
  then show ?thesis
    unfolding assign_task_def report_assignment_def store_assignment_def record_assignment_def Let_def
    by (simp add: om_task.alone_query [OF rest] bindE_app thenE_app pg_modify_def liftS_def split: prod.split sum.split)
qed

lemma alone_claim:
  fixes w :: "'z omni_world_scheme"
  assumes "om_tx w = om_db w" and "omni_check (om_db w) = None"
  shows "alone (claim_task E g i u) w = claim E g i u w"
proof -
  let ?db = "\<lambda>w :: 'z omni_world_scheme. (om_db w, om_tx w)"
  have role: "leaves ?db (require_role NON_VIEWER_ROLES E u g)" and load: "leaves ?db (load_conversation E g i)"
    by (intro frames; simp)+
  show ?thesis
    unfolding claim_task_def claim_def alone_bindT alone_stmt thenE_def
  proof (rule bindE_cong_at [OF refl], rule om_task.alone_read_at [OF _ load], goal_cases)
    case (1 m v)
    with leavesD [OF role 1] assms show ?case by simp
  next
    case (2 m v c v1)
    have "om_tx v = om_db v" "om_db v = om_db w" using leavesD [OF role 2(1)] assms(1) by simp_all
    with load_found [OF 2(2)] 2(3,4) assms(2) show ?case by (simp add: alone_assign)
  qed
qed

lemma alone_reassign:
  fixes w :: "'z omni_world_scheme"
  assumes "om_tx w = om_db w" and "omni_check (om_db w) = None"
  shows "alone (reassign_task E g i a u) w = reassign E g i a u w"
proof -
  let ?db = "\<lambda>w :: 'z omni_world_scheme. (om_db w, om_tx w)"
  have role: "leaves ?db (require_role ADMIN_ROLES E a g)" and member: "leaves ?db (require_membership_omni E u g)"
    and load: "leaves ?db (load_conversation E g i)"
    by (intro frames; simp)+
  show ?thesis
    unfolding reassign_task_def reassign_def alone_bindT alone_stmt thenE_def
  proof (rule bindE_cong_at [OF refl], rule bindE_cong_at [OF refl], rule om_task.alone_read_at [OF _ load], goal_cases)
    case (1 m v m' v')
    with leavesD [OF role 1(1)] leavesD [OF member 1(2)] assms show ?case by simp
  next
    case (2 m v m' v' c v1)
    have "om_tx v' = om_db v'" "om_db v' = om_db w"
      using leavesD [OF role 2(1)] leavesD [OF member 2(2)] assms(1) by simp_all
    with load_found [OF 2(3)] 2(4,5) assms(2) show ?case by (simp add: alone_assign)
  qed
qed

section \<open>What happens meanwhile\<close>

definition history_of :: "string \<Rightarrow> omni_tables \<Rightarrow> assignment list" where
  "history_of i t = filter (\<lambda>a. as_conversation_id a = i) (assignments t)"

text \<open>The assignee of every conversation is the one of the last row of its history.\<close>

definition assignee_recorded :: "omni_tables \<Rightarrow> bool" where
  "assignee_recorded t \<longleftrightarrow> (\<forall>c\<in>set (conversations t). cv_assigned_user_id c =
     (if history_of (cv_id c) t = [] then None else Some (as_assigned_user_id (last (history_of (cv_id c) t)))))"

definition routing_sound :: "omni_tables \<Rightarrow> bool" where
  "routing_sound t \<longleftrightarrow> omni_check t = None \<and> assignee_recorded t"

text \<open>History is not rewritten, and what is sound stays so.\<close>

definition history_grows :: "omni_tables \<Rightarrow> omni_tables \<Rightarrow> bool" where
  "history_grows t t' \<longleftrightarrow> prefix (assignments t) (assignments t') \<and> (routing_sound t \<longrightarrow> routing_sound t')"

definition routed :: "'z omni_world_scheme \<Rightarrow> 'z omni_world_scheme \<Rightarrow> bool" where
  "routed w w' \<longleftrightarrow> history_grows (om_db w) (om_db w')"

interpretation routing: rely routed
  by unfold_locales (auto simp: routed_def history_grows_def)

lemma routed_same: "om_db w' = om_db w \<Longrightarrow> routed w w'"
  by (simp add: routed_def history_grows_def)

lemma assign_sound:
  assumes "cv_assigned_user_id c \<noteq> Some u" and "as_conversation_id a = cv_id c" "as_assigned_user_id a = u"
    and t': "t' = (assign_row c u t)\<lparr>assignments := assignments t @ [a]\<rparr>" and "omni_check t' = None"
  shows "history_grows t t'"
proof -
  have hist: "history_of j t' = history_of j t @ (if j = cv_id c then [a] else [])" for j
    using assms(2) by (simp add: history_of_def t')
  have convs: "conversations t' = row_upd cv_id (cv_id c) (\<lambda>r. r\<lparr>cv_assigned_user_id := Some u\<rparr>) (conversations t)"
    using assms(1) by (simp add: t' assign_row_def)
  have "assignee_recorded t'" if "assignee_recorded t"
    using that assms(3) by (auto simp: assignee_recorded_def hist convs row_upd_def)
  with assms(5) show ?thesis by (auto simp: history_grows_def routing_sound_def t')
qed

text \<open>Storing an assignment: stored (the answer may be lost), or failed.\<close>

lemma store_assignment_cases:
  fixes v :: "'z omni_world_scheme"
  assumes run: "store_assignment E c u b reason (om_tx_update (\<lambda>_. om_db v) v) = (r, v')"
  obtains (stored) a where "as_conversation_id a = cv_id c" "as_assigned_user_id a = u"
      "om_db v' = (assign_row c u (om_db v))\<lparr>assignments := assignments (om_db v) @ [a]\<rparr>" "omni_check (om_db v') = None"
  | (failed) e where "r = Inl e" "om_db v' = om_db v"
proof -
  let ?row = "\<lparr>as_id = uuid4 E (tick v), as_org_id = cv_org_id c, as_conversation_id = cv_id c, as_assigned_user_id = u,
      as_assigned_by = b, as_reason = reason, as_created_at = utcnow E (Suc (tick v))\<rparr>"
  let ?t = "(assign_row c u (om_db v))\<lparr>assignments := assignments (om_db v) @ [?row]\<rparr>"
  let ?w = "om_tx_update (\<lambda>_. ?t) (v\<lparr>tick := Suc (Suc (tick v))\<rparr>)"
  have "commit_om E ?w = (r, v')"
    using run by (simp add: store_assignment_def bindE_app thenE_app pg_modify_def comp_def)
  then show ?thesis
  proof (cases rule: om.commit_cases)
    case committed
    then show ?thesis by (intro stored [of ?row]) simp_all
  next
    case lost
    then show ?thesis by (intro stored [of ?row]) simp_all
  qed (auto intro: failed)
qed

section \<open>What a claim finds\<close>

text \<open>A claim that returns: the caller's conversation, and a row of the history that says so.\<close>

definition claimed :: "string \<Rightarrow> string \<Rightarrow> exn + conversation \<Rightarrow> 'z omni_world_scheme \<Rightarrow> bool" where
  "claimed i u r w \<longleftrightarrow> (\<forall>c. r = Inr c \<longrightarrow> cv_id c = i \<and> cv_assigned_user_id c = Some u \<and>
     (\<exists>a\<in>set (history_of i (om_db w)). as_assigned_user_id a = u))"

lemma history_later: "a \<in> set (history_of i (om_db w)) \<Longrightarrow> routed w w' \<Longrightarrow> a \<in> set (history_of i (om_db w'))"
  by (auto simp: history_of_def routed_def history_grows_def dest: set_mono_prefix)

lemma claimed_error [simp]: "claimed i u (Inl e) w"
  by (simp add: claimed_def)

lemma claimed_later: "claimed i u r w \<Longrightarrow> routed w w' \<Longrightarrow> claimed i u r w'"
  unfolding claimed_def using history_later by blast

lemma claimed_done: "claimed i u r w \<Longrightarrow> safe routed (claimed i u) (Done r) w"
  using claimed_later by auto

lemma quiet_routed:
  fixes m :: "('z omni_world_scheme, 'a) op"
  assumes "leaves om_db m"
  shows "safe routed (\<lambda>r v. True) (stmt m) w"
  by (rule routing.safe_stmt) (simp add: routed_same leavesD [OF assms])

lemma report_routed: "safe routed (\<lambda>r v. True) (report_assignment E c u b reason) w"
  unfolding report_assignment_def Let_def
  by (intro routing.safe_bind [OF quiet_routed] quiet_routed frames) simp_all

lemma store_routed:
  assumes "cv_assigned_user_id c \<noteq> Some u"
  shows "safe routed (\<lambda>r v. \<forall>x. r = Inr x \<longrightarrow> (\<exists>a\<in>set (history_of (cv_id c) (om_db v)). as_assigned_user_id a = u))
    (query (store_assignment E c u b reason)) w"
  unfolding pg_query_def
proof (rule routing.safe_stmt)
  fix v r and v' :: "'a omni_world_scheme"
  assume "store_assignment E c u b reason (om_tx_update (\<lambda>_. om_db v) v) = (r, v')"
  then have "routed v v' \<and> (\<forall>x. r = Inr x \<longrightarrow> (\<exists>a\<in>set (history_of (cv_id c) (om_db v')). as_assigned_user_id a = u))"
  proof (cases rule: store_assignment_cases)
    case (stored a)
    from assign_sound [OF assms stored] stored show ?thesis by (simp add: routed_def history_of_def)
  qed (simp add: routed_same)
  then show "routed v v' \<and> (\<forall>v''. routed v' v'' \<longrightarrow>
      (\<forall>x. r = Inr x \<longrightarrow> (\<exists>a\<in>set (history_of (cv_id c) (om_db v'')). as_assigned_user_id a = u)))"
    using history_later by blast
qed

lemma assign_routed:
  assumes "cv_assigned_user_id c \<noteq> Some u"
  shows "safe routed (claimed (cv_id c) u) (assign_task E c u b reason) w"
  unfolding assign_task_def
proof (rule routing.safe_bind [OF store_routed [OF assms]])
  fix x v
  assume "\<forall>y. Inr x = Inr y \<longrightarrow> (\<exists>a\<in>set (history_of (cv_id c) (om_db v)). as_assigned_user_id a = u)"
  then have row: "claimed (cv_id c) u (Inr (c\<lparr>cv_assigned_user_id := Some u\<rparr>)) v" by (simp add: claimed_def)
  show "safe routed (claimed (cv_id c) u)
      (bindT (report_assignment E c u b reason) (\<lambda>_. Done (Inr (c\<lparr>cv_assigned_user_id := Some u\<rparr>)))) v"
    by (rule routing.safe_bind [OF report_routed]) (rule claimed_done [OF claimed_later [OF row]], simp_all)
qed simp

lemma claim_routed:
  fixes w :: "'z omni_world_scheme"
  assumes "routing_sound (om_db w)"
  shows "safe routed (claimed i u) (claim_task E g i u) w"
  unfolding claim_task_def
proof (rule routing.safe_bind [OF quiet_routed])
  show "leaves om_db (require_role NON_VIEWER_ROLES E u g :: ('z omni_world_scheme, membership) op)" by (intro frames) simp_all
  fix x v
  assume wv: "routed w v"
  have load: "safe routed (\<lambda>r v. \<forall>c. r = Inr c \<longrightarrow> cv_id c = i \<and> (cv_assigned_user_id c = Some u \<longrightarrow> claimed i u (Inr c) v))
      (query (load_conversation E g i)) v"
    unfolding pg_query_def
  proof (rule routing.safe_stmt)
    fix v1 r v2
    assume vv: "routed v v1" and run: "load_conversation E g i (om_tx_update (\<lambda>_. om_db v1) v1) = (r, v2)"
    have "leaves om_db (load_conversation E g i :: ('z omni_world_scheme, conversation) op)" by (intro frames) simp_all
    from leavesD [OF this run] have db: "om_db v2 = om_db v1" by simp
    have ok: "assignee_recorded (om_db v1)"
      using assms wv vv by (simp add: routed_def history_grows_def routing_sound_def)
    have "cv_id c = i \<and> (cv_assigned_user_id c = Some u \<longrightarrow> claimed i u (Inr c) v2)" if "r = Inr c" for c
      using load_found [OF run [unfolded that]] ok last_in_set [of "history_of i (om_db v1)"]
      by (auto simp: claimed_def db assignee_recorded_def split: if_splits)
    then show "routed v1 v2 \<and> (\<forall>v3. routed v2 v3 \<longrightarrow> (\<forall>c. r = Inr c \<longrightarrow> cv_id c = i \<and>
        (cv_assigned_user_id c = Some u \<longrightarrow> claimed i u (Inr c) v3)))"
      using routed_same [OF db] claimed_later by blast
  qed
  show "safe routed (claimed i u) (bindT (query (load_conversation E g i)) (\<lambda>c.
     if cv_assigned_user_id c = Some u then Done (Inr c)
     else if cv_assigned_user_id c \<noteq> None then Done (Inl (Exn (Omni ConversationAlreadyAssignedError)))
     else assign_task E c u u ''claim'')) v"
  proof (rule routing.safe_bind [OF load], goal_cases)
    case (1 c v1)
    then show ?case
      using assign_routed [of c u] by (auto simp: claimed_done simp del: safe.simps)
  qed simp
qed simp

section \<open>Racing claims\<close>

definition claim_of :: "env \<Rightarrow> string \<times> string \<times> string \<Rightarrow> ('z omni_world_scheme, exn, conversation) task" where
  "claim_of E q = (case q of (org_id, conversation_id, user_id) \<Rightarrow> claim_task E org_id conversation_id user_id)"


definition confirmed_for :: "('w, exn, conversation) task \<Rightarrow> string option" where
  "confirmed_for p = (case p of Done (Inr c) \<Rightarrow> cv_assigned_user_id c | _ \<Rightarrow> None)"

definition routing_of :: "string \<Rightarrow> 'z omni_world_scheme \<Rightarrow> string option list \<times> string list" where
  "routing_of i w = (map cv_assigned_user_id (filter (\<lambda>c. cv_id c = i) (conversations (om_db w))),
     map as_assigned_user_id (history_of i (om_db w)))"

text \<open>Two claims that both read the conversation before either was stored.\<close>

definition claim_race :: "(omni_world, exn, conversation) task list \<times> omni_world" where
  "claim_race = scheduled [0, 0, 1, 1, 0, 1, 0, 0, 0, 1, 1, 1]
     (map (claim_of sample_env) [(''o1'', ''c1'', ''ann''), (''o1'', ''c1'', ''bob'')], sample_omni sample_omni_tables)"

text \<open>Both are told that the conversation is theirs.\<close>

lemma both_claims_succeed:
  "(case claim_race of (ps, w) \<Rightarrow> (map confirmed_for ps, routing_of ''c1'' w)) =
     ([Some ''ann'', Some ''bob''], ([Some ''bob''], [''ann'', ''bob'']))"
  unfolding claim_race_def by code_simp

text \<open>
  A reassignment to the assignee that was read writes a row of the history and not the
  conversation: here the history ends with \<open>bob\<close> and the conversation is \<open>ann\<close>'s.
\<close>

lemma history_diverges:
  "(case scheduled [0, 0, 0, 1, 1, 1, 1, 1, 1, 1, 0, 0, 0, 0]
      ([reassign_task sample_env ''o1'' ''c2'' ''ann'' ''bob'', reassign_task sample_env ''o1'' ''c2'' ''ann'' ''ann''],
       sample_omni sample_omni_tables) of
    (ps, w) \<Rightarrow> (map confirmed_for ps, routing_of ''c2'' w)) =
     ([Some ''bob'', Some ''ann''], ([Some ''ann''], [''bob'', ''ann'', ''bob'']))"
  by code_simp


end
