(* ===== verification/A2Z_InvoiceRace.thy ===== *)
theory A2Z_InvoiceRace
  imports A2Z_Tasks A2Z_InvoiceService
begin

text \<open>
  Payments and voids that race: \<open>record_payment\<close> and \<open>void_invoice\<close> of
  \<open>services/invoicing/service.py\<close> cut at their awaits.  No row is locked: between the
  \<open>SELECT\<close> of an invoice and its \<open>UPDATE\<close> other requests commit, and the \<open>UPDATE\<close>, which
  SQLAlchemy restricts to the attributes that were changed, writes values computed from what
  was read.
\<close>

section \<open>The handlers as tasks\<close>

abbreviation query_inv :: "('z invoice_world_scheme, 'a) op \<Rightarrow> ('z invoice_world_scheme, exn, 'a) task" where
  "query_inv \<equiv> pg_query inv_db inv_tx_update"

text \<open>The row after \<open>UPDATE ... SET\<close> of the attributes that differ between what was read and what is flushed.\<close>

definition changed_row :: "invoice \<Rightarrow> invoice \<Rightarrow> invoice \<Rightarrow> invoice" where
  "changed_row old new row = row\<lparr>
     iv_status := (if iv_status new = iv_status old then iv_status row else iv_status new),
     iv_payment_status := (if iv_payment_status new = iv_payment_status old then iv_payment_status row else iv_payment_status new),
     iv_paid := (if iv_paid new = iv_paid old then iv_paid row else iv_paid new),
     iv_updated_at := iv_updated_at new\<rparr>"

definition update_row :: "invoice \<Rightarrow> invoice \<Rightarrow> inv_tables \<Rightarrow> inv_tables" where
  "update_row old new t = t\<lparr>invoices := row_upd iv_id (iv_id old) (changed_row old new) (invoices t)\<rparr>"

definition store_payment ::
  "env \<Rightarrow> string \<Rightarrow> string \<Rightarrow> string \<Rightarrow> payment_request \<Rightarrow> invoice \<Rightarrow> ('z invoice_world_scheme, payment) op" where
  "store_payment E org_id invoice_id user_id body iv =
     bindE (new_payment E org_id invoice_id user_id body) (\<lambda>p.
     thenE (modify_inv (\<lambda>t. t\<lparr>payments := payments t @ [p]\<rparr>))
     (thenE (modify_inv (update_row iv ((apply_payment (pr_amount body) iv)\<lparr>iv_updated_at := py_recorded_at p\<rparr>)))
     (thenE (commit_inv E) (ret p))))"

definition report_payment ::
  "env \<Rightarrow> string \<Rightarrow> string \<Rightarrow> payment_request \<Rightarrow> invoice \<Rightarrow> payment \<Rightarrow> ('z invoice_world_scheme, exn, invoice \<times> payment) task" where
  "report_payment E org_id user_id body iv p =
     bindT (query_inv (refresh_invoice E iv)) (\<lambda>iv.
     bindT (stmt (log_audit E org_id user_id (ActStr ''invoice.payment_recorded'') ''invoice'' (iv_id iv)
        [(''amount_cents'', JNum (pr_amount body)), (''payment_method'', JStr (pr_method body))])) (\<lambda>_.
     Done (Inr (iv, p))))"

definition pay_once ::
  "env \<Rightarrow> string \<Rightarrow> string \<Rightarrow> string \<Rightarrow> payment_request \<Rightarrow> invoice \<Rightarrow> ('z invoice_world_scheme, exn, invoice \<times> payment) task" where
  "pay_once E org_id invoice_id user_id body iv =
     bindT (query_inv (lookup_payment E org_id body)) (\<lambda>existing.
     case existing of
       Some p \<Rightarrow> Done (Inr (iv, p))
     | None \<Rightarrow> bindT (query_inv (store_payment E org_id invoice_id user_id body iv)) (report_payment E org_id user_id body iv))"

definition payment_task ::
  "env \<Rightarrow> string \<Rightarrow> string \<Rightarrow> string \<Rightarrow> payment_request \<Rightarrow> ('z invoice_world_scheme, exn, invoice \<times> payment) task" where
  "payment_task E org_id invoice_id user_id body =
     bindT (stmt (require_mutation_role E user_id org_id)) (\<lambda>_.
     bindT (query_inv (load_invoice E org_id invoice_id)) (\<lambda>iv.
     bindT (Done (assert_can_record_payment (iv_status iv))) (\<lambda>_.
     pay_once E org_id invoice_id user_id body iv)))"

definition store_void :: "env \<Rightarrow> invoice \<Rightarrow> ('z invoice_world_scheme, unit) op" where
  "store_void E iv = bindE (now_utc E) (\<lambda>now.
     thenE (modify_inv (update_row iv (iv\<lparr>iv_status := IS_VOID, iv_updated_at := now\<rparr>))) (commit_inv E))"

definition void_task ::
  "env \<Rightarrow> string \<Rightarrow> string \<Rightarrow> string \<Rightarrow> string \<Rightarrow> ('z invoice_world_scheme, exn, invoice) task" where
  "void_task E org_id invoice_id user_id reason =
     bindT (stmt (require_mutation_role E user_id org_id)) (\<lambda>_.
     bindT (query_inv (load_invoice E org_id invoice_id)) (\<lambda>iv.
     bindT (Done (assert_can_void (iv_status iv))) (\<lambda>_.
     bindT (query_inv (store_void E iv)) (\<lambda>_.
     bindT (query_inv (refresh_invoice E iv)) (\<lambda>iv.
     bindT (stmt (log_audit E org_id user_id (ActStr ''invoice.voided'') ''invoice'' (iv_id iv) [(''reason'', JStr reason)])) (\<lambda>_.
     Done (Inr iv)))))))"

section \<open>A task alone is the handler\<close>

interpretation inv_task: task_session inv_db inv_tx inv_db_update inv_tx_update inv_check
proof
  fix w :: "'z invoice_world_scheme"
  show "inv_tx w = inv_db w \<Longrightarrow> inv_tx_update (\<lambda>_. inv_db w) w = w" by (cases w) simp
qed

lemma alone_done [simp]: "alone (Done s) = liftS s"
  by (auto simp: liftS_def split: sum.split)

lemma update_row_self:
  assumes "inv_check t = None" and "find_invoice g i t = Some iv" and "iv_id new = iv_id iv" and "changed_row iv new iv = new"
    and "invoices t' = invoices t"
  shows "update_row iv new t' = save_invoice new t'"
proof -
  have "iv \<in> set (invoices t)" using assms(2) by (auto simp: find_invoice_def find_Some_iff)
  moreover have "inj_on iv_id (set (invoices t))" using assms(1) by (auto simp: inv_check_def distinct_map split: if_splits)
  ultimately have "r = iv" if "r \<in> set (invoices t)" "iv_id r = iv_id iv" for r using that by (auto dest: inj_onD)
  with assms(4) have "map (\<lambda>r. if iv_id r = iv_id iv then changed_row iv new r else r) (invoices t) =
      map (\<lambda>r. if iv_id r = iv_id iv then new else r) (invoices t)" by (intro map_cong) auto
  with assms(3,5) show ?thesis by (simp add: update_row_def save_invoice_def row_upd_def)
qed

lemma changed_row_self:
  "changed_row iv ((apply_payment a iv)\<lparr>iv_updated_at := n\<rparr>) iv = (apply_payment a iv)\<lparr>iv_updated_at := n\<rparr>"
  "changed_row iv (iv\<lparr>iv_status := IS_VOID, iv_updated_at := n\<rparr>) iv = iv\<lparr>iv_status := IS_VOID, iv_updated_at := n\<rparr>"
  by (simp_all add: changed_row_def apply_payment_def Let_def)

lemma load_invoice_found: "load_invoice E g i w = (Inr iv, w') \<Longrightarrow> find_invoice g i (inv_tx w) = Some iv"
proof -
  assume "load_invoice E g i w = (Inr iv, w')"
  then obtain x w1 where x: "select_inv E (find_invoice g i) w = (Inr x, w1)" and "x = Some iv"
    by (auto simp: load_invoice_def bindE_Inr_iff split: option.splits)
  with inv.select_value [OF x] show ?thesis by simp
qed

text \<open>After a commit a session has no changes of its own.\<close>

lemma committed_rest: "commit_inv E w = (Inr (), w') \<Longrightarrow> inv_tx w' = inv_db w'"
  by (cases rule: inv.commit_cases) auto

lemma store_payment_then:
  fixes w :: "'z invoice_world_scheme"
  assumes rest: "inv_tx w = inv_db w" and ok: "inv_check (inv_db w) = None" and found: "find_invoice g' i' (inv_db w) = Some iv"
    and k: "\<And>p v. inv_tx v = inv_db v \<Longrightarrow> k p v = h p v"
  shows "bindE (alone (query_inv (store_payment E g i u body iv))) k w =
    bindE (new_payment E g i u body) (\<lambda>p.
      bindE (modify_inv (\<lambda>t. t\<lparr>payments := payments t @ [p]\<rparr>)) (\<lambda>_.
      bindE (modify_inv (save_invoice ((apply_payment (pr_amount body) iv)\<lparr>iv_updated_at := py_recorded_at p\<rparr>))) (\<lambda>_.
      bindE (commit_inv E) (\<lambda>_. h p)))) w"
proof -
  obtain p w1 where new: "new_payment E g i u body w = (Inr p, w1)" by (simp add: new_payment_def bindE_app)
  have "leaves inv_tx (new_payment E g i u body :: ('z invoice_world_scheme, payment) op)"
    unfolding new_payment_def by (intro frames; simp)
  from leavesD [OF this new] rest have tx: "inv_tx w1 = inv_db w" by simp
  let ?new = "(apply_payment (pr_amount body) iv)\<lparr>iv_updated_at := py_recorded_at p\<rparr>" and ?t = "(inv_db w)\<lparr>payments := payments (inv_db w) @ [p]\<rparr>"
  have upd: "update_row iv ?new ?t = save_invoice ?new ?t"
    by (rule update_row_self [OF ok found _ changed_row_self(1)]) (simp_all add: apply_payment_def Let_def)
  let ?add = "\<lambda>t. t\<lparr>payments := payments t @ [p]\<rparr>" and ?w3 = "inv_tx_update (\<lambda>_. save_invoice ?new ?t) w1"
  have step: "inv_tx_update (update_row iv ?new \<circ> ?add) w1 = ?w3" "inv_tx_update (save_invoice ?new \<circ> ?add) w1 = ?w3"
    using tx upd by (cases w1; simp)+
  obtain r2 w2 where com: "commit_inv E ?w3 = (r2, w2)" by (rule prod.exhaust)
  have "r2 = Inr () \<Longrightarrow> k p w2 = h p w2" using k committed_rest com by blast
  then show ?thesis
    by (cases r2) (simp_all add: bindE_app thenE_app inv_task.alone_query [OF rest] store_payment_def new pg_modify_def step com)
qed

lemma store_void_then:
  fixes w :: "'z invoice_world_scheme"
  assumes rest: "inv_tx w = inv_db w" and ok: "inv_check (inv_db w) = None" and found: "find_invoice g' i' (inv_db w) = Some iv"
    and k: "\<And>v. inv_tx v = inv_db v \<Longrightarrow> k () v = h v"
  shows "bindE (alone (query_inv (store_void E iv))) k w =
    bindE (now_utc E) (\<lambda>now.
      bindE (modify_inv (save_invoice (iv\<lparr>iv_status := IS_VOID, iv_updated_at := now\<rparr>))) (\<lambda>_.
      bindE (commit_inv E) (\<lambda>_. h))) w"
proof -
  let ?w = "w\<lparr>tick := Suc (tick w)\<rparr>" and ?new = "iv\<lparr>iv_status := IS_VOID, iv_updated_at := utcnow E (tick w)\<rparr>"
  have upd: "update_row iv ?new (inv_db w) = save_invoice ?new (inv_db w)"
    by (rule update_row_self [OF ok found _ changed_row_self(2)]) simp_all
  have step: "inv_tx_update (update_row iv ?new) ?w = inv_tx_update (save_invoice ?new) ?w"
    using rest upd by (cases w) simp
  obtain r2 w2 where com: "commit_inv E (inv_tx_update (save_invoice ?new) ?w) = (r2, w2)" by (rule prod.exhaust)
  have "r2 = Inr () \<Longrightarrow> k () w2 = h w2" using k committed_rest com by blast
  then show ?thesis
    by (cases r2) (simp_all add: bindE_app thenE_app inv_task.alone_query [OF rest] store_void_def pg_modify_def step com)
qed

lemma alone_payment:
  fixes w :: "'z invoice_world_scheme"
  assumes "inv_tx w = inv_db w" and "inv_check (inv_db w) = None"
  shows "alone (payment_task E g i u body) w = record_payment E g i u body w"
proof -
  let ?db = "\<lambda>w :: 'z invoice_world_scheme. (inv_db w, inv_tx w)"
  have role: "leaves ?db (require_mutation_role E u g)" and load: "leaves ?db (load_invoice E g i)"
    and look: "leaves ?db (lookup_payment E g body)" and fresh: "leaves ?db (refresh_invoice E iv)" for iv
    unfolding lookup_payment_def refresh_invoice_def by (intro frames; simp)+
  show ?thesis
    unfolding payment_task_def pay_once_def report_payment_def record_payment_def alone_bindT alone_stmt alone_done alone_case_option thenE_def
  proof (rule bindE_cong_at [OF refl], rule inv_task.alone_read_at [OF _ load], goal_cases)
    case (1 m v)
    with leavesD [OF role 1] assms show ?case by simp
  next
    case (2 m v iv v1)
    have v1: "inv_db v1 = inv_db w" using leavesD [OF role 2(1)] 2(4) by simp
    have found: "find_invoice g i (inv_db v1) = Some iv"
      using load_invoice_found [OF 2(2)] leavesD [OF role 2(1)] assms(1) v1 by simp
    show ?case
    proof (rule bindE_cong_at [OF refl], goal_cases)
      case (1 x v2)
      then have v2: "v2 = v1" by (auto simp: liftS_def split: sum.splits)
      show ?case
        unfolding v2
      proof (rule inv_task.alone_read_at [OF 2(3) look], goal_cases)
        case (1 existing v3)
        show ?case
        proof (cases existing)
          case None
          show ?thesis
            unfolding None option.case
            by (rule store_payment_then [OF 1(2)], insert 1(3) v1 assms(2) found, simp, simp)
              (rule inv_task.alone_read [OF _ fresh], simp, simp add: liftS_def ret_def)
        qed (simp add: liftS_def)
      qed
    qed
  qed
qed

lemma alone_void:
  fixes w :: "'z invoice_world_scheme"
  assumes "inv_tx w = inv_db w" and "inv_check (inv_db w) = None"
  shows "alone (void_task E g i u reason) w = void_invoice E g i u reason w"
proof -
  let ?db = "\<lambda>w :: 'z invoice_world_scheme. (inv_db w, inv_tx w)"
  have role: "leaves ?db (require_mutation_role E u g)" and load: "leaves ?db (load_invoice E g i)"
    and fresh: "leaves ?db (refresh_invoice E iv)" for iv
    unfolding refresh_invoice_def by (intro frames; simp)+
  show ?thesis
    unfolding void_task_def void_invoice_def alone_bindT alone_stmt alone_done thenE_def
  proof (rule bindE_cong_at [OF refl], rule inv_task.alone_read_at [OF _ load], goal_cases)
    case (1 m v)
    with leavesD [OF role 1] assms show ?case by simp
  next
    case (2 m v iv v1)
    have v1: "inv_db v1 = inv_db w" using leavesD [OF role 2(1)] 2(4) by simp
    have found: "find_invoice g i (inv_db v1) = Some iv"
      using load_invoice_found [OF 2(2)] leavesD [OF role 2(1)] assms(1) v1 by simp
    show ?case
    proof (rule bindE_cong_at [OF refl], goal_cases)
      case (1 x v2)
      then have v2: "v2 = v1" by (auto simp: liftS_def split: sum.splits)
      show ?case
        unfolding v2
        by (rule store_void_then [OF 2(3)], simp add: v1 assms(2), rule found)
          (rule inv_task.alone_read [OF _ fresh], simp, simp add: liftS_def ret_def)
    qed
  qed
qed

section \<open>What happens meanwhile\<close>

definition pay_id :: "payment \<Rightarrow> string \<times> string \<times> string \<times> int \<times> string option" where
  "pay_id p = (py_id p, py_org_id p, py_invoice_id p, py_amount p, py_idempotency_key p)"

abbreviation pay_ids :: "'z invoice_world_scheme \<Rightarrow> (string \<times> string \<times> string \<times> int \<times> string option) set" where
  "pay_ids w \<equiv> pay_id ` set (payments (inv_db w))"

definition paid_in :: "string \<Rightarrow> string \<Rightarrow> inv_tables \<Rightarrow> int" where
  "paid_in g i t = sum_list (map py_amount (payments_of g i t))"

text \<open>No invoice counts more as paid than its payments amount to.\<close>

definition covered :: "inv_tables \<Rightarrow> bool" where
  "covered t \<longleftrightarrow> (\<forall>iv\<in>set (invoices t). iv_paid iv \<le> paid_in (iv_org_id iv) (iv_id iv) t)"

definition sound :: "inv_tables \<Rightarrow> bool" where
  "sound t \<longleftrightarrow> inv_check t = None \<and> covered t"

definition has_invoice :: "string \<Rightarrow> string \<Rightarrow> inv_tables \<Rightarrow> bool" where
  "has_invoice g i t \<longleftrightarrow> (i, g) \<in> set (map (\<lambda>iv. (iv_id iv, iv_org_id iv)) (invoices t))"

lemma update_row_ids: "has_invoice g i (update_row old new t) = has_invoice g i t"
proof -
  have "map (\<lambda>iv. (iv_id iv, iv_org_id iv)) (invoices (update_row old new t)) = map (\<lambda>iv. (iv_id iv, iv_org_id iv)) (invoices t)"
    by (simp add: update_row_def row_upd_def changed_row_def)
  then show ?thesis by (simp add: has_invoice_def del: set_map)
qed

text \<open>Payments and invoices are not deleted, and what is sound stays so.\<close>

definition ledger_grows :: "inv_tables \<Rightarrow> inv_tables \<Rightarrow> bool" where
  "ledger_grows t t' \<longleftrightarrow> pay_id ` set (payments t) \<subseteq> pay_id ` set (payments t') \<and>
     (\<forall>g i. has_invoice g i t \<longrightarrow> has_invoice g i t') \<and> (\<forall>g i. paid_in g i t \<le> paid_in g i t') \<and> (sound t \<longrightarrow> sound t')"

definition ledger :: "'z invoice_world_scheme \<Rightarrow> 'z invoice_world_scheme \<Rightarrow> bool" where
  "ledger w w' \<longleftrightarrow> ledger_grows (inv_db w) (inv_db w')"

lemma ledger_grows_refl: "ledger_grows t t"
  by (simp add: ledger_grows_def)

interpretation books: rely ledger
  by unfold_locales (simp add: ledger_def ledger_grows_refl, unfold ledger_def ledger_grows_def, meson order_trans)

lemma ledger_same: "inv_db w' = inv_db w \<Longrightarrow> ledger w w'"
  by (simp add: ledger_def ledger_grows_refl)

text \<open>Storing a payment computed from an older reading of the invoice.\<close>

lemma store_payment_sound:
  assumes "sound t" and "has_invoice g i t" and "iv_id iv = i" and "iv_paid iv \<le> paid_in g i t"
    and "py_org_id p = g" "py_invoice_id p = i" "py_amount p = a" "0 < a"
    and t': "t' = update_row iv ((apply_payment a iv)\<lparr>iv_updated_at := n\<rparr>) (t\<lparr>payments := payments t @ [p]\<rparr>)" and "inv_check t' = None"
  shows "ledger_grows t t'"
proof -
  let ?new = "(apply_payment a iv)\<lparr>iv_updated_at := n\<rparr>"
  have pays: "payments t' = payments t @ [p]" and invs: "invoices t' = row_upd iv_id i (changed_row iv ?new) (invoices t)"
    using assms(3) by (simp_all add: t' update_row_def)
  have paid: "paid_in g' i' t' = paid_in g' i' t + (if g' = g \<and> i' = i then a else 0)" for g' i'
    using assms(5-7) by (simp add: paid_in_def payments_of_def pays)
  have row: "\<exists>r\<in>set (invoices t). r' = (if iv_id r = i then changed_row iv ?new r else r)" if "r' \<in> set (invoices t')" for r'
    using that by (auto simp: invs row_upd_def)
  have org: "iv_org_id r = g" if "r \<in> set (invoices t)" "iv_id r = i" for r
  proof -
    have "inj_on iv_id (set (invoices t))" using assms(1) by (auto simp: sound_def inv_check_def distinct_map split: if_splits)
    with that assms(2) show ?thesis by (auto simp: has_invoice_def dest: inj_onD)
  qed
  have "iv_paid r' \<le> paid_in (iv_org_id r') (iv_id r') t'" if r': "r' \<in> set (invoices t')" for r'
  proof -
    obtain r where r: "r \<in> set (invoices t)" "r' = (if iv_id r = i then changed_row iv ?new r else r)" using row [OF r'] by blast
    show ?thesis
    proof (cases "iv_id r = i")
      case True
      have "iv_paid r' = iv_paid iv + a" "iv_org_id r' = g" "iv_id r' = i"
        using r True org [OF r(1)] assms(8) by (simp_all add: changed_row_def apply_payment_def Let_def)
      with assms(4) show ?thesis by (simp add: paid)
    next
      case False
      with r assms(1) show ?thesis by (auto simp: sound_def covered_def paid)
    qed
  qed
  then have "sound t'" using assms(10) by (simp add: sound_def covered_def)
  moreover have "has_invoice g' i' t'" if "has_invoice g' i' t" for g' i'
    using that unfolding t' update_row_ids by (simp add: has_invoice_def)
  ultimately show ?thesis using assms(8) by (auto simp: ledger_grows_def pays paid)
qed

lemma store_void_sound:
  assumes t': "t' = update_row iv (iv\<lparr>iv_status := IS_VOID, iv_updated_at := n\<rparr>) t" and "inv_check t' = None"
  shows "ledger_grows t t'"
proof -
  have invs: "invoices t' = row_upd iv_id (iv_id iv) (changed_row iv (iv\<lparr>iv_status := IS_VOID, iv_updated_at := n\<rparr>)) (invoices t)"
    and pays: "payments t' = payments t" by (simp_all add: t' update_row_def)
  have "paid_in g i t' = paid_in g i t" for g i by (simp add: paid_in_def payments_of_def pays)
  moreover have "has_invoice g i t' = has_invoice g i t" for g i unfolding t' by (rule update_row_ids)
  ultimately show ?thesis
    using assms(2) by (auto simp: ledger_grows_def sound_def covered_def invs pays row_upd_def changed_row_def)
qed

section \<open>What a task finds\<close>

abbreviation found_if :: "('a \<Rightarrow> 'w \<Rightarrow> bool) \<Rightarrow> exn + 'a \<Rightarrow> 'w \<Rightarrow> bool" where
  "found_if M r v \<equiv> (case r of Inl e \<Rightarrow> True | Inr x \<Rightarrow> M x v)"

lemma books_read:
  fixes m :: "('z invoice_world_scheme, 'a) op"
  assumes "leaves inv_db m"
    and "\<And>x v v'. m (inv_tx_update (\<lambda>_. inv_db v) v) = (Inr x, v') \<Longrightarrow> ledger w v \<Longrightarrow> inv_db v' = inv_db v \<Longrightarrow> M x v'"
    and "\<And>x u v. M x u \<Longrightarrow> ledger u v \<Longrightarrow> M x v"
  shows "safe ledger (found_if M) (query_inv m) w"
  unfolding pg_query_def
proof (rule books.safe_stmt)
  fix v r v'
  assume wv: "ledger w v" and run: "m (inv_tx_update (\<lambda>_. inv_db v) v) = (r, v')"
  from leavesD [OF assms(1) run] have v': "inv_db v' = inv_db v" by simp
  with assms(2) [OF _ wv] assms(3) run have "found_if M r v''" if "ledger v' v''" for v''
    using that by (cases r) auto
  with v' show "ledger v v' \<and> (\<forall>v''. ledger v' v'' \<longrightarrow> found_if M r v'')" by (simp add: ledger_same)
qed

lemma books_quiet:
  fixes m :: "('z invoice_world_scheme, 'a) op"
  assumes "leaves inv_db m"
  shows "safe ledger (\<lambda>r v. True) (stmt m) w"
  using assms by (intro books.safe_stmt) (auto dest: leavesD intro: ledger_same)

text \<open>What was read of an invoice is covered, now and later.\<close>

definition seen :: "string \<Rightarrow> string \<Rightarrow> invoice \<Rightarrow> 'z invoice_world_scheme \<Rightarrow> bool" where
  "seen g i iv w \<longleftrightarrow> iv_id iv = i \<and> has_invoice g i (inv_db w) \<and> iv_paid iv \<le> paid_in g i (inv_db w)"

lemma seen_later: "seen g i iv w \<Longrightarrow> ledger w w' \<Longrightarrow> seen g i iv w'"
  unfolding seen_def ledger_def ledger_grows_def by (meson order_trans)

lemma sound_later: "sound (inv_db w) \<Longrightarrow> ledger w w' \<Longrightarrow> sound (inv_db w')"
  by (simp add: ledger_def ledger_grows_def)

lemma load_seen:
  fixes w :: "'z invoice_world_scheme"
  assumes "sound (inv_db w)"
  shows "safe ledger (found_if (seen g i)) (query_inv (load_invoice E g i)) w"
proof (rule books_read)
  show "leaves inv_db (load_invoice E g i :: ('z invoice_world_scheme, invoice) op)" by (intro frames) simp
  fix iv and v v' :: "'z invoice_world_scheme"
  assume run: "load_invoice E g i (inv_tx_update (\<lambda>_. inv_db v) v) = (Inr iv, v')" and wv: "ledger w v" and db: "inv_db v' = inv_db v"
  have "find_invoice g i (inv_db v) = Some iv" using load_invoice_found [OF run] by simp
  then have "iv \<in> set (invoices (inv_db v))" "iv_org_id iv = g" "iv_id iv = i"
    by (auto simp: find_invoice_def find_Some_iff)
  with sound_later [OF assms wv] db show "seen g i iv v'"
    by (auto simp: seen_def sound_def covered_def has_invoice_def)
qed (rule seen_later)

definition paid_by :: "string \<Rightarrow> payment_request \<Rightarrow> payment \<Rightarrow> 'z invoice_world_scheme \<Rightarrow> bool" where
  "paid_by g body p w \<longleftrightarrow> pay_id p \<in> pay_ids w \<and> py_org_id p = g \<and>
     (\<forall>k. pr_idempotency_key body = Some k \<longrightarrow> k \<noteq> [] \<longrightarrow> py_idempotency_key p = Some k)"

lemma paid_by_later: "paid_by g body p w \<Longrightarrow> ledger w w' \<Longrightarrow> paid_by g body p w'"
  unfolding paid_by_def ledger_def ledger_grows_def by blast

lemma lookup_paid:
  fixes w :: "'z invoice_world_scheme"
  shows "safe ledger (found_if (\<lambda>x v. \<forall>p. x = Some p \<longrightarrow> paid_by g body p v)) (query_inv (lookup_payment E g body)) w"
proof (rule books_read)
  show "leaves inv_db (lookup_payment E g body :: ('z invoice_world_scheme, payment option) op)"
    unfolding lookup_payment_def by (intro frames; simp)
  fix x and v v' :: "'z invoice_world_scheme"
  assume run: "lookup_payment E g body (inv_tx_update (\<lambda>_. inv_db v) v) = (Inr x, v')" and db: "inv_db v' = inv_db v"
  show "\<forall>p. x = Some p \<longrightarrow> paid_by g body p v'"
  proof (intro allI impI)
    fix p
    assume "x = Some p"
    with run obtain k where k: "pr_idempotency_key body = Some k" and
        sel: "select_inv E (find_payment g k) (inv_tx_update (\<lambda>_. inv_db v) v) = (Inr (Some p), v')"
      by (auto simp: lookup_payment_def split: option.splits if_splits)
    from inv.select_value [OF sel] have "find_payment g k (inv_db v) = Some p" by simp
    with k db show "paid_by g body p v'" by (auto simp: paid_by_def find_payment_def find_Some_iff)
  qed
qed (auto intro: paid_by_later)

lemma store_paid:
  fixes w :: "'z invoice_world_scheme"
  assumes "sound (inv_db w)" and "seen g i iv w" and "valid_payment body"
  shows "safe ledger (found_if (paid_by g body)) (query_inv (store_payment E g i u body iv)) w"
  unfolding pg_query_def
proof (rule books.safe_stmt)
  fix r and v v' :: "'z invoice_world_scheme"
  let ?v = "inv_tx_update (\<lambda>_. inv_db v) v"
  assume wv: "ledger w v" and run: "store_payment E g i u body iv ?v = (r, v')"
  obtain p w1 where new: "new_payment E g i u body ?v = (Inr p, w1)" by (simp add: new_payment_def bindE_app)
  have p: "py_org_id p = g" "py_invoice_id p = i" "py_amount p = pr_amount body" "py_idempotency_key p = pr_idempotency_key body"
    using new by (auto simp: new_payment_def bindE_app)
  have w1: "inv_db w1 = inv_db v" "inv_tx w1 = inv_db v" using new by (auto simp: new_payment_def bindE_app)
  let ?t = "update_row iv ((apply_payment (pr_amount body) iv)\<lparr>iv_updated_at := py_recorded_at p\<rparr>)
      ((inv_db v)\<lparr>payments := payments (inv_db v) @ [p]\<rparr>)"
  have step: "inv_tx_update (update_row iv ((apply_payment (pr_amount body) iv)\<lparr>iv_updated_at := py_recorded_at p\<rparr>) \<circ>
      (\<lambda>t. t\<lparr>payments := payments t @ [p]\<rparr>)) w1 = inv_tx_update (\<lambda>_. ?t) w1"
    using w1(2) by (cases w1) simp
  obtain r2 w2 where com: "commit_inv E (inv_tx_update (\<lambda>_. ?t) w1) = (r2, w2)" by (rule prod.exhaust)
  with run have r: "v' = w2" "\<And>x. r = Inr x \<Longrightarrow> x = p \<and> r2 = Inr ()"
    by (auto simp: store_payment_def bindE_app thenE_app new pg_modify_def step split: sum.splits)
  have grows: "ledger v v'" "pay_id p \<in> pay_ids v'" if "inv_db w2 = ?t" "inv_check ?t = None"
  proof -
    from seen_later [OF assms(2) wv] have "iv_id iv = i" "has_invoice g i (inv_db v)" "iv_paid iv \<le> paid_in g i (inv_db v)"
      by (simp_all add: seen_def)
    from store_payment_sound [OF sound_later [OF assms(1) wv] this(2,1,3) p(1,2,3) _ refl that(2)] assms(3) that(1)
    show "ledger v v'" by (simp add: ledger_def valid_payment_def r(1))
    show "pay_id p \<in> pay_ids v'" by (simp add: r(1) that(1) update_row_def)
  qed
  from com have "ledger v v' \<and> found_if (paid_by g body) r v'"
  proof (cases rule: inv.commit_cases)
    case committed
    with grows r p show ?thesis by (cases r) (auto simp: paid_by_def)
  next
    case lost
    with grows r show ?thesis by (cases r) auto
  next
    case rejected
    with r w1 show ?thesis by (cases r) (auto intro: ledger_same)
  next
    case failed
    with r w1 show ?thesis by (cases r) (auto intro: ledger_same)
  qed
  then show "ledger v v' \<and> (\<forall>v''. ledger v' v'' \<longrightarrow> found_if (paid_by g body) r v'')"
    by (cases r) (auto intro: paid_by_later)
qed

lemma store_voided:
  fixes w :: "'z invoice_world_scheme"
  shows "safe ledger (\<lambda>r v. True) (query_inv (store_void E iv)) w"
  unfolding pg_query_def
proof (rule books.safe_stmt)
  fix r and v v' :: "'z invoice_world_scheme"
  let ?v = "inv_tx_update (\<lambda>_. inv_db v) v" and ?new = "iv\<lparr>iv_status := IS_VOID, iv_updated_at := utcnow E (tick v)\<rparr>"
  assume wv: "ledger w v" and run: "store_void E iv ?v = (r, v')"
  let ?w1 = "inv_tx_update (\<lambda>_. update_row iv ?new (inv_db v)) (v\<lparr>tick := Suc (tick v)\<rparr>)"
  have step: "inv_tx_update (\<lambda>_. update_row iv ?new (inv_db v)) (?v\<lparr>tick := Suc (tick v)\<rparr>) = ?w1" by (cases v) simp
  from run have "commit_inv E ?w1 = (r, v')"
    by (simp add: store_void_def bindE_app thenE_app pg_modify_def comp_def step)
  then have "ledger v v'"
  proof (cases rule: inv.commit_cases)
    case committed
    then show ?thesis using store_void_sound [OF refl, of iv _ "inv_db v"] by (simp add: ledger_def)
  next
    case lost
    then show ?thesis using store_void_sound [OF refl, of iv _ "inv_db v"] by (simp add: ledger_def)
  qed (simp_all add: ledger_same)
  then show "ledger v v' \<and> (\<forall>v''. ledger v' v'' \<longrightarrow> True)" by simp
qed

lemma invoice_ops_leave:
  "leaves inv_db (require_mutation_role E u g :: ('z invoice_world_scheme, membership) op)"
  "leaves inv_db (refresh_invoice E iv :: ('z invoice_world_scheme, invoice) op)"
  "leaves inv_db (log_audit E g u a rt ri d :: ('z invoice_world_scheme, _) op)"
  unfolding refresh_invoice_def by (intro frames; simp)+

lemma report_safe:
  fixes w :: "'z invoice_world_scheme"
  assumes "paid_by g body p w"
  shows "safe ledger (found_if (\<lambda>(iv, p). paid_by g body p)) (report_payment E g u body iv p) w"
proof -
  have refresh: "safe ledger (found_if (\<lambda>_ _. True)) (query_inv (refresh_invoice E iv)) w"
    by (rule books_read [OF invoice_ops_leave(2)]) simp_all
  show ?thesis
    unfolding report_payment_def
  proof (rule books.safe_bind [OF refresh], rule books.safe_bind [OF books_quiet [OF invoice_ops_leave(3)]], goal_cases)
    case (1 iv' v a v')
    with assms have "paid_by g body p v'" using paid_by_later by blast
    then show ?case using paid_by_later by auto
  qed simp_all
qed

lemma pay_once_safe:
  fixes w :: "'z invoice_world_scheme"
  assumes "sound (inv_db w)" and "seen g i iv w" and "valid_payment body"
  shows "safe ledger (found_if (\<lambda>(iv, p). paid_by g body p)) (pay_once E g i u body iv) w"
  unfolding pay_once_def
proof (rule books.safe_bind [OF lookup_paid])
  fix existing v
  assume v: "ledger w v" and found: "found_if (\<lambda>x v. \<forall>p. x = Some p \<longrightarrow> paid_by g body p v) (Inr existing :: exn + _) v"
  show "safe ledger (found_if (\<lambda>(iv, p). paid_by g body p)) (case existing of
       Some p \<Rightarrow> Done (Inr (iv, p))
     | None \<Rightarrow> bindT (query_inv (store_payment E g i u body iv)) (report_payment E g u body iv)) v"
  proof (cases existing)
    case (Some p)
    with found paid_by_later [of g body p v] show ?thesis by simp
  next
    case None
    have "safe ledger (found_if (\<lambda>(iv, p). paid_by g body p))
        (bindT (query_inv (store_payment E g i u body iv)) (report_payment E g u body iv)) v"
      by (rule books.safe_bind [OF store_paid [OF sound_later [OF assms(1) v] seen_later [OF assms(2) v] assms(3)]])
        (auto intro: report_safe)
    with None show ?thesis by simp
  qed
qed simp

lemma payment_safe:
  fixes w :: "'z invoice_world_scheme"
  assumes "sound (inv_db w)" and "valid_payment body"
  shows "safe ledger (found_if (\<lambda>(iv, p). paid_by g body p)) (payment_task E g i u body) w"
  unfolding payment_task_def
proof (rule books.safe_bind [OF books_quiet [OF invoice_ops_leave(1)]], rule books.safe_bind [OF load_seen], goal_cases)
  case (1 m v)
  with sound_later assms(1) show ?case by blast
next
  case (2 m v iv v1)
  have "sound (inv_db v1)" using sound_later assms(1) 2(1,3) by blast
  moreover from 2(4) have "seen g i iv v1" by simp
  ultimately have "safe ledger (found_if (\<lambda>(iv, p). paid_by g body p)) (pay_once E g i u body iv) v1"
    by (rule pay_once_safe) (rule assms(2))
  then show ?case by (cases "assert_can_record_payment (iv_status iv)") (simp, simp only: bindT.simps sum.case)
qed simp_all

lemma void_safe:
  fixes w :: "'z invoice_world_scheme"
  assumes "sound (inv_db w)"
  shows "safe ledger (\<lambda>r v. True) (void_task E g i u reason) w"
proof -
  have refresh: "safe ledger (\<lambda>r v. True) (query_inv (refresh_invoice E iv)) v" for iv and v :: "'z invoice_world_scheme"
    by (rule books.safe_weaken [OF books_read [OF invoice_ops_leave(2), where M = "\<lambda>_ _. True"]]) simp_all
  have load: "safe ledger (\<lambda>r v. True) (query_inv (load_invoice E g i)) v" for v :: "'z invoice_world_scheme"
    by (rule books.safe_weaken [OF books_read [where M = "\<lambda>_ _. True"]]) (simp_all, intro frames, simp)
  show ?thesis
    unfolding void_task_def
    by (rule books.safe_bind [OF books_quiet [OF invoice_ops_leave(1)]], rule books.safe_bind [OF load])
      (auto split: sum.split intro!: books.safe_bind [OF store_voided] books.safe_bind [OF refresh]
        books.safe_bind [OF books_quiet [OF invoice_ops_leave(3)]])
qed

section \<open>Racing payments\<close>

datatype invoice_job =
    Payment_job string string string payment_request     \<comment> \<open>organisation, invoice, user, body\<close>
  | Void_job string string string string                 \<comment> \<open>organisation, invoice, user, reason\<close>

fun job_task :: "env \<Rightarrow> invoice_job \<Rightarrow> ('z invoice_world_scheme, exn, invoice \<times> payment option) task" where
  "job_task E (Payment_job g i u body) = bindT (payment_task E g i u body) (\<lambda>(iv, p). Done (Inr (iv, Some p)))"
| "job_task E (Void_job g i u reason) = bindT (void_task E g i u reason) (\<lambda>iv. Done (Inr (iv, None)))"

text \<open>The same requests, each from beginning to end.\<close>

fun job_handler :: "env \<Rightarrow> invoice_job \<Rightarrow> ('z invoice_world_scheme, invoice \<times> payment option) op" where
  "job_handler E (Payment_job g i u body) = bindE (record_payment E g i u body) (\<lambda>(iv, p). ret (iv, Some p))"
| "job_handler E (Void_job g i u reason) = bindE (void_invoice E g i u reason) (\<lambda>iv. ret (iv, None))"

fun valid_job :: "invoice_job \<Rightarrow> bool" where
  "valid_job (Payment_job g i u body) = valid_payment body"
| "valid_job (Void_job g i u reason) = True"

lemma alone_job:
  fixes w :: "'z invoice_world_scheme"
  assumes "inv_tx w = inv_db w" and "inv_check (inv_db w) = None"
  shows "alone (job_task E j) w = job_handler E j w"
proof (cases j)
  case (Payment_job g i u body)
  show ?thesis
    unfolding Payment_job job_task.simps job_handler.simps alone_bindT
    by (rule bindE_cong_at) (auto simp: alone_payment [OF assms] liftS_def)
next
  case (Void_job g i u reason)
  show ?thesis
    unfolding Void_job job_task.simps job_handler.simps alone_bindT
    by (rule bindE_cong_at) (auto simp: alone_void [OF assms] liftS_def)
qed

text \<open>What the answer to a job says.\<close>

fun answered :: "invoice_job \<Rightarrow> exn + invoice \<times> payment option \<Rightarrow> 'z invoice_world_scheme \<Rightarrow> bool" where
  "answered (Payment_job g i u body) (Inr (iv, Some p)) w = paid_by g body p w"
| "answered (Payment_job g i u body) (Inr (iv, None)) w = False"
| "answered _ _ w = True"

lemma job_safe:
  fixes w :: "'z invoice_world_scheme"
  assumes "sound (inv_db w)" and "valid_job j"
  shows "safe ledger (answered j) (job_task E j) w"
proof (cases j)
  case (Payment_job g i u body)
  have "valid_payment body" using assms(2) Payment_job by simp
  show ?thesis
    unfolding Payment_job job_task.simps
  proof (rule books.safe_bind [OF payment_safe [OF assms(1) \<open>valid_payment body\<close>]], goal_cases)
    case (1 x v)
    then show ?case using paid_by_later by (auto split: prod.split)
  qed simp
next
  case (Void_job g i u reason)
  show ?thesis
    unfolding Void_job job_task.simps by (rule books.safe_bind [OF void_safe [OF assms(1)]]) auto
qed

lemma one_row: "length (filter P xs) \<le> 1 \<Longrightarrow> x \<in> set xs \<Longrightarrow> P x \<Longrightarrow> y \<in> set xs \<Longrightarrow> P y \<Longrightarrow> x = y"
  by (induction xs) (auto simp: filter_empty_conv split: if_splits)

lemma same_payment:
  assumes "inv_check (inv_db w) = None" and "paid_by g body p w" "paid_by g body' p' w"
    and "pr_idempotency_key body = Some k" "pr_idempotency_key body' = Some k" "k \<noteq> []"
  shows "py_id p' = py_id p"
proof -
  have key: "py_idempotency_key p = Some k" "py_idempotency_key p' = Some k" "py_org_id p = g" "py_org_id p' = g"
    using assms(2-6) by (auto simp: paid_by_def)
  from assms(2,3) obtain q q' where q: "q \<in> set (payments (inv_db w))" "pay_id q = pay_id p"
    and q': "q' \<in> set (payments (inv_db w))" "pay_id q' = pay_id p'" unfolding paid_by_def by (metis imageE)
  have "distinct (idempotency_keys (payments (inv_db w)))" using assms(1) by (simp add: inv_check_def split: if_splits)
  from one_row [OF idempotency_keys_unique [OF this, of g k] q(1) _ q'(1)] have "q = q'"
    using q(2) q'(2) key by (simp add: pay_id_def)
  with q(2) q'(2) show ?thesis by (simp add: pay_id_def)
qed

text \<open>
  C15: racing payments.  Payments and voids cut at their awaits are the handlers when nothing
  interrupts them.  Interleaved in any way with each other and with whatever deletes no
  payment or invoice and keeps the books sound, they keep them sound: the constraints hold and
  no invoice counts more as paid than was paid in.  A payment that is confirmed is stored, and
  two that are confirmed under one idempotency key of an organisation are the same payment.
\<close>

theorem payment_race_sound:
  fixes w :: "'z invoice_world_scheme"
  assumes "sound (inv_db w)" and "list_all valid_job js" and "interleave ledger (map (job_task E) js, w) (ps, w')"
  shows "sound (inv_db w') \<and>
    (\<forall>j (v :: 'z invoice_world_scheme). inv_tx v = inv_db v \<longrightarrow> inv_check (inv_db v) = None \<longrightarrow> alone (job_task E j) v = job_handler E j v) \<and>
    (\<forall>a g i u body iv p. a < length js \<longrightarrow> js ! a = Payment_job g i u body \<longrightarrow> ps ! a = Done (Inr (iv, Some p)) \<longrightarrow>
       pay_id p \<in> pay_ids w' \<and>
       (\<forall>b i' u' body' iv' p' k. b < length js \<longrightarrow> js ! b = Payment_job g i' u' body' \<longrightarrow> ps ! b = Done (Inr (iv', Some p')) \<longrightarrow>
          pr_idempotency_key body = Some k \<longrightarrow> pr_idempotency_key body' = Some k \<longrightarrow> k \<noteq> [] \<longrightarrow> py_id p' = py_id p))"
proof -
  have safe: "safe ledger (answered (js ! a)) (map (job_task E) js ! a) w" if "a < length (map (job_task E) js)" for a
    using that job_safe [OF assms(1)] assms(2) by (simp add: list_all_length)
  have sound: "sound (inv_db w')" using books.interleave_safe [OF assms(3) safe] sound_later [OF assms(1)] by blast
  have paid: "paid_by g body p w'" if "a < length js" "js ! a = Payment_job g i u body" "ps ! a = Done (Inr (iv, Some p))" for a g i u body iv p
    using books.interleave_result [OF assms(3) safe _ that(3)] that(1,2) by simp
  have check: "inv_check (inv_db w') = None" using sound by (simp add: sound_def)
  have "py_id p' = py_id p"
    if "a < length js" "js ! a = Payment_job g i u body" "ps ! a = Done (Inr (iv, Some p))"
      "b < length js" "js ! b = Payment_job g i' u' body'" "ps ! b = Done (Inr (iv', Some p'))"
      "pr_idempotency_key body = Some k" "pr_idempotency_key body' = Some k" "k \<noteq> []"
    for a b g i i' u u' body body' iv iv' p p' k
    by (rule same_payment [OF check paid [OF that(1-3)] paid [OF that(4-6)] that(7-9)])
  note same = this
  have stored: "pay_id p \<in> pay_ids w'" if "a < length js" "js ! a = Payment_job g i u body" "ps ! a = Done (Inr (iv, Some p))" for a g i u body iv p
    using paid [OF that] by (simp add: paid_by_def)
  show ?thesis
    by (intro conjI allI impI; (rule sound | erule (1) alone_job | erule (2) stored | erule (8) same))
qed

text \<open>Two payments that both read the invoice before either was stored.\<close>

definition pay_job :: "string \<Rightarrow> invoice_job" where
  "pay_job k = Payment_job ''o1'' ''i1'' ''ann'' (sample_payment\<lparr>pr_idempotency_key := Some k\<rparr>)"

definition payment_race :: "(invoice_world, exn, invoice \<times> payment option) task list \<times> invoice_world" where
  "payment_race = scheduled [0, 0, 0, 1, 1, 1, 0, 0, 0, 1, 1, 1] (map (job_task sample_env) [pay_job ''k1'', pay_job ''k2''], sample_world)"

definition confirmed :: "('w, 'e, 'a) task \<Rightarrow> bool" where
  "confirmed p = (case p of Done (Inr x) \<Rightarrow> True | _ \<Rightarrow> False)"

text \<open>Both are confirmed and stored, and the invoice counts one of them.\<close>

lemma payment_lost:
  "(case payment_race of (ps, w) \<Rightarrow> (map confirmed ps,
      map (\<lambda>p. (py_org_id p, py_invoice_id p, py_amount p)) (payments (inv_db w)),
      map (\<lambda>iv. (iv_org_id iv, iv_id iv, iv_paid iv)) (invoices (inv_db w)))) =
   ([True, True], [(''o1'', ''i1'', 100), (''o1'', ''i1'', 100)], [(''o1'', ''i1'', 100)])"
  unfolding payment_race_def by code_simp

text \<open>A void that is confirmed between the reading and the storing of a payment does not last.\<close>

lemma void_undone:
  "(case scheduled [0, 0, 0, 1, 1, 1, 1, 1, 0, 0, 0]
      (map (job_task sample_env) [pay_job ''k1'', Void_job ''o1'' ''i1'' ''ann'' ''typo''], sample_world) of
    (ps, w) \<Rightarrow> (map confirmed ps, map iv_status (invoices (inv_db w)))) = ([True, True], [IS_PARTIALLY_PAID])"
  by code_simp

theorem payment_race_sound_witness:
  "sound (inv_db (snd payment_race)) \<and> \<not> books_ok (inv_db (snd payment_race))"
proof
  let ?js = "[pay_job ''k1'', pay_job ''k2'']"
  have start: "sound (inv_db sample_world)"
    by (simp add: sound_def covered_def sample_world_def fresh_audit_def inv_check_def sample_tables_def sample_invoice_def
        idempotency_keys_def invoice_fits_def item_fits_def fits64_def paid_in_def payments_of_def)
  have valid: "list_all valid_job ?js" by (simp add: pay_job_def valid_payment_def sample_payment_def)
  have "interleave ledger (map (job_task sample_env) ?js, sample_world) (fst payment_race, snd payment_race)"
    unfolding prod.collapse payment_race_def by (rule scheduled_interleaves)
  from payment_race_sound [OF start valid this] show "sound (inv_db (snd payment_race))" by blast
  obtain ps v where race: "payment_race = (ps, v)" by (rule prod.exhaust)
  then show "\<not> books_ok (inv_db (snd payment_race))"
    using payment_lost by (auto simp: race books_ok_def balanced_def payments_total_def payments_of_def map_eq_Cons_conv)
qed

end
