(* ===== verification/A2Z_Ddl.thy ===== *)
theory A2Z_Ddl
  imports A2Z_Prelude "HOL-Library.Multiset"
begin

text \<open>
  Database schemas as data: what the migrations of the services do (\<open>alembic.op\<close> on Postgres)
  and what SQLAlchemy makes of the declarative models.  A schema is a list of tables and a
  list of indexes; a statement that Postgres rejects is \<open>None\<close>.
\<close>

section \<open>Schemas\<close>

datatype sql_type = VARCHAR | TEXT | TIMESTAMPTZ | DATE | INTEGER | BIGINT | BOOLEAN | NUMERIC nat nat | JSONB

record sql_column =
  sc_name :: string
  sc_type :: sql_type
  sc_nullable :: bool
  sc_default :: "string option"

abbreviation column :: "string \<Rightarrow> sql_type \<Rightarrow> bool \<Rightarrow> string option \<Rightarrow> sql_column" where
  "column n t nullable d \<equiv> \<lparr>sc_name = n, sc_type = t, sc_nullable = nullable, sc_default = d\<rparr>"

abbreviation now :: "string option" where "now \<equiv> Some ''now()''"
abbreviation no_default :: "string option" where "no_default \<equiv> None"

record sql_table =
  tb_name :: string
  tb_columns :: "sql_column list"
  tb_primary_key :: "string list"
  tb_uniques :: "(string \<times> string list) list"
  tb_references :: "(string \<times> string \<times> string) list"   \<comment> \<open>column, table and column referred to\<close>

text \<open>An index key: a column, a column with a direction, or an expression over a column.\<close>

datatype index_key = Plain string | Sorted string string | Over string string

fun key_column :: "index_key \<Rightarrow> string" where
  "key_column (Plain c) = c"
| "key_column (Sorted c _) = c"
| "key_column (Over c _) = c"

record sql_index =
  ix_name :: string
  ix_table :: string
  ix_method :: string
  ix_keys :: "index_key list"
  ix_unique :: bool
  ix_where :: "string option"

abbreviation btree :: "string \<Rightarrow> string \<Rightarrow> index_key list \<Rightarrow> bool \<Rightarrow> string option \<Rightarrow> sql_index" where
  "btree n t ks u cond \<equiv> \<lparr>ix_name = n, ix_table = t, ix_method = ''btree'', ix_keys = ks, ix_unique = u, ix_where = cond\<rparr>"

record schema =
  sch_tables :: "sql_table list"
  sch_indexes :: "sql_index list"

definition no_schema :: schema where "no_schema = \<lparr>sch_tables = [], sch_indexes = []\<rparr>"

section \<open>Statements\<close>

datatype ddl =
    Create_table sql_table
  | Drop_table string
  | Create_index sql_index
  | Drop_index string
  | Drop_index_if_exists string
  | Add_column string sql_column
  | Drop_column string string

definition has_column :: "schema \<Rightarrow> string \<Rightarrow> string \<Rightarrow> bool" where
  "has_column s t c \<longleftrightarrow> list_ex (\<lambda>tb. tb_name tb = t \<and> list_ex (\<lambda>x. sc_name x = c) (tb_columns tb)) (sch_tables s)"

definition has_table :: "schema \<Rightarrow> string \<Rightarrow> bool" where
  "has_table s t \<longleftrightarrow> list_ex (\<lambda>tb. tb_name tb = t) (sch_tables s)"

definition has_index :: "schema \<Rightarrow> string \<Rightarrow> bool" where
  "has_index s n \<longleftrightarrow> list_ex (\<lambda>ix. ix_name ix = n) (sch_indexes s)"

definition without_index :: "string \<Rightarrow> schema \<Rightarrow> schema" where
  "without_index n s = s\<lparr>sch_indexes := filter (\<lambda>ix. ix_name ix \<noteq> n) (sch_indexes s)\<rparr>"

definition without_column :: "string \<Rightarrow> sql_table \<Rightarrow> sql_table" where
  "without_column c tb = tb\<lparr>tb_columns := filter (\<lambda>x. sc_name x \<noteq> c) (tb_columns tb),
     tb_uniques := filter (\<lambda>(_, cs). c \<notin> set cs) (tb_uniques tb),
     tb_references := filter (\<lambda>(x, _). x \<noteq> c) (tb_references tb)\<rparr>"

text \<open>Dropping a table or a column drops the indexes on it; a table that others refer to stays.\<close>

fun run_ddl :: "ddl \<Rightarrow> schema \<Rightarrow> schema option" where
  "run_ddl (Create_table tb) s =
     (if has_table s (tb_name tb) \<or> \<not> list_all (\<lambda>(_, t, c). has_column s t c) (tb_references tb) then None
      else Some (s\<lparr>sch_tables := sch_tables s @ [tb]\<rparr>))"
| "run_ddl (Drop_table t) s =
     (if \<not> has_table s t \<or>
         list_ex (\<lambda>tb. tb_name tb \<noteq> t \<and> list_ex (\<lambda>(_, u, _). u = t) (tb_references tb)) (sch_tables s) then None
      else Some (s\<lparr>sch_tables := filter (\<lambda>tb. tb_name tb \<noteq> t) (sch_tables s),
                   sch_indexes := filter (\<lambda>ix. ix_table ix \<noteq> t) (sch_indexes s)\<rparr>))"
| "run_ddl (Create_index ix) s =
     (if has_index s (ix_name ix) \<or> \<not> list_all (\<lambda>k. has_column s (ix_table ix) (key_column k)) (ix_keys ix) then None
      else Some (s\<lparr>sch_indexes := sch_indexes s @ [ix]\<rparr>))"
| "run_ddl (Drop_index n) s = (if has_index s n then Some (without_index n s) else None)"
| "run_ddl (Drop_index_if_exists n) s = Some (without_index n s)"
| "run_ddl (Add_column t c) s =
     (if \<not> has_table s t \<or> has_column s t (sc_name c) then None
      else Some (s\<lparr>sch_tables := map (\<lambda>tb. if tb_name tb = t then tb\<lparr>tb_columns := tb_columns tb @ [c]\<rparr> else tb)
                     (sch_tables s)\<rparr>))"
| "run_ddl (Drop_column t c) s =
     (if \<not> has_column s t c then None
      else Some (s\<lparr>sch_tables := map (\<lambda>tb. if tb_name tb = t then without_column c tb else tb) (sch_tables s),
                   sch_indexes := filter (\<lambda>ix. \<not> (ix_table ix = t \<and> list_ex (\<lambda>k. key_column k = c) (ix_keys ix)))
                     (sch_indexes s)\<rparr>))"

fun run_script :: "ddl list \<Rightarrow> schema \<Rightarrow> schema option" where
  "run_script [] s = Some s"
| "run_script (d # ds) s = (case run_ddl d s of None \<Rightarrow> None | Some s' \<Rightarrow> run_script ds s')"

lemma run_script_append: "run_script (xs @ ys) s = (case run_script xs s of None \<Rightarrow> None | Some s' \<Rightarrow> run_script ys s')"
  by (induction xs arbitrary: s) (auto split: option.split)

section \<open>Revisions\<close>

record revision =
  rv_id :: string
  rv_down :: "string option"
  rv_upgrade :: "ddl list"
  rv_downgrade :: "ddl list"

text \<open>Each revision follows the one before it.\<close>

fun linked_from :: "string option \<Rightarrow> revision list \<Rightarrow> bool" where
  "linked_from d [] = True"
| "linked_from d (r # rs) \<longleftrightarrow> rv_down r = d \<and> linked_from (Some (rv_id r)) rs"

definition upgrade_to :: "nat \<Rightarrow> revision list \<Rightarrow> schema option" where
  "upgrade_to k rs = run_script (concat (map rv_upgrade (take k rs))) no_schema"

definition downgrade_from_head :: "nat \<Rightarrow> revision list \<Rightarrow> schema \<Rightarrow> schema option" where
  "downgrade_from_head k rs = run_script (concat (map rv_downgrade (rev (drop k rs))))"

section \<open>Declarative models\<close>

record mapped_column =
  mp_name :: string
  mp_type :: sql_type
  mp_optional :: bool                  \<comment> \<open>\<open>Mapped[t | None]\<close>\<close>
  mp_nullable :: "bool option"         \<comment> \<open>the argument \<open>nullable\<close>\<close>
  mp_primary :: bool
  mp_index :: bool
  mp_foreign_key :: "(string \<times> string) option"
  mp_now :: bool                       \<comment> \<open>\<open>server_default=func.now()\<close>\<close>

abbreviation mapped :: "string \<Rightarrow> sql_type \<Rightarrow> bool \<Rightarrow> bool option \<Rightarrow> mapped_column" where
  "mapped n t opt nullable \<equiv> \<lparr>mp_name = n, mp_type = t, mp_optional = opt, mp_nullable = nullable,
     mp_primary = False, mp_index = False, mp_foreign_key = None, mp_now = False\<rparr>"

record model =
  md_table :: string
  md_columns :: "mapped_column list"
  md_uniques :: "(string \<times> string list) list"
  md_indexes :: "sql_index list"

definition column_of :: "mapped_column \<Rightarrow> sql_column" where
  "column_of m = column (mp_name m) (mp_type m)
     (\<not> mp_primary m \<and> (case mp_nullable m of None \<Rightarrow> mp_optional m | Some b \<Rightarrow> b))
     (if mp_now m then now else no_default)"

definition table_of :: "model \<Rightarrow> sql_table" where
  "table_of md = \<lparr>tb_name = md_table md, tb_columns = map column_of (md_columns md),
     tb_primary_key = map mp_name (filter mp_primary (md_columns md)), tb_uniques = md_uniques md,
     tb_references = concat (map (\<lambda>m. case mp_foreign_key m of None \<Rightarrow> [] | Some (t, c) \<Rightarrow> [(mp_name m, t, c)]) (md_columns md))\<rparr>"

text \<open>An indexed column gets the default name \<open>ix_<schema>_<table>_<column>\<close>.\<close>

definition indexes_of :: "string \<Rightarrow> model \<Rightarrow> sql_index list" where
  "indexes_of sch md =
     map (\<lambda>m. btree (''ix_'' @ sch @ ''_'' @ md_table md @ ''_'' @ mp_name m) (md_table md) [Plain (mp_name m)] False None)
       (filter mp_index (md_columns md)) @ md_indexes md"

definition metadata :: "string \<Rightarrow> model list \<Rightarrow> schema" where
  "metadata sch mds = \<lparr>sch_tables = map table_of mds, sch_indexes = concat (map (indexes_of sch) mds)\<rparr>"

section \<open>The same schema\<close>

text \<open>Up to the order of tables, of columns in a table, of constraints and of indexes.\<close>

fun same_elements :: "'a list \<Rightarrow> 'a list \<Rightarrow> bool" where
  "same_elements [] ys = (ys = [])"
| "same_elements (x # xs) ys = (x \<in> set ys \<and> same_elements xs (remove1 x ys))"

lemma same_elements_mset: "same_elements xs ys \<longleftrightarrow> mset xs = mset ys"
proof (induction xs arbitrary: ys)
  case (Cons x xs)
  show ?case
  proof (cases "x \<in> set ys")
    case True
    then have "mset ys = add_mset x (mset (remove1 x ys))" by simp
    with True Cons show ?thesis by (metis add_mset_remove_trivial mset.simps(2) same_elements.simps(2))
  next
    case False
    have "mset (x # xs) \<noteq> mset ys"
      using False by (metis list.set_intros(1) set_mset_mset)
    with False show ?thesis by simp
  qed
qed auto

definition same_table :: "sql_table \<Rightarrow> sql_table \<Rightarrow> bool" where
  "same_table a b \<longleftrightarrow> tb_name a = tb_name b \<and> same_elements (tb_columns a) (tb_columns b) \<and>
     tb_primary_key a = tb_primary_key b \<and> same_elements (tb_uniques a) (tb_uniques b) \<and>
     same_elements (tb_references a) (tb_references b)"

definition same_schema :: "schema \<Rightarrow> schema \<Rightarrow> bool" where
  "same_schema s t \<longleftrightarrow> length (sch_tables s) = length (sch_tables t) \<and>
     list_all (\<lambda>a. list_ex (same_table a) (sch_tables t)) (sch_tables s) \<and>
     list_all (\<lambda>b. list_ex (\<lambda>a. same_table a b) (sch_tables s)) (sch_tables t) \<and>
     same_elements (sch_indexes s) (sch_indexes t)"

end
