(* ===== verification/A2Z_OmniMigrations.thy ===== *)
theory A2Z_OmniMigrations
  imports A2Z_Ddl
begin

text \<open>
  The migrations of the omni-channel schema (\<open>services/omnichannel/migrations/versions\<close>) and
  the declarative models of \<open>services/omnichannel/models.py\<close>.
\<close>

section \<open>0001: the baseline\<close>

definition omni_baseline_channel_connections :: "ddl list" where
  "omni_baseline_channel_connections =
    [Create_table \<lparr>tb_name = ''channel_connections'', tb_columns =
     [column ''id'' VARCHAR False no_default,
      column ''org_id'' VARCHAR False no_default,
      column ''channel_type'' TEXT False no_default,
      column ''display_name'' TEXT False no_default,
      column ''provider_account_id'' TEXT False no_default,
      column ''credentials_secret_key'' TEXT False no_default,
      column ''status'' TEXT False no_default,
      column ''created_at'' TIMESTAMPTZ False now,
      column ''updated_at'' TIMESTAMPTZ False now],
     tb_primary_key = [''id''], tb_uniques = [], tb_references = []\<rparr>,
     Create_index (btree ''ix_omnichannel_channel_connections_org_id'' ''channel_connections'' [Plain ''org_id''] False None)]"

definition omni_baseline_channel_identities :: "ddl list" where
  "omni_baseline_channel_identities =
    [Create_table \<lparr>tb_name = ''channel_identities'', tb_columns =
     [column ''id'' VARCHAR False no_default,
      column ''org_id'' VARCHAR False no_default,
      column ''channel_type'' TEXT False no_default,
      column ''external_id'' TEXT False no_default,
      column ''display_name'' TEXT True no_default,
      column ''customer_id'' VARCHAR True no_default,
      column ''created_at'' TIMESTAMPTZ False now],
     tb_primary_key = [''id''], tb_uniques = [(''uq_channel_identity'', [''org_id'', ''channel_type'', ''external_id''])], tb_references = []\<rparr>,
     Create_index (btree ''ix_omnichannel_channel_identities_org_id'' ''channel_identities'' [Plain ''org_id''] False None)]"

definition omni_baseline_commission_rules :: "ddl list" where
  "omni_baseline_commission_rules =
    [Create_table \<lparr>tb_name = ''commission_rules'', tb_columns =
     [column ''id'' VARCHAR False no_default,
      column ''org_id'' VARCHAR False no_default,
      column ''percent'' (NUMERIC 5 2) False no_default,
      column ''effective_from'' TIMESTAMPTZ False no_default,
      column ''created_by'' VARCHAR False no_default,
      column ''created_at'' TIMESTAMPTZ False now],
     tb_primary_key = [''id''], tb_uniques = [], tb_references = []\<rparr>,
     Create_index (btree ''ix_omnichannel_commission_rules_org_id'' ''commission_rules'' [Plain ''org_id''] False None)]"

definition omni_baseline_presence :: "ddl list" where
  "omni_baseline_presence =
    [Create_table \<lparr>tb_name = ''presence'', tb_columns =
     [column ''id'' VARCHAR False no_default,
      column ''org_id'' VARCHAR False no_default,
      column ''user_id'' VARCHAR False no_default,
      column ''status'' TEXT False no_default,
      column ''updated_at'' TIMESTAMPTZ False now],
     tb_primary_key = [''id''], tb_uniques = [(''uq_presence_org_user'', [''org_id'', ''user_id''])], tb_references = []\<rparr>,
     Create_index (btree ''ix_omnichannel_presence_org_id'' ''presence'' [Plain ''org_id''] False None)]"

definition omni_baseline_templates :: "ddl list" where
  "omni_baseline_templates =
    [Create_table \<lparr>tb_name = ''templates'', tb_columns =
     [column ''id'' VARCHAR False no_default,
      column ''org_id'' VARCHAR False no_default,
      column ''name'' TEXT False no_default,
      column ''channel_type'' TEXT True no_default,
      column ''body'' TEXT False no_default,
      column ''variables'' JSONB False no_default,
      column ''provider_template_id'' TEXT True no_default,
      column ''created_at'' TIMESTAMPTZ False now],
     tb_primary_key = [''id''], tb_uniques = [], tb_references = []\<rparr>,
     Create_index (btree ''ix_omnichannel_templates_org_id'' ''templates'' [Plain ''org_id''] False None)]"

definition omni_baseline_conversations :: "ddl list" where
  "omni_baseline_conversations =
    [Create_table \<lparr>tb_name = ''conversations'', tb_columns =
     [column ''id'' VARCHAR False no_default,
      column ''org_id'' VARCHAR False no_default,
      column ''customer_identity_id'' VARCHAR False no_default,
      column ''status'' TEXT False no_default,
      column ''assigned_user_id'' VARCHAR True no_default,
      column ''last_message_at'' TIMESTAMPTZ True no_default,
      column ''last_message_preview'' TEXT True no_default,
      column ''unread_count'' INTEGER False no_default,
      column ''created_at'' TIMESTAMPTZ False now],
     tb_primary_key = [''id''], tb_uniques = [], tb_references = [(''customer_identity_id'', ''channel_identities'', ''id'')]\<rparr>,
     Create_index (btree ''ix_conversations_agent_inbox'' ''conversations'' [Plain ''org_id'', Plain ''assigned_user_id'', Plain ''status''] False None),
     Create_index (btree ''ix_conversations_inbox'' ''conversations'' [Plain ''org_id'', Plain ''status'', Plain ''last_message_at''] False None),
     Create_index (btree ''ix_omnichannel_conversations_org_id'' ''conversations'' [Plain ''org_id''] False None)]"

definition omni_baseline_commission_attributions :: "ddl list" where
  "omni_baseline_commission_attributions =
    [Create_table \<lparr>tb_name = ''commission_attributions'', tb_columns =
     [column ''id'' VARCHAR False no_default,
      column ''org_id'' VARCHAR False no_default,
      column ''invoice_id'' VARCHAR False no_default,
      column ''conversation_id'' VARCHAR False no_default,
      column ''agent_user_id'' VARCHAR False no_default,
      column ''rule_snapshot'' (NUMERIC 5 2) False no_default,
      column ''amount'' (NUMERIC 12 2) True no_default,
      column ''status'' TEXT False no_default,
      column ''created_at'' TIMESTAMPTZ False now,
      column ''updated_at'' TIMESTAMPTZ False now],
     tb_primary_key = [''id''], tb_uniques = [], tb_references = [(''conversation_id'', ''conversations'', ''id'')]\<rparr>,
     Create_index (btree ''ix_commission_attributions_dashboard'' ''commission_attributions'' [Plain ''org_id'', Plain ''agent_user_id''] False None),
     Create_index (btree ''ix_omnichannel_commission_attributions_org_id'' ''commission_attributions'' [Plain ''org_id''] False None)]"

definition omni_baseline_conversation_assignments :: "ddl list" where
  "omni_baseline_conversation_assignments =
    [Create_table \<lparr>tb_name = ''conversation_assignments'', tb_columns =
     [column ''id'' VARCHAR False no_default,
      column ''org_id'' VARCHAR False no_default,
      column ''conversation_id'' VARCHAR False no_default,
      column ''assigned_user_id'' VARCHAR False no_default,
      column ''assigned_by'' TEXT False no_default,
      column ''reason'' TEXT True no_default,
      column ''created_at'' TIMESTAMPTZ False now],
     tb_primary_key = [''id''], tb_uniques = [], tb_references = [(''conversation_id'', ''conversations'', ''id'')]\<rparr>,
     Create_index (btree ''ix_omnichannel_conversation_assignments_conversation_id'' ''conversation_assignments'' [Plain ''conversation_id''] False None),
     Create_index (btree ''ix_omnichannel_conversation_assignments_org_id'' ''conversation_assignments'' [Plain ''org_id''] False None)]"

definition omni_baseline_messages :: "ddl list" where
  "omni_baseline_messages =
    [Create_table \<lparr>tb_name = ''messages'', tb_columns =
     [column ''id'' VARCHAR False no_default,
      column ''org_id'' VARCHAR False no_default,
      column ''conversation_id'' VARCHAR False no_default,
      column ''direction'' TEXT False no_default,
      column ''channel_type'' TEXT False no_default,
      column ''external_message_id'' TEXT False no_default,
      column ''body_text'' TEXT True no_default,
      column ''content_type'' TEXT False no_default,
      column ''status'' TEXT False no_default,
      column ''sent_by_user_id'' VARCHAR True no_default,
      column ''created_at'' TIMESTAMPTZ False now],
     tb_primary_key = [''id''], tb_uniques = [(''uq_message_idempotency'', [''channel_type'', ''external_message_id''])], tb_references = [(''conversation_id'', ''conversations'', ''id'')]\<rparr>,
     Create_index (btree ''ix_messages_thread'' ''messages'' [Plain ''conversation_id'', Plain ''created_at''] False None),
     Create_index (btree ''ix_omnichannel_messages_org_id'' ''messages'' [Plain ''org_id''] False None)]"

definition omni_baseline_message_attachments :: "ddl list" where
  "omni_baseline_message_attachments =
    [Create_table \<lparr>tb_name = ''message_attachments'', tb_columns =
     [column ''id'' VARCHAR False no_default,
      column ''message_id'' VARCHAR False no_default,
      column ''org_id'' VARCHAR False no_default,
      column ''s3_key'' TEXT False no_default,
      column ''content_type'' TEXT False no_default,
      column ''size_bytes'' INTEGER False no_default],
     tb_primary_key = [''id''], tb_uniques = [], tb_references = [(''message_id'', ''messages'', ''id'')]\<rparr>,
     Create_index (btree ''ix_omnichannel_message_attachments_message_id'' ''message_attachments'' [Plain ''message_id''] False None),
     Create_index (btree ''ix_omnichannel_message_attachments_org_id'' ''message_attachments'' [Plain ''org_id''] False None)]"

text \<open>The hand-written full-text index.\<close>

definition ix_messages_fulltext :: sql_index where
  "ix_messages_fulltext = \<lparr>ix_name = ''ix_messages_fulltext'', ix_table = ''messages'', ix_method = ''gin'',
     ix_keys = [Over ''body_text'' ''to_tsvector(english, coalesce(body_text, empty))''],
     ix_unique = False, ix_where = None\<rparr>"

definition omni_baseline_upgrade :: "ddl list" where
  "omni_baseline_upgrade =
     omni_baseline_channel_connections @ omni_baseline_channel_identities @ omni_baseline_commission_rules @
     omni_baseline_presence @ omni_baseline_templates @ omni_baseline_conversations @
     omni_baseline_commission_attributions @ omni_baseline_conversation_assignments @
     omni_baseline_messages @ omni_baseline_message_attachments @ [Create_index ix_messages_fulltext]"

definition omni_baseline_downgrade :: "ddl list" where
  "omni_baseline_downgrade =
    [Drop_index_if_exists ''ix_messages_fulltext'',
     Drop_index ''ix_omnichannel_message_attachments_org_id'',
     Drop_index ''ix_omnichannel_message_attachments_message_id'',
     Drop_table ''message_attachments'',
     Drop_index ''ix_omnichannel_messages_org_id'',
     Drop_index ''ix_messages_thread'',
     Drop_table ''messages'',
     Drop_index ''ix_omnichannel_conversation_assignments_org_id'',
     Drop_index ''ix_omnichannel_conversation_assignments_conversation_id'',
     Drop_table ''conversation_assignments'',
     Drop_index ''ix_omnichannel_commission_attributions_org_id'',
     Drop_index ''ix_commission_attributions_dashboard'',
     Drop_table ''commission_attributions'',
     Drop_index ''ix_omnichannel_conversations_org_id'',
     Drop_index ''ix_conversations_inbox'',
     Drop_index ''ix_conversations_agent_inbox'',
     Drop_table ''conversations'',
     Drop_index ''ix_omnichannel_templates_org_id'',
     Drop_table ''templates'',
     Drop_index ''ix_omnichannel_presence_org_id'',
     Drop_table ''presence'',
     Drop_index ''ix_omnichannel_commission_rules_org_id'',
     Drop_table ''commission_rules'',
     Drop_index ''ix_omnichannel_channel_identities_org_id'',
     Drop_table ''channel_identities'',
     Drop_index ''ix_omnichannel_channel_connections_org_id'',
     Drop_table ''channel_connections'']"

section \<open>0002 to 0004\<close>

definition inbox_index_upgrade :: "ddl list" where
  "inbox_index_upgrade =
     [Drop_index_if_exists ''ix_conversations_inbox'',
      Create_index (btree ''ix_conversations_inbox'' ''conversations''
        [Plain ''org_id'', Plain ''status'', Sorted ''last_message_at'' ''DESC NULLS LAST''] False None)]"

definition inbox_index_downgrade :: "ddl list" where
  "inbox_index_downgrade =
     [Drop_index_if_exists ''ix_conversations_inbox'',
      Create_index (btree ''ix_conversations_inbox'' ''conversations''
        [Plain ''org_id'', Plain ''status'', Plain ''last_message_at''] False None)]"

definition dedup_key_upgrade :: "ddl list" where
  "dedup_key_upgrade =
     [Add_column ''messages'' (column ''client_dedup_key'' TEXT True no_default),
      Create_index (btree ''uq_message_client_dedup'' ''messages''
        [Plain ''org_id'', Plain ''conversation_id'', Plain ''client_dedup_key''] True (Some ''client_dedup_key IS NOT NULL''))]"

definition dedup_key_downgrade :: "ddl list" where
  "dedup_key_downgrade =
     [Drop_index_if_exists ''uq_message_client_dedup'', Drop_column ''messages'' ''client_dedup_key'']"

definition subject_upgrade :: "ddl list" where
  "subject_upgrade = [Add_column ''messages'' (column ''subject'' TEXT True no_default)]"

definition subject_downgrade :: "ddl list" where
  "subject_downgrade = [Drop_column ''messages'' ''subject'']"

definition omni_revisions :: "revision list" where
  "omni_revisions =
     [\<lparr>rv_id = ''1bfacee578a4'', rv_down = None, rv_upgrade = omni_baseline_upgrade, rv_downgrade = omni_baseline_downgrade\<rparr>,
      \<lparr>rv_id = ''0002_inbox_index'', rv_down = Some ''1bfacee578a4'', rv_upgrade = inbox_index_upgrade, rv_downgrade = inbox_index_downgrade\<rparr>,
      \<lparr>rv_id = ''0003_message_dedup_key'', rv_down = Some ''0002_inbox_index'', rv_upgrade = dedup_key_upgrade, rv_downgrade = dedup_key_downgrade\<rparr>,
      \<lparr>rv_id = ''0004_message_subject'', rv_down = Some ''0003_message_dedup_key'', rv_upgrade = subject_upgrade, rv_downgrade = subject_downgrade\<rparr>]"

section \<open>The models\<close>

definition ChannelConnection_model :: model where
  "ChannelConnection_model = \<lparr>md_table = ''channel_connections'', md_columns =
     [(mapped ''id'' VARCHAR False None)\<lparr>mp_primary := True\<rparr>,
      (mapped ''org_id'' VARCHAR False (Some False))\<lparr>mp_index := True\<rparr>,
      mapped ''channel_type'' TEXT False (Some False),
      mapped ''display_name'' TEXT False (Some False),
      mapped ''provider_account_id'' TEXT False (Some False),
      mapped ''credentials_secret_key'' TEXT False (Some False),
      mapped ''status'' TEXT False (Some False),
      (mapped ''created_at'' TIMESTAMPTZ False None)\<lparr>mp_now := True\<rparr>,
      (mapped ''updated_at'' TIMESTAMPTZ False None)\<lparr>mp_now := True\<rparr>],
     md_uniques = [],
     md_indexes = []\<rparr>"

definition ChannelIdentity_model :: model where
  "ChannelIdentity_model = \<lparr>md_table = ''channel_identities'', md_columns =
     [(mapped ''id'' VARCHAR False None)\<lparr>mp_primary := True\<rparr>,
      (mapped ''org_id'' VARCHAR False (Some False))\<lparr>mp_index := True\<rparr>,
      mapped ''channel_type'' TEXT False (Some False),
      mapped ''external_id'' TEXT False (Some False),
      mapped ''display_name'' TEXT True None,
      mapped ''customer_id'' VARCHAR True (Some True),
      (mapped ''created_at'' TIMESTAMPTZ False None)\<lparr>mp_now := True\<rparr>],
     md_uniques = [(''uq_channel_identity'', [''org_id'', ''channel_type'', ''external_id''])],
     md_indexes = []\<rparr>"

definition Conversation_model :: model where
  "Conversation_model = \<lparr>md_table = ''conversations'', md_columns =
     [(mapped ''id'' VARCHAR False None)\<lparr>mp_primary := True\<rparr>,
      (mapped ''org_id'' VARCHAR False (Some False))\<lparr>mp_index := True\<rparr>,
      (mapped ''customer_identity_id'' VARCHAR False (Some False))\<lparr>mp_foreign_key := Some (''channel_identities'', ''id'')\<rparr>,
      mapped ''status'' TEXT False (Some False),
      mapped ''assigned_user_id'' VARCHAR True (Some True),
      mapped ''last_message_at'' TIMESTAMPTZ True None,
      mapped ''last_message_preview'' TEXT True None,
      mapped ''unread_count'' INTEGER False (Some False),
      (mapped ''created_at'' TIMESTAMPTZ False None)\<lparr>mp_now := True\<rparr>],
     md_uniques = [],
     md_indexes = [btree ''ix_conversations_inbox'' ''conversations'' [Plain ''org_id'', Plain ''status'', Sorted ''last_message_at'' ''DESC NULLS LAST''] False None,
       btree ''ix_conversations_agent_inbox'' ''conversations'' [Plain ''org_id'', Plain ''assigned_user_id'', Plain ''status''] False None]\<rparr>"

definition Message_model :: model where
  "Message_model = \<lparr>md_table = ''messages'', md_columns =
     [(mapped ''id'' VARCHAR False None)\<lparr>mp_primary := True\<rparr>,
      (mapped ''org_id'' VARCHAR False (Some False))\<lparr>mp_index := True\<rparr>,
      (mapped ''conversation_id'' VARCHAR False (Some False))\<lparr>mp_foreign_key := Some (''conversations'', ''id'')\<rparr>,
      mapped ''direction'' TEXT False (Some False),
      mapped ''channel_type'' TEXT False (Some False),
      mapped ''external_message_id'' TEXT False (Some False),
      mapped ''body_text'' TEXT True None,
      mapped ''subject'' TEXT True (Some True),
      mapped ''content_type'' TEXT False (Some False),
      mapped ''status'' TEXT False (Some False),
      mapped ''sent_by_user_id'' VARCHAR True (Some True),
      mapped ''client_dedup_key'' TEXT True (Some True),
      (mapped ''created_at'' TIMESTAMPTZ False None)\<lparr>mp_now := True\<rparr>],
     md_uniques = [(''uq_message_idempotency'', [''channel_type'', ''external_message_id''])],
     md_indexes = [btree ''ix_messages_thread'' ''messages'' [Plain ''conversation_id'', Plain ''created_at''] False None,
       btree ''uq_message_client_dedup'' ''messages'' [Plain ''org_id'', Plain ''conversation_id'', Plain ''client_dedup_key''] True (Some ''client_dedup_key IS NOT NULL'')]\<rparr>"

definition MessageAttachment_model :: model where
  "MessageAttachment_model = \<lparr>md_table = ''message_attachments'', md_columns =
     [(mapped ''id'' VARCHAR False None)\<lparr>mp_primary := True\<rparr>,
      (mapped ''message_id'' VARCHAR False (Some False))\<lparr>mp_index := True, mp_foreign_key := Some (''messages'', ''id'')\<rparr>,
      (mapped ''org_id'' VARCHAR False (Some False))\<lparr>mp_index := True\<rparr>,
      mapped ''s3_key'' TEXT False (Some False),
      mapped ''content_type'' TEXT False (Some False),
      mapped ''size_bytes'' INTEGER False (Some False)],
     md_uniques = [],
     md_indexes = []\<rparr>"

definition ConversationAssignment_model :: model where
  "ConversationAssignment_model = \<lparr>md_table = ''conversation_assignments'', md_columns =
     [(mapped ''id'' VARCHAR False None)\<lparr>mp_primary := True\<rparr>,
      (mapped ''org_id'' VARCHAR False (Some False))\<lparr>mp_index := True\<rparr>,
      (mapped ''conversation_id'' VARCHAR False (Some False))\<lparr>mp_index := True, mp_foreign_key := Some (''conversations'', ''id'')\<rparr>,
      mapped ''assigned_user_id'' VARCHAR False (Some False),
      mapped ''assigned_by'' TEXT False (Some False),
      mapped ''reason'' TEXT True None,
      (mapped ''created_at'' TIMESTAMPTZ False None)\<lparr>mp_now := True\<rparr>],
     md_uniques = [],
     md_indexes = []\<rparr>"

definition Presence_model :: model where
  "Presence_model = \<lparr>md_table = ''presence'', md_columns =
     [(mapped ''id'' VARCHAR False None)\<lparr>mp_primary := True\<rparr>,
      (mapped ''org_id'' VARCHAR False (Some False))\<lparr>mp_index := True\<rparr>,
      mapped ''user_id'' VARCHAR False (Some False),
      mapped ''status'' TEXT False (Some False),
      (mapped ''updated_at'' TIMESTAMPTZ False None)\<lparr>mp_now := True\<rparr>],
     md_uniques = [(''uq_presence_org_user'', [''org_id'', ''user_id''])],
     md_indexes = []\<rparr>"

definition Template_model :: model where
  "Template_model = \<lparr>md_table = ''templates'', md_columns =
     [(mapped ''id'' VARCHAR False None)\<lparr>mp_primary := True\<rparr>,
      (mapped ''org_id'' VARCHAR False (Some False))\<lparr>mp_index := True\<rparr>,
      mapped ''name'' TEXT False (Some False),
      mapped ''channel_type'' TEXT True (Some True),
      mapped ''body'' TEXT False (Some False),
      mapped ''variables'' JSONB False (Some False),
      mapped ''provider_template_id'' TEXT True (Some True),
      (mapped ''created_at'' TIMESTAMPTZ False None)\<lparr>mp_now := True\<rparr>],
     md_uniques = [],
     md_indexes = []\<rparr>"

definition CommissionRule_model :: model where
  "CommissionRule_model = \<lparr>md_table = ''commission_rules'', md_columns =
     [(mapped ''id'' VARCHAR False None)\<lparr>mp_primary := True\<rparr>,
      (mapped ''org_id'' VARCHAR False (Some False))\<lparr>mp_index := True\<rparr>,
      mapped ''percent'' (NUMERIC 5 2) False (Some False),
      mapped ''effective_from'' TIMESTAMPTZ False (Some False),
      mapped ''created_by'' VARCHAR False (Some False),
      (mapped ''created_at'' TIMESTAMPTZ False None)\<lparr>mp_now := True\<rparr>],
     md_uniques = [],
     md_indexes = []\<rparr>"

definition CommissionAttribution_model :: model where
  "CommissionAttribution_model = \<lparr>md_table = ''commission_attributions'', md_columns =
     [(mapped ''id'' VARCHAR False None)\<lparr>mp_primary := True\<rparr>,
      (mapped ''org_id'' VARCHAR False (Some False))\<lparr>mp_index := True\<rparr>,
      mapped ''invoice_id'' VARCHAR False (Some False),
      (mapped ''conversation_id'' VARCHAR False (Some False))\<lparr>mp_foreign_key := Some (''conversations'', ''id'')\<rparr>,
      mapped ''agent_user_id'' VARCHAR False (Some False),
      mapped ''rule_snapshot'' (NUMERIC 5 2) False (Some False),
      mapped ''amount'' (NUMERIC 12 2) True (Some True),
      mapped ''status'' TEXT False (Some False),
      (mapped ''created_at'' TIMESTAMPTZ False None)\<lparr>mp_now := True\<rparr>,
      (mapped ''updated_at'' TIMESTAMPTZ False None)\<lparr>mp_now := True\<rparr>],
     md_uniques = [],
     md_indexes = [btree ''ix_commission_attributions_dashboard'' ''commission_attributions'' [Plain ''org_id'', Plain ''agent_user_id''] False None]\<rparr>"

definition omni_metadata :: schema where
  "omni_metadata = metadata ''omnichannel''
     [ChannelConnection_model, ChannelIdentity_model, Conversation_model, Message_model, MessageAttachment_model,
      ConversationAssignment_model, Presence_model, Template_model, CommissionRule_model, CommissionAttribution_model]"

end
