(* ===== verification/A2Z_Migrations.thy ===== *)
theory A2Z_Migrations
  imports A2Z_OmniMigrations
begin

text \<open>
  The migration of the invoicing schema (\<open>services/invoicing/migrations/versions\<close>) and the
  models of \<open>services/invoicing/models.py\<close>; for both services, the agreement of migrations and
  models and the reversal of the migrations.
\<close>

section \<open>Invoicing\<close>

definition inv_baseline_invoices :: "ddl list" where
  "inv_baseline_invoices =
    [Create_table \<lparr>tb_name = ''invoices'', tb_columns =
     [column ''id'' VARCHAR False no_default,
      column ''org_id'' VARCHAR False no_default,
      column ''invoice_number'' TEXT False no_default,
      column ''status'' TEXT False no_default,
      column ''customer_email'' TEXT False no_default,
      column ''customer_name'' TEXT False no_default,
      column ''customer_company'' TEXT True no_default,
      column ''invoice_date'' DATE False no_default,
      column ''due_date'' DATE True no_default,
      column ''payment_terms'' TEXT True no_default,
      column ''subtotal_cents'' BIGINT False no_default,
      column ''tax_cents'' BIGINT False no_default,
      column ''discount_cents'' BIGINT False no_default,
      column ''total_cents'' BIGINT False no_default,
      column ''amount_paid_cents'' BIGINT False no_default,
      column ''payment_status'' TEXT False no_default,
      column ''currency_code'' TEXT False no_default,
      column ''notes'' TEXT True no_default,
      column ''pdf_s3_key'' TEXT True no_default,
      column ''is_deleted'' BOOLEAN False no_default,
      column ''created_by'' VARCHAR False no_default,
      column ''created_at'' TIMESTAMPTZ False now,
      column ''updated_at'' TIMESTAMPTZ False now],
     tb_primary_key = [''id''], tb_uniques = [(''uq_invoice_number'', [''org_id'', ''invoice_number''])], tb_references = []\<rparr>,
     Create_index (btree ''ix_invoices_org_created'' ''invoices'' [Plain ''org_id'', Plain ''created_at''] False None),
     Create_index (btree ''ix_invoices_org_due_date'' ''invoices'' [Plain ''org_id'', Plain ''due_date''] False None),
     Create_index (btree ''ix_invoices_org_status'' ''invoices'' [Plain ''org_id'', Plain ''status''] False None),
     Create_index (btree ''ix_invoicing_invoices_org_id'' ''invoices'' [Plain ''org_id''] False None)]"

definition inv_baseline_invoice_line_items :: "ddl list" where
  "inv_baseline_invoice_line_items =
    [Create_table \<lparr>tb_name = ''invoice_line_items'', tb_columns =
     [column ''id'' VARCHAR False no_default,
      column ''org_id'' VARCHAR False no_default,
      column ''invoice_id'' VARCHAR False no_default,
      column ''description'' TEXT False no_default,
      column ''quantity'' (NUMERIC 12 3) False no_default,
      column ''unit_price_cents'' BIGINT False no_default,
      column ''amount_cents'' BIGINT False no_default,
      column ''created_at'' TIMESTAMPTZ False now],
     tb_primary_key = [''id''], tb_uniques = [], tb_references = [(''invoice_id'', ''invoices'', ''id'')]\<rparr>,
     Create_index (btree ''ix_invoicing_invoice_line_items_org_id'' ''invoice_line_items'' [Plain ''org_id''] False None),
     Create_index (btree ''ix_line_items_org_invoice'' ''invoice_line_items'' [Plain ''org_id'', Plain ''invoice_id''] False None)]"

definition inv_baseline_invoice_payments :: "ddl list" where
  "inv_baseline_invoice_payments =
    [Create_table \<lparr>tb_name = ''invoice_payments'', tb_columns =
     [column ''id'' VARCHAR False no_default,
      column ''org_id'' VARCHAR False no_default,
      column ''invoice_id'' VARCHAR False no_default,
      column ''amount_cents'' BIGINT False no_default,
      column ''payment_date'' DATE False no_default,
      column ''payment_method'' TEXT False no_default,
      column ''reference'' TEXT True no_default,
      column ''notes'' TEXT True no_default,
      column ''idempotency_key'' TEXT True no_default,
      column ''recorded_by'' VARCHAR False no_default,
      column ''recorded_at'' TIMESTAMPTZ False now],
     tb_primary_key = [''id''], tb_uniques = [], tb_references = [(''invoice_id'', ''invoices'', ''id'')]\<rparr>,
     Create_index (btree ''ix_invoicing_invoice_payments_org_id'' ''invoice_payments'' [Plain ''org_id''] False None),
     Create_index (btree ''ix_payments_org_invoice'' ''invoice_payments'' [Plain ''org_id'', Plain ''invoice_id''] False None),
     Create_index (btree ''uq_payments_org_idempotency_key'' ''invoice_payments'' [Plain ''org_id'', Plain ''idempotency_key''] True (Some ''idempotency_key IS NOT NULL''))]"

definition inv_baseline_upgrade :: "ddl list" where
  "inv_baseline_upgrade = inv_baseline_invoices @ inv_baseline_invoice_line_items @ inv_baseline_invoice_payments"

definition inv_baseline_downgrade :: "ddl list" where
  "inv_baseline_downgrade =
    [Drop_index ''uq_payments_org_idempotency_key'',
     Drop_index ''ix_payments_org_invoice'',
     Drop_index ''ix_invoicing_invoice_payments_org_id'',
     Drop_table ''invoice_payments'',
     Drop_index ''ix_line_items_org_invoice'',
     Drop_index ''ix_invoicing_invoice_line_items_org_id'',
     Drop_table ''invoice_line_items'',
     Drop_index ''ix_invoicing_invoices_org_id'',
     Drop_index ''ix_invoices_org_status'',
     Drop_index ''ix_invoices_org_due_date'',
     Drop_index ''ix_invoices_org_created'',
     Drop_table ''invoices'']"

definition inv_revisions :: "revision list" where
  "inv_revisions =
     [\<lparr>rv_id = ''310e8122e78e'', rv_down = None, rv_upgrade = inv_baseline_upgrade, rv_downgrade = inv_baseline_downgrade\<rparr>]"

definition Invoice_model :: model where
  "Invoice_model = \<lparr>md_table = ''invoices'', md_columns =
     [(mapped ''id'' VARCHAR False None)\<lparr>mp_primary := True\<rparr>,
      (mapped ''org_id'' VARCHAR False (Some False))\<lparr>mp_index := True\<rparr>,
      mapped ''invoice_number'' TEXT False (Some False),
      mapped ''status'' TEXT False (Some False),
      mapped ''customer_email'' TEXT False (Some False),
      mapped ''customer_name'' TEXT False (Some False),
      mapped ''customer_company'' TEXT True (Some True),
      mapped ''invoice_date'' DATE False (Some False),
      mapped ''due_date'' DATE True (Some True),
      mapped ''payment_terms'' TEXT True (Some True),
      mapped ''subtotal_cents'' BIGINT False (Some False),
      mapped ''tax_cents'' BIGINT False (Some False),
      mapped ''discount_cents'' BIGINT False (Some False),
      mapped ''total_cents'' BIGINT False (Some False),
      mapped ''amount_paid_cents'' BIGINT False (Some False),
      mapped ''payment_status'' TEXT False (Some False),
      mapped ''currency_code'' TEXT False (Some False),
      mapped ''notes'' TEXT True (Some True),
      mapped ''pdf_s3_key'' TEXT True (Some True),
      mapped ''is_deleted'' BOOLEAN False (Some False),
      mapped ''created_by'' VARCHAR False (Some False),
      (mapped ''created_at'' TIMESTAMPTZ False None)\<lparr>mp_now := True\<rparr>,
      (mapped ''updated_at'' TIMESTAMPTZ False None)\<lparr>mp_now := True\<rparr>],
     md_uniques = [(''uq_invoice_number'', [''org_id'', ''invoice_number''])],
     md_indexes = [btree ''ix_invoices_org_created'' ''invoices'' [Plain ''org_id'', Plain ''created_at''] False None,
       btree ''ix_invoices_org_status'' ''invoices'' [Plain ''org_id'', Plain ''status''] False None,
       btree ''ix_invoices_org_due_date'' ''invoices'' [Plain ''org_id'', Plain ''due_date''] False None]\<rparr>"

definition InvoiceLineItem_model :: model where
  "InvoiceLineItem_model = \<lparr>md_table = ''invoice_line_items'', md_columns =
     [(mapped ''id'' VARCHAR False None)\<lparr>mp_primary := True\<rparr>,
      (mapped ''org_id'' VARCHAR False (Some False))\<lparr>mp_index := True\<rparr>,
      (mapped ''invoice_id'' VARCHAR False (Some False))\<lparr>mp_foreign_key := Some (''invoices'', ''id'')\<rparr>,
      mapped ''description'' TEXT False (Some False),
      mapped ''quantity'' (NUMERIC 12 3) False (Some False),
      mapped ''unit_price_cents'' BIGINT False (Some False),
      mapped ''amount_cents'' BIGINT False (Some False),
      (mapped ''created_at'' TIMESTAMPTZ False None)\<lparr>mp_now := True\<rparr>],
     md_uniques = [],
     md_indexes = [btree ''ix_line_items_org_invoice'' ''invoice_line_items'' [Plain ''org_id'', Plain ''invoice_id''] False None]\<rparr>"

definition InvoicePayment_model :: model where
  "InvoicePayment_model = \<lparr>md_table = ''invoice_payments'', md_columns =
     [(mapped ''id'' VARCHAR False None)\<lparr>mp_primary := True\<rparr>,
      (mapped ''org_id'' VARCHAR False (Some False))\<lparr>mp_index := True\<rparr>,
      (mapped ''invoice_id'' VARCHAR False (Some False))\<lparr>mp_foreign_key := Some (''invoices'', ''id'')\<rparr>,
      mapped ''amount_cents'' BIGINT False (Some False),
      mapped ''payment_date'' DATE False (Some False),
      mapped ''payment_method'' TEXT False (Some False),
      mapped ''reference'' TEXT True (Some True),
      mapped ''notes'' TEXT True (Some True),
      mapped ''idempotency_key'' TEXT True (Some True),
      mapped ''recorded_by'' VARCHAR False (Some False),
      (mapped ''recorded_at'' TIMESTAMPTZ False None)\<lparr>mp_now := True\<rparr>],
     md_uniques = [],
     md_indexes = [btree ''ix_payments_org_invoice'' ''invoice_payments'' [Plain ''org_id'', Plain ''invoice_id''] False None,
       btree ''uq_payments_org_idempotency_key'' ''invoice_payments'' [Plain ''org_id'', Plain ''idempotency_key''] True (Some ''idempotency_key IS NOT NULL'')]\<rparr>"

definition inv_metadata :: schema where
  "inv_metadata = metadata ''invoicing'' [Invoice_model, InvoiceLineItem_model, InvoicePayment_model]"

section \<open>Migrations and models\<close>

lemma omni_migrations_build:
  "case upgrade_to 4 omni_revisions of None \<Rightarrow> False
    | Some s \<Rightarrow> same_schema s (omni_metadata\<lparr>sch_indexes := sch_indexes omni_metadata @ [ix_messages_fulltext]\<rparr>)"
  by code_simp

lemma inv_migrations_build:
  "case upgrade_to 1 inv_revisions of None \<Rightarrow> False | Some s \<Rightarrow> same_schema s inv_metadata"
  by code_simp


text \<open>From revision \<open>k\<close> up to the head and down again.\<close>

definition reverts :: "revision list \<Rightarrow> nat \<Rightarrow> bool" where
  "reverts rs k \<longleftrightarrow>
     (case upgrade_to k rs of
        None \<Rightarrow> False
      | Some t \<Rightarrow>
          (case run_script (concat (map rv_upgrade (drop k rs))) t of
             None \<Rightarrow> False
           | Some s \<Rightarrow>
               (case downgrade_from_head k rs s of None \<Rightarrow> False | Some s' \<Rightarrow> same_schema s' t)))"

lemma omni_reverts_0: "reverts omni_revisions 0" by code_simp
lemma omni_reverts_1: "reverts omni_revisions 1" by code_simp
lemma omni_reverts_2: "reverts omni_revisions 2" by code_simp
lemma omni_reverts_3: "reverts omni_revisions 3" by code_simp
lemma omni_reverts_4: "reverts omni_revisions 4" by code_simp
lemma inv_reverts: "reverts inv_revisions 0" "reverts inv_revisions 1" by code_simp+

lemmas reverts_all = omni_reverts_0 omni_reverts_1 omni_reverts_2 omni_reverts_3 omni_reverts_4 inv_reverts

text \<open>
  C33: downgrades undo upgrades.  From any revision of either chain, or from nothing, upgrading
  to the head and downgrading again succeeds and gives back the schema of that revision.
\<close>

theorem migrations_reversible:
  "(k \<le> length omni_revisions \<longrightarrow> reverts omni_revisions k) \<and>
   (k \<le> length inv_revisions \<longrightarrow> reverts inv_revisions k)"
proof (intro conjI impI)
  assume "k \<le> length omni_revisions"
  then have "k \<in> {0, 1, 2, 3, 4}" by (auto simp: omni_revisions_def)
  then show "reverts omni_revisions k" using reverts_all by auto
next
  assume "k \<le> length inv_revisions"
  then have "k \<in> {0, 1}" by (auto simp: inv_revisions_def)
  then show "reverts inv_revisions k" using reverts_all by auto
qed

theorem migrations_reversible_witness: "reverts omni_revisions 1 \<and> reverts inv_revisions 0"
  using migrations_reversible [of 1] migrations_reversible [of 0]
  by (simp add: omni_revisions_def inv_revisions_def)

end
