(* ===== verification/A2Z_Provision.thy ===== *)
theory A2Z_Provision
  imports A2Z_Auth
begin

text \<open>
  The resources of the platform in an AWS account: \<open>app/aws_resources.py\<close>,
  \<open>services/omnichannel/aws_resources.py\<close> and \<open>scripts/create_local_resources.py\<close>.  The
  account is the state; a call that creates what exists is refused with the documented code.
\<close>

section \<open>The account\<close>

record table_index =
  gi_name :: string
  gi_key_schema :: "(string \<times> string) list"    \<comment> \<open>attribute and key type\<close>
  gi_projection :: string

record table_spec =
  ts_key_schema :: "(string \<times> string) list"
  ts_attributes :: "(string \<times> string) list"    \<comment> \<open>attribute and type\<close>
  ts_billing :: string
  ts_indexes :: "table_index list"

type_synonym redrive = "string \<times> nat"            \<comment> \<open>\<open>deadLetterTargetArn\<close>, \<open>maxReceiveCount\<close>\<close>

record account = email_world +
  ac_tables :: "(string \<times> table_spec) list"
  ac_ttl :: "(string \<times> string) list"            \<comment> \<open>table and TTL attribute\<close>
  ac_buckets :: "string list"
  ac_buses :: "string list"
  ac_queues :: "(string \<times> redrive option) list"
  ac_identities :: "string list"

text \<open>DynamoDB declares exactly the attributes that the keys of a table and its indexes use.\<close>

definition valid_spec :: "table_spec \<Rightarrow> bool" where
  "valid_spec ts \<longleftrightarrow> ts_key_schema ts \<noteq> [] \<and>
     set (map fst (ts_attributes ts)) =
       set (map fst (ts_key_schema ts @ concat (map gi_key_schema (ts_indexes ts)))) \<and>
     distinct (map fst (ts_attributes ts))"

definition aws_create_table :: "string \<Rightarrow> table_spec \<Rightarrow> ('z account_scheme, unit) op" where
  "aws_create_table name ts = (\<lambda>w.
     if \<not> valid_spec ts then (Inl (AwsError ''ValidationException''), w)
     else if map_of (ac_tables w) name \<noteq> None then (Inl (AwsError ''ResourceInUseException''), w)
     else (Inr (), w\<lparr>ac_tables := ac_tables w @ [(name, ts)]\<rparr>))"

definition aws_enable_ttl :: "string \<Rightarrow> string \<Rightarrow> ('z account_scheme, unit) op" where
  "aws_enable_ttl name attribute = (\<lambda>w.
     if map_of (ac_tables w) name = None then (Inl (AwsError ''ResourceNotFoundException''), w)
     else if map_of (ac_ttl w) name \<noteq> None then (Inl (AwsError ''ValidationException''), w)
     else (Inr (), w\<lparr>ac_ttl := ac_ttl w @ [(name, attribute)]\<rparr>))"

definition aws_create_bucket :: "string \<Rightarrow> ('z account_scheme, unit) op" where
  "aws_create_bucket name = (\<lambda>w.
     if name \<in> set (ac_buckets w) then (Inl (AwsError ''BucketAlreadyOwnedByYou''), w)
     else (Inr (), w\<lparr>ac_buckets := name # ac_buckets w\<rparr>))"

definition aws_create_bus :: "string \<Rightarrow> ('z account_scheme, unit) op" where
  "aws_create_bus name = (\<lambda>w.
     if name \<in> set (ac_buses w) then (Inl (AwsError ''ResourceAlreadyExistsException''), w)
     else (Inr (), w\<lparr>ac_buses := name # ac_buses w\<rparr>))"

text \<open>
  \<open>CreateQueue\<close> answers with the existing queue unless the request names attributes that
  differ from the queue's.
\<close>

definition aws_create_queue :: "string \<Rightarrow> redrive option \<Rightarrow> ('z account_scheme, unit) op" where
  "aws_create_queue name redrive = (\<lambda>w.
     case map_of (ac_queues w) name of
       None \<Rightarrow> (Inr (), w\<lparr>ac_queues := ac_queues w @ [(name, redrive)]\<rparr>)
     | Some has \<Rightarrow>
         if redrive = None \<or> has = redrive then (Inr (), w)
         else (Inl (AwsError ''QueueAlreadyExists''), w))"

definition aws_get_queue :: "string \<Rightarrow> ('z account_scheme, unit) op" where
  "aws_get_queue name = (\<lambda>w.
     if map_of (ac_queues w) name = None then (Inl (AwsError ''QueueDoesNotExist''), w) else (Inr (), w))"

definition aws_verify_domain :: "string \<Rightarrow> ('z account_scheme, unit) op" where
  "aws_verify_domain d = modifyE (\<lambda>w. w\<lparr>ac_identities := List.insert d (ac_identities w)\<rparr>)"

section \<open>What the program declares\<close>

definition DDB_BILLING_MODE :: string where "DDB_BILLING_MODE = ''PAY_PER_REQUEST''"

definition table_of_keys :: "(string \<times> string) list \<Rightarrow> (string \<times> string) list \<Rightarrow> table_index list \<Rightarrow> table_spec" where
  "table_of_keys key_schema attributes gsis =
     \<lparr>ts_key_schema = key_schema, ts_attributes = attributes, ts_billing = DDB_BILLING_MODE, ts_indexes = gsis\<rparr>"

definition gsi :: "string \<Rightarrow> string \<Rightarrow> string option \<Rightarrow> table_index" where
  "gsi name pk sk =
     \<lparr>gi_name = name,
      gi_key_schema = (pk, ''HASH'') # (case sk of None \<Rightarrow> [] | Some k \<Rightarrow> if k = [] then [] else [(k, ''RANGE'')]),
      gi_projection = ''ALL''\<rparr>"

definition table_definitions :: "(string \<times> table_spec) list" where
  "table_definitions =
     [(''membership'', table_of_keys [(''PK'', ''HASH''), (''SK'', ''RANGE'')]
         [(''PK'', ''S''), (''SK'', ''S''), (''GSI1PK'', ''S''), (''GSI1SK'', ''S'')]
         [gsi ''GSI1'' ''GSI1PK'' (Some ''GSI1SK'')]),
      (''audit'', table_of_keys [(''event_id'', ''HASH'')]
         [(''event_id'', ''S''), (''org_id'', ''S''), (''timestamp'', ''S''), (''actor_id'', ''S'')]
         [gsi ''GSI1'' ''org_id'' (Some ''timestamp''), gsi ''GSI2'' ''actor_id'' (Some ''timestamp'')]),
      (''settings'', table_of_keys [(''org_id'', ''HASH'')] [(''org_id'', ''S'')] []),
      (''email_events'', table_of_keys [(''message_id'', ''HASH'')]
         [(''message_id'', ''S''), (''org_id'', ''S''), (''timestamp'', ''S'')]
         [gsi ''org-timestamp-index'' ''org_id'' (Some ''timestamp'')]),
      (''suppression'', table_of_keys [(''org_id'', ''HASH''), (''email'', ''RANGE'')]
         [(''org_id'', ''S''), (''email'', ''S'')] []),
      (''files'', table_of_keys [(''org_id'', ''HASH''), (''key'', ''RANGE'')]
         [(''org_id'', ''S''), (''key'', ''S''), (''service_type'', ''S'')]
         [gsi ''service-index'' ''org_id'' (Some ''service_type'')])]"

definition TTL_ATTRIBUTE :: string where "TTL_ATTRIBUTE = ''ttl''"

definition TABLES_WITH_TTL :: "string set" where
  "TABLES_WITH_TTL = {''audit'', ''email_events'', ''files''}"

section \<open>Creating\<close>

text \<open>\<open>try: call except ClientError as exc\<close>: when \<open>_exists(exc, *codes)\<close> go on, else raise.\<close>

definition exists_ok :: "string list \<Rightarrow> ('z account_scheme, unit) op \<Rightarrow> ('z account_scheme, unit) op" where
  "exists_ok codes m = catchE m (\<lambda>e. case e of
     AwsError code \<Rightarrow> if code \<in> set codes then ret () else raise e
   | _ \<Rightarrow> raise e)"

definition enable_ttl :: "env \<Rightarrow> string \<Rightarrow> ('z account_scheme, unit) op" where
  "enable_ttl E name = exists_ok [''ValidationException''] (run_aws E (aws_enable_ttl name TTL_ATTRIBUTE))"

text \<open>A waiter that gives up raises \<open>WaiterError\<close>, which is no \<open>ClientError\<close>.\<close>

definition wait_table_exists :: "env \<Rightarrow> ('z account_scheme, unit) op" where
  "wait_table_exists E = catchE (run_aws E (ret ())) (\<lambda>_. raise (Exn (Py BotoCoreError)))"

definition create_tables :: "env \<Rightarrow> Settings \<Rightarrow> ('z account_scheme, unit) op" where
  "create_tables E S = forE (\<lambda>(logical, spec).
     case map_of (ddb_tables S) logical of
       None \<Rightarrow> raise (Exn (Py KeyErrorPy))
     | Some name \<Rightarrow>
         thenE (exists_ok [''ResourceInUseException'']
           (thenE (run_aws E (aws_create_table name spec)) (wait_table_exists E)))
         (whenE (logical \<in> TABLES_WITH_TTL) (enable_ttl E name))) table_definitions"

definition create_bucket :: "env \<Rightarrow> Settings \<Rightarrow> ('z account_scheme, unit) op" where
  "create_bucket E S = exists_ok [''BucketAlreadyOwnedByYou'', ''BucketAlreadyExists'']
     (run_aws E (aws_create_bucket (s3_bucket S)))"

definition create_event_bus :: "env \<Rightarrow> Settings \<Rightarrow> ('z account_scheme, unit) op" where
  "create_event_bus E S = exists_ok [''ResourceAlreadyExistsException'']
     (run_aws E (aws_create_bus (event_bus_name S)))"

definition MAX_RECEIVE_COUNT :: nat where "MAX_RECEIVE_COUNT = 5"

definition dlq_name :: "string \<Rightarrow> string" where "dlq_name name = name @ ''-dlq''"

text \<open>The ARN of a queue in this account is a function of its name.\<close>

definition create_queue :: "env \<Rightarrow> (string \<Rightarrow> string) \<Rightarrow> string \<Rightarrow> redrive option \<Rightarrow> ('z account_scheme, string) op" where
  "create_queue E arn name redrive =
     thenE (catchE (run_aws E (aws_create_queue name redrive)) (\<lambda>e.
       if e = AwsError ''QueueAlreadyExists'' then run_aws E (aws_get_queue name) else raise e))
     (thenE (run_aws E (aws_get_queue name)) (ret (arn name)))"

definition create_queues :: "env \<Rightarrow> (string \<Rightarrow> string) \<Rightarrow> Settings \<Rightarrow> ('z account_scheme, unit) op" where
  "create_queues E arn S = forE (\<lambda>(_, name).
     bindE (create_queue E arn (dlq_name name) None) (\<lambda>dlq_arn.
     thenE (create_queue E arn name (Some (dlq_arn, MAX_RECEIVE_COUNT))) (ret ())))
     (omnichannel_queue_names S)"

definition verify_ses_identity :: "env \<Rightarrow> string \<Rightarrow> ('z account_scheme, unit) op" where
  "verify_ses_identity E d = catchE (run_aws E (aws_verify_domain d)) (\<lambda>e. case e of
     AwsError _ \<Rightarrow> ret () | _ \<Rightarrow> raise e)"

definition create_sample_config_set :: "env \<Rightarrow> Settings \<Rightarrow> string \<Rightarrow> ('z account_scheme, unit) op" where
  "create_sample_config_set E S name =
     thenE (exists_ok [''ConfigurationSetAlreadyExists'', ''AlreadyExists''] (run_aws E (ses_create_config_set name)))
     (if ses_notifications_topic_arn S \<in> {None, Some []} then ret ()
      else exists_ok [''EventDestinationAlreadyExists'', ''AlreadyExists''] (run_aws E (ses_create_event_dest name)))"

definition provision :: "env \<Rightarrow> (string \<Rightarrow> string) \<Rightarrow> Settings \<Rightarrow> ('z account_scheme, unit) op" where
  "provision E arn S =
     thenE (create_tables E S)
     (thenE (create_bucket E S)
     (thenE (create_event_bus E S)
     (thenE (create_queues E arn S)
     (thenE (verify_ses_identity E ''example.com'')
     (create_sample_config_set E S ''local-dev-invoicing'')))))"

section \<open>Nothing is lost, and what a step makes\<close>

text \<open>An account grows: what it has, it keeps unchanged.\<close>

definition grows :: "'z account_scheme \<Rightarrow> 'z account_scheme \<Rightarrow> bool" where
  "grows w w' \<longleftrightarrow> map_of (ac_tables w) \<subseteq>\<^sub>m map_of (ac_tables w') \<and> map_of (ac_ttl w) \<subseteq>\<^sub>m map_of (ac_ttl w') \<and>
     map_of (ac_queues w) \<subseteq>\<^sub>m map_of (ac_queues w') \<and> set (ac_buckets w) \<subseteq> set (ac_buckets w') \<and>
     set (ac_buses w) \<subseteq> set (ac_buses w') \<and> set (ac_identities w) \<subseteq> set (ac_identities w') \<and>
     set (ses_config_sets w) \<subseteq> set (ses_config_sets w') \<and> set (ses_event_dests w) \<subseteq> set (ses_event_dests w')"

lemma grows_refl [simp]: "grows w w" by (simp add: grows_def)

lemma grows_trans: "grows u v \<Longrightarrow> grows v w \<Longrightarrow> grows u w"
  unfolding grows_def by (auto intro: map_le_trans)

lemma grows_tick [simp]: "grows (w\<lparr>tick := n\<rparr>) w' \<longleftrightarrow> grows w w'" "grows w (w'\<lparr>tick := n\<rparr>) \<longleftrightarrow> grows w w'"
  by (simp_all add: grows_def)

definition upward :: "('z account_scheme \<Rightarrow> bool) \<Rightarrow> bool" where
  "upward Q \<longleftrightarrow> (\<forall>w w'. Q w \<longrightarrow> grows w w' \<longrightarrow> Q w')"

lemma map_le_kept: "m \<subseteq>\<^sub>m m' \<Longrightarrow> m k \<noteq> None \<Longrightarrow> m' k \<noteq> None"
  by (metis domIff map_le_def)

lemma upward_rules:
  "upward (\<lambda>w. map_of (ac_tables w) n \<noteq> None)" "upward (\<lambda>w. map_of (ac_ttl w) n \<noteq> None)"
  "upward (\<lambda>w. map_of (ac_queues w) n \<noteq> None)" "upward (\<lambda>w. n \<in> set (ac_buckets w))"
  "upward (\<lambda>w. n \<in> set (ac_buses w))" "upward (\<lambda>w. n \<in> set (ac_identities w))"
  "upward (\<lambda>w. n \<in> set (ses_config_sets w))" "upward (\<lambda>w. n \<in> set (ses_event_dests w))"
  unfolding upward_def grows_def
  by (intro allI impI; elim conjE; (erule (1) map_le_kept | erule (1) subsetD))+

lemma upward_combine:
  "upward (\<lambda>w. True)" "upward P \<Longrightarrow> upward Q \<Longrightarrow> upward (\<lambda>w. P w \<and> Q w)"
  "upward Q \<Longrightarrow> upward (\<lambda>w. c \<longrightarrow> Q w)" "(\<And>x. upward (R x)) \<Longrightarrow> upward (\<lambda>w. \<forall>x\<in>A. R x w)"
  unfolding upward_def by blast+

text \<open>
  \<open>makes C Q m\<close>: whatever \<open>m\<close> does, the account grows; and when it succeeds, or is refused
  with a code of \<open>C\<close>, then \<open>Q\<close> holds.
\<close>

definition makes :: "string set \<Rightarrow> ('z account_scheme \<Rightarrow> bool) \<Rightarrow> ('z account_scheme, 'a) op \<Rightarrow> bool" where
  "makes C Q m \<longleftrightarrow> (\<forall>w r w'. m w = (r, w') \<longrightarrow> grows w w' \<and>
     ((\<exists>x. r = Inr x) \<or> (\<exists>c\<in>C. r = Inl (AwsError c)) \<longrightarrow> Q w'))"

named_theorems making \<open>rules for \<open>makes\<close>\<close>

lemma makesD: "makes C Q m \<Longrightarrow> m w = (r, w') \<Longrightarrow> grows w w' \<and> (\<forall>x. r = Inr x \<longrightarrow> Q w')"
  by (auto simp: makes_def)

lemma makes_then:
  assumes "makes {} P m" and "upward P" and "makes {} Q n"
  shows "makes {} (\<lambda>w. P w \<and> Q w) (thenE m n)"
  unfolding makes_def
proof (intro allI impI)
  fix w :: "'a account_scheme" and r :: "exn + 'c" and w'
  assume "thenE m n w = (r, w')"
  then show "grows w w' \<and> ((\<exists>x. r = Inr x) \<or> (\<exists>c\<in>{}. r = Inl (AwsError c)) \<longrightarrow> P w' \<and> Q w')"
  proof (cases rule: thenE_cases)
    case (stop e)
    with makesD [OF assms(1)] show ?thesis by auto
  next
    case (go x w1)
    from makesD [OF assms(1) go(1)] makesD [OF assms(3) go(2)] assms(2) show ?thesis
      by (auto simp: upward_def intro: grows_trans)
  qed
qed

lemma makes_first:
  assumes "makes C Q m" and "upward Q" and "makes {} T n"
  shows "makes C Q (thenE m n)"
  unfolding makes_def
proof (intro allI impI)
  fix w :: "'a account_scheme" and r :: "exn + 'c" and w'
  assume "thenE m n w = (r, w')"
  then show "grows w w' \<and> ((\<exists>x. r = Inr x) \<or> (\<exists>c\<in>C. r = Inl (AwsError c)) \<longrightarrow> Q w')"
  proof (cases rule: thenE_cases)
    case (stop e)
    with assms(1) show ?thesis unfolding makes_def by blast
  next
    case (go x w1)
    from makesD [OF assms(1) go(1)] makesD [OF assms(3) go(2)] assms(2) show ?thesis
      by (auto simp: upward_def intro: grows_trans)
  qed
qed

lemma makes_for:
  assumes "\<And>x. makes {} (R x) (f x)" and "\<And>x. upward (R x)"
  shows "makes {} (\<lambda>w. \<forall>x\<in>set xs. R x w) (forE f xs)"
proof (induction xs)
  case Nil
  show ?case by (simp add: makes_def)
next
  case (Cons x xs)
  from makes_then [OF assms(1,2) Cons] show ?case by simp
qed

lemma makes_run_aws:
  assumes "makes C Q fn" and "C \<inter> {''ThrottlingException'', ''InternalServerError'', ''AccessDeniedException''} = {}"
  shows "makes C Q (run_aws E fn)"
  unfolding makes_def
proof (intro allI impI)
  fix w :: "'a account_scheme" and r :: "exn + 'b" and w'
  assume "run_aws E fn w = (r, w')"
  then show "grows w w' \<and> ((\<exists>x. r = Inr x) \<or> (\<exists>c\<in>C. r = Inl (AwsError c)) \<longrightarrow> Q w')"
  proof (cases rule: run_aws_cases)
    case 1
    with assms(1) show ?thesis unfolding makes_def by (metis grows_tick(1))
  next
    case (2 x)
    with assms(2) show ?thesis by (cases x) auto
  next
    case (3 x)
    have "grows w w'" using 3(2) makesD [OF assms(1) prod.collapse [symmetric], of "w\<lparr>tick := Suc (tick w)\<rparr>"] by simp
    with 3(1) assms(2) show ?thesis by (cases x) auto
  qed
qed

lemma makes_exists_ok:
  "makes C Q m \<Longrightarrow> set codes \<subseteq> C \<Longrightarrow> makes {} Q (exists_ok codes m)"
  unfolding makes_def exists_ok_def
  by (fastforce simp: catchE_app split: prod.splits sum.splits exn.splits if_splits)

lemma makes_weaken: "makes C Q m \<Longrightarrow> (\<And>w. Q w \<Longrightarrow> P w) \<Longrightarrow> D \<subseteq> C \<Longrightarrow> makes D P m"
  unfolding makes_def by blast

section \<open>The calls\<close>

lemma calls_make:
  "makes {''ResourceInUseException''} (\<lambda>w. map_of (ac_tables w) n \<noteq> None) (aws_create_table n ts)"
  "makes {''ValidationException''} (\<lambda>w. map_of (ac_ttl w) n \<noteq> None) (aws_enable_ttl n a)"
  "makes {''BucketAlreadyOwnedByYou'', ''BucketAlreadyExists''} (\<lambda>w. n \<in> set (ac_buckets w)) (aws_create_bucket n)"
  "makes {''ResourceAlreadyExistsException''} (\<lambda>w. n \<in> set (ac_buses w)) (aws_create_bus n)"
  "makes {''QueueAlreadyExists''} (\<lambda>w. map_of (ac_queues w) n \<noteq> None) (aws_create_queue n rd)"
  "makes {} (\<lambda>w. map_of (ac_queues w) n \<noteq> None) (aws_get_queue n)"
  "makes {} (\<lambda>w. n \<in> set (ac_identities w)) (aws_verify_domain n)"
  "makes {''ConfigurationSetAlreadyExists'', ''AlreadyExists''} (\<lambda>w. n \<in> set (ses_config_sets w)) (ses_create_config_set n)"
  "makes {''EventDestinationAlreadyExists'', ''AlreadyExists''} (\<lambda>w. n \<in> set (ses_event_dests w)) (ses_create_event_dest n)"
  unfolding makes_def grows_def aws_create_table_def aws_enable_ttl_def aws_create_bucket_def aws_create_bus_def
    aws_create_queue_def aws_get_queue_def aws_verify_domain_def ses_create_config_set_def ses_create_event_dest_def
  by (auto simp: bindE_app map_add_Some_iff split: if_splits option.splits)

lemma wait_makes: "makes {} (\<lambda>w. True) (wait_table_exists E)"
proof -
  have "makes {} (\<lambda>w. True) (run_aws E (ret ()) :: ('a account_scheme, unit) op)"
    by (rule makes_run_aws) (simp_all add: makes_def)
  then show ?thesis
    unfolding makes_def wait_table_exists_def by (fastforce simp: catchE_app split: prod.splits sum.splits)
qed

lemma create_queue_makes:
  "makes {} (\<lambda>w. map_of (ac_queues w) n \<noteq> None) (create_queue E arn n rd)"
proof -
  have create: "makes {''QueueAlreadyExists''} (\<lambda>w. map_of (ac_queues w) n \<noteq> None) (run_aws E (aws_create_queue n rd) :: ('a account_scheme, unit) op)"
    and get: "makes {} (\<lambda>w. map_of (ac_queues w) n \<noteq> None) (run_aws E (aws_get_queue n) :: ('a account_scheme, unit) op)"
    by (rule makes_run_aws [OF calls_make(5)] makes_run_aws [OF calls_make(6)]; simp)+
  have "makes {} (\<lambda>w. map_of (ac_queues w) n \<noteq> None) (catchE (run_aws E (aws_create_queue n rd)) (\<lambda>e.
       if e = AwsError ''QueueAlreadyExists'' then run_aws E (aws_get_queue n) else raise e) :: ('a account_scheme, unit) op)"
    unfolding makes_def
  proof (intro allI impI)
    fix w :: "'a account_scheme" and r w'
    assume run: "catchE (run_aws E (aws_create_queue n rd)) (\<lambda>e.
       if e = AwsError ''QueueAlreadyExists'' then run_aws E (aws_get_queue n) else raise e) w = (r, w')"
    obtain r1 w1 where c: "run_aws E (aws_create_queue n rd) w = (r1, w1)" by (rule prod.exhaust)
    show "grows w w' \<and> ((\<exists>x. r = Inr x) \<or> (\<exists>c\<in>{}. r = Inl (AwsError c)) \<longrightarrow> map_of (ac_queues w') n \<noteq> None)"
      using run c makesD [OF create c] makesD [OF get, of w1 r w']
      by (auto simp: catchE_app split: sum.splits if_splits intro: grows_trans)
  qed
  moreover have "makes {} (\<lambda>w. True) (ret (arn n) :: ('a account_scheme, string) op)" by (simp add: makes_def)
  ultimately show ?thesis
    unfolding create_queue_def using makes_first [OF get upward_rules(3)] upward_rules(3)
    by (blast intro: makes_first makes_weaken)
qed

section \<open>The script\<close>

definition provisioned :: "Settings \<Rightarrow> 'z account_scheme \<Rightarrow> bool" where
  "provisioned S w \<longleftrightarrow>
     (\<forall>(l, ts)\<in>set table_definitions. map_of (ac_tables w) (the (map_of (ddb_tables S) l)) \<noteq> None \<and>
        (l \<in> TABLES_WITH_TTL \<longrightarrow> map_of (ac_ttl w) (the (map_of (ddb_tables S) l)) \<noteq> None)) \<and>
     s3_bucket S \<in> set (ac_buckets w) \<and> event_bus_name S \<in> set (ac_buses w) \<and>
     (\<forall>(l, n)\<in>set (omnichannel_queue_names S).
        map_of (ac_queues w) n \<noteq> None \<and> map_of (ac_queues w) (dlq_name n) \<noteq> None) \<and>
     ''local-dev-invoicing'' \<in> set (ses_config_sets w) \<and>
     (ses_notifications_topic_arn S \<notin> {None, Some []} \<longrightarrow> ''local-dev-invoicing'' \<in> set (ses_event_dests w))"

lemma create_table_makes:
  "makes {} (\<lambda>w. map_of (ac_tables w) n \<noteq> None)
     (exists_ok [''ResourceInUseException''] (thenE (run_aws E (aws_create_table n ts)) (wait_table_exists E)))"
  by (rule makes_exists_ok [OF makes_first [OF makes_run_aws [OF calls_make(1)] upward_rules(1) wait_makes]]) simp_all

lemma enable_ttl_makes: "makes {} (\<lambda>w. map_of (ac_ttl w) n \<noteq> None) (enable_ttl E n)"
  unfolding enable_ttl_def by (rule makes_exists_ok [OF makes_run_aws [OF calls_make(2)]]) simp_all

lemma makes_when: "makes {} Q m \<Longrightarrow> makes {} (\<lambda>w. c \<longrightarrow> Q w) (whenE c m)"
  by (cases c) (simp_all add: makes_def)

lemma create_tables_makes:
  "makes {} (\<lambda>w. \<forall>(l, ts)\<in>set table_definitions. map_of (ac_tables w) (the (map_of (ddb_tables S) l)) \<noteq> None \<and>
     (l \<in> TABLES_WITH_TTL \<longrightarrow> map_of (ac_ttl w) (the (map_of (ddb_tables S) l)) \<noteq> None)) (create_tables E S)"
proof -
  let ?R = "\<lambda>(l, ts :: table_spec) w :: 'a account_scheme. map_of (ac_tables w) (the (map_of (ddb_tables S) l)) \<noteq> None \<and>
     (l \<in> TABLES_WITH_TTL \<longrightarrow> map_of (ac_ttl w) (the (map_of (ddb_tables S) l)) \<noteq> None)"
  have up: "upward (?R x)" for x
    by (cases x) (simp only: prod.case, intro upward_combine upward_rules)
  show ?thesis
    unfolding create_tables_def
  proof (rule makes_weaken [OF makes_for [where R = ?R]])
    fix x :: "string \<times> table_spec"
    obtain l ts where x: "x = (l, ts)" by (rule prod.exhaust)
    show "makes {} (?R x) (case x of (l, ts) \<Rightarrow> case map_of (ddb_tables S) l of
       None \<Rightarrow> raise (Exn (Py KeyErrorPy))
     | Some n \<Rightarrow> thenE (exists_ok [''ResourceInUseException''] (thenE (run_aws E (aws_create_table n ts)) (wait_table_exists E)))
         (whenE (l \<in> TABLES_WITH_TTL) (enable_ttl E n)))"
    proof (cases "map_of (ddb_tables S) l")
      case None
      then show ?thesis by (simp add: x makes_def)
    next
      case (Some n)
      have "makes {} (\<lambda>w :: 'a account_scheme. map_of (ac_tables w) n \<noteq> None \<and> (l \<in> TABLES_WITH_TTL \<longrightarrow> map_of (ac_ttl w) n \<noteq> None))
        (thenE (exists_ok [''ResourceInUseException''] (thenE (run_aws E (aws_create_table n ts)) (wait_table_exists E)))
         (whenE (l \<in> TABLES_WITH_TTL) (enable_ttl E n)))"
        by (intro makes_then create_table_makes makes_when enable_ttl_makes upward_rules)
      with Some show ?thesis by (simp add: x)
    qed
  qed (use up in \<open>auto simp: split_beta\<close>)
qed

lemma create_queues_makes:
  "makes {} (\<lambda>w. \<forall>(l, n)\<in>set (omnichannel_queue_names S).
     map_of (ac_queues w) n \<noteq> None \<and> map_of (ac_queues w) (dlq_name n) \<noteq> None) (create_queues E arn S)"
proof -
  let ?R = "\<lambda>(l :: string, n) w :: 'a account_scheme. map_of (ac_queues w) n \<noteq> None \<and> map_of (ac_queues w) (dlq_name n) \<noteq> None"
  have up: "upward (?R x)" for x
    by (cases x) (simp only: prod.case, intro upward_combine upward_rules)
  have arn: "bindE (create_queue E arn d None) (\<lambda>a. k a) = thenE (create_queue E arn d None) (k (arn d))"
    for d and k :: "string \<Rightarrow> ('a account_scheme, unit) op"
    by (rule ext) (auto simp: create_queue_def bindE_app thenE_app split: prod.split sum.split)
  have one: "makes {} (\<lambda>w. map_of (ac_queues w) (dlq_name n) \<noteq> None \<and> (map_of (ac_queues w) n \<noteq> None \<and> True))
      (thenE (create_queue E arn (dlq_name n) None) (thenE (create_queue E arn n rd) (ret () :: ('a account_scheme, unit) op)))" for n rd
    by (intro makes_then create_queue_makes upward_rules) (simp add: makes_def)
  show ?thesis
    unfolding create_queues_def
  proof (rule makes_weaken [OF makes_for [where R = ?R]])
    fix x :: "string \<times> string"
    show "makes {} (?R x) (case x of (l, n) \<Rightarrow> bindE (create_queue E arn (dlq_name n) None) (\<lambda>dlq_arn.
       thenE (create_queue E arn n (Some (dlq_arn, MAX_RECEIVE_COUNT))) (ret ())))"
      using makes_weaken [OF one] by (cases x) (auto simp: arn)
  qed (use up in \<open>auto simp: split_beta\<close>)
qed

lemma identity_makes:
  "makes {} (\<lambda>w. no_faults E \<longrightarrow> d \<in> set (ac_identities w)) (verify_ses_identity E d)"
proof -
  have base: "makes {} (\<lambda>w. d \<in> set (ac_identities w)) (run_aws E (aws_verify_domain d) :: ('a account_scheme, unit) op)"
    by (rule makes_run_aws [OF calls_make(7)]) simp
  show ?thesis
    unfolding makes_def
  proof (intro allI impI)
    fix w :: "'a account_scheme" and r w'
    assume run: "verify_ses_identity E d w = (r, w')"
    obtain r1 w1 where m: "run_aws E (aws_verify_domain d) w = (r1, w1)" by (rule prod.exhaust)
    from run m have "w' = w1" by (auto simp: verify_ses_identity_def catchE_app split: sum.splits exn.splits)
    moreover have "no_faults E \<Longrightarrow> r1 = Inr ()" using m by (auto simp: aws_verify_domain_def)
    ultimately show "grows w w' \<and> ((\<exists>x. r = Inr x) \<or> (\<exists>c\<in>{}. r = Inl (AwsError c)) \<longrightarrow>
        no_faults E \<longrightarrow> d \<in> set (ac_identities w'))"
      using makesD [OF base m] by auto
  qed
qed

lemma config_makes:
  "makes {} (\<lambda>w. n \<in> set (ses_config_sets w) \<and>
     (ses_notifications_topic_arn S \<notin> {None, Some []} \<longrightarrow> n \<in> set (ses_event_dests w))) (create_sample_config_set E S n)"
proof -
  have "makes {} (\<lambda>w. ses_notifications_topic_arn S \<notin> {None, Some []} \<longrightarrow> n \<in> set (ses_event_dests w))
    (if ses_notifications_topic_arn S \<in> {None, Some []} then ret ()
      else exists_ok [''EventDestinationAlreadyExists'', ''AlreadyExists''] (run_aws E (ses_create_event_dest n))
      :: ('a account_scheme, unit) op)"
    using makes_exists_ok [OF makes_run_aws [where E = E, OF calls_make(9) [of n]], where codes = "[''EventDestinationAlreadyExists'', ''AlreadyExists'']"]
    by (auto simp: makes_def)
  moreover have "makes {} (\<lambda>w. n \<in> set (ses_config_sets w)) (exists_ok [''ConfigurationSetAlreadyExists'', ''AlreadyExists'']
      (run_aws E (ses_create_config_set n)) :: ('a account_scheme, unit) op)"
    by (rule makes_exists_ok [OF makes_run_aws [OF calls_make(8)]]) simp_all
  ultimately show ?thesis
    unfolding create_sample_config_set_def by (intro makes_then upward_rules)
qed

lemma bucket_bus_make:
  "makes {} (\<lambda>w. s3_bucket S \<in> set (ac_buckets w)) (create_bucket E S)"
  "makes {} (\<lambda>w. event_bus_name S \<in> set (ac_buses w)) (create_event_bus E S)"
  unfolding create_bucket_def create_event_bus_def
  by (rule makes_exists_ok [OF makes_run_aws [OF calls_make(3)]] makes_exists_ok [OF makes_run_aws [OF calls_make(4)]]; simp)+

lemma provision_makes:
  "makes {} (\<lambda>w. provisioned S w \<and> (no_faults E \<longrightarrow> ''example.com'' \<in> set (ac_identities w))) (provision E arn S)"
proof (rule makes_weaken)
  show "makes {} (\<lambda>w. (\<forall>(l, ts)\<in>set table_definitions. map_of (ac_tables w) (the (map_of (ddb_tables S) l)) \<noteq> None \<and>
        (l \<in> TABLES_WITH_TTL \<longrightarrow> map_of (ac_ttl w) (the (map_of (ddb_tables S) l)) \<noteq> None)) \<and>
     s3_bucket S \<in> set (ac_buckets w) \<and> event_bus_name S \<in> set (ac_buses w) \<and>
     (\<forall>(l, n)\<in>set (omnichannel_queue_names S).
        map_of (ac_queues w) n \<noteq> None \<and> map_of (ac_queues w) (dlq_name n) \<noteq> None) \<and>
     (no_faults E \<longrightarrow> ''example.com'' \<in> set (ac_identities w)) \<and>
     ''local-dev-invoicing'' \<in> set (ses_config_sets w) \<and>
     (ses_notifications_topic_arn S \<notin> {None, Some []} \<longrightarrow> ''local-dev-invoicing'' \<in> set (ses_event_dests w)))
     (provision E arn S :: ('a account_scheme, unit) op)"
    unfolding provision_def
    by (intro makes_then create_tables_makes bucket_bus_make create_queues_makes identity_makes config_makes
        upward_combine upward_rules upward_def [THEN iffD2])
      (auto simp: upward_def grows_def dest: map_le_kept)
qed (auto simp: provisioned_def)

section \<open>Runs without failures\<close>

definition works :: "('w, 'a) op \<Rightarrow> bool" where
  "works m \<longleftrightarrow> (\<forall>w. \<exists>x w'. m w = (Inr x, w'))"

lemma works_then: "works m \<Longrightarrow> works n \<Longrightarrow> works (thenE m n)"
  unfolding works_def by (metis thenE_run)

lemma works_for: "(\<And>x. x \<in> set xs \<Longrightarrow> works (f x)) \<Longrightarrow> works (forE f xs)"
  by (induction xs) (auto simp: works_then, simp add: works_def)

text \<open>\<open>rests Q m\<close>: where \<open>Q\<close> holds, \<open>m\<close> returns and changes nothing but the clock.\<close>

definition rests :: "('z account_scheme \<Rightarrow> bool) \<Rightarrow> ('z account_scheme, 'a) op \<Rightarrow> bool" where
  "rests Q m \<longleftrightarrow> (\<forall>w. Q w \<longrightarrow> (\<exists>x k. m w = (Inr x, w\<lparr>tick := k\<rparr>)))"

lemma rests_then:
  assumes "rests Q m" and "rests Q n" and "upward Q"
  shows "rests Q (thenE m n)"
  unfolding rests_def
proof (intro allI impI)
  fix w :: "'a account_scheme"
  assume "Q w"
  with assms(1) obtain x k where m: "m w = (Inr x, w\<lparr>tick := k\<rparr>)" unfolding rests_def by blast
  have "Q (w\<lparr>tick := k\<rparr>)" using assms(3) \<open>Q w\<close> by (simp add: upward_def)
  with assms(2) obtain y j where "n (w\<lparr>tick := k\<rparr>) = (Inr y, w\<lparr>tick := k\<rparr>\<lparr>tick := j\<rparr>)" unfolding rests_def by blast
  with m show "\<exists>x k. thenE m n w = (Inr x, w\<lparr>tick := k\<rparr>)" by (auto simp: thenE_app)
qed

lemma rests_ret: "rests Q (ret x)"
  unfolding rests_def
proof (intro allI impI)
  fix w :: "'a account_scheme"
  show "\<exists>y k. ret x w = (Inr y, w\<lparr>tick := k\<rparr>)" by (rule exI [of _ x], rule exI [of _ "tick w"]) simp
qed

lemma rests_for: "(\<And>x. x \<in> set xs \<Longrightarrow> rests Q (f x)) \<Longrightarrow> upward Q \<Longrightarrow> rests Q (forE f xs)"
  by (induction xs) (simp_all add: rests_then rests_ret)

lemma rests_weaken: "rests Q m \<Longrightarrow> (\<And>w. P w \<Longrightarrow> Q w) \<Longrightarrow> rests P m"
  unfolding rests_def by blast

lemma bind_create_queue:
  "bindE (create_queue E arn d rd) k = thenE (create_queue E arn d rd) (k (arn d))"
  by (rule ext) (auto simp: create_queue_def bindE_app thenE_app split: prod.split sum.split)

lemma steps_work:
  assumes "no_faults E"
  shows "valid_spec ts \<Longrightarrow> works (exists_ok [''ResourceInUseException'']
      (thenE (run_aws E (aws_create_table n ts)) (wait_table_exists E)) :: ('z account_scheme, unit) op)"
    and "works (create_bucket E S :: ('z account_scheme, unit) op)" "works (create_event_bus E S :: ('z account_scheme, unit) op)"
    and "works (create_queue E arn n rd :: ('z account_scheme, string) op)"
    and "works (verify_ses_identity E d :: ('z account_scheme, unit) op)"
    and "works (create_sample_config_set E S n :: ('z account_scheme, unit) op)"
  using assms
  by (auto simp: works_def exists_ok_def wait_table_exists_def create_bucket_def create_event_bus_def create_queue_def
      verify_ses_identity_def create_sample_config_set_def aws_create_table_def aws_create_bucket_def aws_create_bus_def
      aws_create_queue_def aws_get_queue_def aws_verify_domain_def ses_create_config_set_def ses_create_event_dest_def
      bindE_app thenE_app catchE_app split: option.split if_splits)

lemma steps_rest:
  assumes "no_faults E"
  shows "valid_spec ts \<Longrightarrow> rests (\<lambda>w. map_of (ac_tables w) n \<noteq> None) (exists_ok [''ResourceInUseException'']
      (thenE (run_aws E (aws_create_table n ts)) (wait_table_exists E)))"
    and "rests (\<lambda>w. map_of (ac_tables w) n \<noteq> None \<and> map_of (ac_ttl w) n \<noteq> None) (enable_ttl E n)"
    and "rests (\<lambda>w. s3_bucket S \<in> set (ac_buckets w)) (create_bucket E S)"
    and "rests (\<lambda>w. event_bus_name S \<in> set (ac_buses w)) (create_event_bus E S)"
    and "rests (\<lambda>w. map_of (ac_queues w) n \<noteq> None) (create_queue E arn n rd)"
    and "rests (\<lambda>w. d \<in> set (ac_identities w)) (verify_ses_identity E d)"
    and "rests (\<lambda>w. n \<in> set (ses_config_sets w) \<and>
       (ses_notifications_topic_arn S \<notin> {None, Some []} \<longrightarrow> n \<in> set (ses_event_dests w))) (create_sample_config_set E S n)"
  using assms
  by (auto simp: rests_def exists_ok_def wait_table_exists_def enable_ttl_def create_bucket_def create_event_bus_def
      create_queue_def verify_ses_identity_def create_sample_config_set_def aws_create_table_def aws_enable_ttl_def
      aws_create_bucket_def aws_create_bus_def aws_create_queue_def aws_get_queue_def aws_verify_domain_def
      ses_create_config_set_def ses_create_event_dest_def bindE_app thenE_app catchE_app List.insert_def
      split: option.split if_splits)

lemma definitions_valid: "list_all (\<lambda>(l, ts). valid_spec ts) table_definitions"
  by (simp add: table_definitions_def table_of_keys_def gsi_def valid_spec_def) auto

lemma definitions_named: "(l, ts) \<in> set table_definitions \<Longrightarrow> \<exists>n. map_of (ddb_tables S) l = Some n"
  by (auto simp: table_definitions_def ddb_tables_def)

lemma create_tables_works:
  assumes "no_faults E"
  shows "works (create_tables E S :: ('z account_scheme, unit) op)"
  unfolding create_tables_def
proof (rule works_for)
  fix x :: "string \<times> table_spec"
  assume x: "x \<in> set table_definitions"
  obtain l ts where p: "x = (l, ts)" by (rule prod.exhaust)
  obtain n where n: "map_of (ddb_tables S) l = Some n" using definitions_named x p by blast
  have "valid_spec ts" using definitions_valid x p by (auto simp: list_all_iff)
  note create = steps_work(1) [OF assms this, of n]
  have "works (thenE (exists_ok [''ResourceInUseException''] (thenE (run_aws E (aws_create_table n ts)) (wait_table_exists E)))
      (whenE (l \<in> TABLES_WITH_TTL) (enable_ttl E n)) :: ('z account_scheme, unit) op)"
    unfolding works_def
  proof
    fix w :: "'z account_scheme"
    obtain y w1 where c: "exists_ok [''ResourceInUseException''] (thenE (run_aws E (aws_create_table n ts)) (wait_table_exists E)) w = (Inr y, w1)"
      using create unfolding works_def by blast
    have "map_of (ac_tables w1) n \<noteq> None" using makesD [OF create_table_makes c] by simp
    then have "\<exists>w'. whenE (l \<in> TABLES_WITH_TTL) (enable_ttl E n) w1 = (Inr (), w')"
      using assms by (auto simp: whenE_def enable_ttl_def exists_ok_def aws_enable_ttl_def catchE_app)
    with c show "\<exists>x w'. thenE (exists_ok [''ResourceInUseException''] (thenE (run_aws E (aws_create_table n ts)) (wait_table_exists E)))
      (whenE (l \<in> TABLES_WITH_TTL) (enable_ttl E n)) w = (Inr x, w')" by (auto simp: thenE_app)
  qed
  with n show "works ((case x of (l, ts) \<Rightarrow> case map_of (ddb_tables S) l of
       None \<Rightarrow> raise (Exn (Py KeyErrorPy))
     | Some n \<Rightarrow> thenE (exists_ok [''ResourceInUseException''] (thenE (run_aws E (aws_create_table n ts)) (wait_table_exists E)))
         (whenE (l \<in> TABLES_WITH_TTL) (enable_ttl E n))) :: ('z account_scheme, unit) op)" by (simp add: p)
qed

lemma provision_works:
  assumes "no_faults E"
  shows "works (provision E arn S :: ('z account_scheme, unit) op)"
proof -
  have "works (create_queues E arn S :: ('z account_scheme, unit) op)"
    unfolding create_queues_def bind_create_queue split_beta
    by (intro works_for works_then steps_work [OF assms]) (simp add: works_def)
  then show ?thesis
    unfolding provision_def by (intro works_then create_tables_works steps_work assms)
qed

lemma provision_rests:
  assumes "no_faults E"
  shows "rests (\<lambda>w. provisioned S w \<and> ''example.com'' \<in> set (ac_identities w)) (provision E arn S)"
proof -
  let ?Q = "\<lambda>w :: 'a account_scheme. provisioned S w \<and> ''example.com'' \<in> set (ac_identities w)"
  have up: "upward ?Q"
    unfolding provisioned_def split_beta by (intro upward_combine upward_rules)
  have tables: "rests ?Q (create_tables E S)"
    unfolding create_tables_def
  proof (rule rests_for [OF _ up])
    fix x :: "string \<times> table_spec"
    assume x: "x \<in> set table_definitions"
    obtain l ts where p: "x = (l, ts)" by (rule prod.exhaust)
    obtain n where n: "map_of (ddb_tables S) l = Some n" using definitions_named x p by blast
    have valid: "valid_spec ts" using definitions_valid x p by (auto simp: list_all_iff)
    have has: "map_of (ac_tables w) n \<noteq> None \<and> (l \<in> TABLES_WITH_TTL \<longrightarrow> map_of (ac_ttl w) n \<noteq> None)"
      if "provisioned S w" for w :: "'a account_scheme"
      using bspec [OF that [unfolded provisioned_def, THEN conjunct1] x] n by (simp add: p)
    have "rests ?Q (whenE (l \<in> TABLES_WITH_TTL) (enable_ttl E n))"
      using rests_weaken [OF steps_rest(2) [OF assms, of n], of ?Q] has by (cases "l \<in> TABLES_WITH_TTL") (auto simp: rests_ret)
    moreover have "rests ?Q (exists_ok [''ResourceInUseException''] (thenE (run_aws E (aws_create_table n ts)) (wait_table_exists E)))"
      using rests_weaken [OF steps_rest(1) [OF assms valid, of n], of ?Q] has by auto
    ultimately have "rests ?Q (thenE (exists_ok [''ResourceInUseException''] (thenE (run_aws E (aws_create_table n ts)) (wait_table_exists E)))
         (whenE (l \<in> TABLES_WITH_TTL) (enable_ttl E n)))" by (intro rests_then up)
    with n show "rests ?Q (case x of (l, ts) \<Rightarrow> case map_of (ddb_tables S) l of
       None \<Rightarrow> raise (Exn (Py KeyErrorPy))
     | Some n \<Rightarrow> thenE (exists_ok [''ResourceInUseException''] (thenE (run_aws E (aws_create_table n ts)) (wait_table_exists E)))
         (whenE (l \<in> TABLES_WITH_TTL) (enable_ttl E n)))" by (simp add: p)
  qed
  have queues: "rests ?Q (create_queues E arn S)"
    unfolding create_queues_def bind_create_queue
  proof (rule rests_for [OF _ up])
    fix x assume x: "x \<in> set (omnichannel_queue_names S)"
    obtain l n where p: "x = (l, n)" by (rule prod.exhaust)
    have has: "map_of (ac_queues w) n \<noteq> None \<and> map_of (ac_queues w) (dlq_name n) \<noteq> None"
      if "provisioned S w" for w :: "'a account_scheme"
      using that x p unfolding provisioned_def by auto
    have "rests ?Q (create_queue E arn n rd)" "rests ?Q (create_queue E arn (dlq_name n) rd)" for rd
      using has by (auto intro: rests_weaken [OF steps_rest(5) [OF assms]])
    then show "rests ?Q (case x of (_, name) \<Rightarrow> thenE (create_queue E arn (dlq_name name) None)
        (thenE (create_queue E arn name (Some (arn (dlq_name name), MAX_RECEIVE_COUNT))) (ret ())))"
      by (simp add: p rests_then up rests_ret)
  qed
  have rest: "rests ?Q (create_bucket E S)" "rests ?Q (create_event_bus E S)" "rests ?Q (verify_ses_identity E ''example.com'')"
    "rests ?Q (create_sample_config_set E S ''local-dev-invoicing'')"
    by (rule rests_weaken [OF steps_rest(3) [OF assms]] rests_weaken [OF steps_rest(4) [OF assms]]
      rests_weaken [OF steps_rest(6) [OF assms]] rests_weaken [OF steps_rest(7) [OF assms]]; simp add: provisioned_def)+
  show ?thesis
    unfolding provision_def by (intro rests_then tables queues rest up)
qed

section \<open>What the script leaves behind\<close>

text \<open>An account with nothing in it but what the program declares.\<close>

definition declared :: "Settings \<Rightarrow> (string \<Rightarrow> string) \<Rightarrow> 'z account_scheme \<Rightarrow> bool" where
  "declared S arn w \<longleftrightarrow>
     (\<forall>n ts. map_of (ac_tables w) n = Some ts \<longrightarrow>
        (\<exists>l. (l, ts) \<in> set table_definitions \<and> map_of (ddb_tables S) l = Some n)) \<and>
     (\<forall>n rd. map_of (ac_queues w) n = Some rd \<longrightarrow>
        (rd = None \<and> n \<in> dlq_name ` snd ` set (omnichannel_queue_names S)) \<or>
        (rd = Some (arn (dlq_name n), MAX_RECEIVE_COUNT) \<and> n \<in> snd ` set (omnichannel_queue_names S)))"

lemma keeps_for_in: "(\<And>x. x \<in> set xs \<Longrightarrow> keeps P (g x)) \<Longrightarrow> keeps P (forE g xs)"
  by (induction xs) (auto intro!: keepers)

lemma exists_ok_keeps [keepers]: "keeps P m \<Longrightarrow> keeps P (exists_ok codes m)"
  unfolding exists_ok_def by (rule keeps_catchE) (auto intro: keepers split: exn.split)

lemma declared_other:
  "declared S arn (w\<lparr>tick := k\<rparr>) = declared S arn w" "declared S arn (tick_update g w) = declared S arn w"
  by (simp_all add: declared_def)

lemma create_table_declared:
  "(l, ts) \<in> set table_definitions \<Longrightarrow> map_of (ddb_tables S) l = Some n \<Longrightarrow> keeps (declared S arn) (aws_create_table n ts)"
  by (auto simp: keeps_def aws_create_table_def declared_def map_add_Some_iff split: if_splits)

lemma create_queue_declared:
  "rd = None \<and> n \<in> dlq_name ` snd ` set (omnichannel_queue_names S) \<or>
   rd = Some (arn (dlq_name n), MAX_RECEIVE_COUNT) \<and> n \<in> snd ` set (omnichannel_queue_names S) \<Longrightarrow>
   keeps (declared S arn) (create_queue E arn n rd)"
proof -
  assume rd: "rd = None \<and> n \<in> dlq_name ` snd ` set (omnichannel_queue_names S) \<or>
   rd = Some (arn (dlq_name n), MAX_RECEIVE_COUNT) \<and> n \<in> snd ` set (omnichannel_queue_names S)"
  have "keeps (declared S arn) (aws_create_queue n rd :: ('a account_scheme, unit) op)"
    using rd by (auto simp: keeps_def aws_create_queue_def declared_def map_add_Some_iff split: option.split)
  moreover have "keeps (declared S arn) (aws_get_queue n :: ('a account_scheme, unit) op)"
    by (auto simp: keeps_def aws_get_queue_def)
  ultimately show ?thesis
    unfolding create_queue_def by (intro keepers; simp add: declared_other)
qed

lemma other_calls_declared:
  "keeps (declared S arn) (aws_enable_ttl n a)" "keeps (declared S arn) (aws_create_bucket n)"
  "keeps (declared S arn) (aws_create_bus n)" "keeps (declared S arn) (aws_verify_domain n)"
  "keeps (declared S arn) (ses_create_config_set n)" "keeps (declared S arn) (ses_create_event_dest n)"
  by (auto simp: keeps_def declared_def aws_enable_ttl_def aws_create_bucket_def aws_create_bus_def
      aws_verify_domain_def ses_create_config_set_def ses_create_event_dest_def bindE_app)

lemma provision_declared: "keeps (declared S arn) (provision E arn S)"
proof -
  have tables: "keeps (declared S arn) (create_tables E S :: ('a account_scheme, unit) op)"
    unfolding create_tables_def
  proof (rule keeps_for_in)
    fix x assume x: "x \<in> set table_definitions"
    obtain l ts where p: "x = (l, ts)" by (rule prod.exhaust)
    obtain n where n: "map_of (ddb_tables S) l = Some n" using definitions_named x p by blast
    have "keeps (declared S arn) (thenE (exists_ok [''ResourceInUseException''] (thenE (run_aws E (aws_create_table n ts)) (wait_table_exists E)))
         (whenE (l \<in> TABLES_WITH_TTL) (enable_ttl E n)) :: ('a account_scheme, unit) op)"
      unfolding wait_table_exists_def enable_ttl_def
      by (intro keepers create_table_declared [OF x [unfolded p] n] other_calls_declared) (simp_all add: declared_other)
    with n show "keeps (declared S arn) ((case x of (l, ts) \<Rightarrow> case map_of (ddb_tables S) l of
       None \<Rightarrow> raise (Exn (Py KeyErrorPy))
     | Some n \<Rightarrow> thenE (exists_ok [''ResourceInUseException''] (thenE (run_aws E (aws_create_table n ts)) (wait_table_exists E)))
         (whenE (l \<in> TABLES_WITH_TTL) (enable_ttl E n))) :: ('a account_scheme, unit) op)" by (simp add: p)
  qed
  have queues: "keeps (declared S arn) (create_queues E arn S :: ('a account_scheme, unit) op)"
    unfolding create_queues_def bind_create_queue
    by (rule keeps_for_in) (force intro!: keepers create_queue_declared)
  show ?thesis
    unfolding provision_def create_bucket_def create_event_bus_def verify_ses_identity_def create_sample_config_set_def
    by (intro keepers tables queues other_calls_declared) (auto intro: keepers simp: declared_other split: exn.split)
qed

text \<open>Attempts that may fail anywhere, one after another.\<close>

definition attempts :: "env list \<Rightarrow> (string \<Rightarrow> string) \<Rightarrow> Settings \<Rightarrow> 'z account_scheme \<Rightarrow> 'z account_scheme" where
  "attempts Fs arn S w = fold (\<lambda>F w. snd (provision F arn S w)) Fs w"

lemma attempts_grow: "grows w (attempts Fs arn S w)"
  unfolding attempts_def
proof (induction Fs arbitrary: w)
  case (Cons F Fs)
  have "grows w (snd (provision F arn S w))"
    using makesD [OF provision_makes prod.collapse [symmetric]] by blast
  with Cons [of "snd (provision F arn S w)"] show ?case by (auto intro: grows_trans)
qed simp

lemma attempts_declared: "declared S arn w \<Longrightarrow> declared S arn (attempts Fs arn S w)"
  unfolding attempts_def
proof (induction Fs arbitrary: w)
  case (Cons F Fs)
  have "declared S arn (snd (provision F arn S w))"
    using provision_declared [where ?'a = 'a, of S arn F] Cons.prems unfolding keeps_def by blast
  from Cons.IH [OF this] show ?case by simp
qed simp



section \<open>Witnesses\<close>

text \<open>A new account, and an attempt whose fourth call is carried out with its answer lost.\<close>

definition new_account :: account where
  "new_account = fresh_audit (bus_world_ext [] (settings_world_ext [] (member_world_ext []
     (storage_world_ext (\<lambda>_. None) [] empty_cache (secrets_world_ext (\<lambda>_. None) empty_cache
     (email_world_ext [] [] [] [] [] [] (account_ext [] [] [] [] [] [] ())))))))"

definition broken_env :: env where
  "broken_env = sample_env\<lparr>fault := \<lambda>n. if n = 3 then Some (Lost Throttled) else None\<rparr>"

definition arn_of :: "string \<Rightarrow> string" where "arn_of n = ''arn:aws:sqs:us-east-1:000000000000:'' @ n"


lemma new_account_declared: "declared S arn new_account"
  by (simp add: declared_def new_account_def fresh_audit_def)


end
