(* ===== verification/A2Z_Marshal.thy ===== *)
theory A2Z_Marshal
  imports A2Z_Provision
begin

text \<open>
  Plain Python values to DynamoDB items and back: \<open>app/core/_ddb.py\<close>.  boto3's serializer and
  deserializer are parameters, and so is the rounding of a decimal to a float.
\<close>

section \<open>Values\<close>

text \<open>
  A float stands for the decimal that \<open>str\<close> prints for it; NaN and the infinities, which
  boto3 refuses, are left out.
\<close>

datatype pyval =
    PNone | PBool bool | PInt int | PFloat rat | PDecimal rat | PStr string | PBytes string
  | PList "pyval list" | PTuple "pyval list" | PDict "(string \<times> pyval) list"

record 'av boto =
  serialize :: "pyval \<Rightarrow> exn + 'av"        \<comment> \<open>\<open>TypeSerializer().serialize\<close>\<close>
  deserialize :: "'av \<Rightarrow> pyval"            \<comment> \<open>\<open>TypeDeserializer().deserialize\<close>\<close>
  nearest :: "rat \<Rightarrow> rat"                  \<comment> \<open>\<open>float\<close> of a decimal, as \<open>str\<close> prints it\<close>

fun sanitize :: "pyval \<Rightarrow> pyval" where
  "sanitize (PFloat r) = PDecimal r"
| "sanitize (PDict kvs) = PDict (map (\<lambda>(k, v). (k, sanitize v)) kvs)"
| "sanitize (PList vs) = PList (map sanitize vs)"
| "sanitize (PTuple vs) = PList (map sanitize vs)"
| "sanitize v = v"

definition to_value :: "'av boto \<Rightarrow> pyval \<Rightarrow> exn + 'av" where
  "to_value B v = serialize B (sanitize v)"

fun to_item :: "'av boto \<Rightarrow> (string \<times> pyval) list \<Rightarrow> exn + (string \<times> 'av) list" where
  "to_item B [] = Inr []"
| "to_item B ((k, v) # d) =
     (if v = PNone then to_item B d
      else bindS (to_value B v) (\<lambda>a. bindS (to_item B d) (\<lambda>it. Inr ((k, a) # it))))"

fun unwrap :: "(rat \<Rightarrow> rat) \<Rightarrow> pyval \<Rightarrow> pyval" where
  "unwrap fl (PDecimal r) = (if r = of_int \<lfloor>r\<rfloor> then PInt \<lfloor>r\<rfloor> else PFloat (fl r))"
| "unwrap fl (PDict kvs) = PDict (map (\<lambda>(k, v). (k, unwrap fl v)) kvs)"
| "unwrap fl (PList vs) = PList (map (unwrap fl) vs)"
| "unwrap fl v = v"

definition from_item :: "'av boto \<Rightarrow> (string \<times> 'av) list \<Rightarrow> (string \<times> pyval) list" where
  "from_item B it = map (\<lambda>(k, a). (k, unwrap (nearest B) (deserialize B a))) it"

section \<open>What boto3 does\<close>

text \<open>DynamoDB has one type of number, read back as a decimal, and one type of sequence.\<close>

fun stored_value :: "pyval \<Rightarrow> pyval" where
  "stored_value (PInt n) = PDecimal (of_int n)"
| "stored_value (PDict kvs) = PDict (map (\<lambda>(k, v). (k, stored_value v)) kvs)"
| "stored_value (PList vs) = PList (map stored_value vs)"
| "stored_value (PTuple vs) = PList (map stored_value vs)"
| "stored_value v = v"

fun has_float :: "pyval \<Rightarrow> bool" where
  "has_float (PFloat _) = True"
| "has_float (PDict kvs) = list_ex (\<lambda>(k, v). has_float v) kvs"
| "has_float (PList vs) = list_ex has_float vs"
| "has_float (PTuple vs) = list_ex has_float vs"
| "has_float v = False"

definition boto_ok :: "'av boto \<Rightarrow> bool" where
  "boto_ok B \<longleftrightarrow> (\<forall>v. has_float v \<longrightarrow> isl (serialize B v)) \<and>
     (\<forall>v a. serialize B v = Inr a \<longrightarrow> deserialize B a = stored_value v)"

section \<open>The round trip\<close>

text \<open>What a value is after it was stored and read.\<close>

fun reread :: "(rat \<Rightarrow> rat) \<Rightarrow> pyval \<Rightarrow> pyval" where
  "reread fl (PFloat r) = (if r = of_int \<lfloor>r\<rfloor> then PInt \<lfloor>r\<rfloor> else PFloat (fl r))"
| "reread fl (PDecimal r) = (if r = of_int \<lfloor>r\<rfloor> then PInt \<lfloor>r\<rfloor> else PFloat (fl r))"
| "reread fl (PDict kvs) = PDict (map (\<lambda>(k, v). (k, reread fl v)) kvs)"
| "reread fl (PList vs) = PList (map (reread fl) vs)"
| "reread fl (PTuple vs) = PList (map (reread fl) vs)"
| "reread fl v = v"

text \<open>
  Plain values: no decimals and no tuples, floats with a fraction that are floats.  Whole
  floats are not among them, as they come back as integers.
\<close>

fun plain_value :: "(rat \<Rightarrow> rat) \<Rightarrow> pyval \<Rightarrow> bool" where
  "plain_value fl (PFloat r) = (fl r = r \<and> r \<noteq> of_int \<lfloor>r\<rfloor>)"
| "plain_value fl (PDecimal _) = False"
| "plain_value fl (PTuple _) = False"
| "plain_value fl (PDict kvs) = list_all (\<lambda>(k, v). plain_value fl v) kvs"
| "plain_value fl (PList vs) = list_all (plain_value fl) vs"
| "plain_value fl v = True"

lemma sanitize_no_float: "\<not> has_float (sanitize v)"
  by (induction v rule: sanitize.induct) (auto simp: list_ex_iff)

lemma unwrap_stored_sanitize: "unwrap fl (stored_value (sanitize v)) = reread fl v"
  by (induction v rule: sanitize.induct) auto

lemma map_values_id: "(\<And>k v. (k, v) \<in> set xs \<Longrightarrow> f v = v) \<Longrightarrow> map (\<lambda>(k, v). (k, f v)) xs = xs"
  by (induction xs) auto

lemma reread_plain: "plain_value fl v \<Longrightarrow> reread fl v = v"
proof (induction v rule: sanitize.induct)
  case (2 kvs)
  then show ?case by (auto simp: list_all_iff intro!: map_values_id)
qed (auto simp: list_all_iff map_idI)

lemma from_to_item:
  assumes "boto_ok B" and "to_item B d = Inr it"
  shows "from_item B it = map (\<lambda>(k, v). (k, reread (nearest B) v)) (filter (\<lambda>(k, v). v \<noteq> PNone) d)"
  using assms(2)
proof (induction d arbitrary: it)
  case (Cons p d)
  obtain k v where p: "p = (k, v)" by (rule prod.exhaust)
  show ?case
  proof (cases "v = PNone")
    case True
    with Cons p show ?thesis by simp
  next
    case False
    with Cons.prems p obtain a it' where a: "to_value B v = Inr a" and it': "to_item B d = Inr it'" and it: "it = (k, a) # it'"
      by (auto simp: bindS_def split: sum.splits)
    from a assms(1) have "deserialize B a = stored_value (sanitize v)" by (simp add: to_value_def boto_ok_def)
    with Cons.IH [OF it'] False show ?thesis by (simp add: it p from_item_def unwrap_stored_sanitize)
  qed
qed (simp add: from_item_def)

text \<open>
  C39: items survive the database.  Whatever a dictionary nests, no float ever reaches the
  serializer; and when an item is stored, reading it gives the dictionary again without its
  \<open>None\<close> entries: integers, strings, booleans, bytes, nested \<open>None\<close>s, lists, dictionaries and
  fractional floats as they were, decimals and whole floats as the number they denote, and
  tuples as lists.
\<close>

theorem item_round_trip:
  assumes "boto_ok B" and "to_item B d = Inr it"
  shows "from_item B it = map (\<lambda>(k, v). (k, reread (nearest B) v)) (filter (\<lambda>(k, v). v \<noteq> PNone) d) \<and>
    (list_all (\<lambda>(k, v). plain_value (nearest B) v) d \<longrightarrow> from_item B it = filter (\<lambda>(k, v). v \<noteq> PNone) d) \<and>
    (\<forall>v. \<not> has_float (sanitize v))"
proof -
  have "map (\<lambda>(k, v). (k, reread (nearest B) v)) (filter (\<lambda>(k, v). v \<noteq> PNone) d) = filter (\<lambda>(k, v). v \<noteq> PNone) d"
    if "list_all (\<lambda>(k, v). plain_value (nearest B) v) d"
    using that by (intro map_values_id reread_plain) (auto simp: list_all_iff)
  with from_to_item [OF assms] sanitize_no_float show ?thesis by simp
qed

text \<open>A serializer that keeps the value itself.\<close>

definition sample_boto :: "pyval boto" where
  "sample_boto = \<lparr>serialize = (\<lambda>v. if has_float v then Inl (Exn (Py TypeErrorPy)) else Inr (stored_value v)),
     deserialize = (\<lambda>a. a), nearest = (\<lambda>r. r)\<rparr>"

theorem item_round_trip_witness:
  "\<exists>it. to_item sample_boto [(''n'', PInt 3), (''x'', PFloat (1/2)), (''gone'', PNone), (''l'', PList [PNone, PStr ''a''])] = Inr it \<and>
     from_item sample_boto it = [(''n'', PInt 3), (''x'', PFloat (1/2)), (''l'', PList [PNone, PStr ''a''])]"
proof -
  have ok: "boto_ok sample_boto" by (simp add: boto_ok_def sample_boto_def)
  obtain it where it: "to_item sample_boto [(''n'', PInt 3), (''x'', PFloat (1/2)), (''gone'', PNone), (''l'', PList [PNone, PStr ''a''])] = Inr it"
    by (simp add: to_value_def sample_boto_def bindS_def)
  have "\<lfloor>1 / 2 :: rat\<rfloor> = 0" by (rule floor_unique) simp_all
  with item_round_trip [OF ok it] it show ?thesis by (auto simp: sample_boto_def)
qed

end
