(* ===== verification/A2Z_Backfill.thy ===== *)
theory A2Z_Backfill
  imports A2Z_Marshal
begin

text \<open>
  The backfill of \<open>schema_version\<close> on the organisations
  (\<open>infra/migrations/2026-06-18_example_backfill_schema_version.py\<close>), over the members table.
  How many items DynamoDB evaluates for a page of a scan is a parameter.
\<close>

section \<open>The script\<close>

definition TARGET_VERSION :: int where "TARGET_VERSION = 1"

text \<open>\<open>SK = :meta AND begins_with(PK, :org)\<close>\<close>

definition is_org_metadata :: "item \<Rightarrow> bool" where
  "is_org_metadata it \<longleftrightarrow> SK it = ''METADATA'' \<and> startswith (PK it) ''ORG#''"

text \<open>One page from a position: the keys of the matching items and \<open>LastEvaluatedKey\<close>.\<close>

definition scan_page ::
  "(nat \<Rightarrow> nat) \<Rightarrow> nat \<Rightarrow> ('z member_world_scheme, (string \<times> string) list \<times> nat option) op" where
  "scan_page page_size start = getsE (\<lambda>w.
     let n = Suc (page_size (tick w)); rest = drop start (member_tbl w) in
     (map item_key (filter is_org_metadata (take n rest)), if n \<le> length rest then Some (start + n) else None))"

text \<open>The \<open>while True\<close>; \<open>None\<close> when the fuel did not suffice.\<close>

fun scan_org_metadata ::
  "nat \<Rightarrow> env \<Rightarrow> (nat \<Rightarrow> nat) \<Rightarrow> nat \<Rightarrow> ('z member_world_scheme, (string \<times> string) list option) op" where
  "scan_org_metadata 0 E page_size start = ret None"
| "scan_org_metadata (Suc fuel) E page_size start =
     bindE (run_aws E (scan_page page_size start)) (\<lambda>(keys, last_evaluated).
     case last_evaluated of
       None \<Rightarrow> ret (Some keys)
     | Some pos \<Rightarrow> bindE (scan_org_metadata fuel E page_size pos) (\<lambda>rest. ret (map_option (\<lambda>ks. keys @ ks) rest)))"

definition unversioned :: "item \<Rightarrow> bool" where
  "unversioned it \<longleftrightarrow> map_of (attrs it) ''schema_version'' = None"

definition stamped :: "item \<Rightarrow> item" where
  "stamped it = it\<lparr>attrs := dict_set ''schema_version'' (JNum TARGET_VERSION) (attrs it)\<rparr>"

text \<open>\<open>update_item\<close> writes a new item when there is none under the key.\<close>

definition update_version :: "string \<times> string \<Rightarrow> ('z member_world_scheme, unit) op" where
  "update_version k =
     when_condition (\<lambda>w. \<forall>it. row_get item_key k (member_tbl w) = Some it \<longrightarrow> unversioned it)
       (modifyE (\<lambda>w. w\<lparr>member_tbl :=
          (if row_get item_key k (member_tbl w) = None
           then row_put item_key (stamped \<lparr>PK = fst k, SK = snd k, GSI1 = None, attrs = []\<rparr>) (member_tbl w)
           else row_upd item_key k stamped (member_tbl w))\<rparr>))"

definition stamp_one :: "env \<Rightarrow> string \<times> string \<Rightarrow> ('z member_world_scheme, nat) op" where
  "stamp_one E k = catchE (thenE (run_aws E (update_version k)) (ret 1))
     (\<lambda>e. if e = AwsError ''ConditionalCheckFailedException'' then ret 0 else raise e)"

fun stamp_all :: "env \<Rightarrow> bool \<Rightarrow> (string \<times> string) list \<Rightarrow> nat \<Rightarrow> ('z member_world_scheme, nat) op" where
  "stamp_all E dry_run [] changed = ret changed"
| "stamp_all E dry_run (k # ks) changed =
     (if dry_run then stamp_all E dry_run ks (changed + 1)
      else bindE (stamp_one E k) (\<lambda>n. stamp_all E dry_run ks (changed + n)))"

definition backfill ::
  "nat \<Rightarrow> env \<Rightarrow> (nat \<Rightarrow> nat) \<Rightarrow> bool \<Rightarrow> ('z member_world_scheme, nat option) op" where
  "backfill fuel E page_size dry_run =
     bindE (scan_org_metadata fuel E page_size 0) (\<lambda>keys. case keys of
       None \<Rightarrow> ret None
     | Some ks \<Rightarrow> bindE (stamp_all E dry_run ks 0) (\<lambda>n. ret (Some n)))"

section \<open>Only additions\<close>

text \<open>A table with versions added to some organisations that had none.\<close>

definition added :: "item \<Rightarrow> item \<Rightarrow> bool" where
  "added a b \<longleftrightarrow> b = a \<or> (is_org_metadata a \<and> unversioned a \<and> b = stamped a)"

definition adds :: "item list \<Rightarrow> item list \<Rightarrow> bool" where
  "adds = list_all2 added"

lemma stamped_simps [simp]:
  "item_key (stamped it) = item_key it" "is_org_metadata (stamped it) = is_org_metadata it" "\<not> unversioned (stamped it)"
  "PK (stamped it) = PK it" "SK (stamped it) = SK it" "GSI1 (stamped it) = GSI1 it"
  "map_of (attrs (stamped it)) k = (if k = ''schema_version'' then Some (JNum TARGET_VERSION) else map_of (attrs it) k)"
  by (simp_all add: stamped_def is_org_metadata_def unversioned_def)

lemma adds_refl [simp]: "adds t t"
  by (simp add: adds_def list_all2_same added_def)

lemma adds_trans: "adds s t \<Longrightarrow> adds t u \<Longrightarrow> adds s u"
  unfolding adds_def by (rule list_all2_trans [of added added added]) (auto simp: added_def)

lemma adds_update:
  assumes "keyed item_key t" and "row_get item_key k t = Some it" and "is_org_metadata it" and "unversioned it"
  shows "adds t (row_upd item_key k stamped t)"
proof -
  have "a = it" if "a \<in> set t" "item_key a = k" for a
    using assms(1,2) that row_get_keyed [OF assms(1)] by (metis option.inject)
  with assms(3,4) show ?thesis
    unfolding adds_def row_upd_def
    by (force simp: added_def list_all2_conv_all_nth)
qed

lemma adds_keys: "adds t t' \<Longrightarrow> map item_key t' = map item_key t"
  unfolding adds_def by (induction rule: list_all2_induct) (auto simp: added_def)

lemma adds_keyed: "adds t t' \<Longrightarrow> keyed item_key t' = keyed item_key t"
  by (simp add: keyed_def adds_keys)

lemma adds_get:
  assumes "adds t t'"
  shows "rel_option added (row_get item_key k t) (row_get item_key k t')"
  using assms unfolding adds_def by (induction rule: list_all2_induct) (auto simp: added_def)

lemma adds_members: "adds t t' \<Longrightarrow> member_of t' = member_of t"
proof (rule ext)
  fix p :: "string \<times> string"
  assume "adds t t'"
  obtain u g where p: "p = (u, g)" by (rule prod.exhaust)
  from adds_get [OF \<open>adds t t'\<close>, of "(user_pk u, org_pk g)"] show "member_of t' p = member_of t p"
    by (cases rule: option.rel_cases)
      (auto simp: p added_def member_of_def to_membership_def item_attr_def)
qed

lemma adds_orgs:
  assumes "adds t t'"
  shows "map_option (to_org g) (row_get item_key k t') = map_option (to_org g) (row_get item_key k t)"
  using adds_get [OF assms, of k]
  by (cases rule: option.rel_cases) (auto simp: added_def to_org_def item_attr_def)

section \<open>The scan\<close>

lemma scan_leaves [frames]:
  assumes "\<And>w g. f (tick_update g w) = f w"
  shows "leaves f (scan_org_metadata fuel E page_size start)"
proof (induction fuel arbitrary: start)
  case (Suc fuel)
  show ?case
    by (simp only: scan_org_metadata.simps scan_page_def) (intro frames Suc; simp add: assms)
qed (simp add: leaves_ret)

lemma scan_complete:
  assumes "scan_org_metadata fuel E page_size start w = (Inr (Some ks), w')"
  shows "ks = map item_key (filter is_org_metadata (drop start (member_tbl w)))"
  using assms
proof (induction fuel arbitrary: start w ks)
  case (Suc fuel)
  let ?v = "w\<lparr>tick := Suc (tick w)\<rparr>" and ?t = "member_tbl w"
  define n where "n = Suc (page_size (tick ?v))"
  from Suc.prems obtain keys pos w1 where page: "run_aws E (scan_page page_size start) w = (Inr (keys, pos), w1)"
    and rest: "(case pos of None \<Rightarrow> ret (Some keys)
       | Some p \<Rightarrow> bindE (scan_org_metadata fuel E page_size p) (\<lambda>rest. ret (map_option (\<lambda>ks. keys @ ks) rest))) w1 = (Inr (Some ks), w')"
    by (auto simp: bindE_Inr_iff)
  from run_aws_Inr [OF page] have keys: "keys = map item_key (filter is_org_metadata (take n (drop start ?t)))"
    and pos: "pos = (if n \<le> length (drop start ?t) then Some (start + n) else None)" and w1: "w1 = ?v"
    by (auto simp: scan_page_def n_def Let_def)
  show ?case
  proof (cases "n \<le> length (drop start ?t)")
    case False
    with rest keys pos show ?thesis by simp
  next
    case True
    with rest pos obtain ks' where more: "scan_org_metadata fuel E page_size (start + n) w1 = (Inr (Some ks'), w')" and ks: "ks = keys @ ks'"
      by (auto simp: bindE_Inr_iff)
    from Suc.IH [OF more] w1 have "ks' = map item_key (filter is_org_metadata (drop n (drop start ?t)))"
      by (simp add: add.commute)
    with ks keys have "ks = map item_key (filter is_org_metadata (take n (drop start ?t) @ drop n (drop start ?t)))"
      by (simp only: filter_append map_append)
    then show ?thesis by (simp only: append_take_drop_id)
  qed
qed simp

lemma scan_ends:
  assumes "no_faults E" and "length (member_tbl w) - start < fuel"
  shows "\<exists>ks w'. scan_org_metadata fuel E page_size start w = (Inr (Some ks), w')"
  using assms(2)
proof (induction fuel arbitrary: start w)
  case (Suc fuel)
  let ?v = "w\<lparr>tick := Suc (tick w)\<rparr>"
  define n where "n = Suc (page_size (tick ?v))"
  show ?case
  proof (cases "n \<le> length (drop start (member_tbl w))")
    case True
    with Suc.prems have "length (member_tbl ?v) - (start + n) < fuel" by (auto simp: n_def)
    from Suc.IH [OF this] obtain ks w' where "scan_org_metadata fuel E page_size (start + n) ?v = (Inr (Some ks), w')" by blast
    with True assms(1) show ?thesis by (simp add: bindE_app scan_page_def n_def Let_def)
  next
    case False
    with assms(1) show ?thesis by (simp add: bindE_app scan_page_def n_def Let_def)
  qed
qed simp

section \<open>The updates\<close>

definition stamp_at :: "(string \<times> string) set \<Rightarrow> item list \<Rightarrow> item list" where
  "stamp_at K t = map (\<lambda>it. if item_key it \<in> K \<and> unversioned it then stamped it else it) t"

lemma stamp_at_empty [simp]: "stamp_at {} t = t"
  by (simp add: stamp_at_def)

lemma stamp_at_keys [simp]: "map item_key (stamp_at K t) = map item_key t" "keyed item_key (stamp_at K t) = keyed item_key t"
proof -
  show "map item_key (stamp_at K t) = map item_key t" by (induction t) (simp_all add: stamp_at_def)
  then show "keyed item_key (stamp_at K t) = keyed item_key t" by (simp add: keyed_def)
qed

lemma stamp_at_get:
  "row_get item_key k (stamp_at K t) =
     map_option (\<lambda>it. if k \<in> K \<and> unversioned it then stamped it else it) (row_get item_key k t)"
  by (induction t) (auto simp: stamp_at_def)

lemma stamp_at_adds:
  assumes "\<And>it. it \<in> set t \<Longrightarrow> item_key it \<in> K \<Longrightarrow> is_org_metadata it"
  shows "adds t (stamp_at K t)"
  using assms by (auto simp: adds_def added_def stamp_at_def list_all2_conv_all_nth)

lemma update_version_run:
  assumes "keyed item_key (member_tbl w)" and "row_get item_key k (member_tbl w) = Some it"
  shows "member_tbl (snd (update_version k w)) = stamp_at {k} (member_tbl w) \<and>
    fst (update_version k w) = (if unversioned it then Inr () else Inl (AwsError ''ConditionalCheckFailedException''))"
proof -
  have same: "a = it" if "a \<in> set (member_tbl w)" "item_key a = k" for a
    using assms that row_get_keyed [OF assms(1)] by (metis option.inject)
  have "row_upd item_key k stamped (member_tbl w) = stamp_at {k} (member_tbl w)" if "unversioned it"
    using same that by (auto simp: row_upd_def stamp_at_def)
  moreover have "stamp_at {k} (member_tbl w) = member_tbl w" if "\<not> unversioned it"
    using same that by (auto simp: stamp_at_def intro!: map_idI)
  ultimately show ?thesis using assms(2) by (auto simp: update_version_def when_condition_def)
qed

lemma stamp_one_run:
  assumes "keyed item_key (member_tbl w)" and "row_get item_key k (member_tbl w) = Some it"
    and "stamp_one E k w = (r, w')"
  shows "member_tbl w' \<in> {member_tbl w, stamp_at {k} (member_tbl w)} \<and>
    (\<forall>n. r = Inr n \<longrightarrow> member_tbl w' = stamp_at {k} (member_tbl w) \<and> n = (if unversioned it then 1 else 0)) \<and>
    (no_faults E \<longrightarrow> \<not> isl r)"
proof -
  let ?v = "w\<lparr>tick := Suc (tick w)\<rparr>"
  note upd = update_version_run [of ?v k it, simplified, OF assms(1,2)]
  obtain r1 w1 where run: "run_aws E (update_version k) w = (r1, w1)" by (rule prod.exhaust)
  have res: "r = (case r1 of Inr _ \<Rightarrow> Inr 1 | Inl e \<Rightarrow> if e = AwsError ''ConditionalCheckFailedException'' then Inr 0 else Inl e)" "w' = w1"
    using assms(3) run by (auto simp: stamp_one_def catchE_app thenE_app split: sum.splits if_splits)
  from run show ?thesis
  proof (cases rule: run_aws_cases)
    case 1
    with upd have "member_tbl w1 = stamp_at {k} (member_tbl w)"
      "r1 = (if unversioned it then Inr () else Inl (AwsError ''ConditionalCheckFailedException''))" by auto
    with res show ?thesis by auto
  next
    case (2 x)
    with res show ?thesis by auto
  next
    case (3 x)
    with res upd show ?thesis by auto
  qed
qed

lemma stamp_at_add:
  "stamp_at K (stamp_at {k} t) = stamp_at (insert k K) t"
  by (auto simp: stamp_at_def)

lemma stamp_all_run:
  assumes "keyed item_key (member_tbl w)" and "\<And>k. k \<in> set ks \<Longrightarrow> \<exists>it. row_get item_key k (member_tbl w) = Some it"
    and "distinct ks" and "stamp_all E False ks c w = (r, w')"
  shows "\<exists>K \<subseteq> set ks. member_tbl w' = stamp_at K (member_tbl w) \<and>
    (\<forall>n. r = Inr n \<longrightarrow> K = set ks \<and>
       n = c + length (filter (\<lambda>k. unversioned (the (row_get item_key k (member_tbl w)))) ks)) \<and>
    (no_faults E \<longrightarrow> \<not> isl r)"
  using assms
proof (induction ks arbitrary: w c)
  case Nil
  then show ?case by (auto simp: stamp_at_def)
next
  case (Cons k ks)
  let ?t = "member_tbl w"
  from Cons.prems(2) obtain it where it: "row_get item_key k ?t = Some it" by (meson list.set_intros(1))
  obtain r1 w1 where one: "stamp_one E k w = (r1, w1)" by (rule prod.exhaust)
  note step = stamp_one_run [OF Cons.prems(1) it one]
  show ?case
  proof (cases r1)
    case (Inl e)
    with Cons.prems(4) one have "r = Inl e" "w' = w1" by (auto simp: bindE_app)
    with step Inl show ?thesis by (intro exI [of _ "if member_tbl w1 = ?t then {} else {k}"]) auto
  next
    case (Inr n)
    with step have t1: "member_tbl w1 = stamp_at {k} ?t" and n: "n = (if unversioned it then 1 else 0)" by auto
    from Cons.prems(4) one Inr have rest: "stamp_all E False ks (c + n) w1 = (r, w')" by (simp add: bindE_app)
    have other: "row_get item_key k' (member_tbl w1) = row_get item_key k' ?t" if "k' \<in> set ks" for k'
      using that Cons.prems(3) by (cases "row_get item_key k' ?t") (auto simp: t1 stamp_at_get)
    have keyed: "keyed item_key (member_tbl w1)" and dist: "distinct ks" using Cons.prems by (simp_all add: t1)
    have there: "\<exists>it. row_get item_key k' (member_tbl w1) = Some it" if "k' \<in> set ks" for k'
      using Cons.prems(2) [of k'] that by (simp add: other)
    from Cons.IH [OF keyed there dist rest] obtain K where K: "K \<subseteq> set ks" "member_tbl w' = stamp_at K (member_tbl w1)"
      "\<forall>n'. r = Inr n' \<longrightarrow> K = set ks \<and> n' = c + n + length (filter (\<lambda>k. unversioned (the (row_get item_key k (member_tbl w1)))) ks)"
      "no_faults E \<longrightarrow> \<not> isl r" by blast
    have "filter (\<lambda>k. unversioned (the (row_get item_key k (member_tbl w1)))) ks =
        filter (\<lambda>k. unversioned (the (row_get item_key k ?t))) ks"
      using other by (intro filter_cong) auto
    with K it n show ?thesis
      by (intro exI [of _ "insert k K"]) (auto simp: t1 stamp_at_add)
  qed
qed

lemma stamp_all_dry: "stamp_all E True ks c w = (Inr (c + length ks), w)"
  by (induction ks arbitrary: c) auto

section \<open>Runs\<close>

lemma metadata_of_key:
  assumes "keyed item_key t" and "item_key it \<in> item_key ` {x \<in> set t. is_org_metadata x}" and "it \<in> set t"
  shows "is_org_metadata it"
  using assms row_get_keyed [OF assms(1)] by (metis (no_types, lifting) imageE mem_Collect_eq option.inject)

lemma backfill_run:
  assumes "keyed item_key (member_tbl w)" and "backfill fuel E page_size dry_run w = (r, w')"
  shows "adds (member_tbl w) (member_tbl w') \<and> (dry_run \<longrightarrow> member_tbl w' = member_tbl w) \<and>
    (\<forall>n. r = Inr (Some n) \<and> \<not> dry_run \<longrightarrow>
       member_tbl w' = map (\<lambda>it. if is_org_metadata it \<and> unversioned it then stamped it else it) (member_tbl w) \<and>
       n = length (filter (\<lambda>it. is_org_metadata it \<and> unversioned it) (member_tbl w)))"
proof -
  let ?t = "member_tbl w"
  obtain rk w1 where scan: "scan_org_metadata fuel E page_size 0 w = (rk, w1)" by (rule prod.exhaust)
  have "leaves member_tbl (scan_org_metadata fuel E page_size 0 :: ('a member_world_scheme, _) op)" by (intro frames; simp)
  from leavesD [OF this scan] have t1: "member_tbl w1 = ?t" .
  show ?thesis
  proof (cases "\<exists>ks. rk = Inr (Some ks)")
    case False
    with assms(2) scan have "w' = w1 \<and> (\<forall>n. r \<noteq> Inr (Some n))"
      by (auto simp: backfill_def bindE_app split: sum.splits option.splits)
    with t1 show ?thesis by simp
  next
    case True
    then obtain ks where rk: "rk = Inr (Some ks)" by blast
    from scan_complete [OF scan [unfolded rk]] have ks: "ks = map item_key (filter is_org_metadata ?t)" by simp
    obtain r2 w2 where st: "stamp_all E dry_run ks 0 w1 = (r2, w2)" by (rule prod.exhaust)
    from assms(2) scan rk st have fin: "w' = w2" "r = (case r2 of Inl e \<Rightarrow> Inl e | Inr n \<Rightarrow> Inr (Some n))"
      by (auto simp: backfill_def bindE_app split: sum.splits)
    show ?thesis
    proof (cases dry_run)
      case True
      with st fin t1 show ?thesis by (simp add: stamp_all_dry)
    next
      case False
      have "\<exists>it. row_get item_key k (member_tbl w1) = Some it" if "k \<in> set ks" for k
        using that row_get_None [of item_key k ?t] by (auto simp: ks t1)
      moreover have "distinct ks" using assms(1) by (simp add: ks keyed_def distinct_map_filter)
      ultimately obtain K where K: "K \<subseteq> set ks" "member_tbl w2 = stamp_at K ?t"
        "\<forall>n. r2 = Inr n \<longrightarrow> K = set ks \<and> n = length (filter (\<lambda>k. unversioned (the (row_get item_key k ?t))) ks)"
        using stamp_all_run [of w1 ks E 0 r2 w2] assms(1) t1 st False by auto
      have meta: "is_org_metadata it" if "it \<in> set ?t" "item_key it \<in> set ks" for it
        using metadata_of_key [OF assms(1), of it] that by (auto simp: ks)
      have "adds ?t (stamp_at K ?t)" using K(1) meta by (intro stamp_at_adds) auto
      moreover have "stamp_at (set ks) ?t = map (\<lambda>it. if is_org_metadata it \<and> unversioned it then stamped it else it) ?t"
        using meta by (auto simp: stamp_at_def ks)
      moreover have self: "row_get item_key (item_key it) ?t = Some it" if "it \<in> set ?t" for it
        using row_get_keyed [OF assms(1)] that by blast
      have "length (filter (\<lambda>k. unversioned (the (row_get item_key k ?t))) ks) =
          length (filter (\<lambda>it. is_org_metadata it \<and> unversioned it) ?t)"
      proof -
        have "filter (\<lambda>it. unversioned (the (row_get item_key (item_key it) ?t))) (filter is_org_metadata ?t) =
            filter unversioned (filter is_org_metadata ?t)"
          using self by (intro filter_cong) auto
        then show ?thesis by (simp add: ks filter_map comp_def conj_commute)
      qed
      ultimately show ?thesis using K fin False by (auto split: sum.splits)
    qed
  qed
qed

lemma backfill_ends:
  assumes "no_faults E" and "length (member_tbl w) < fuel" and "keyed item_key (member_tbl w)"
  shows "\<exists>n w'. backfill fuel E page_size False w = (Inr (Some n), w')"
proof -
  let ?t = "member_tbl w"
  obtain ks w1 where scan: "scan_org_metadata fuel E page_size 0 w = (Inr (Some ks), w1)"
    using scan_ends [OF assms(1), of w 0 fuel page_size] assms(2) by auto
  have "leaves member_tbl (scan_org_metadata fuel E page_size 0 :: ('a member_world_scheme, _) op)" by (intro frames; simp)
  from leavesD [OF this scan] have t1: "member_tbl w1 = ?t" .
  from scan_complete [OF scan] have ks: "ks = map item_key (filter is_org_metadata ?t)" by simp
  obtain r2 w2 where st: "stamp_all E False ks 0 w1 = (r2, w2)" by (rule prod.exhaust)
  have "\<exists>it. row_get item_key k (member_tbl w1) = Some it" if "k \<in> set ks" for k
    using that row_get_None [of item_key k ?t] by (auto simp: ks t1)
  moreover have "distinct ks" using assms(3) by (simp add: ks keyed_def distinct_map_filter)
  ultimately have "\<not> isl r2" using stamp_all_run [of w1 ks E 0 r2 w2] assms(1,3) t1 st by auto
  with scan st show ?thesis by (cases r2) (auto simp: backfill_def bindE_app)
qed

text \<open>
  The backfill only adds.  Whatever fails, a run (and a dry run not even that) changes
  nothing in the members table but to add the version to organisations without one: who is a
  member of what, in which role, and what every organisation's name, owner and creation read
  stay as they were.
\<close>

theorem backfill_additive:
  assumes "keyed item_key (member_tbl w)" and "backfill fuel E page_size dry_run w = (r, w')"
  shows "adds (member_tbl w) (member_tbl w') \<and> (dry_run \<longrightarrow> member_tbl w' = member_tbl w) \<and>
    member_of (member_tbl w') = member_of (member_tbl w) \<and>
    (\<forall>g k. map_option (to_org g) (row_get item_key k (member_tbl w')) = map_option (to_org g) (row_get item_key k (member_tbl w)))"
  using backfill_run [OF assms] adds_members adds_orgs by blast

text \<open>
  C38: the backfill can be repeated.  However the scan is cut into pages and however many runs
  broke off before, a run in which nothing fails ends, reports how many organisations had no
  version, leaves every organisation with one and everything else as it was; and one more run
  reports none and changes nothing.
\<close>

theorem backfill_resumes:
  fixes w :: "'z member_world_scheme" and Fs :: "env list" and page_size :: "nat \<Rightarrow> nat"
  assumes "no_faults E" and "keyed item_key (member_tbl w)" and "length (member_tbl w) < fuel"
  defines "v \<equiv> fold (\<lambda>F w. snd (backfill fuel F page_size False w)) Fs w"
  shows "\<exists>w'. backfill fuel E page_size False v =
      (Inr (Some (length (filter (\<lambda>it. is_org_metadata it \<and> unversioned it) (member_tbl v)))), w') \<and>
    member_tbl w' = map (\<lambda>it. if is_org_metadata it \<and> unversioned it then stamped it else it) (member_tbl w) \<and>
    (\<exists>w''. backfill fuel E page_size False w' = (Inr (Some 0), w'') \<and> member_tbl w'' = member_tbl w')"
proof -
  let ?full = "map (\<lambda>it. if is_org_metadata it \<and> unversioned it then stamped it else it)"
  have after: "adds (member_tbl w) (member_tbl v)"
    unfolding v_def using assms(2)
  proof (induction Fs arbitrary: w)
    case (Cons F Fs)
    have step: "adds (member_tbl w) (member_tbl (snd (backfill fuel F page_size False w)))"
      using backfill_run [OF Cons.prems prod.collapse [symmetric]] by blast
    with Cons.IH Cons.prems adds_keyed [OF step] show ?case by (auto intro: adds_trans)
  qed simp
  have full: "?full t' = ?full t" if "adds t t'" for t t'
    using that unfolding adds_def by (induction rule: list_all2_induct) (auto simp: added_def)
  have key: "keyed item_key (member_tbl v)" "length (member_tbl v) < fuel"
    using after adds_keyed [OF after] assms(2,3) by (auto simp: adds_def dest: list_all2_lengthD)
  obtain n w' where run: "backfill fuel E page_size False v = (Inr (Some n), w')" using backfill_ends [OF assms(1) key(2,1)] by blast
  from backfill_run [OF key(1) run] have w': "member_tbl w' = ?full (member_tbl v)"
    and n: "n = length (filter (\<lambda>it. is_org_metadata it \<and> unversioned it) (member_tbl v))" and add: "adds (member_tbl v) (member_tbl w')" by auto
  have key': "keyed item_key (member_tbl w')" "length (member_tbl w') < fuel"
    using key adds_keyed [OF add] by (simp_all add: w')
  obtain n' w'' where again: "backfill fuel E page_size False w' = (Inr (Some n'), w'')" using backfill_ends [OF assms(1) key'(2,1)] by blast
  have none: "filter (\<lambda>it. is_org_metadata it \<and> unversioned it) (member_tbl w') = []" "?full (member_tbl w') = member_tbl w'"
    by (auto simp: w' filter_empty_conv intro: map_idI split: if_splits)
  with backfill_run [OF key'(1) again] again have "backfill fuel E page_size False w' = (Inr (Some 0), w'')" "member_tbl w'' = member_tbl w'" by auto
  with run n w' full [OF after] show ?thesis by auto
qed

text \<open>Two organisations, one of them stamped already, and a user.\<close>

definition two_orgs :: member_world where
  "two_orgs = fresh_members\<lparr>member_tbl :=
     [\<lparr>PK = org_pk ''a'', SK = ''METADATA'', GSI1 = None, attrs = [(''name'', JStr ''A''), (''owner_id'', JStr ''ann''), (''created_at'', JNum 0)]\<rparr>,
      membership_item ''a'' ''ann'' OWNER 0,
      \<lparr>PK = org_pk ''b'', SK = ''METADATA'', GSI1 = None, attrs = [(''name'', JStr ''B''), (''schema_version'', JNum 1)]\<rparr>]\<rparr>"

lemma two_orgs_keyed: "keyed item_key (member_tbl two_orgs)"
  by (simp add: two_orgs_def keyed_def)

theorem backfill_additive_witness:
  "member_of (member_tbl (snd (backfill 5 broken_env (\<lambda>_. 0) False two_orgs))) = member_of (member_tbl two_orgs)"
  using backfill_additive [OF two_orgs_keyed prod.collapse [symmetric]] by blast

theorem backfill_resumes_witness:
  "\<exists>w'. backfill 5 sample_env (\<lambda>_. 0) False two_orgs = (Inr (Some 1), w') \<and>
     list_all (\<lambda>it. is_org_metadata it \<longrightarrow> \<not> unversioned it) (member_tbl w')"
proof -
  have "length (filter (\<lambda>it. is_org_metadata it \<and> unversioned it) (member_tbl two_orgs)) = 1"
    by (simp add: two_orgs_def is_org_metadata_def unversioned_def membership_item_def org_pk_def startswith_def)
  with backfill_resumes [of sample_env two_orgs 5 "\<lambda>_. 0" "[]"] two_orgs_keyed show ?thesis
    by (auto simp: two_orgs_def list_all_iff split: if_splits)
qed

end
