(* ===== verification/A2Z_Logging.thy ===== *)
theory A2Z_Logging
  imports A2Z_Backfill
begin

text \<open>
  Structured logs, \<open>app/core/logging.py\<close>, and the metrics written to them,
  \<open>services/omnichannel/metrics.py\<close>.  The standard library decides which attributes a
  \<open>LogRecord\<close> has; the log is a list of JSON lines.
\<close>

section \<open>Lines\<close>

type_synonym fields = "(string \<times> json) list"

definition REDACT_KEYS :: "string set" where
  "REDACT_KEYS = {''token'', ''jwt'', ''authorization'', ''password'', ''secret''}"

definition RESERVED_LOG_KEYS :: "string list" where
  "RESERVED_LOG_KEYS =
     [''name'', ''msg'', ''args'', ''levelname'', ''levelno'', ''pathname'', ''filename'', ''module'',
      ''exc_info'', ''exc_text'', ''stack_info'', ''lineno'', ''funcName'', ''created'', ''msecs'',
      ''relativeCreated'', ''thread'', ''threadName'', ''processName'', ''process'', ''message'',
      ''asctime'', ''taskName'']"

text \<open>\<open>_SafeAdapter.process\<close>: a comprehension, so of two equal new keys the later value stays.\<close>

definition adapter_process :: "fields \<Rightarrow> fields" where
  "adapter_process extra =
     fold (\<lambda>(k, v). dict_set (if k \<in> set RESERVED_LOG_KEYS then k @ ''_'' else k) v) extra []"

text \<open>\<open>makeRecord\<close> of the standard library, for a record with the given attributes.\<close>

definition make_record :: "string list \<Rightarrow> fields \<Rightarrow> exn + fields" where
  "make_record attributes extra =
     (if list_ex (\<lambda>(k, _). k \<in> {''message'', ''asctime''} \<or> k \<in> set attributes) extra
      then Inl (Exn (Py KeyErrorPy)) else Inr extra)"

definition format_record ::
  "string list \<Rightarrow> string \<Rightarrow> string \<Rightarrow> string \<Rightarrow> string \<Rightarrow> string option \<Rightarrow> fields \<Rightarrow> fields" where
  "format_record attributes ts level event logger rid extra =
     (let payload = [(''ts'', JStr ts), (''level'', JStr level), (''event'', JStr event), (''logger'', JStr logger)];
          payload = (case rid of None \<Rightarrow> payload | Some r \<Rightarrow> if r = [] then payload else dict_set ''request_id'' (JStr r) payload);
          standard = set attributes \<union> {''message'', ''asctime''}
      in fold (\<lambda>(k, v) p.
           if k \<in> standard \<or> startswith k ''_'' then p
           else dict_set k (if map lower k \<in> REDACT_KEYS then JStr ''***'' else v) p) extra payload)"

section \<open>Loggers\<close>

record log_world = world +
  root_level :: "int option"      \<comment> \<open>of the logger \<open>a2z\<close>, once it is configured\<close>
  log_lines :: "fields list"
  printed :: "string list"

definition upper :: "char \<Rightarrow> char" where
  "upper c = (if CHR ''a'' \<le> c \<and> c \<le> CHR ''z'' then char_of (of_char c - (32 :: nat)) else c)"

definition level_number :: "string \<Rightarrow> int option" where
  "level_number s = map_of [(''CRITICAL'', 50), (''FATAL'', 50), (''ERROR'', 40), (''WARN'', 30), (''WARNING'', 30),
     (''INFO'', 20), (''DEBUG'', 10), (''NOTSET'', 0)] s"

definition configure_root :: "Settings \<Rightarrow> ('z log_world_scheme, unit) op" where
  "configure_root S = bindE (getsE root_level) (\<lambda>configured.
     if configured \<noteq> None then ret ()
     else case level_number (map upper (log_level S)) of
       None \<Rightarrow> raise (Exn (Py ValueErrorPy))
     | Some n \<Rightarrow> modifyE (\<lambda>w. w\<lparr>root_level := Some n\<rparr>))"

definition get_logger :: "Settings \<Rightarrow> string \<Rightarrow> ('z log_world_scheme, string) op" where
  "get_logger S name = thenE (configure_root S) (ret (''a2z.'' @ name))"

text \<open>What the formatter needs: the attributes of a record and the printed time.\<close>

record stdlib =
  record_attributes :: "string list"
  format_time :: "nat \<Rightarrow> string"

definition log_event ::
  "stdlib \<Rightarrow> string \<Rightarrow> int \<Rightarrow> string \<Rightarrow> string option \<Rightarrow> string \<Rightarrow> fields \<Rightarrow> ('z log_world_scheme, unit) op" where
  "log_event P level n logger rid event extra = bindE (getsE root_level) (\<lambda>root.
     if n < (case root of None \<Rightarrow> 30 | Some r \<Rightarrow> r) then ret ()
     else bindE (liftS (make_record (record_attributes P) (adapter_process extra))) (\<lambda>extra.
       bindE next_tick (\<lambda>t.
       modifyE (\<lambda>w. w\<lparr>log_lines := log_lines w @
         [format_record (record_attributes P) (format_time P t) level event logger rid extra]\<rparr>))))"

definition log_info :: "stdlib \<Rightarrow> string \<Rightarrow> string option \<Rightarrow> string \<Rightarrow> fields \<Rightarrow> ('z log_world_scheme, unit) op" where
  "log_info P = log_event P ''INFO'' 20"

section \<open>Metrics\<close>

text \<open>The logger is an argument: whatever it does, \<open>_emit\<close> returns.\<close>

type_synonym 'z logger = "string \<Rightarrow> fields \<Rightarrow> ('z log_world_scheme, unit) op"

definition emit :: "'z logger \<Rightarrow> string \<Rightarrow> fields \<Rightarrow> ('z log_world_scheme, unit) op" where
  "emit info event fs = catchE (info event fs)
     (\<lambda>e. modifyE (\<lambda>w. w\<lparr>printed := printed w @ [''omnichannel.metric.failed event='' @ event]\<rparr>))"

definition record_webhook_ack_latency :: "'z logger \<Rightarrow> string \<Rightarrow> json \<Rightarrow> ('z log_world_scheme, unit) op" where
  "record_webhook_ack_latency info channel_type elapsed_ms =
     emit info ''omnichannel.metric.webhook_ack_latency_ms'' [(''channel_type'', JStr channel_type), (''value'', elapsed_ms)]"

definition record_message_processing_latency :: "'z logger \<Rightarrow> string \<Rightarrow> json \<Rightarrow> ('z log_world_scheme, unit) op" where
  "record_message_processing_latency info channel_type elapsed_ms =
     emit info ''omnichannel.metric.message_processing_latency_ms''
       [(''channel_type'', JStr channel_type), (''value'', elapsed_ms)]"

definition record_routing_latency :: "'z logger \<Rightarrow> json \<Rightarrow> ('z log_world_scheme, unit) op" where
  "record_routing_latency info elapsed_ms = emit info ''omnichannel.metric.routing_latency_ms'' [(''value'', elapsed_ms)]"

definition record_send_result :: "'z logger \<Rightarrow> string \<Rightarrow> bool \<Rightarrow> ('z log_world_scheme, unit) op" where
  "record_send_result info channel_type success =
     emit info ''omnichannel.metric.send_result'' [(''channel_type'', JStr channel_type), (''success'', JBool success)]"

definition record_stream_delta :: "'z logger \<Rightarrow> int \<Rightarrow> ('z log_world_scheme, unit) op" where
  "record_stream_delta info delta = emit info ''omnichannel.metric.stream_delta'' [(''value'', JNum delta)]"

lemma emit_returns: "\<exists>w'. emit info event fs w = (Inr (), w')"
  by (auto simp: emit_def catchE_app split: prod.split sum.split)

section \<open>Secrets\<close>

text \<open>Fields that differ at most in the values of keys that are never emitted.\<close>

definition same_field :: "string \<times> json \<Rightarrow> string \<times> json \<Rightarrow> bool" where
  "same_field p p' \<longleftrightarrow> fst p' = fst p \<and> (map lower (fst p) \<notin> REDACT_KEYS \<longrightarrow> snd p' = snd p)"

lemma same_field_pair: "same_field (k, v) (k', v') \<longleftrightarrow> k' = k \<and> (map lower k \<notin> REDACT_KEYS \<longrightarrow> v' = v)"
  by (simp add: same_field_def)

definition same_but_secrets :: "fields \<Rightarrow> fields \<Rightarrow> bool" where
  "same_but_secrets = list_all2 same_field"

lemma dict_set_same:
  assumes "same_but_secrets d d'" and "same_field (k, v) (k, v')"
  shows "same_but_secrets (dict_set k v d) (dict_set k v' d')"
  using assms(1) unfolding same_but_secrets_def
proof (induction rule: list_all2_induct)
  case (Cons p ps p' ps')
  with assms(2) show ?case by (cases p; cases p') (auto simp: same_field_pair)
qed (use assms(2) in simp)

lemma reserved_not_secret: "k \<in> set RESERVED_LOG_KEYS \<Longrightarrow> map lower k \<notin> REDACT_KEYS"
proof -
  have "list_all (\<lambda>k. map lower k \<notin> REDACT_KEYS) RESERVED_LOG_KEYS"
    unfolding RESERVED_LOG_KEYS_def REDACT_KEYS_def lower_def by code_simp
  then show "k \<in> set RESERVED_LOG_KEYS \<Longrightarrow> map lower k \<notin> REDACT_KEYS" by (simp add: list_all_iff)
qed

lemma adapter_same:
  assumes "same_but_secrets extra extra'"
  shows "same_but_secrets (adapter_process extra) (adapter_process extra')"
proof -
  let ?f = "\<lambda>(k, v :: json). dict_set (if k \<in> set RESERVED_LOG_KEYS then k @ ''_'' else k) v"
  have "same_but_secrets (fold ?f extra d) (fold ?f extra' d')" if "same_but_secrets d d'" for d d'
    using assms that unfolding same_but_secrets_def
  proof (induction arbitrary: d d' rule: list_all2_induct)
    case (Cons p ps p' ps')
    obtain k v v' where p: "p = (k, v)" "p' = (k, v')" and same: "same_field (k, v) (k, v')"
      using Cons.hyps(1) by (cases p; cases p') (auto simp: same_field_pair)
    define k2 where "k2 = (if k \<in> set RESERVED_LOG_KEYS then k @ ''_'' else k)"
    have "same_field (k2, v) (k2, v')"
      using same reserved_not_secret [of k] by (auto simp: k2_def same_field_pair)
    from dict_set_same [OF _ this] Cons.prems have "same_but_secrets (?f p d) (?f p' d')"
      by (simp add: p k2_def same_but_secrets_def)
    from Cons.IH [OF this [unfolded same_but_secrets_def]] show ?case by simp
  qed simp
  from this [of "[]" "[]"] show ?thesis by (simp add: adapter_process_def same_but_secrets_def)
qed

lemma make_record_same:
  "same_but_secrets extra extra' \<Longrightarrow>
     (\<exists>e. make_record as extra = Inl e \<and> make_record as extra' = Inl e) \<or>
     (make_record as extra = Inr extra \<and> make_record as extra' = Inr extra')"
  unfolding same_but_secrets_def
  by (induction rule: list_all2_induct) (auto simp: make_record_def same_field_pair split: if_splits)

lemma format_same:
  assumes "same_but_secrets extra extra'"
  shows "format_record as ts level event logger rid extra' = format_record as ts level event logger rid extra"
proof -
  let ?g = "\<lambda>(k, v) p. if k \<in> set as \<union> {''message'', ''asctime''} \<or> startswith k ''_'' then p
     else dict_set k (if map lower k \<in> REDACT_KEYS then JStr ''***'' else v) p"
  have "fold ?g extra' p = fold ?g extra p" for p
    using assms unfolding same_but_secrets_def
  proof (induction arbitrary: p rule: list_all2_induct)
    case (Cons q qs q' qs')
    then have "?g q' p = ?g q p" by (cases q; cases q') (auto simp: same_field_pair)
    with Cons.IH show ?case by simp
  qed simp
  then show ?thesis unfolding format_record_def Let_def by simp
qed

text \<open>What a line holds of the fields, and that no field collides with a record's own.\<close>

lemma adapter_keys: "fst ` set (adapter_process extra) \<inter> set RESERVED_LOG_KEYS = {}"
proof -
  let ?f = "\<lambda>(k, v :: json). dict_set (if k \<in> set RESERVED_LOG_KEYS then k @ ''_'' else k) v"
  have new: "k @ ''_'' \<notin> set RESERVED_LOG_KEYS" for k
  proof -
    have "list_all (\<lambda>k. last k \<noteq> CHR ''_'') RESERVED_LOG_KEYS" by (simp add: RESERVED_LOG_KEYS_def)
    then show ?thesis by (auto simp: list_all_iff)
  qed
  have "fst ` set (fold ?f extra d) \<inter> set RESERVED_LOG_KEYS = {}" if "fst ` set d \<inter> set RESERVED_LOG_KEYS = {}" for d
    using that
  proof (induction extra arbitrary: d)
    case (Cons p extra)
    have "fst ` set (?f p d) \<inter> set RESERVED_LOG_KEYS = {}"
      using Cons.prems new by (cases p) (simp add: keys_dict_set)
    from Cons.IH [OF this] show ?case by simp
  qed simp
  from this [of "[]"] show ?thesis by (simp add: adapter_process_def)
qed

lemma log_event_returns:
  assumes "set (record_attributes P) \<subseteq> set RESERVED_LOG_KEYS"
  shows "\<exists>w'. log_event P level n logger rid event extra w = (Inr (), w')"
proof -
  have "make_record (record_attributes P) (adapter_process extra) = Inr (adapter_process extra)"
  proof -
    have "{''message'', ''asctime''} \<subseteq> set RESERVED_LOG_KEYS" by (simp add: RESERVED_LOG_KEYS_def)
    moreover have "k \<notin> set RESERVED_LOG_KEYS" if "(k, v) \<in> set (adapter_process extra)" for k v
      using adapter_keys [of extra] that by (metis disjoint_iff fst_conv image_eqI)
    ultimately show ?thesis using assms by (auto simp: make_record_def list_ex_iff)
  qed
  then show ?thesis by (auto simp: log_event_def bindE_app liftS_def)
qed

text \<open>
  C35: logs keep secrets.  If the attributes of a log record are among the reserved names, as
  the standard library documents them, then no call of a logger raises, whatever fields it
  is given; and what is written does not depend on the values given under a token, JWT,
  authorization, password or secret, in whatever case the key is spelt: two calls that differ
  in those alone write the same line.
\<close>

theorem logs_keep_secrets:
  assumes "set (record_attributes P) \<subseteq> set RESERVED_LOG_KEYS" and "same_but_secrets extra extra'"
  shows "(\<exists>w'. log_event P level n logger rid event extra w = (Inr (), w')) \<and>
    log_event P level n logger rid event extra' w = log_event P level n logger rid event extra w"
proof -
  from adapter_same [OF assms(2)] have "same_but_secrets (adapter_process extra) (adapter_process extra')" .
  from make_record_same [OF this, of "record_attributes P"] format_same [OF this]
  have "log_event P level n logger rid event extra' w = log_event P level n logger rid event extra w"
    by (auto simp: log_event_def bindE_app liftS_def)
  with log_event_returns [OF assms(1)] show ?thesis by blast
qed

definition sample_stdlib :: stdlib where
  "sample_stdlib = \<lparr>record_attributes = [''name'', ''msg'', ''args'', ''levelname'', ''process''], format_time = (\<lambda>_. ''now'')\<rparr>"

definition quiet_log :: log_world where
  "quiet_log = \<lparr>tick = 0, root_level = Some 20, log_lines = [], printed = []\<rparr>"

theorem logs_keep_secrets_witness:
  "log_info sample_stdlib ''a2z.x'' None ''login'' [(''Token'', JStr ''s3cret''), (''name'', JStr ''ann'')] quiet_log =
     log_info sample_stdlib ''a2z.x'' None ''login'' [(''Token'', JNull), (''name'', JStr ''ann'')] quiet_log"
proof -
  have "map lower ''Token'' \<in> REDACT_KEYS" unfolding lower_def REDACT_KEYS_def by code_simp
  then have "same_but_secrets [(''Token'', JNull), (''name'', JStr ''ann'')] [(''Token'', JStr ''s3cret''), (''name'', JStr ''ann'')]"
    by (simp add: same_but_secrets_def same_field_pair)
  moreover have "set (record_attributes sample_stdlib) \<subseteq> set RESERVED_LOG_KEYS"
    by (simp add: sample_stdlib_def RESERVED_LOG_KEYS_def)
  ultimately show ?thesis unfolding log_info_def using logs_keep_secrets by blast
qed

end
