(* ===== verification/A2Z_Requests.thy ===== *)
theory A2Z_Requests
  imports A2Z_Logging
begin

text \<open>
  What \<open>app/main.py\<close> wraps around the routes: the request id that is threaded through the logs,
  and the worker that runs beside the API.  The context variable is the one of the request's own
  task; what answers the request is a parameter.
\<close>

section \<open>Requests\<close>

record request_world = log_world +
  request_id :: "string option"     \<comment> \<open>\<open>request_id_var\<close>\<close>
  worker_up :: bool                 \<comment> \<open>whether the task of \<open>run_forever\<close> exists\<close>

text \<open>\<open>try: ... finally: ...\<close>\<close>

definition finally_do :: "('w, 'e, 'a) act \<Rightarrow> ('w, 'e, unit) act \<Rightarrow> ('w, 'e, 'a) act" where
  "finally_do m f w = (case m w of (r, w') \<Rightarrow>
     (case f w' of (Inl e, w'') \<Rightarrow> (Inl e, w'') | (Inr _, w'') \<Rightarrow> (r, w'')))"

definition new_request_id :: "env \<Rightarrow> (string \<times> string) list \<Rightarrow> ('z request_world_scheme, string) op" where
  "new_request_id E headers =
     (let drawn = bindE (new_uuid E) (\<lambda>u. ret (filter (\<lambda>c. c \<noteq> CHR ''-'') u)) in
      case get_header headers ''x-request-id'' of None \<Rightarrow> drawn | Some r \<Rightarrow> if r = [] then drawn else ret r)"

definition request_id_middleware ::
  "env \<Rightarrow> (string \<times> string) list \<Rightarrow> ('z request_world_scheme, 'r) op \<Rightarrow> ('z request_world_scheme, 'r \<times> (string \<times> string)) op" where
  "request_id_middleware E headers call_next =
     bindE (new_request_id E headers) (\<lambda>rid.
     bindE (getsE request_id) (\<lambda>token.
     thenE (modifyE (\<lambda>w. w\<lparr>request_id := Some rid\<rparr>))
     (bindE (finally_do call_next (modifyE (\<lambda>w. w\<lparr>request_id := token\<rparr>))) (\<lambda>response.
     ret (response, (''x-request-id'', rid))))))"

text \<open>A call of a logger where the formatter reads the variable.\<close>

definition log_here ::
  "stdlib \<Rightarrow> string \<Rightarrow> int \<Rightarrow> string \<Rightarrow> string \<Rightarrow> fields \<Rightarrow> ('z request_world_scheme, unit) op" where
  "log_here P level n logger event extra =
     bindE (getsE request_id) (\<lambda>rid. log_event P level n logger rid event extra)"

section \<open>The worker\<close>

definition lifespan :: "Settings \<Rightarrow> ('z request_world_scheme, 'a) op \<Rightarrow> ('z request_world_scheme, 'a) op" where
  "lifespan S serve =
     thenE (if run_omnichannel_worker S then modifyE (\<lambda>w. w\<lparr>worker_up := True\<rparr>) else ret ())
     (finally_do serve (if run_omnichannel_worker S then modifyE (\<lambda>w. w\<lparr>worker_up := False\<rparr>) else ret ()))"

lemma lifespan_stops: "\<not> worker_up w \<Longrightarrow> (\<And>v r v'. serve v = (r, v') \<Longrightarrow> worker_up v' = worker_up v) \<Longrightarrow>
    lifespan S serve w = (r, w') \<Longrightarrow> \<not> worker_up w'"
  by (auto simp: lifespan_def finally_do_def act_apps split: prod.splits sum.splits if_splits)

section \<open>Tagged lines\<close>

text \<open>Every line an action writes is tagged with the request id, which it leaves alone.\<close>

definition tagged :: "('z request_world_scheme, 'a) op \<Rightarrow> bool" where
  "tagged m \<longleftrightarrow> (\<forall>w r w'. m w = (r, w') \<longrightarrow> request_id w' = request_id w \<and>
     (\<exists>ls. log_lines w' = log_lines w @ ls \<and>
        (\<forall>rid. request_id w = Some rid \<longrightarrow> rid \<noteq> [] \<longrightarrow> (\<forall>l\<in>set ls. map_of l ''request_id'' = Some (JStr rid)))))"

lemma taggedI:
  assumes "\<And>w r w'. m w = (r, w') \<Longrightarrow> request_id w' = request_id w \<and>
     (\<exists>ls. log_lines w' = log_lines w @ ls \<and>
        (\<forall>rid. request_id w = Some rid \<longrightarrow> rid \<noteq> [] \<longrightarrow> (\<forall>l\<in>set ls. map_of l ''request_id'' = Some (JStr rid))))"
  shows "tagged m"
  using assms unfolding tagged_def by blast

lemma tagged_quiet: "leaves (\<lambda>w. (request_id w, log_lines w)) m \<Longrightarrow> tagged m"
  by (rule taggedI) (auto dest: leavesD)

lemma tagged_bind:
  assumes "tagged m" and "\<And>x. tagged (k x)"
  shows "tagged (bindE m k)"
proof (rule taggedI)
  fix w r w'
  assume "bindE m k w = (r, w')"
  then show "request_id w' = request_id w \<and> (\<exists>ls. log_lines w' = log_lines w @ ls \<and>
      (\<forall>rid. request_id w = Some rid \<longrightarrow> rid \<noteq> [] \<longrightarrow> (\<forall>l\<in>set ls. map_of l ''request_id'' = Some (JStr rid))))"
  proof (cases rule: bindE_cases)
    case (stop e)
    then show ?thesis using assms(1) unfolding tagged_def by blast
  next
    case (go x w1)
    from assms(1) go(1) obtain ls where a: "request_id w1 = request_id w" "log_lines w1 = log_lines w @ ls"
      "\<forall>rid. request_id w = Some rid \<longrightarrow> rid \<noteq> [] \<longrightarrow> (\<forall>l\<in>set ls. map_of l ''request_id'' = Some (JStr rid))"
      unfolding tagged_def by blast
    from assms(2) go(2) obtain ls' where b: "request_id w' = request_id w1" "log_lines w' = log_lines w1 @ ls'"
      "\<forall>rid. request_id w1 = Some rid \<longrightarrow> rid \<noteq> [] \<longrightarrow> (\<forall>l\<in>set ls'. map_of l ''request_id'' = Some (JStr rid))"
      unfolding tagged_def by blast
    from a b show ?thesis by (intro conjI exI [of _ "ls @ ls'"]) auto
  qed
qed

text \<open>A logger call tags its line, unless one of its fields is called \<open>request_id\<close>.\<close>

lemma line_tagged:
  assumes "''request_id'' \<notin> fst ` set extra" and "rid \<noteq> []"
  shows "map_of (format_record as ts level event logger (Some rid) extra) ''request_id'' = Some (JStr rid)"
proof -
  let ?g = "\<lambda>(k, v) p. if k \<in> set as \<union> {''message'', ''asctime''} \<or> startswith k ''_'' then p
     else dict_set k (if map lower k \<in> REDACT_KEYS then JStr ''***'' else v) p"
  have "map_of (fold ?g extra p) ''request_id'' = map_of p ''request_id''" for p
    using assms(1)
  proof (induction extra arbitrary: p)
    case (Cons q extra)
    then have "map_of (?g q p) ''request_id'' = map_of p ''request_id''" by (cases q) (auto simp: map_of_dict_set)
    with Cons show ?case by simp
  qed simp
  with assms(2) show ?thesis unfolding format_record_def Let_def by (simp add: map_of_dict_set)
qed

lemma log_here_tagged:
  assumes "''request_id'' \<notin> fst ` set (adapter_process extra)"
  shows "tagged (log_here P level n logger event extra)"
  by (rule taggedI)
    (auto simp: log_here_def log_event_def bindE_app liftS_def make_record_def line_tagged [OF assms]
      split: if_splits option.splits)

text \<open>
  Requests are traceable: if what answers a request tags its lines, then so does the request,
  whatever its end, with the id that is sent back to the client: the one of the request's header if that is
  not empty.  Afterwards the variable is what it was.
\<close>

theorem request_id_threads:
  assumes "tagged call_next" and "request_id_middleware E headers call_next w = (r, w')"
  shows "request_id w' = request_id w \<and>
    (\<exists>rid ls. log_lines w' = log_lines w @ ls \<and>
      (\<forall>h. get_header headers ''x-request-id'' = Some h \<longrightarrow> h \<noteq> [] \<longrightarrow> rid = h) \<and>
      (\<forall>x hdr. r = Inr (x, hdr) \<longrightarrow> hdr = (''x-request-id'', rid)) \<and>
      (rid \<noteq> [] \<longrightarrow> (\<forall>l\<in>set ls. map_of l ''request_id'' = Some (JStr rid))))"
proof -
  obtain rid w1 where new: "new_request_id E headers w = (Inr rid, w1)"
    and same: "request_id w1 = request_id w" "log_lines w1 = log_lines w"
    and rid: "\<forall>h. get_header headers ''x-request-id'' = Some h \<longrightarrow> h \<noteq> [] \<longrightarrow> rid = h"
    by (cases "get_header headers ''x-request-id''"; cases "get_header headers ''x-request-id'' = Some []")
      (auto simp: new_request_id_def Let_def bindE_app)
  obtain r2 w2 where ran: "call_next (w1\<lparr>request_id := Some rid\<rparr>) = (r2, w2)" by (rule prod.exhaust)
  from assms(1) [unfolded tagged_def, rule_format, OF ran] obtain ls where ls: "log_lines w2 = log_lines w1 @ ls"
    "rid \<noteq> [] \<Longrightarrow> \<forall>l\<in>set ls. map_of l ''request_id'' = Some (JStr rid)"
    by auto
  have "w' = w2\<lparr>request_id := request_id w1\<rparr>" "\<forall>x hdr. r = Inr (x, hdr) \<longrightarrow> hdr = (''x-request-id'', rid)"
    using assms(2) by (auto simp: request_id_middleware_def new ran finally_do_def act_apps split: sum.splits)
  with same rid ls show ?thesis by (intro conjI exI [of _ rid] exI [of _ ls]) simp_all
qed

definition request_start :: request_world where
  "request_start = log_world.extend quiet_log (request_world.fields None False)"

theorem request_id_threads_witness:
  "request_id (snd (request_id_middleware sample_env [(''X-Request-ID'', ''r1'')]
     (log_here sample_stdlib ''INFO'' 20 ''a2z.x'' ''login'' [(''org_id'', JStr ''o1'')]) request_start)) = None"
proof -
  have "tagged (log_here sample_stdlib ''INFO'' 20 ''a2z.x'' ''login'' [(''org_id'', JStr ''o1'')])"
    by (rule log_here_tagged) (simp add: adapter_process_def RESERVED_LOG_KEYS_def)
  from request_id_threads [OF this prod.collapse [symmetric], of sample_env "[(''X-Request-ID'', ''r1'')]" request_start]
  show ?thesis by (simp add: request_start_def log_world.extend_def request_world.fields_def)
qed

end
