(* ===== verification/A2Z_InvoicePdf.thy ===== *)
theory A2Z_InvoicePdf
  imports A2Z_InvoiceService
begin

text \<open>
  What an invoice PDF is made of, \<open>app/services/invoicing/pdf.py\<close>: the flowables in order.
  Making pages of them (reportlab) and printing a decimal are parameters; fonts, colours and
  margins are left out.
\<close>

datatype flowable =
    Title string | Heading2 string | Heading4 string | Normal string | Spacer nat
  | Items_table "string list list" | Totals_table "(string \<times> string) list"

definition optional :: "(string \<Rightarrow> flowable list) \<Rightarrow> string option \<Rightarrow> flowable list" where
  "optional f x = (case x of None \<Rightarrow> [] | Some s \<Rightarrow> if s = [] then [] else f s)"

definition item_row :: "(rat \<Rightarrow> string) \<Rightarrow> string \<Rightarrow> line_item \<Rightarrow> string list" where
  "item_row str_of_decimal cur it =
     [li_description it, str_of_decimal (li_quantity it), money (li_unit_price it) cur, money (li_amount it) cur]"

definition pdf_elements :: "(rat \<Rightarrow> string) \<Rightarrow> invoice \<Rightarrow> line_item list \<Rightarrow> org_settings \<Rightarrow> flowable list" where
  "pdf_elements str_of_decimal iv its s =
     [Title (or_default (os_sender_name s) (iv_org_id iv)), Heading2 (''Invoice '' @ iv_number iv), Spacer 12,
      Normal (''Invoice date: '' @ iso_date (iv_invoice_date iv))] @
     (case iv_due_date iv of None \<Rightarrow> [] | Some d \<Rightarrow> [Normal (''Due date: '' @ iso_date d)]) @
     optional (\<lambda>t. [Normal (''Terms: '' @ t)]) (iv_payment_terms iv) @
     [Spacer 12, Heading4 ''Bill to:'', Normal (iv_customer_name iv)] @
     optional (\<lambda>c. [Normal c]) (iv_customer_company iv) @
     [Normal (iv_customer_email iv), Spacer 16,
      Items_table ([''Description'', ''Qty'', ''Unit price'', ''Amount''] # map (item_row str_of_decimal (iv_currency iv)) its),
      Spacer 16,
      Totals_table [(''Subtotal'', money (iv_subtotal iv) (iv_currency iv)), (''Tax'', money (iv_tax iv) (iv_currency iv)),
        (''Discount'', ''-'' @ money (iv_discount iv) (iv_currency iv)), (''Total'', money (iv_total iv) (iv_currency iv))]] @
     optional (\<lambda>n. [Spacer 20, Heading4 ''Notes'', Normal n]) (iv_notes iv)"

definition render_invoice_pdf :: "(flowable list \<Rightarrow> string) \<Rightarrow> (rat \<Rightarrow> string) \<Rightarrow> renderer" where
  "render_invoice_pdf build str_of_decimal iv its s = build (pdf_elements str_of_decimal iv its s)"

text \<open>The PDF of an invoice of consistent books adds up.\<close>

lemma pdf_adds_up:
  assumes "books_ok t" and "iv \<in> set (invoices t)" and "its = items_of (iv_org_id iv) (iv_id iv) t"
  shows "Items_table ([''Description'', ''Qty'', ''Unit price'', ''Amount''] # map (item_row dec (iv_currency iv)) its)
      \<in> set (pdf_elements dec iv its s)"
    and "Totals_table [(''Subtotal'', money (sum_list (map li_amount its)) (iv_currency iv)), (''Tax'', money (iv_tax iv) (iv_currency iv)),
        (''Discount'', ''-'' @ money (iv_discount iv) (iv_currency iv)),
        (''Total'', money (sum_list (map li_amount its) + iv_tax iv - iv_discount iv) (iv_currency iv))]
      \<in> set (pdf_elements dec iv its s)"
proof -
  have "balanced t iv" using assms(1,2) by (auto simp: books_ok_def list_all_iff)
  then have sums: "iv_subtotal iv = sum_list (map li_amount its)" "iv_total iv = sum_list (map li_amount its) + iv_tax iv - iv_discount iv"
    by (auto simp: balanced_def invoice_ok_def items_total_def assms(3))
  show "Items_table ([''Description'', ''Qty'', ''Unit price'', ''Amount''] # map (item_row dec (iv_currency iv)) its)
      \<in> set (pdf_elements dec iv its s)" by (simp add: pdf_elements_def)
  show "Totals_table [(''Subtotal'', money (sum_list (map li_amount its)) (iv_currency iv)), (''Tax'', money (iv_tax iv) (iv_currency iv)),
        (''Discount'', ''-'' @ money (iv_discount iv) (iv_currency iv)),
        (''Total'', money (sum_list (map li_amount its) + iv_tax iv - iv_discount iv) (iv_currency iv))]
      \<in> set (pdf_elements dec iv its s)" by (simp add: pdf_elements_def sums)
qed

end
