(* ===== verification/A2Z_CheckDocs.thy ===== *)
theory A2Z_CheckDocs
  imports A2Z_Prelude
begin

text \<open>
  The documentation check, \<open>scripts/check_docs.py\<close>: no broken relative links in Markdown files,
  and every file of \<open>docs/\<close> is linked from its index.  Its regular expressions are deterministic
  scanners here; the file tree is a parameter, without symbolic links.
\<close>

section \<open>Scanners\<close>

abbreviation fence :: string where "fence \<equiv> ''```''"
abbreviation tick_char :: char where "tick_char \<equiv> CHR 0x60"     \<comment> \<open>the back tick\<close>

text \<open>What follows the first occurrence of a pattern.\<close>

fun after_sub :: "string \<Rightarrow> string \<Rightarrow> string option" where
  "after_sub p [] = (if p = [] then Some [] else None)"
| "after_sub p (x # xs) = (if startswith (x # xs) p then Some (drop (length p) (x # xs)) else after_sub p xs)"

lemma after_sub_shorter: "after_sub p s = Some r \<Longrightarrow> length r \<le> length s"
  by (induction p s rule: after_sub.induct) (auto split: if_splits)

lemma partition_shorter: "partition_at c s = Some (a, b) \<Longrightarrow> length b < length s"
  by (drule partition_at_Some) simp

text \<open>\<open>_FENCE_RE.sub("", text)\<close>: a match ends at the first closing fence.\<close>

function strip_fences :: "string \<Rightarrow> string" where
  "strip_fences [] = []"
| "strip_fences (x # xs) =
     (if startswith (x # xs) fence then
        (case after_sub fence (drop 3 (x # xs)) of Some rest \<Rightarrow> strip_fences rest | None \<Rightarrow> x # strip_fences xs)
      else x # strip_fences xs)"
  by pat_completeness auto
termination by (relation "measure length") (auto dest!: after_sub_shorter)

text \<open>\<open>_INLINE_CODE_RE.sub("", text)\<close>.\<close>

function strip_spans :: "string \<Rightarrow> string" where
  "strip_spans [] = []"
| "strip_spans (x # xs) =
     (if x = tick_char then (case partition_at tick_char xs of Some (_, rest) \<Rightarrow> strip_spans rest | None \<Rightarrow> x # strip_spans xs)
      else x # strip_spans xs)"
  by pat_completeness auto
termination by (relation "measure length") (auto dest!: partition_shorter)

text \<open>A match of \<open>_LINK_RE\<close> after its opening bracket: the target and what follows.\<close>

definition link_at :: "string \<Rightarrow> (string \<times> string) option" where
  "link_at s = (case partition_at CHR '']'' s of
     Some (_, c # rest) \<Rightarrow>
       if c \<noteq> CHR ''('' then None
       else (case partition_at CHR '')'' rest of
               Some (target, rest) \<Rightarrow> if target = [] then None else Some (target, rest)
             | None \<Rightarrow> None)
   | _ \<Rightarrow> None)"

lemma link_at_shorter: "link_at s = Some (t, r) \<Longrightarrow> length r < length s"
  by (auto simp: link_at_def split: option.splits list.splits if_splits dest!: partition_shorter)

function find_links :: "string \<Rightarrow> string list" where
  "find_links [] = []"
| "find_links (x # xs) =
     (case (if x = CHR ''['' then link_at xs else None) of
        Some (target, rest) \<Rightarrow> target # find_links rest
      | None \<Rightarrow> find_links xs)"
  by pat_completeness auto
termination by (relation "measure length") (auto split: if_splits dest!: link_at_shorter)

definition links_of :: "string \<Rightarrow> string list" where
  "links_of text = find_links (strip_spans (strip_fences text))"

section \<open>The file tree\<close>

text \<open>
  Paths are absolute.  The tree has the text of every file, \<open>None\<close> for a directory and for what
  is not UTF-8; reading that raises, and then there is no result.
\<close>

type_synonym path = "string list"
type_synonym tree = "(path \<times> string option) list"

definition read_text :: "tree \<Rightarrow> path \<Rightarrow> string option" where
  "read_text T p = (case map_of T p of Some (Some text) \<Rightarrow> Some text | _ \<Rightarrow> None)"

definition exists_in :: "tree \<Rightarrow> path \<Rightarrow> bool" where
  "exists_in T p \<longleftrightarrow> p = [] \<or> p \<in> set (map fst T)"

text \<open>\<open>(directory / name).resolve()\<close>.\<close>

fun normal :: "path \<Rightarrow> string list \<Rightarrow> path" where
  "normal at [] = at"
| "normal at (c # cs) = normal (if c \<in> {[], ''.''} then at else if c = ''..'' then butlast at else at @ [c]) cs"

definition resolve_from :: "path \<Rightarrow> string \<Rightarrow> path" where
  "resolve_from directory name = normal (if startswith name ''/'' then [] else directory) (split_on CHR ''/'' name)"

definition SKIP_DIRS :: "string list" where
  "SKIP_DIRS = [''.git'', ''.venv'', ''node_modules'', ''.pytest_cache'', ''.ruff_cache'', ''.mypy_cache'',
     ''__pycache__'', ''a2z_core.egg-info'']"

definition is_md :: "path \<Rightarrow> bool" where
  "is_md p \<longleftrightarrow> p \<noteq> [] \<and> startswith (rev (last p)) (rev ''.md'')"

text \<open>\<open>rglob("*.md")\<close>: what is properly below a directory.\<close>

definition rglob_md :: "tree \<Rightarrow> path \<Rightarrow> path list" where
  "rglob_md T directory = filter (\<lambda>p. is_md p \<and> length directory < length p \<and> take (length directory) p = directory) (map fst T)"

definition relative_to :: "path \<Rightarrow> path \<Rightarrow> path" where
  "relative_to root p = drop (length root) p"

definition shown :: "path \<Rightarrow> string" where
  "shown p = (case p of [] \<Rightarrow> ''.'' | c # cs \<Rightarrow> c @ concat (map (\<lambda>c. CHR ''/'' # c) cs))"

section \<open>The check\<close>

definition markdown_files :: "tree \<Rightarrow> path \<Rightarrow> path list" where
  "markdown_files T root =
     sort (filter (\<lambda>p. \<not> list_ex (\<lambda>c. c \<in> set SKIP_DIRS) (relative_to root p)) (rglob_md T root))"

definition links :: "tree \<Rightarrow> path \<Rightarrow> string list option" where
  "links T md = map_option links_of (read_text T md)"

definition external :: "string \<Rightarrow> bool" where
  "external target \<longleftrightarrow> list_ex (startswith target) [''http:'', ''https:'', ''mailto:'', ''tel:'', ''#'']"

definition path_part :: "string \<Rightarrow> string" where
  "path_part target = takeWhile (\<lambda>c. c \<noteq> CHR ''#'') target"

definition broken :: "tree \<Rightarrow> path \<Rightarrow> string \<Rightarrow> bool" where
  "broken T md target \<longleftrightarrow> \<not> external target \<and> path_part target \<noteq> [] \<and>
     \<not> exists_in T (resolve_from (butlast md) (path_part target))"

fun check_links :: "tree \<Rightarrow> path \<Rightarrow> path list \<Rightarrow> string list option" where
  "check_links T root [] = Some []"
| "check_links T root (md # files) =
     (case links T md of
        None \<Rightarrow> None
      | Some raws \<Rightarrow>
          map_option (\<lambda>problems. map (\<lambda>t. shown (relative_to root md) @ '': broken link -> '' @ t)
              (filter (broken T md) (map strip raws)) @ problems)
            (check_links T root files))"

definition registered :: "path \<Rightarrow> string list \<Rightarrow> path list" where
  "registered index raws = map (resolve_from (butlast index))
     (filter (\<lambda>t. t \<noteq> [] \<and> \<not> external t) (map (\<lambda>raw. path_part (strip raw)) raws))"

definition check_index_registration :: "tree \<Rightarrow> path \<Rightarrow> string list option" where
  "check_index_registration T root =
     (let docs = root @ [''docs'']; index = docs @ [''INDEX.md''] in
      if \<not> exists_in T index then Some [''missing '' @ shown (relative_to root index)]
      else (case links T index of
        None \<Rightarrow> None
      | Some raws \<Rightarrow>
          Some (sort (map (\<lambda>md. shown (relative_to root md) @ '': not linked from docs/INDEX.md'')
            (filter (\<lambda>md. \<not> list_ex (\<lambda>c. c \<in> set SKIP_DIRS) md \<and> md \<notin> {docs @ [''README.md''], index} \<and>
                md \<notin> set (registered index raws))
              (rglob_md T docs))))))"

text \<open>\<open>main\<close>: the exit code and the problems it prints.\<close>

definition check_main :: "tree \<Rightarrow> path \<Rightarrow> (nat \<times> string list) option" where
  "check_main T root =
     (case check_links T root (markdown_files T root) of
        None \<Rightarrow> None
      | Some p \<Rightarrow> map_option (\<lambda>q. (if p @ q \<noteq> [] then 1 else 0, p @ q)) (check_index_registration T root))"

section \<open>Documents\<close>

text \<open>
  A document as its author sees it.  A link in code is no link; a link text has no bracket that
  closes it, a target no parenthesis that closes it.
\<close>

datatype piece = Prose string | Fenced string | Code string | Link string string

fun render_piece :: "piece \<Rightarrow> string" where
  "render_piece (Prose s) = s"
| "render_piece (Fenced s) = fence @ s @ fence"
| "render_piece (Code s) = tick_char # s @ [tick_char]"
| "render_piece (Link label target) = CHR ''['' # label @ ''](''  @ target @ '')''"

fun piece_ok :: "piece \<Rightarrow> bool" where
  "piece_ok (Prose s) \<longleftrightarrow> s \<noteq> [] \<and> tick_char \<notin> set s \<and> CHR ''['' \<notin> set s"
| "piece_ok (Fenced s) \<longleftrightarrow> after_sub fence (s @ fence) = Some []"
| "piece_ok (Code s) \<longleftrightarrow> s \<noteq> [] \<and> tick_char \<notin> set s"
| "piece_ok (Link label target) \<longleftrightarrow> tick_char \<notin> set label \<and> CHR '']'' \<notin> set label \<and>
     target \<noteq> [] \<and> tick_char \<notin> set target \<and> CHR '')'' \<notin> set target"

text \<open>A fenced block does not directly follow a code span: their back ticks would run together.\<close>

fun document :: "piece list \<Rightarrow> bool" where
  "document [] \<longleftrightarrow> True"
| "document (p # ps) \<longleftrightarrow> piece_ok p \<and> document ps \<and>
     (case (p, ps) of (Code _, Fenced _ # _) \<Rightarrow> False | _ \<Rightarrow> True)"

definition render_document :: "piece list \<Rightarrow> string" where
  "render_document ps = concat (map render_piece ps)"

definition targets :: "piece list \<Rightarrow> string list" where
  "targets ps = concat (map (\<lambda>p. case p of Link _ target \<Rightarrow> [target] | _ \<Rightarrow> []) ps)"

text \<open>The scanners on what they are made for.\<close>

lemma startswith_fence: "startswith s fence \<longleftrightarrow> (\<exists>t. s = tick_char # tick_char # tick_char # t)"
  by (simp add: startswith_iff)

lemma after_sub_append:
  assumes "after_sub p (s @ p) = Some []"
  shows "after_sub p (s @ p @ r) = Some r"
  using assms
proof (induction s)
  case Nil
  then show ?case by (cases p; cases r) (simp_all add: startswith_def)
next
  case (Cons x s)
  show ?case
  proof (cases "startswith (x # s @ p) p")
    case True
    with Cons.prems show ?thesis by simp
  next
    case False
    then have "\<not> startswith (x # s @ p @ r) p"
      using take_append [of "length p" "x # s @ p" r] by (simp add: startswith_def)
    with False Cons show ?thesis by simp
  qed
qed

lemma strip_fences_plain: "tick_char \<notin> set s \<Longrightarrow> strip_fences (s @ r) = s @ strip_fences r"
  by (induction s) (auto simp: startswith_fence)

lemma strip_fences_fenced: "after_sub fence (s @ fence) = Some [] \<Longrightarrow> strip_fences (fence @ s @ fence @ r) = strip_fences r"
  using after_sub_append [of fence s r] by (simp add: startswith_fence)

lemma strip_fences_code:
  assumes "s \<noteq> []" "tick_char \<notin> set s" and "\<not> startswith (tick_char # r) fence"
  shows "strip_fences (tick_char # s @ tick_char # r) = tick_char # s @ tick_char # strip_fences r"
proof -
  obtain x t where s: "s = x # t" using assms(1) by (cases s) auto
  have "strip_fences (tick_char # s @ tick_char # r) = tick_char # strip_fences (s @ tick_char # r)"
    using assms(2) s by (auto simp: startswith_fence)
  also have "strip_fences (s @ tick_char # r) = s @ strip_fences (tick_char # r)" by (rule strip_fences_plain [OF assms(2)])
  also have "strip_fences (tick_char # r) = tick_char # strip_fences r" using assms(3) by simp
  finally show ?thesis by simp
qed

lemma strip_spans_plain: "tick_char \<notin> set s \<Longrightarrow> strip_spans (s @ r) = s @ strip_spans r"
  by (induction s) auto

lemma strip_spans_code: "tick_char \<notin> set s \<Longrightarrow> strip_spans (tick_char # s @ tick_char # r) = strip_spans r"
  by (simp add: partition_at_append)

lemma find_links_plain: "CHR ''['' \<notin> set s \<Longrightarrow> find_links (s @ r) = find_links r"
  by (induction s) auto

lemma find_links_link:
  assumes "CHR '']'' \<notin> set label" "target \<noteq> []" "CHR '')'' \<notin> set target"
  shows "find_links (CHR ''['' # label @ ''](''  @ target @ '')'' @ r) = target # find_links r"
  using assms by (simp add: link_at_def partition_at_append)

declare strip_fences.simps(2) [simp del] strip_spans.simps(2) [simp del] find_links.simps(2) [simp del]

text \<open>The three passes over a document.\<close>

definition unfenced :: "piece list \<Rightarrow> piece list" where
  "unfenced = filter (\<lambda>p. case p of Fenced _ \<Rightarrow> False | _ \<Rightarrow> True)"

definition uncoded :: "piece list \<Rightarrow> piece list" where
  "uncoded = filter (\<lambda>p. case p of Code _ \<Rightarrow> False | _ \<Rightarrow> True)"

lemma render_simps [simp]:
  "render_document [] = []" "render_document (p # ps) = render_piece p @ render_document ps"
  by (simp_all add: render_document_def)

lemma no_fence_next: "document (Code s # ps) \<Longrightarrow> \<not> startswith (tick_char # render_document ps) fence"
proof (cases ps)
  case (Cons p qs)
  moreover assume "document (Code s # ps)"
  moreover have "\<exists>x u. t = x # u \<and> x \<noteq> c" if "t \<noteq> []" "c \<notin> set t" for t and c :: char using that by (cases t) auto
  ultimately show ?thesis by (cases p) (fastforce simp: startswith_fence)+
qed (simp add: startswith_fence)

lemma strip_fences_document: "document ps \<Longrightarrow> strip_fences (render_document ps) = render_document (unfenced ps)"
proof (induction ps)
  case (Cons p ps)
  then have ih: "strip_fences (render_document ps) = render_document (unfenced ps)" and ok: "piece_ok p" by auto
  show ?case
  proof (cases p)
    case (Code s)
    with Cons.prems have "\<not> startswith (tick_char # render_document ps) fence" using no_fence_next by blast
    with Code ok ih show ?thesis by (simp add: unfenced_def strip_fences_code)
  next
    case (Link label target)
    with ok strip_fences_plain [of "CHR ''['' # label @ ''](''  @ target @ '')''"] ih show ?thesis by (simp add: unfenced_def)
  next
    case (Fenced s)
    with ok strip_fences_fenced [of s "render_document ps"] ih show ?thesis by (simp add: unfenced_def)
  qed (use ok ih strip_fences_plain in \<open>simp add: unfenced_def\<close>)
qed (simp add: unfenced_def)

lemma strip_spans_document:
  "list_all piece_ok ps \<Longrightarrow> strip_spans (render_document (unfenced ps)) = render_document (uncoded (unfenced ps))"
proof (induction ps)
  case (Cons p ps)
  then have ih: "strip_spans (render_document (unfenced ps)) = render_document (uncoded (unfenced ps))" and ok: "piece_ok p" by auto
  show ?case
  proof (cases p)
    case (Code s)
    with ok strip_spans_code ih show ?thesis by (simp add: unfenced_def uncoded_def)
  next
    case (Link label target)
    with ok strip_spans_plain [of "CHR ''['' # label @ ''](''  @ target @ '')''"] ih show ?thesis by (simp add: unfenced_def uncoded_def)
  qed (use ok ih strip_spans_plain in \<open>simp_all add: unfenced_def uncoded_def\<close>)
qed (simp add: unfenced_def uncoded_def)

lemma find_links_document:
  "list_all piece_ok ps \<Longrightarrow> find_links (render_document (uncoded (unfenced ps))) = targets ps"
proof (induction ps)
  case (Cons p ps)
  then have ih: "find_links (render_document (uncoded (unfenced ps))) = targets ps" and ok: "piece_ok p" by auto
  show ?case
  proof (cases p)
    case (Link label target)
    with ok find_links_link ih show ?thesis by (simp add: unfenced_def uncoded_def targets_def)
  qed (use ok ih find_links_plain in \<open>simp_all add: unfenced_def uncoded_def targets_def\<close>)
qed (simp add: unfenced_def uncoded_def targets_def)

lemma document_ok: "document ps \<Longrightarrow> list_all piece_ok ps"
  by (induction ps) auto

text \<open>The scanner finds the links of a document, all and only, in their order.\<close>

lemma links_of_document: "document ps \<Longrightarrow> links_of (render_document ps) = targets ps"
  by (simp add: links_of_def strip_fences_document strip_spans_document find_links_document document_ok)

section \<open>What passes\<close>

text \<open>Where a link leads, if it is a path.\<close>

definition leads_to :: "path \<Rightarrow> string \<Rightarrow> path option" where
  "leads_to md raw = (let target = strip raw in
     if external target \<or> path_part target = [] then None else Some (resolve_from (butlast md) (path_part target)))"

definition in_skipped :: "path \<Rightarrow> bool" where
  "in_skipped p \<longleftrightarrow> set p \<inter> set SKIP_DIRS \<noteq> {}"

lemma external_path: "path_part t \<noteq> [] \<Longrightarrow> external (path_part t) = external t"
proof -
  assume ne: "path_part t \<noteq> []"
  have "startswith t p \<longleftrightarrow> startswith (path_part t) p" if "CHR ''#'' \<notin> set p" for p
  proof
    assume "startswith t p"
    then obtain u where "t = p @ u" by (auto simp: startswith_iff)
    moreover have "takeWhile (\<lambda>c. c \<noteq> CHR ''#'') (p @ u) = p @ takeWhile (\<lambda>c. c \<noteq> CHR ''#'') u"
      using that by (intro takeWhile_append2) auto
    ultimately have "path_part t = p @ takeWhile (\<lambda>c. c \<noteq> CHR ''#'') u" by (simp add: path_part_def)
    then show "startswith (path_part t) p" by simp
  next
    assume "startswith (path_part t) p"
    then obtain u where "path_part t = p @ u" by (auto simp: startswith_iff)
    then have "t = p @ u @ dropWhile (\<lambda>c. c \<noteq> CHR ''#'') t" by (metis append_assoc path_part_def takeWhile_dropWhile_id)
    then show "startswith t p" by (metis startswith_append)
  qed
  moreover have "\<not> startswith t ''#''" "\<not> startswith (path_part t) ''#''"
    using ne by (cases t; auto simp: path_part_def startswith_iff split: if_splits)+
  ultimately show ?thesis by (simp add: external_def)
qed

lemma registered_iff: "p \<in> set (registered index raws) \<longleftrightarrow> (\<exists>raw\<in>set raws. leads_to index raw = Some p)"
  by (auto simp: registered_def leads_to_def Let_def external_path)

lemma broken_iff: "broken T md (strip raw) \<longleftrightarrow> (\<exists>p. leads_to md raw = Some p \<and> \<not> exists_in T p)"
  by (auto simp: broken_def leads_to_def Let_def)

text \<open>Every Markdown file of the tree reads as a document.\<close>

definition written_as :: "tree \<Rightarrow> path \<Rightarrow> (path \<Rightarrow> piece list) \<Rightarrow> bool" where
  "written_as T root D \<longleftrightarrow> (\<forall>md\<in>set (rglob_md T root). document (D md) \<and> read_text T md = Some (render_document (D md)))"

definition index_of :: "path \<Rightarrow> path" where
  "index_of root = root @ [''docs'', ''INDEX.md'']"

definition links_resolve :: "tree \<Rightarrow> path \<Rightarrow> (path \<Rightarrow> piece list) \<Rightarrow> bool" where
  "links_resolve T root D \<longleftrightarrow> (\<forall>md\<in>set (rglob_md T root). \<not> in_skipped (relative_to root md) \<longrightarrow>
     (\<forall>t\<in>set (targets (D md)). \<forall>p. leads_to md t = Some p \<longrightarrow> exists_in T p))"

definition all_indexed :: "tree \<Rightarrow> path \<Rightarrow> (path \<Rightarrow> piece list) \<Rightarrow> bool" where
  "all_indexed T root D \<longleftrightarrow> exists_in T (index_of root) \<and>
     (\<forall>md\<in>set (rglob_md T (root @ [''docs''])). \<not> in_skipped (relative_to root md) \<longrightarrow>
        md = root @ [''docs'', ''README.md''] \<or> md = index_of root \<or>
        (\<exists>t\<in>set (targets (D (index_of root))). leads_to (index_of root) t = Some md))"

lemma links_written: "written_as T root D \<Longrightarrow> md \<in> set (rglob_md T root) \<Longrightarrow> links T md = Some (targets (D md))"
  by (simp add: written_as_def links_def links_of_document)

lemma in_skipped_ex: "list_ex (\<lambda>c. c \<in> set SKIP_DIRS) p \<longleftrightarrow> in_skipped p"
  by (auto simp: list_ex_iff in_skipped_def)

lemma check_links_written:
  assumes "written_as T root D" and "set files \<subseteq> set (rglob_md T root)"
  shows "\<exists>problems. check_links T root files = Some problems \<and>
    (problems = [] \<longleftrightarrow> (\<forall>md\<in>set files. \<forall>t\<in>set (targets (D md)). \<forall>p. leads_to md t = Some p \<longrightarrow> exists_in T p))"
  using assms(2)
proof (induction files)
  case (Cons md files)
  then obtain problems where "check_links T root files = Some problems"
    "problems = [] \<longleftrightarrow> (\<forall>md\<in>set files. \<forall>t\<in>set (targets (D md)). \<forall>p. leads_to md t = Some p \<longrightarrow> exists_in T p)" by auto
  with Cons.prems links_written [OF assms(1), of md] show ?case
    by (auto simp: filter_empty_conv broken_iff)
qed simp

lemma index_globbed: "exists_in T (index_of root) \<Longrightarrow> index_of root \<in> set (rglob_md T root)"
  by (simp add: rglob_md_def exists_in_def index_of_def is_md_def startswith_def)

lemma below_root: "md \<in> set (rglob_md T (root @ [''docs''])) \<Longrightarrow> \<exists>rest. md = root @ rest \<and> md \<in> set (rglob_md T root)"
proof -
  assume md: "md \<in> set (rglob_md T (root @ [''docs'']))"
  then have "take (Suc (length root)) md = root @ [''docs'']" by (simp add: rglob_md_def)
  then have "md = root @ ''docs'' # drop (Suc (length root)) md" using append_take_drop_id [of "Suc (length root)" md] by simp
  then obtain rest where "md = root @ ''docs'' # rest" by blast
  with md show ?thesis by (auto simp: rglob_md_def)
qed

lemma check_index_written:
  assumes "written_as T root D" and "\<not> in_skipped root"
  shows "\<exists>problems. check_index_registration T root = Some problems \<and> (problems = [] \<longleftrightarrow> all_indexed T root D)"
proof (cases "exists_in T (index_of root)")
  case True
  have skip: "in_skipped md = in_skipped (relative_to root md)" if "md \<in> set (rglob_md T (root @ [''docs'']))" for md
    using below_root [OF that] assms(2) by (auto simp: in_skipped_def relative_to_def)
  have "sort xs = [] \<longleftrightarrow> xs = []" for xs :: "string list" by (metis set_empty set_sort)
  with True links_written [OF assms(1) index_globbed [OF True]] skip show ?thesis
    by (auto simp: check_index_registration_def Let_def index_of_def [symmetric] all_indexed_def filter_empty_conv
        in_skipped_ex registered_iff)
next
  case False
  then show ?thesis by (simp add: check_index_registration_def Let_def index_of_def all_indexed_def)
qed

text \<open>
  The check is exact: if every Markdown file reads as a document and the tree is not itself
  below a skipped directory, \<open>main\<close> ends, and its exit code is 0 if and only if every relative link
  leads to something and every document is linked from the index.
\<close>

theorem docs_check_exact:
  assumes "written_as T root D" and "\<not> in_skipped root"
  shows "\<exists>code problems. check_main T root = Some (code, problems) \<and> (code = 0 \<longleftrightarrow> problems = []) \<and>
    (code = 0 \<longleftrightarrow> links_resolve T root D \<and> all_indexed T root D)"
proof -
  have "set (markdown_files T root) \<subseteq> set (rglob_md T root)" by (auto simp: markdown_files_def)
  from check_links_written [OF assms(1) this] obtain p where p: "check_links T root (markdown_files T root) = Some p"
    "p = [] \<longleftrightarrow> links_resolve T root D"
    by (auto simp: links_resolve_def markdown_files_def in_skipped_ex)
  with check_index_written [OF assms] show ?thesis by (auto simp: check_main_def)
qed

text \<open>Below a skipped directory nothing needs to be in the index: the test reads the absolute path.\<close>

lemma nothing_registered:
  assumes "in_skipped root" and "exists_in T (index_of root)" and "links T (index_of root) = Some raws"
  shows "check_index_registration T root = Some []"
proof -
  have "in_skipped md" if "md \<in> set (rglob_md T (root @ [''docs'']))" for md
    using below_root [OF that] assms(1) by (auto simp: in_skipped_def)
  with assms(2,3) show ?thesis
    by (simp add: check_index_registration_def Let_def index_of_def [symmetric] in_skipped_ex filter_empty_conv cong: filter_cong)
qed

text \<open>A small tree: the index links the guide, which links itself and shows a link in a code span.\<close>

definition sample_document :: "path \<Rightarrow> piece list" where
  "sample_document p = (if last p = ''INDEX.md'' then [Prose ''# Index '', Link ''guide'' ''./guide.md#top'']
     else [Code ''[a](gone.md)'', Prose '' see '', Link ''here'' ''../docs/guide.md'', Fenced ''[b](gone.md)''])"

definition sample_tree :: tree where
  "sample_tree = map (\<lambda>p. (p, Some (render_document (sample_document p))))
     [[''repo'', ''docs'', ''INDEX.md''], [''repo'', ''docs'', ''guide.md'']]"

theorem docs_check_exact_witness: "\<exists>problems. check_main sample_tree [''repo''] = Some (0, problems)"
proof -
  have files: "rglob_md sample_tree [''repo''] = [[''repo'', ''docs'', ''INDEX.md''], [''repo'', ''docs'', ''guide.md'']]"
    "rglob_md sample_tree [''repo'', ''docs''] = [[''repo'', ''docs'', ''INDEX.md''], [''repo'', ''docs'', ''guide.md'']]"
    by (simp_all add: rglob_md_def sample_tree_def is_md_def startswith_def)
  have written: "written_as sample_tree [''repo''] sample_document"
  proof -
    have "read_text sample_tree p = Some (render_document (sample_document p)) \<and> document (sample_document p)"
      if "p \<in> set [[''repo'', ''docs'', ''INDEX.md''], [''repo'', ''docs'', ''guide.md'']]" for p
      using that by (auto simp: read_text_def sample_tree_def sample_document_def startswith_def)
    then show ?thesis unfolding written_as_def files by blast
  qed
  have led: "leads_to [''repo'', ''docs'', ''INDEX.md''] ''./guide.md#top'' = Some [''repo'', ''docs'', ''guide.md'']"
    "leads_to [''repo'', ''docs'', ''guide.md''] ''../docs/guide.md'' = Some [''repo'', ''docs'', ''guide.md'']"
    by code_simp+
  have there: "exists_in sample_tree [''repo'', ''docs'', ''INDEX.md'']" "exists_in sample_tree [''repo'', ''docs'', ''guide.md'']"
    by (simp_all add: exists_in_def sample_tree_def)
  have "\<not> in_skipped [''repo'']" by (simp add: in_skipped_def SKIP_DIRS_def)
  moreover have "links_resolve sample_tree [''repo''] sample_document"
    using led there by (simp add: links_resolve_def files targets_def sample_document_def)
  moreover have "all_indexed sample_tree [''repo''] sample_document"
    using led there by (simp add: all_indexed_def index_of_def files targets_def sample_document_def)
  ultimately show ?thesis using docs_check_exact [OF written] by auto
qed

end
