(* ===== verification/A2Z_SchemaRows.thy ===== *)
theory A2Z_SchemaRows
  imports A2Z_Migrations A2Z_Platform
begin

text \<open>
  The rows of the services under the schemas that the migrations build: a table row is seen
  as a function from column names to cells, and a database satisfies a schema when every cell
  fits its column and every key, unique constraint, unique index and reference holds.
\<close>

section \<open>Databases\<close>

datatype cell = Text_cell string | Int_cell int | Rat_cell rat | Bool_cell bool

type_synonym row = "string \<Rightarrow> cell option"         \<comment> \<open>\<open>None\<close> is NULL\<close>
type_synonym database = "string \<Rightarrow> row list"

fun fits_type :: "sql_type \<Rightarrow> cell \<Rightarrow> bool" where
  "fits_type VARCHAR (Text_cell _) = True"
| "fits_type TEXT (Text_cell _) = True"
| "fits_type TIMESTAMPTZ (Int_cell _) = True"
| "fits_type DATE (Int_cell _) = True"
| "fits_type INTEGER (Int_cell n) = fits32 n"
| "fits_type BIGINT (Int_cell n) = fits64 n"
| "fits_type BOOLEAN (Bool_cell _) = True"
| "fits_type (NUMERIC p s) (Rat_cell r) = (\<bar>r\<bar> < 10 ^ (p - s))"
| "fits_type _ _ = False"

definition column_ok :: "row \<Rightarrow> sql_column \<Rightarrow> bool" where
  "column_ok r c = (case r (sc_name c) of None \<Rightarrow> sc_nullable c | Some v \<Rightarrow> fits_type (sc_type c) v)"

text \<open>Rows with a NULL in the key do not collide.\<close>

definition unique_on :: "string list \<Rightarrow> row list \<Rightarrow> bool" where
  "unique_on cs rows = distinct (concat (map (\<lambda>r. case those (map r cs) of None \<Rightarrow> [] | Some vs \<Rightarrow> [vs]) rows))"

definition refers :: "row list \<Rightarrow> string \<Rightarrow> row list \<Rightarrow> string \<Rightarrow> bool" where
  "refers rows c targets c' = list_all (\<lambda>r. case r c of None \<Rightarrow> True | Some v \<Rightarrow> list_ex (\<lambda>x. x c' = Some v) targets) rows"

definition table_ok :: "database \<Rightarrow> sql_table \<Rightarrow> bool" where
  "table_ok D tb \<longleftrightarrow>
     list_all (\<lambda>r. list_all (column_ok r) (tb_columns tb)) (D (tb_name tb)) \<and>
     unique_on (tb_primary_key tb) (D (tb_name tb)) \<and>
     list_all (\<lambda>(_, cs). unique_on cs (D (tb_name tb))) (tb_uniques tb) \<and>
     list_all (\<lambda>(c, t, c'). refers (D (tb_name tb)) c (D t) c') (tb_references tb)"

definition index_ok :: "database \<Rightarrow> sql_index \<Rightarrow> bool" where
  "index_ok D ix \<longleftrightarrow> (ix_unique ix \<longrightarrow> unique_on (map key_column (ix_keys ix)) (D (ix_table ix)))"

definition satisfies :: "schema \<Rightarrow> database \<Rightarrow> bool" where
  "satisfies s D \<longleftrightarrow> list_all (table_ok D) (sch_tables s) \<and> list_all (index_ok D) (sch_indexes s)"

section \<open>The same schema, the same databases\<close>

lemma same_elements_set: "same_elements xs ys \<Longrightarrow> set xs = set ys"
  unfolding same_elements_mset by (metis set_mset_mset)

lemma same_table_ok: "same_table a b \<Longrightarrow> table_ok D a = table_ok D b"
  unfolding same_table_def table_ok_def
  by (auto simp: list_all_iff dest!: same_elements_set)

lemma same_schema_satisfies:
  assumes "same_schema s t"
  shows "satisfies s D = satisfies t D"
proof -
  from assms have tables: "\<forall>a \<in> set (sch_tables s). \<exists>b \<in> set (sch_tables t). same_table a b"
    "\<forall>b \<in> set (sch_tables t). \<exists>a \<in> set (sch_tables s). same_table a b"
    and ixs: "set (sch_indexes s) = set (sch_indexes t)"
    by (auto simp: same_schema_def list_all_iff list_ex_iff dest: same_elements_set)
  have "list_all (table_ok D) (sch_tables s) = list_all (table_ok D) (sch_tables t)"
    using tables same_table_ok unfolding list_all_iff by metis
  with ixs show ?thesis by (simp add: satisfies_def list_all_iff)
qed

section \<open>Unique keys of mapped rows\<close>

lemma distinct_map_inj: "inj g \<Longrightarrow> distinct (map g ys) \<longleftrightarrow> distinct ys"
  by (metis distinct_map inj_on_subset subset_UNIV)

lemma unique_total:
  assumes "\<And>x. x \<in> set xs \<Longrightarrow> those (map (R x) cs) = Some (g (f x))" and "inj g"
  shows "unique_on cs (map R xs) \<longleftrightarrow> distinct (map f xs)"
proof -
  have "concat (map (\<lambda>r. case those (map r cs) of None \<Rightarrow> [] | Some vs \<Rightarrow> [vs]) (map R xs)) = map g (map f xs)"
    using assms(1) by (induction xs) auto
  then show ?thesis unfolding unique_on_def by (simp only: distinct_map_inj [OF assms(2)])
qed

lemma unique_partial:
  assumes "\<And>x. x \<in> set xs \<Longrightarrow> those (map (R x) cs) = map_option g (f x)" and "inj g"
  shows "unique_on cs (map R xs) \<longleftrightarrow> distinct (concat (map (\<lambda>x. case f x of None \<Rightarrow> [] | Some k \<Rightarrow> [k]) xs))"
proof -
  have "concat (map (\<lambda>r. case those (map r cs) of None \<Rightarrow> [] | Some vs \<Rightarrow> [vs]) (map R xs)) =
      map g (concat (map (\<lambda>x. case f x of None \<Rightarrow> [] | Some k \<Rightarrow> [k]) xs))"
    using assms(1) by (induction xs) (auto split: option.split)
  then show ?thesis unfolding unique_on_def by (simp only: distinct_map_inj [OF assms(2)])
qed

lemma key_injs:
  "inj (\<lambda>a. [Text_cell a])" "inj (\<lambda>(a, b). [Text_cell a, Text_cell b])"
  "inj (\<lambda>(a, b, c). [Text_cell a, Text_cell b, Text_cell c])"
  by (auto simp: inj_def)

section \<open>The rows of the omni-channel service\<close>

definition row_of :: "(string \<times> cell option) list \<Rightarrow> row" where
  "row_of xs = (\<lambda>c. case map_of xs c of None \<Rightarrow> None | Some v \<Rightarrow> v)"

abbreviation text_c :: "string \<Rightarrow> cell option" where "text_c s \<equiv> Some (Text_cell s)"
abbreviation int_c :: "int \<Rightarrow> cell option" where "int_c n \<equiv> Some (Int_cell n)"

definition connection_row :: "channel_connection \<Rightarrow> row" where
  "connection_row c = row_of [(''id'', text_c (cn_id c)), (''org_id'', text_c (cn_org_id c)),
     (''channel_type'', text_c (cn_channel_type c)), (''display_name'', text_c (cn_display_name c)),
     (''provider_account_id'', text_c (cn_provider_account_id c)),
     (''credentials_secret_key'', text_c (cn_credentials_secret_key c)), (''status'', text_c (cn_status c)),
     (''created_at'', int_c (cn_created_at c)), (''updated_at'', int_c (cn_updated_at c))]"

definition identity_row :: "channel_identity \<Rightarrow> row" where
  "identity_row i = row_of [(''id'', text_c (ci_id i)), (''org_id'', text_c (ci_org_id i)),
     (''channel_type'', text_c (ci_channel_type i)), (''external_id'', text_c (ci_external_id i)),
     (''display_name'', map_option Text_cell (ci_display_name i)), (''customer_id'', None),
     (''created_at'', int_c (ci_created_at i))]"

definition conversation_row :: "conversation \<Rightarrow> row" where
  "conversation_row c = row_of [(''id'', text_c (cv_id c)), (''org_id'', text_c (cv_org_id c)),
     (''customer_identity_id'', text_c (cv_identity_id c)), (''status'', text_c (cv_status c)),
     (''assigned_user_id'', map_option Text_cell (cv_assigned_user_id c)),
     (''last_message_at'', map_option Int_cell (cv_last_message_at c)),
     (''last_message_preview'', map_option Text_cell (cv_last_message_preview c)),
     (''unread_count'', int_c (cv_unread_count c)), (''created_at'', int_c (cv_created_at c))]"

definition message_row :: "message \<Rightarrow> row" where
  "message_row m = row_of [(''id'', text_c (mg_id m)), (''org_id'', text_c (mg_org_id m)),
     (''conversation_id'', text_c (mg_conversation_id m)), (''direction'', text_c (mg_direction m)),
     (''channel_type'', text_c (mg_channel_type m)), (''external_message_id'', text_c (mg_external_id m)),
     (''body_text'', map_option Text_cell (mg_body_text m)), (''subject'', map_option Text_cell (mg_subject m)),
     (''content_type'', text_c (mg_content_type m)), (''status'', text_c (mg_status m)),
     (''sent_by_user_id'', map_option Text_cell (mg_sent_by m)),
     (''client_dedup_key'', map_option Text_cell (mg_dedup_key m)), (''created_at'', int_c (mg_created_at m))]"

definition attachment_row :: "message_attachment \<Rightarrow> row" where
  "attachment_row a = row_of [(''id'', text_c (ma_id a)), (''message_id'', text_c (ma_message_id a)),
     (''org_id'', text_c (ma_org_id a)), (''s3_key'', text_c (ma_s3_key a)),
     (''content_type'', text_c (ma_content_type a)), (''size_bytes'', int_c (ma_size_bytes a))]"

definition assignment_row :: "assignment \<Rightarrow> row" where
  "assignment_row a = row_of [(''id'', text_c (as_id a)), (''org_id'', text_c (as_org_id a)),
     (''conversation_id'', text_c (as_conversation_id a)), (''assigned_user_id'', text_c (as_assigned_user_id a)),
     (''assigned_by'', text_c (as_assigned_by a)), (''reason'', text_c (as_reason a)),
     (''created_at'', int_c (as_created_at a))]"

text \<open>The tables that no code uses are empty.\<close>

definition omni_database :: "omni_tables \<Rightarrow> database" where
  "omni_database t = (\<lambda>n. case map_of
     [(''channel_connections'', map connection_row (connections t)), (''channel_identities'', map identity_row (identities t)),
      (''conversations'', map conversation_row (conversations t)), (''messages'', map message_row (messages t)),
      (''message_attachments'', map attachment_row (msg_attachments t)),
      (''conversation_assignments'', map assignment_row (assignments t))] n of None \<Rightarrow> [] | Some rows \<Rightarrow> rows)"

lemma omni_database_simps [simp]:
  "omni_database t ''channel_connections'' = map connection_row (connections t)"
  "omni_database t ''channel_identities'' = map identity_row (identities t)"
  "omni_database t ''conversations'' = map conversation_row (conversations t)"
  "omni_database t ''messages'' = map message_row (messages t)"
  "omni_database t ''message_attachments'' = map attachment_row (msg_attachments t)"
  "omni_database t ''conversation_assignments'' = map assignment_row (assignments t)"
  "omni_database t ''presence'' = []" "omni_database t ''templates'' = []"
  "omni_database t ''commission_rules'' = []" "omni_database t ''commission_attributions'' = []"
  by (simp_all add: omni_database_def)

lemmas omni_rows = connection_row_def identity_row_def conversation_row_def message_row_def attachment_row_def
  assignment_row_def row_of_def

lemma omni_keys:
  "unique_on [''id''] (map connection_row cs) \<longleftrightarrow> distinct (map cn_id cs)"
  "unique_on [''id''] (map identity_row is) \<longleftrightarrow> distinct (map ci_id is)"
  "unique_on [''id''] (map conversation_row vs) \<longleftrightarrow> distinct (map cv_id vs)"
  "unique_on [''id''] (map message_row ms) \<longleftrightarrow> distinct (map mg_id ms)"
  "unique_on [''id''] (map attachment_row ts) \<longleftrightarrow> distinct (map ma_id ts)"
  "unique_on [''id''] (map assignment_row ss) \<longleftrightarrow> distinct (map as_id ss)"
  "unique_on [''org_id'', ''channel_type'', ''external_id''] (map identity_row is) \<longleftrightarrow> distinct (map identity_key is)"
  "unique_on [''channel_type'', ''external_message_id''] (map message_row ms) \<longleftrightarrow> distinct (map message_key ms)"
  by (rule unique_total [OF _ key_injs(1)] unique_total [OF _ key_injs(2)] unique_total [OF _ key_injs(3)];
      simp add: omni_rows identity_key_def message_key_def)+

lemma dedup_unique:
  "unique_on [''org_id'', ''conversation_id'', ''client_dedup_key''] (map message_row ms) \<longleftrightarrow> distinct (dedup_keys ms)"
proof -
  have "unique_on [''org_id'', ''conversation_id'', ''client_dedup_key''] (map message_row ms) \<longleftrightarrow>
      distinct (concat (map (\<lambda>m. case map_option (\<lambda>k. (mg_org_id m, mg_conversation_id m, k)) (mg_dedup_key m) of None \<Rightarrow> [] | Some k \<Rightarrow> [k]) ms))"
    by (rule unique_partial [OF _ key_injs(3)]) (simp add: omni_rows split: option.split)
  moreover have "map (\<lambda>m. case map_option (\<lambda>k. (mg_org_id m, mg_conversation_id m, k)) (mg_dedup_key m) of None \<Rightarrow> [] | Some k \<Rightarrow> [k]) ms =
      map (\<lambda>m. case mg_dedup_key m of None \<Rightarrow> [] | Some k \<Rightarrow> [(mg_org_id m, mg_conversation_id m, k)]) ms"
    by (auto split: option.split)
  ultimately show ?thesis by (simp only: dedup_keys_def)
qed

lemma omni_refs:
  "refers (map conversation_row vs) ''customer_identity_id'' (map identity_row is) ''id'' \<longleftrightarrow>
     list_all (\<lambda>c. cv_identity_id c \<in> set (map ci_id is)) vs"
  "refers (map message_row ms) ''conversation_id'' (map conversation_row vs) ''id'' \<longleftrightarrow>
     list_all (\<lambda>m. mg_conversation_id m \<in> set (map cv_id vs)) ms"
  "refers (map attachment_row ts) ''message_id'' (map message_row ms) ''id'' \<longleftrightarrow>
     list_all (\<lambda>a. ma_message_id a \<in> set (map mg_id ms)) ts"
  "refers (map assignment_row ss) ''conversation_id'' (map conversation_row vs) ''id'' \<longleftrightarrow>
     list_all (\<lambda>a. as_conversation_id a \<in> set (map cv_id vs)) ss"
  by (auto simp: refers_def list_all_iff list_ex_iff omni_rows) (metis image_eqI imageE)+


section \<open>The schema of the omni-channel service\<close>

lemmas table_simps = table_ok_def table_of_def column_of_def metadata_def indexes_of_def index_ok_def column_ok_def

lemma empty_tables_ok:
  "D (tb_name tb) = [] \<Longrightarrow> table_ok D tb"
  by (auto simp: table_ok_def unique_on_def refers_def list_all_iff)

lemma omni_tables_ok:
  "table_ok (omni_database t) (table_of ChannelConnection_model) \<longleftrightarrow> distinct (map cn_id (connections t))"
  "table_ok (omni_database t) (table_of ChannelIdentity_model) \<longleftrightarrow>
     distinct (map ci_id (identities t)) \<and> distinct (map identity_key (identities t))"
  "table_ok (omni_database t) (table_of Conversation_model) \<longleftrightarrow>
     list_all (\<lambda>c. fits32 (cv_unread_count c)) (conversations t) \<and> distinct (map cv_id (conversations t)) \<and>
     list_all (\<lambda>c. cv_identity_id c \<in> set (map ci_id (identities t))) (conversations t)"
  "table_ok (omni_database t) (table_of Message_model) \<longleftrightarrow>
     distinct (map mg_id (messages t)) \<and> distinct (map message_key (messages t)) \<and>
     list_all (\<lambda>m. mg_conversation_id m \<in> set (map cv_id (conversations t))) (messages t)"
  "table_ok (omni_database t) (table_of MessageAttachment_model) \<longleftrightarrow>
     list_all (\<lambda>a. fits32 (ma_size_bytes a)) (msg_attachments t) \<and> distinct (map ma_id (msg_attachments t)) \<and>
     list_all (\<lambda>a. ma_message_id a \<in> set (map mg_id (messages t))) (msg_attachments t)"
  "table_ok (omni_database t) (table_of ConversationAssignment_model) \<longleftrightarrow>
     distinct (map as_id (assignments t)) \<and>
     list_all (\<lambda>a. as_conversation_id a \<in> set (map cv_id (conversations t))) (assignments t)"
  unfolding ChannelConnection_model_def ChannelIdentity_model_def Conversation_model_def Message_model_def
    MessageAttachment_model_def ConversationAssignment_model_def
  by (simp_all add: table_simps omni_keys omni_refs del: list_all_iff set_map)
    (auto simp: list_all_iff omni_rows split: option.split)

lemma omni_unused_ok:
  "table_ok (omni_database t) (table_of Presence_model)" "table_ok (omni_database t) (table_of Template_model)"
  "table_ok (omni_database t) (table_of CommissionRule_model)" "table_ok (omni_database t) (table_of CommissionAttribution_model)"
  by (rule empty_tables_ok; simp add: table_of_def Presence_model_def Template_model_def CommissionRule_model_def
      CommissionAttribution_model_def)+

lemma omni_indexes_ok:
  "list_all (index_ok (omni_database t)) (sch_indexes omni_metadata @ [ix_messages_fulltext]) \<longleftrightarrow> distinct (dedup_keys (messages t))"
proof -
  have some: "filter ix_unique (sch_indexes omni_metadata @ [ix_messages_fulltext]) =
     [btree ''uq_message_client_dedup'' ''messages'' [index_key.Plain ''org_id'', index_key.Plain ''conversation_id'', index_key.Plain ''client_dedup_key''] True (Some ''client_dedup_key IS NOT NULL'')]"
    by code_simp
  have "list_all (index_ok (omni_database t)) (sch_indexes omni_metadata @ [ix_messages_fulltext]) =
      list_all (index_ok (omni_database t)) (filter ix_unique (sch_indexes omni_metadata @ [ix_messages_fulltext]))"
    by (auto simp: list_all_iff index_ok_def)
  then show ?thesis unfolding some by (simp add: index_ok_def dedup_unique)
qed

lemma omni_satisfies:
  "satisfies (omni_metadata\<lparr>sch_indexes := sch_indexes omni_metadata @ [ix_messages_fulltext]\<rparr>) (omni_database t) \<longleftrightarrow>
     omni_check t = None"
proof -
  have tables: "sch_tables omni_metadata = map table_of [ChannelConnection_model, ChannelIdentity_model, Conversation_model,
      Message_model, MessageAttachment_model, ConversationAssignment_model, Presence_model, Template_model,
      CommissionRule_model, CommissionAttribution_model]"
    by (simp add: omni_metadata_def metadata_def)
  have sel: "sch_tables (s\<lparr>sch_indexes := x\<rparr>) = sch_tables s" "sch_indexes (s\<lparr>sch_indexes := x\<rparr>) = x" for s :: schema and x
    by simp_all
  have "satisfies (omni_metadata\<lparr>sch_indexes := sch_indexes omni_metadata @ [ix_messages_fulltext]\<rparr>) (omni_database t) \<longleftrightarrow>
      list_all (table_ok (omni_database t)) (sch_tables omni_metadata) \<and> distinct (dedup_keys (messages t))"
    by (simp only: satisfies_def sel omni_indexes_ok)
  then show ?thesis
    unfolding tables by (simp only: list.map list.pred_inject omni_tables_ok omni_unused_ok) (auto simp: omni_check_def omni_unique_def omni_references_def)
qed

section \<open>The rows of invoicing\<close>

definition invoice_row :: "invoice \<Rightarrow> row" where
  "invoice_row iv = row_of [(''id'', text_c (iv_id iv)), (''org_id'', text_c (iv_org_id iv)),
     (''invoice_number'', text_c (iv_number iv)), (''status'', text_c (invoice_status_value (iv_status iv))),
     (''customer_email'', text_c (iv_customer_email iv)), (''customer_name'', text_c (iv_customer_name iv)),
     (''customer_company'', map_option Text_cell (iv_customer_company iv)), (''invoice_date'', int_c (iv_invoice_date iv)),
     (''due_date'', map_option Int_cell (iv_due_date iv)), (''payment_terms'', map_option Text_cell (iv_payment_terms iv)),
     (''subtotal_cents'', int_c (iv_subtotal iv)), (''tax_cents'', int_c (iv_tax iv)),
     (''discount_cents'', int_c (iv_discount iv)), (''total_cents'', int_c (iv_total iv)),
     (''amount_paid_cents'', int_c (iv_paid iv)), (''payment_status'', text_c (payment_status_value (iv_payment_status iv))),
     (''currency_code'', text_c (iv_currency iv)), (''notes'', map_option Text_cell (iv_notes iv)),
     (''pdf_s3_key'', map_option Text_cell (iv_pdf_s3_key iv)), (''is_deleted'', Some (Bool_cell (iv_is_deleted iv))),
     (''created_by'', text_c (iv_created_by iv)), (''created_at'', int_c (iv_created_at iv)),
     (''updated_at'', int_c (iv_updated_at iv))]"

definition line_item_row :: "line_item \<Rightarrow> row" where
  "line_item_row li = row_of [(''id'', text_c (li_id li)), (''org_id'', text_c (li_org_id li)),
     (''invoice_id'', text_c (li_invoice_id li)), (''description'', text_c (li_description li)),
     (''quantity'', Some (Rat_cell (li_quantity li))), (''unit_price_cents'', int_c (li_unit_price li)),
     (''amount_cents'', int_c (li_amount li)), (''created_at'', int_c (li_created_at li))]"

definition payment_row :: "payment \<Rightarrow> row" where
  "payment_row p = row_of [(''id'', text_c (py_id p)), (''org_id'', text_c (py_org_id p)),
     (''invoice_id'', text_c (py_invoice_id p)), (''amount_cents'', int_c (py_amount p)),
     (''payment_date'', int_c (py_payment_date p)), (''payment_method'', text_c (py_method p)),
     (''reference'', map_option Text_cell (py_reference p)), (''notes'', map_option Text_cell (py_notes p)),
     (''idempotency_key'', map_option Text_cell (py_idempotency_key p)), (''recorded_by'', text_c (py_recorded_by p)),
     (''recorded_at'', int_c (py_recorded_at p))]"

definition inv_database :: "inv_tables \<Rightarrow> database" where
  "inv_database t = (\<lambda>n. case map_of
     [(''invoices'', map invoice_row (invoices t)), (''invoice_line_items'', map line_item_row (line_items t)),
      (''invoice_payments'', map payment_row (payments t))] n of None \<Rightarrow> [] | Some rows \<Rightarrow> rows)"

lemma inv_database_simps [simp]:
  "inv_database t ''invoices'' = map invoice_row (invoices t)"
  "inv_database t ''invoice_line_items'' = map line_item_row (line_items t)"
  "inv_database t ''invoice_payments'' = map payment_row (payments t)"
  by (simp_all add: inv_database_def)

lemmas inv_rows = invoice_row_def line_item_row_def payment_row_def row_of_def

lemma inv_keys:
  "unique_on [''id''] (map invoice_row is) \<longleftrightarrow> distinct (map iv_id is)"
  "unique_on [''id''] (map line_item_row ls) \<longleftrightarrow> distinct (map li_id ls)"
  "unique_on [''id''] (map payment_row ps) \<longleftrightarrow> distinct (map py_id ps)"
  "unique_on [''org_id'', ''invoice_number''] (map invoice_row is) \<longleftrightarrow> distinct (map (\<lambda>iv. (iv_org_id iv, iv_number iv)) is)"
  by (rule unique_total [OF _ key_injs(1)] unique_total [OF _ key_injs(2)]; simp add: inv_rows)+

lemma idempotency_unique:
  "unique_on [''org_id'', ''idempotency_key''] (map payment_row ps) \<longleftrightarrow> distinct (idempotency_keys ps)"
proof -
  have "unique_on [''org_id'', ''idempotency_key''] (map payment_row ps) \<longleftrightarrow>
      distinct (concat (map (\<lambda>p. case map_option (Pair (py_org_id p)) (py_idempotency_key p) of None \<Rightarrow> [] | Some k \<Rightarrow> [k]) ps))"
    by (rule unique_partial [OF _ key_injs(2)]) (simp add: inv_rows split: option.split)
  moreover have "map (\<lambda>p. case map_option (Pair (py_org_id p)) (py_idempotency_key p) of None \<Rightarrow> [] | Some k \<Rightarrow> [k]) ps =
      map (\<lambda>p. case py_idempotency_key p of None \<Rightarrow> [] | Some k \<Rightarrow> [(py_org_id p, k)]) ps"
    by (auto split: option.split)
  ultimately show ?thesis by (simp only: idempotency_keys_def)
qed

lemma inv_refs:
  "refers (map line_item_row ls) ''invoice_id'' (map invoice_row is) ''id'' \<longleftrightarrow> li_invoice_id ` set ls \<subseteq> iv_id ` set is"
  "refers (map payment_row ps) ''invoice_id'' (map invoice_row is) ''id'' \<longleftrightarrow> py_invoice_id ` set ps \<subseteq> iv_id ` set is"
  by (auto simp: refers_def list_all_iff list_ex_iff inv_rows) (metis image_eqI imageE subsetD)+

lemma optional_cells:
  "(case x of None \<Rightarrow> sc_nullable (column n TEXT True d)
    | Some v \<Rightarrow> (fits_type (sc_type (column n TEXT True d)) \<circ> Text_cell) v) = True"
  "(case y of None \<Rightarrow> sc_nullable (column n DATE True d)
    | Some v \<Rightarrow> (fits_type (sc_type (column n DATE True d)) \<circ> Int_cell) v) = True"
  by (cases x; simp) (cases y; simp)

lemma fits_eta:
  "list_all invoice_fits xs = list_all (\<lambda>iv. fits64 (iv_subtotal iv) \<and> fits64 (iv_tax iv) \<and> fits64 (iv_discount iv) \<and>
     fits64 (iv_total iv) \<and> fits64 (iv_paid iv)) xs"
  "list_all item_fits ys = list_all (\<lambda>it. \<bar>li_quantity it\<bar> < 10 ^ 9 \<and> fits64 (li_unit_price it) \<and> fits64 (li_amount it)) ys"
  by (simp_all add: list_all_iff invoice_fits_def item_fits_def)

lemma inv_tables_ok:
  "table_ok (inv_database t) (table_of Invoice_model) \<longleftrightarrow>
     list_all invoice_fits (invoices t) \<and> distinct (map iv_id (invoices t)) \<and>
     distinct (map (\<lambda>iv. (iv_org_id iv, iv_number iv)) (invoices t))"
  "table_ok (inv_database t) (table_of InvoiceLineItem_model) \<longleftrightarrow>
     list_all item_fits (line_items t) \<and> distinct (map li_id (line_items t)) \<and>
     li_invoice_id ` set (line_items t) \<subseteq> iv_id ` set (invoices t)"
  "table_ok (inv_database t) (table_of InvoicePayment_model) \<longleftrightarrow>
     list_all (\<lambda>p. fits64 (py_amount p)) (payments t) \<and> distinct (map py_id (payments t)) \<and>
     py_invoice_id ` set (payments t) \<subseteq> iv_id ` set (invoices t)"
  unfolding Invoice_model_def InvoiceLineItem_model_def InvoicePayment_model_def
  by (simp_all add: table_simps inv_keys inv_refs list.pred_map comp_def [of _ invoice_row] comp_def [of _ line_item_row] comp_def [of _ payment_row]
      inv_rows fits_eta optional_cells
      del: list_all_iff set_map)

lemma inv_indexes_ok:
  "list_all (index_ok (inv_database t)) (sch_indexes inv_metadata) \<longleftrightarrow> distinct (idempotency_keys (payments t))"
proof -
  have some: "filter ix_unique (sch_indexes inv_metadata) =
     [btree ''uq_payments_org_idempotency_key'' ''invoice_payments'' [index_key.Plain ''org_id'', index_key.Plain ''idempotency_key''] True (Some ''idempotency_key IS NOT NULL'')]"
    by code_simp
  have "list_all (index_ok (inv_database t)) (sch_indexes inv_metadata) =
      list_all (index_ok (inv_database t)) (filter ix_unique (sch_indexes inv_metadata))"
    by (auto simp: list_all_iff index_ok_def)
  then show ?thesis unfolding some by (simp add: index_ok_def idempotency_unique)
qed

lemma inv_satisfies:
  "satisfies inv_metadata (inv_database t) \<longleftrightarrow> inv_check t = None \<and>
     li_invoice_id ` set (line_items t) \<subseteq> iv_id ` set (invoices t) \<and> py_invoice_id ` set (payments t) \<subseteq> iv_id ` set (invoices t)"
proof -
  have tables: "sch_tables inv_metadata = map table_of [Invoice_model, InvoiceLineItem_model, InvoicePayment_model]"
    by (simp add: inv_metadata_def metadata_def)
  show ?thesis
    unfolding satisfies_def inv_indexes_ok tables
    by (simp only: list.map list.pred_inject inv_tables_ok) (auto simp: inv_check_def)
qed

section \<open>The stores under the migrated schemas\<close>

definition migrated :: "revision list \<Rightarrow> database \<Rightarrow> bool" where
  "migrated rs D = (case upgrade_to (length rs) rs of None \<Rightarrow> False | Some s \<Rightarrow> satisfies s D)"

lemma omni_migrated: "migrated omni_revisions (omni_database t) \<longleftrightarrow> omni_check t = None"
proof -
  have "length omni_revisions = 4" by (simp add: omni_revisions_def)
  moreover obtain s where "upgrade_to 4 omni_revisions = Some s" and "same_schema s (omni_metadata\<lparr>sch_indexes := sch_indexes omni_metadata @ [ix_messages_fulltext]\<rparr>)"
    using omni_migrations_build by (auto split: option.splits)
  ultimately show ?thesis
    using same_schema_satisfies [of s _ "omni_database t"] omni_satisfies [of t] by (simp add: migrated_def)
qed

lemma inv_migrated:
  "migrated inv_revisions (inv_database t) \<longleftrightarrow> inv_check t = None \<and>
     li_invoice_id ` set (line_items t) \<subseteq> iv_id ` set (invoices t) \<and> py_invoice_id ` set (payments t) \<subseteq> iv_id ` set (invoices t)"
proof -
  have "length inv_revisions = 1" by (simp add: inv_revisions_def)
  moreover obtain s where "upgrade_to 1 inv_revisions = Some s" and "same_schema s (inv_metadata)"
    using inv_migrations_build by (auto split: option.splits)
  ultimately show ?thesis
    using same_schema_satisfies [of s _ "inv_database t"] inv_satisfies [of t] by (simp add: migrated_def)
qed

text \<open>
  C34: one truth about constraints.  The check that decides in the model whether the
  omni-channel tables can be flushed is exactly what the migrated schema demands, column by
  column: types, nullability, primary keys, unique constraints, the partial unique index and
  every reference; so is that of invoicing, with its references.  And on the running
  platform, whatever happens and fails, both databases satisfy their migrated schemas.
\<close>

theorem stores_satisfy_schemas:
  "(migrated omni_revisions (omni_database t) \<longleftrightarrow> omni_check t = None) \<and>
   (migrated inv_revisions (inv_database u) \<longleftrightarrow> inv_check u = None \<and>
     li_invoice_id ` set (line_items u) \<subseteq> iv_id ` set (invoices u) \<and> py_invoice_id ` set (payments u) \<subseteq> iv_id ` set (invoices u)) \<and>
   (platform_ok L w \<longrightarrow> (let w' = platform_run E L S pdf evs w in
      migrated omni_revisions (omni_database (om_db w')) \<and> migrated inv_revisions (inv_database (inv_db w'))))"
proof -
  have "platform_ok L (platform_run E L S pdf evs w)" if "platform_ok L w"
    using that unfolding platform_run_def by (induction evs arbitrary: w) (simp_all add: happen_ok)
  then show ?thesis
    by (auto simp: omni_migrated inv_migrated Let_def platform_ok_def good_def books_ok_def)
qed

theorem stores_satisfy_schemas_witness:
  "migrated omni_revisions (omni_database (om_db (platform_run sample_env (sample_libs 0) default_settings sample_pdf
     [Worker True] (sample_app sample_omni_tables))))"
  using stores_satisfy_schemas [of sample_omni_tables "inv_db (sample_app sample_omni_tables)" "sample_libs 0" "sample_app sample_omni_tables"
      sample_env default_settings sample_pdf "[Worker True]"] sample_app_ok [of 0] by (simp add: Let_def)

end
