(* ===== verification/Spec2Isabelle.thy ===== *)
theory Spec2Isabelle
  imports A2Z_Errors A2Z_Cache A2Z_InvoiceService A2Z_SesNotifications A2Z_Stream A2Z_ClaimRace A2Z_InvoiceRace A2Z_Migrations A2Z_Requests A2Z_InvoicePdf A2Z_CheckDocs A2Z_SchemaRows
begin

text \<open>
  A verification library for the A2Z platform (\<open>app/\<close>): a FastAPI server with a Core of
  shared modules (\<open>app/core\<close>), two services on it, invoicing and an omni-channel inbox
  (\<open>app/services\<close>), their HTTP routes (\<open>app/routers\<close>) and a queue worker in the same
  process.

  \<^bold>\<open>How the code is translated.\<close>  Every coroutine is an action of type \<open>('w, 'a) op\<close>
  (\<open>A2Z_Prelude\<close>): a function from the world to a result, an exception (\<open>Inl\<close>) or a value
  (\<open>Inr\<close>), and the next world; \<open>bindE\<close>, \<open>thenE\<close>, \<open>catchE\<close>, \<open>mapE\<close> and \<open>forE\<close> are sequencing,
  \<open>try\<close> and loops.  The world is a record that the theories extend, one field per store of
  the program: the DynamoDB tables, the S3 objects, the event bus, the queues, the secrets,
  the caches and deques of the process, and for each Postgres schema the committed tables
  and the working copy of a session.  Every exception class is a constructor of \<open>exn\<close>.
  JSON is a datatype, Python's integers are \<open>int\<close>, amounts are cents, times are integers
  or rationals.

  \<^bold>\<open>What is a parameter.\<close>  The record \<open>env\<close> (\<open>A2Z_Clients\<close>) holds what is outside of the
  process: clocks, random identifiers, HMAC, base64, MIME, the providers' HTTP answers, and
  for every call to AWS, Postgres or SQS whether it is refused or its answer is lost.  Each
  such call consumes a tick, and the theorems hold for every \<open>env\<close>, whatever fails at
  whatever point, unless a hypothesis says otherwise.  The record \<open>libs\<close> (\<open>A2Z_Auth\<close>) holds JWT, JWKS, X.509 and RSA; the PDF
  renderer is an argument.  Operations run one after another, each from beginning to end,
  except where the code depends on what other tasks do while it waits: in the stream, and for
  replies, claims and payments, which are also modelled as tasks cut at their awaits.

  \<^bold>\<open>Core\<close>, with the files of \<open>app/core\<close>:
  \<^item> \<open>A2Z_Errors\<close>: the three exception hierarchies and \<open>core_error_handler\<close> of \<open>main.py\<close>.
  \<^item> \<open>A2Z_Tables\<close>, \<open>A2Z_Clients\<close>: keyed tables as a locale with interpretations, \<open>run_aws\<close>.
  \<^item> \<open>A2Z_Cache\<close>: \<open>TTLCache\<close>.
  \<^item> \<open>A2Z_RateLimit\<close>: the sliding window, which refines counting over the history.
  \<^item> \<open>A2Z_Realtime\<close>: the broker with bounded queues.
  \<^item> \<open>A2Z_Audit\<close>, \<open>A2Z_Events\<close>, \<open>A2Z_Settings\<close>: the audit log, the event bus, settings and
    the invoice counter.
  \<^item> \<open>A2Z_Membership\<close>: the single-table design, which refines a map from users and
    organisations to roles; \<open>A2Z_Access\<close>: the locale of access gates with both services'
    interpretations.
  \<^item> \<open>A2Z_Storage\<close>, \<open>A2Z_Secrets\<close>, \<open>A2Z_Email\<close>: files, credentials and SES.
  \<^item> \<open>A2Z_Auth\<close>: \<open>config.py\<close>, \<open>auth.py\<close> and \<open>dependencies.py\<close>;
    \<open>A2Z_SesNotifications\<close>: \<open>routers/ses_notifications.py\<close>.

  \<^bold>\<open>Invoicing\<close>, \<open>app/services/invoicing\<close>: \<open>A2Z_Postgres\<close> is a SQLAlchemy session, with the
  locale \<open>session\<close>; \<open>A2Z_InvoiceRules\<close> holds models, schemas, state machine and mail
  templates; \<open>A2Z_Invoicing\<close> the service.  \<open>A2Z_InvoiceSteps\<close> is the transition system of the
  committed tables, \<open>A2Z_InvoiceRuns\<close> shows that each handler commits one of its steps or
  nothing, and \<open>A2Z_InvoiceService\<close> states what holds of all runs.

  \<^bold>\<open>Omni-channel\<close>, \<open>app/services/omnichannel\<close>: \<open>A2Z_OmniModels\<close> (\<open>models.py\<close>, \<open>access.py\<close>),
  \<open>A2Z_Channels\<close> (\<open>adapters/\<close>), \<open>A2Z_Queues\<close>, \<open>A2Z_Routing\<close>, \<open>A2Z_Worker\<close>, \<open>A2Z_Replies\<close>
  (\<open>handlers.py\<close>), \<open>A2Z_Webhooks\<close> (\<open>connections.py\<close>, \<open>webhooks.py\<close>) and \<open>A2Z_Inbox\<close> follow the
  files.  \<open>A2Z_OmniRules\<close>, \<open>A2Z_OmniRuns\<close> and \<open>A2Z_OmniService\<close> do for it what the three
  theories above do for invoicing; \<open>A2Z_OmniDelivery\<close> and \<open>A2Z_WebhookRuns\<close> state what single
  operations promise; \<open>A2Z_Keyset\<close> is the locale of keyset pagination, interpreted in
  \<open>A2Z_InboxPages\<close> on the listings of the inbox.  \<open>A2Z_Stream\<close> is \<open>stream.py\<close>.

  \<^bold>\<open>The server\<close>: \<open>A2Z_Schemas\<close> and \<open>A2Z_Routes\<close> are the response models and every route of
  \<open>app/routers\<close> with its dependencies, sessions and error handling.  \<open>A2Z_PlatformFrames\<close> and
  \<open>A2Z_Platform\<close> compose the parts: requests, notifications and worker rounds in any order
  keep one invariant of all stores.  \<open>A2Z_ApiAccess\<close> shows that nobody without a token and a
  role changes anything.

  \<^bold>\<open>Concurrency\<close>: \<open>A2Z_Tasks\<close> has coroutines as trees of steps, all their interleavings, a
  proof that every task ends, and a locale of rely-guarantee rules.  \<open>A2Z_ReplyRace\<close>
  interprets it on racing replies, whose second look-up of the deduplication key only
  concurrency reaches; \<open>A2Z_InvoiceRace\<close> on payments and voids, which take no lock: it shows
  what they keep, and two schedules that lose a payment and undo a void.  \<open>A2Z_ClaimRace\<close> does the
  same for claims and reassignments: two claims that both succeed, and a reassignment after which
  the history and the conversation disagree.  A task that nothing interrupts is proved to be the
  handler of the sequential model.

  \<^bold>\<open>Schemas\<close>: \<open>A2Z_Ddl\<close>, \<open>A2Z_OmniMigrations\<close> and \<open>A2Z_Migrations\<close> hold both services' Alembic
  chains as changes of a schema and their declarative models as the schema they declare;
  \<open>A2Z_SchemaRows\<close> shows that the constraints checked at a flush are those of the migrated
  schema, and that the platform keeps them.

  \<^bold>\<open>Operations\<close>: \<open>A2Z_Provision\<close> is the creation of AWS resources (\<open>aws_resources.py\<close>, both, and
  \<open>scripts/create_local_resources.py\<close>), \<open>A2Z_Marshal\<close> the conversion of items (\<open>core/_ddb.py\<close>),
  \<open>A2Z_Backfill\<close> the data migration of \<open>infra/migrations\<close>, \<open>A2Z_Logging\<close> the log lines and metrics
  (\<open>core/logging.py\<close>, \<open>omnichannel/metrics.py\<close>), \<open>A2Z_Requests\<close> the request-id middleware and the
  lifespan (\<open>main.py\<close>), \<open>A2Z_InvoicePdf\<close> the contents of an invoice PDF (\<open>invoicing/pdf.py\<close>), and
  \<open>A2Z_CheckDocs\<close> the documentation check (\<open>scripts/check_docs.py\<close>): its scanners find the links
  of every well-formed document, and it passes exactly when all of them resolve and all documents are indexed.

  \<^bold>\<open>Fuel.\<close>  The worker's loop is \<open>run_rounds\<close>, over a list of rounds: it runs for ever in the
  program and properties hold after any number.  The generator of \<open>stream.py\<close> is asked for at
  most \<open>n\<close> frames; \<open>stream_terminates\<close> bounds the frames of a stream by its lifetime, so a
  larger \<open>n\<close> changes nothing.  The backfill reads at most \<open>fuel\<close> pages of a scan; as a page
  evaluates at least one item, more than the number of items is enough (\<open>backfill_resumes\<close>).
  Every other loop is structural.

  \<^bold>\<open>Not modelled.\<close>  \<open>routers/landing.py\<close> is one page of HTML; \<open>db.py\<close> and \<open>env.py\<close> open
  connections; the factories of \<open>core/clients.py\<close> configure boto3.  Log calls of the handlers are
  left out as they return nothing.
  The tables presence, templates and commissions occur in the schemas only, as no code uses
  them yet.
\<close>

end
